(* ===== verification/Prelude.thy ===== *)
theory Prelude
  imports Main "HOL-Library.Monad_Syntax"
begin

text \<open>
  Shared vocabulary of the development: the collections the component theories fill, the
  fold of a partial step over a list (a C loop whose body may fail), the C character
  classes on \<open>char\<close>, and small list facts.

  Partiality. A definition of result type \<open>'a option\<close> models a C function whose call may
  not come back with a value: \<open>None\<close> is a null dereference, an \<open>assert\<close>/\<open>exit\<close>, or a
  recursion that outruns its fuel. \<open>Some\<close> is a normal return.
\<close>

named_theorems expr_simps \<open>equations of the expression rewriting functions\<close>
named_theorems size_bounds \<open>bounds on the size of rewritten expressions\<close>
named_theorems val_simps \<open>value preservation of the expression rewriting functions\<close>
named_theorems frame_simps \<open>what the state operations leave unchanged\<close>
named_theorems calc_pres \<open>preservation of state relations by the value computation\<close>

subsection \<open>Loops whose body may fail\<close>

fun ofold :: "('a \<Rightarrow> 's \<Rightarrow> 's option) \<Rightarrow> 'a list \<Rightarrow> 's \<Rightarrow> 's option" where
  "ofold f [] s = Some s"
| "ofold f (x # xs) s = Option.bind (f x s) (ofold f xs)"

lemma ofold_append: "ofold f (xs @ ys) s = Option.bind (ofold f xs s) (ofold f ys)"
proof (induction xs arbitrary: s)
  case (Cons x xs)
  then show ?case by (cases "f x s") simp_all
qed simp

lemma ofold_invariant:
  assumes "\<And>x s s'. x \<in> set xs \<Longrightarrow> P s \<Longrightarrow> f x s = Some s' \<Longrightarrow> P s'"
    and "P s" and "ofold f xs s = Some s'"
  shows "P s'"
  using assms
proof (induction xs arbitrary: s)
  case (Cons x xs)
  from Cons.prems(3) obtain u where u: "f x s = Some u" "ofold f xs u = Some s'"
    by (auto simp: bind_eq_Some_conv)
  from Cons.prems(1)[OF _ Cons.prems(2) u(1)] have "P u" by simp
  with Cons.IH[of u] Cons.prems(1) u(2) show ?case by (meson list.set_intros(2))
qed simp

lemma ofold_returns:
  assumes "\<And>x s. x \<in> set xs \<Longrightarrow> P s \<Longrightarrow> \<exists>s'. f x s = Some s' \<and> P s'" and "P s"
  shows "\<exists>s'. ofold f xs s = Some s' \<and> P s'"
  using assms
proof (induction xs arbitrary: s)
  case (Cons x xs)
  then obtain u where u: "f x s = Some u" "P u" by (meson list.set_intros(1))
  with Cons.IH[of u] Cons.prems(1) show ?case by (simp add: bind_eq_Some_conv)
qed simp

lemma ofold_related:
  assumes "\<And>x s s'. x \<in> set xs \<Longrightarrow> f x s = Some s' \<Longrightarrow> R s s'"
    and "\<And>s. R s s" and "\<And>s t u. R s t \<Longrightarrow> R t u \<Longrightarrow> R s u"
    and "ofold f xs s = Some s'"
  shows "R s s'"
  using ofold_invariant[where P = "R s" and xs = xs and f = f and s = s and s' = s'] assms
  by metis

lemma bind_SomeD: "Option.bind m f = Some y \<Longrightarrow> \<exists>x. m = Some x \<and> f x = Some y"
  by (simp add: bind_eq_Some_conv)

lemma bind_SomeE:
  assumes "Option.bind m f = Some y"
  obtains x where "m = Some x" "f x = Some y"
  using assms by (auto simp: bind_eq_Some_conv)

subsection \<open>C characters and strings\<close>

text \<open>
  A C string is a \<open>string\<close> without its terminating NUL; reading the terminator is the
  empty-list case. Character classes are those of the C locale.
\<close>

definition in_range :: "char \<Rightarrow> char \<Rightarrow> char \<Rightarrow> bool" where
  "in_range lo hi c \<longleftrightarrow> (of_char lo :: nat) \<le> of_char c \<and> (of_char c :: nat) \<le> of_char hi"

definition isdigit :: "char \<Rightarrow> bool" where
  "isdigit c \<longleftrightarrow> in_range CHR ''0'' CHR ''9'' c"

definition isupper :: "char \<Rightarrow> bool" where
  "isupper c \<longleftrightarrow> in_range CHR ''A'' CHR ''Z'' c"

definition islower :: "char \<Rightarrow> bool" where
  "islower c \<longleftrightarrow> in_range CHR ''a'' CHR ''z'' c"

definition isalnum :: "char \<Rightarrow> bool" where
  "isalnum c \<longleftrightarrow> isdigit c \<or> isupper c \<or> islower c"

definition isxdigit :: "char \<Rightarrow> bool" where
  "isxdigit c \<longleftrightarrow> isdigit c \<or> in_range CHR ''A'' CHR ''F'' c \<or> in_range CHR ''a'' CHR ''f'' c"

definition isspace :: "char \<Rightarrow> bool" where
  "isspace c \<longleftrightarrow> c = CHR '' '' \<or> in_range CHR 0x09 CHR 0x0D c"

definition toupper :: "char \<Rightarrow> char" where
  "toupper c = (if islower c then char_of ((of_char c :: nat) - 32) else c)"

definition tolower :: "char \<Rightarrow> char" where
  "tolower c = (if isupper c then char_of ((of_char c :: nat) + 32) else c)"

text \<open>
  \<open>*p\<close> for a pointer into a string, 0 at its end; \<open>p[i]\<close> for an \<open>i\<close> at most the
  string's length.
\<close>

definition char_at :: "string \<Rightarrow> nat \<Rightarrow> char" where
  "char_at str i = (if i < length str then str ! i else CHR 0x00)"

definition quoted :: "string \<Rightarrow> string" where
  "quoted x = CHR 0x27 # x @ [CHR 0x27]"

abbreviation newline :: char where "newline \<equiv> CHR 0x0A"

abbreviation dquote :: char where "dquote \<equiv> CHR 0x22"

abbreviation backslash :: char where "backslash \<equiv> CHR 0x5C"

text \<open>\<open>memcmp(pre, str, strlen(pre)) == 0\<close> for a string of at least that length or with its NUL.\<close>

definition starts_with :: "string \<Rightarrow> string \<Rightarrow> bool" where
  "starts_with pre str \<longleftrightarrow> take (length pre) str = pre"

lemma starts_with_append [simp]: "starts_with pre (pre @ str)"
  by (simp add: starts_with_def)

definition digit_val :: "char \<Rightarrow> nat" where
  "digit_val c = (if isdigit c then of_char c - 48
     else if in_range CHR ''A'' CHR ''F'' c then of_char c - 55
     else if in_range CHR ''a'' CHR ''f'' c then of_char c - 87 else 99)"

subsection \<open>Numbers as text\<close>

definition digit_char :: "nat \<Rightarrow> char" where
  "digit_char d = (if d < 10 then char_of (48 + d) else char_of (87 + d))"

function show_nat :: "nat \<Rightarrow> nat \<Rightarrow> string" where
  "show_nat base n =
     (if base < 2 \<or> n < base then [digit_char n]
      else show_nat base (n div base) @ [digit_char (n mod base)])"
  by pat_completeness auto

termination by (relation "measure snd") auto

declare show_nat.simps [simp del]

text \<open>The format \<open>%d\<close> or \<open>%lld\<close>.\<close>

definition show_lld :: "int \<Rightarrow> string" where
  "show_lld v = (if v < 0 then CHR ''-'' # show_nat 10 (nat (- v)) else show_nat 10 (nat v))"

text \<open>The format \<open>%s\<close> with a null pointer.\<close>

definition or_null :: "string option \<Rightarrow> string" where
  "or_null x = (case x of None \<Rightarrow> ''(null)'' | Some str \<Rightarrow> str)"

end
