(* ===== verification/Kconfig_Types.thy ===== *)
theory Kconfig_Types
  imports Prelude
begin

text \<open>
  The data of the configuration engine (\<open>adk/config/expr.h\<close>, \<open>adk/config/lkc.h\<close>): tristate
  values, dependency expressions, symbols, properties, menus, and the program state that holds
  them. Pointers to symbols, properties and menus are references into the stores of the state;
  a null pointer is \<open>None\<close>. Expression nodes are not shared by the program (it copies with
  \<open>expr_copy\<close> wherever it would), so an expression is a value and an in-place rewrite
  returns the new tree. Bit masks of flags are sets of the named bits.
\<close>

subsection \<open>Tristate values\<close>

datatype tristate = tno | tmod | tyes

primrec tri_int :: "tristate \<Rightarrow> int" where
  "tri_int tno = 0"
| "tri_int tmod = 1"
| "tri_int tyes = 2"

instantiation tristate :: linorder
begin

definition less_eq_tristate :: "tristate \<Rightarrow> tristate \<Rightarrow> bool" where
  "less_eq_tristate a b \<longleftrightarrow> tri_int a \<le> tri_int b"

definition less_tristate :: "tristate \<Rightarrow> tristate \<Rightarrow> bool" where
  "less_tristate a b \<longleftrightarrow> tri_int a < tri_int b"

instance
proof
  fix x y :: tristate
  show "x \<le> y \<Longrightarrow> y \<le> x \<Longrightarrow> x = y"
    by (cases x; cases y) (simp_all add: less_eq_tristate_def)
qed (auto simp: less_eq_tristate_def less_tristate_def)

end

lemma tri_order [simp]:
  "tno \<le> a" "a \<le> tyes" "(a \<le> tno) = (a = tno)" "(tyes \<le> a) = (a = tyes)"
  "\<not> a < tno" "\<not> tyes < a" "(tno < a) = (a \<noteq> tno)" "(a < tyes) = (a \<noteq> tyes)"
  "(tmod \<le> a) = (a \<noteq> tno)" "(a \<le> tmod) = (a \<noteq> tyes)"
  "(tmod < a) = (a = tyes)" "(a < tmod) = (a = tno)"
  by (cases a; simp add: less_eq_tristate_def less_tristate_def)+

definition EXPR_OR :: "tristate \<Rightarrow> tristate \<Rightarrow> tristate" where
  "EXPR_OR dep1 dep2 = (if dep1 > dep2 then dep1 else dep2)"

definition EXPR_AND :: "tristate \<Rightarrow> tristate \<Rightarrow> tristate" where
  "EXPR_AND dep1 dep2 = (if dep1 < dep2 then dep1 else dep2)"

text \<open>\<open>2 - dep\<close> on the enumeration.\<close>

primrec EXPR_NOT :: "tristate \<Rightarrow> tristate" where
  "EXPR_NOT tno = tyes"
| "EXPR_NOT tmod = tmod"
| "EXPR_NOT tyes = tno"

lemma EXPR_NOT_minus: "tri_int (EXPR_NOT a) = 2 - tri_int a"
  by (cases a) simp_all

lemma EXPR_OR_max: "EXPR_OR a b = max a b"
  by (auto simp: EXPR_OR_def max_def)

lemma EXPR_AND_min: "EXPR_AND a b = min a b"
  by (auto simp: EXPR_AND_def min_def)

lemma EXPR_units [simp]:
  "EXPR_OR tno a = a" "EXPR_OR a tno = a" "EXPR_OR tyes a = tyes" "EXPR_OR a tyes = tyes"
  "EXPR_AND tyes a = a" "EXPR_AND a tyes = a" "EXPR_AND tno a = tno" "EXPR_AND a tno = tno"
  "EXPR_AND a a = a" "EXPR_OR a a = a"
  by (cases a; simp add: EXPR_OR_def EXPR_AND_def)+

lemma EXPR_NOT_laws [simp]:
  "EXPR_NOT (EXPR_NOT a) = a"
  "EXPR_NOT (EXPR_OR a b) = EXPR_AND (EXPR_NOT a) (EXPR_NOT b)"
  "EXPR_NOT (EXPR_AND a b) = EXPR_OR (EXPR_NOT a) (EXPR_NOT b)"
  by (cases a; cases b; simp add: EXPR_OR_def EXPR_AND_def less_tristate_def)+

lemma EXPR_comm: "EXPR_OR a b = EXPR_OR b a" "EXPR_AND a b = EXPR_AND b a"
  by (simp_all add: EXPR_OR_max EXPR_AND_min max.commute min.commute)

lemma EXPR_assoc:
  "EXPR_OR (EXPR_OR a b) c = EXPR_OR a (EXPR_OR b c)"
  "EXPR_AND (EXPR_AND a b) c = EXPR_AND a (EXPR_AND b c)"
  by (simp_all add: EXPR_OR_max EXPR_AND_min max.assoc min.assoc)

lemma EXPR_OR_no [simp]: "EXPR_OR a b = tno \<longleftrightarrow> a = tno \<and> b = tno"
  by (cases a; cases b) (simp_all add: EXPR_OR_def less_tristate_def)

lemma EXPR_AND_no [simp]: "EXPR_AND a b = tno \<longleftrightarrow> a = tno \<or> b = tno"
  by (cases a; cases b) (simp_all add: EXPR_AND_def less_tristate_def)

subsection \<open>Expressions\<close>

text \<open>
  A symbol pointer: one of the four static constants of \<open>symbol.c\<close>, or a symbol allocated by
  \<open>sym_lookup\<close>.
\<close>

datatype symref = symbol_yes | symbol_mod | symbol_no | symbol_empty | heap_sym nat

datatype expr_type =
  E_NONE | E_OR | E_AND | E_NOT | E_EQUAL | E_UNEQUAL | E_LIST | E_SYMBOL | E_RANGE

text \<open>
  \<open>struct expr\<close> with its union resolved by the type tag. \<open>EList l s\<close> has \<open>left.expr = l\<close>
  (the rest of a choice's value list) and \<open>right.sym = s\<close>.
\<close>

datatype expr =
  ENone
| EOr expr expr
| EAnd expr expr
| ENot expr
| EEqual symref symref
| EUnequal symref symref
| EList "expr option" symref
| ESymbol symref
| ERange symref symref

primrec etype :: "expr \<Rightarrow> expr_type" where
  "etype ENone = E_NONE"
| "etype (EOr l r) = E_OR"
| "etype (EAnd l r) = E_AND"
| "etype (ENot l) = E_NOT"
| "etype (EEqual a b) = E_EQUAL"
| "etype (EUnequal a b) = E_UNEQUAL"
| "etype (EList l s) = E_LIST"
| "etype (ESymbol s) = E_SYMBOL"
| "etype (ERange a b) = E_RANGE"

text \<open>\<open>expr_list_for_each_sym\<close>: the symbols of a choice's list, first one first.\<close>

fun expr_list_syms :: "expr option \<Rightarrow> symref list" where
  "expr_list_syms (Some (EList l s)) = s # expr_list_syms l"
| "expr_list_syms _ = []"

definition expr_is_yes :: "expr option \<Rightarrow> bool" where
  "expr_is_yes e \<longleftrightarrow> e = None \<or> e = Some (ESymbol symbol_yes)"

definition expr_is_no :: "expr option \<Rightarrow> bool" where
  "expr_is_no e \<longleftrightarrow> e = Some (ESymbol symbol_no)"

record expr_value =
  ev_expr :: "expr option"
  ev_tri :: tristate

record expr_select_value =
  esv_expr :: "expr option"
  esv_tri :: tristate
  esv_value :: "expr option"

subsection \<open>Symbols\<close>

datatype symbol_type = S_UNKNOWN | S_BOOLEAN | S_TRISTATE | S_INT | S_HEX | S_STRING | S_OTHER

datatype def_index = S_DEF_USER | S_DEF_AUTO | S_DEF_DEF3 | S_DEF_DEF4

text \<open>
  \<open>symbol_value.val\<close> is a \<open>void *\<close>: null, a string, or (for a choice) a symbol. Two strings
  with the same characters are the same value here.
\<close>

datatype symval = VNull | VStr string | VSym symref

record symbol_value =
  sv_val :: symval
  sv_tri :: tristate

datatype symflag =
  SYMBOL_CONST | SYMBOL_CHECK | SYMBOL_CHOICE | SYMBOL_CHOICEVAL | SYMBOL_VALID
| SYMBOL_OPTIONAL | SYMBOL_WRITE | SYMBOL_CHANGED | SYMBOL_AUTO | SYMBOL_CHECKED
| SYMBOL_WARNED | SYMBOL_DEF_USER | SYMBOL_DEF_AUTO | SYMBOL_DEF3 | SYMBOL_DEF4
| SYMBOL_NEED_SET_CHOICE_VALUES | SYMBOL_ALLNOCONFIG_Y

text \<open>\<open>SYMBOL_DEF << def\<close>.\<close>

primrec SYMBOL_DEF :: "def_index \<Rightarrow> symflag" where
  "SYMBOL_DEF S_DEF_USER = SYMBOL_DEF_USER"
| "SYMBOL_DEF S_DEF_AUTO = SYMBOL_DEF_AUTO"
| "SYMBOL_DEF S_DEF_DEF3 = SYMBOL_DEF3"
| "SYMBOL_DEF S_DEF_DEF4 = SYMBOL_DEF4"

record symbol =
  sym_name :: "string option"
  sym_type :: symbol_type
  sym_curr :: symbol_value
  sym_def :: "def_index \<Rightarrow> symbol_value"
  sym_visible :: tristate
  sym_flags :: "symflag set"
  sym_prop :: "nat list"
  dir_dep :: expr_value
  rev_dep :: expr_value
  val_dep :: "expr_select_value list"

definition SYMBOL_MAXLENGTH :: nat where "SYMBOL_MAXLENGTH = 256"

definition SYMBOL_HASHSIZE :: nat where "SYMBOL_HASHSIZE = 9973"

subsection \<open>Properties and menus\<close>

datatype prop_type =
  P_UNKNOWN | P_PROMPT | P_COMMENT | P_MENU | P_DEFAULT | P_CHOICE | P_SELECT | P_RANGE
| P_ENV | P_SYMBOL

type_synonym propref = nat

type_synonym menuref = nat

record property =
  prop_sym :: "symref option"
  prop_type :: prop_type
  prop_text :: "string option"
  prop_visible :: expr_value
  prop_expr :: "expr option"
  prop_menu :: "menuref option"
  prop_file :: "string option"
  prop_lineno :: nat
  prop_value :: "expr option"

datatype menuflag = MENU_CHANGED | MENU_ROOT

record menu =
  menu_next :: "menuref option"
  menu_parent :: "menuref option"
  menu_list :: "menuref option"
  menu_sym :: "symref option"
  menu_prompt :: "propref option"
  menu_visibility :: "expr option"
  menu_dep :: "expr option"
  menu_flags :: "menuflag set"
  menu_help :: "string option"
  menu_file :: "string option"
  menu_lineno :: nat

text \<open>\<open>last_entry_ptr\<close> is the address of a \<open>list\<close> or of a \<open>next\<close> field of a menu.\<close>

datatype entry_ptr = List_of menuref | Next_of menuref

subsection \<open>The program state\<close>

text \<open>
  The stores (\<open>symtab\<close>, \<open>proptab\<close>, \<open>menutab\<close>; the counters say how many entries are
  allocated) and the globals of \<open>symbol.c\<close>, \<open>menu.c\<close>, \<open>confdata.c\<close> and the parser.
  \<open>kmsgs\<close> collects the diagnostics written to standard error or output, newest first;
  \<open>kcallbacks\<close> counts the calls of \<open>conf_changed_callback\<close>.
\<close>

record kconf =
  symtab :: "symref \<Rightarrow> symbol"
  nsyms :: nat
  proptab :: "propref \<Rightarrow> property"
  nprops :: nat
  menutab :: "menuref \<Rightarrow> menu"
  nmenus :: nat
  symbol_hash :: "nat \<Rightarrow> symref list"
  modules_sym :: "symref option"
  modules_val :: tristate
  sym_defconfig_list :: "symref option"
  sym_env_list :: "expr option"
  current_entry :: menuref
  current_menu :: menuref
  last_entry_ptr :: entry_ptr
  current_file :: "string option"
  file_list :: "string list"
  zconf_lineno :: nat
  zconfnerrs :: nat
  sym_change_count :: int
  conf_filename :: "string option"
  conf_lineno :: nat
  conf_warnings :: nat
  conf_unsaved :: nat
  kmsgs :: "string list"
  kcallbacks :: nat

definition rootmenu :: menuref where "rootmenu = 0"

text \<open>\<open>for_all_symbols\<close>: the hash buckets in order, each chain front to back, without the
  symbols of type \<open>S_OTHER\<close>.\<close>

definition hash_symbols :: "kconf \<Rightarrow> symref list" where
  "hash_symbols s = concat (map (symbol_hash s) [0..<SYMBOL_HASHSIZE])"

definition all_symbols :: "kconf \<Rightarrow> symref list" where
  "all_symbols s = filter (\<lambda>y. sym_type (symtab s y) \<noteq> S_OTHER) (hash_symbols s)"

subsection \<open>Field updates and the inline accessors of lkc.h\<close>

definition upd_sym :: "symref \<Rightarrow> (symbol \<Rightarrow> symbol) \<Rightarrow> kconf \<Rightarrow> kconf" where
  "upd_sym y f s = s\<lparr>symtab := (symtab s)(y := f (symtab s y))\<rparr>"

definition upd_prop :: "propref \<Rightarrow> (property \<Rightarrow> property) \<Rightarrow> kconf \<Rightarrow> kconf" where
  "upd_prop p f s = s\<lparr>proptab := (proptab s)(p := f (proptab s p))\<rparr>"

definition upd_menu :: "menuref \<Rightarrow> (menu \<Rightarrow> menu) \<Rightarrow> kconf \<Rightarrow> kconf" where
  "upd_menu m f s = s\<lparr>menutab := (menutab s)(m := f (menutab s m))\<rparr>"

definition set_flag :: "symflag \<Rightarrow> symref \<Rightarrow> kconf \<Rightarrow> kconf" where
  "set_flag b y = upd_sym y (\<lambda>x. x\<lparr>sym_flags := insert b (sym_flags x)\<rparr>)"

definition clear_flag :: "symflag \<Rightarrow> symref \<Rightarrow> kconf \<Rightarrow> kconf" where
  "clear_flag b y = upd_sym y (\<lambda>x. x\<lparr>sym_flags := sym_flags x - {b}\<rparr>)"

definition has_flag :: "symflag \<Rightarrow> symref \<Rightarrow> kconf \<Rightarrow> bool" where
  "has_flag b y s \<longleftrightarrow> b \<in> sym_flags (symtab s y)"

definition kwarn :: "string \<Rightarrow> kconf \<Rightarrow> kconf" where
  "kwarn msg s = s\<lparr>kmsgs := msg # kmsgs s\<rparr>"

definition sym_get_tristate_value :: "kconf \<Rightarrow> symref \<Rightarrow> tristate" where
  "sym_get_tristate_value s y = sv_tri (sym_curr (symtab s y))"

definition sym_get_choice_value :: "kconf \<Rightarrow> symref \<Rightarrow> symval" where
  "sym_get_choice_value s y = sv_val (sym_curr (symtab s y))"

definition sym_is_choice :: "kconf \<Rightarrow> symref \<Rightarrow> bool" where
  "sym_is_choice s y \<longleftrightarrow> has_flag SYMBOL_CHOICE y s"

definition sym_is_choice_value :: "kconf \<Rightarrow> symref \<Rightarrow> bool" where
  "sym_is_choice_value s y \<longleftrightarrow> has_flag SYMBOL_CHOICEVAL y s"

definition sym_is_optional :: "kconf \<Rightarrow> symref \<Rightarrow> bool" where
  "sym_is_optional s y \<longleftrightarrow> has_flag SYMBOL_OPTIONAL y s"

definition sym_has_value :: "kconf \<Rightarrow> symref \<Rightarrow> bool" where
  "sym_has_value s y \<longleftrightarrow> has_flag SYMBOL_DEF_USER y s"

lemmas lkc_inline_defs =
  sym_get_tristate_value_def sym_get_choice_value_def sym_is_choice_def
  sym_is_choice_value_def sym_is_optional_def sym_has_value_def has_flag_def

lemma symtab_upd_sym [simp]:
  "symtab (upd_sym y f s) z = (if z = y then f (symtab s y) else symtab s z)"
  by (simp add: upd_sym_def)

lemma proptab_upd_prop [simp]:
  "proptab (upd_prop p f s) q = (if q = p then f (proptab s p) else proptab s q)"
  by (simp add: upd_prop_def)

lemma menutab_upd_menu [simp]:
  "menutab (upd_menu m f s) k = (if k = m then f (menutab s m) else menutab s k)"
  by (simp add: upd_menu_def)

end
