(* ===== verification/Expr.thy ===== *)
theory Expr
  imports Kconfig_Types
begin

text \<open>
  The expression operations of \<open>adk/config/expr.c\<close>, in the order of the file: construction,
  elimination of common operands (\<open>expr_eliminate_eq\<close>, \<open>expr_eq\<close>), of the constants
  (\<open>expr_eliminate_yn\<close>), of repeated operands (\<open>expr_eliminate_dups\<close>), the rewriting to
  negation normal form (\<open>expr_transform\<close>), the dependency tests, the extraction of common
  factors and the printing. An argument \<open>tab\<close> is the symbol store the code reads symbol types
  and flags from. The global \<open>trans_count\<close> is threaded as a number. The progress messages some
  functions write to standard output, and the freeing of nodes, are not modelled.
\<close>

subsection \<open>Construction\<close>

definition expr_alloc_symbol :: "symref \<Rightarrow> expr" where
  "expr_alloc_symbol y = ESymbol y"

text \<open>The one-operand nodes the program builds are negations and list cells.\<close>

definition expr_alloc_one :: "expr_type \<Rightarrow> expr \<Rightarrow> expr" where
  "expr_alloc_one ty ce = (case ty of E_NOT \<Rightarrow> ENot ce | _ \<Rightarrow> ENone)"

definition expr_alloc_two :: "expr_type \<Rightarrow> expr \<Rightarrow> expr \<Rightarrow> expr" where
  "expr_alloc_two ty e1 e2 = (case ty of E_OR \<Rightarrow> EOr e1 e2 | E_AND \<Rightarrow> EAnd e1 e2 | _ \<Rightarrow> ENone)"

definition expr_alloc_comp :: "expr_type \<Rightarrow> symref \<Rightarrow> symref \<Rightarrow> expr" where
  "expr_alloc_comp ty s1 s2 = (case ty of E_EQUAL \<Rightarrow> EEqual s1 s2 | E_UNEQUAL \<Rightarrow> EUnequal s1 s2
     | E_RANGE \<Rightarrow> ERange s1 s2 | _ \<Rightarrow> ENone)"

definition expr_alloc_and :: "expr option \<Rightarrow> expr option \<Rightarrow> expr option" where
  "expr_alloc_and e1 e2 = (case e1 of None \<Rightarrow> e2
     | Some a \<Rightarrow> (case e2 of None \<Rightarrow> e1 | Some b \<Rightarrow> Some (expr_alloc_two E_AND a b)))"

definition expr_alloc_or :: "expr option \<Rightarrow> expr option \<Rightarrow> expr option" where
  "expr_alloc_or e1 e2 = (case e1 of None \<Rightarrow> e2
     | Some a \<Rightarrow> (case e2 of None \<Rightarrow> e1 | Some b \<Rightarrow> Some (expr_alloc_two E_OR a b)))"

lemmas expr_alloc_defs = expr_alloc_symbol_def expr_alloc_one_def expr_alloc_two_def
  expr_alloc_comp_def expr_alloc_and_def expr_alloc_or_def

text \<open>
  The deep copy. It refuses ranges (\<open>can't copy type\<close>) and has no case for \<open>E_NONE\<close>; for a
  list cell it would follow the symbol pointer as an expression. Those are \<open>None\<close>.
\<close>

primrec expr_copy :: "expr \<Rightarrow> expr option" where
  "expr_copy (ESymbol y) = Some (ESymbol y)"
| "expr_copy (ENot l) = map_option ENot (expr_copy l)"
| "expr_copy (EEqual a b) = Some (EEqual a b)"
| "expr_copy (EUnequal a b) = Some (EUnequal a b)"
| "expr_copy (EAnd l r) = do { l' \<leftarrow> expr_copy l; r' \<leftarrow> expr_copy r; Some (EAnd l' r') }"
| "expr_copy (EOr l r) = do { l' \<leftarrow> expr_copy l; r' \<leftarrow> expr_copy r; Some (EOr l' r') }"
| "expr_copy (EList l s) = None"
| "expr_copy (ERange a b) = None"
| "expr_copy ENone = None"

text \<open>The dependency expressions the grammar produces: no list, range or empty node inside.\<close>

primrec logical :: "expr \<Rightarrow> bool" where
  "logical (ESymbol y) = True"
| "logical (ENot l) = logical l"
| "logical (EEqual a b) = True"
| "logical (EUnequal a b) = True"
| "logical (EAnd l r) = (logical l \<and> logical r)"
| "logical (EOr l r) = (logical l \<and> logical r)"
| "logical (EList l s) = False"
| "logical (ERange a b) = False"
| "logical ENone = False"

lemma expr_copy_eq: "expr_copy e = (if logical e then Some e else None)"
  by (induction e) auto

subsection \<open>Operands\<close>

primrec esize :: "expr \<Rightarrow> nat" where
  "esize (EOr l r) = Suc (esize l + esize r)"
| "esize (EAnd l r) = Suc (esize l + esize r)"
| "esize (ENot l) = Suc (esize l)"
| "esize (ESymbol y) = 1"
| "esize (EEqual a b) = 1"
| "esize (EUnequal a b) = 1"
| "esize (EList l s) = 1"
| "esize (ERange a b) = 1"
| "esize ENone = 1"

lemma esize_pos [simp]: "0 < esize e" "esize e \<noteq> 0" "1 \<le> esize e" "Suc 0 \<le> esize e"
  by (cases e; simp)+

text \<open>
  The operands of a node of the given type, \<open>E_OR\<close> or \<open>E_AND\<close>: the test
  \<open>e->type == type\<close> of the code together with the two children it then visits.
\<close>

fun kids :: "expr_type \<Rightarrow> expr \<Rightarrow> (expr \<times> expr) option" where
  "kids E_OR (EOr l r) = Some (l, r)"
| "kids E_AND (EAnd l r) = Some (l, r)"
| "kids _ _ = None"

lemma kids_Some:
  "kids ty e = Some (l, r) \<longleftrightarrow> (ty = E_OR \<and> e = EOr l r) \<or> (ty = E_AND \<and> e = EAnd l r)"
  by (cases "(ty, e)" rule: kids.cases) auto

lemma kids_size: "kids ty e = Some (l, r) \<Longrightarrow> esize e = Suc (esize l + esize r)"
  by (auto simp: kids_Some)

lemma kids_alloc: "kids ty e = Some (l, r) \<Longrightarrow> expr_alloc_two ty l r = e"
  by (auto simp: kids_Some expr_alloc_two_def)

lemma kids_etype: "etype e = ty \<Longrightarrow> ty = E_OR \<or> ty = E_AND \<Longrightarrow> kids ty e \<noteq> None"
  by (cases e) auto

lemma kids_etypeD: "kids ty e \<noteq> None \<Longrightarrow> etype e = ty \<and> (ty = E_OR \<or> ty = E_AND)"
  by (cases "(ty, e)" rule: kids.cases) auto

lemma esize_alloc_two: "esize (expr_alloc_two ty l r) \<le> Suc (esize l + esize r)"
  by (cases ty) (simp_all add: expr_alloc_two_def)

subsection \<open>Elimination of the constants\<close>

primrec expr_eliminate_yn :: "expr \<Rightarrow> expr" where
  "expr_eliminate_yn (EAnd l r) =
     (let l' = expr_eliminate_yn l; r' = expr_eliminate_yn r in
      if l' = ESymbol symbol_no then ESymbol symbol_no
      else if l' = ESymbol symbol_yes then r'
      else if r' = ESymbol symbol_no then ESymbol symbol_no
      else if r' = ESymbol symbol_yes then l'
      else EAnd l' r')"
| "expr_eliminate_yn (EOr l r) =
     (let l' = expr_eliminate_yn l; r' = expr_eliminate_yn r in
      if l' = ESymbol symbol_no then r'
      else if l' = ESymbol symbol_yes then ESymbol symbol_yes
      else if r' = ESymbol symbol_no then l'
      else if r' = ESymbol symbol_yes then ESymbol symbol_yes
      else EOr l' r')"
| "expr_eliminate_yn (ENot l) = ENot l"
| "expr_eliminate_yn (ESymbol y) = ESymbol y"
| "expr_eliminate_yn (EEqual a b) = EEqual a b"
| "expr_eliminate_yn (EUnequal a b) = EUnequal a b"
| "expr_eliminate_yn (EList l s) = EList l s"
| "expr_eliminate_yn (ERange a b) = ERange a b"
| "expr_eliminate_yn ENone = ENone"

lemma esize_eliminate_yn [size_bounds]: "esize (expr_eliminate_yn e) \<le> esize e"
  by (induction e) (auto simp: Let_def)

subsection \<open>Common operands of two expressions\<close>

text \<open>
  \<open>__expr_eliminate_eq\<close>, \<open>expr_eliminate_eq\<close> and \<open>expr_eq\<close> call one another. The first
  walks the operands of both expressions (of type \<open>ty\<close>) and replaces a pair of equal ones by
  the neutral constant; two conjunctions or disjunctions are equal when this leaves the same
  single symbol of both. The second call of each sequence runs on what the first one left, so
  termination needs that no call enlarges its arguments.
\<close>

function elim_eq :: "expr_type \<Rightarrow> expr \<Rightarrow> expr \<Rightarrow> nat \<Rightarrow> expr \<times> expr \<times> nat"
  and expr_eliminate_eq :: "expr \<Rightarrow> expr \<Rightarrow> nat \<Rightarrow> expr \<times> expr \<times> nat"
  and expr_eq :: "expr \<Rightarrow> expr \<Rightarrow> bool" where
  "elim_eq ty e1 e2 tc =
     (case kids ty e1 of
        Some (l, r) \<Rightarrow>
          (case elim_eq ty l e2 tc of (l', e2', tc') \<Rightarrow>
           case elim_eq ty r e2' tc' of (r', e2'', tc'') \<Rightarrow>
             (expr_alloc_two ty l' r', e2'', tc''))
      | None \<Rightarrow>
     (case kids ty e2 of
        Some (l, r) \<Rightarrow>
          (case elim_eq ty e1 l tc of (e1', l', tc') \<Rightarrow>
           case elim_eq ty e1' r tc' of (e1'', r', tc'') \<Rightarrow>
             (e1'', expr_alloc_two ty l' r', tc''))
      | None \<Rightarrow>
     if e1 = e2 \<and> (e1 = ESymbol symbol_yes \<or> e1 = ESymbol symbol_no) then (e1, e2, tc)
     else if \<not> expr_eq e1 e2 then (e1, e2, tc)
     else (case ty of
        E_OR \<Rightarrow> (expr_alloc_symbol symbol_no, expr_alloc_symbol symbol_no, Suc tc)
      | E_AND \<Rightarrow> (expr_alloc_symbol symbol_yes, expr_alloc_symbol symbol_yes, Suc tc)
      | _ \<Rightarrow> (e1, e2, Suc tc))))"
| "expr_eliminate_eq e1 e2 tc =
     (case (if etype e1 = E_OR \<or> etype e1 = E_AND then elim_eq (etype e1) e1 e2 tc
            else (e1, e2, tc)) of (a, b, tc') \<Rightarrow>
      case (if etype a \<noteq> etype b \<and> (etype b = E_OR \<or> etype b = E_AND)
            then elim_eq (etype b) a b tc' else (a, b, tc')) of (a', b', tc'') \<Rightarrow>
        (expr_eliminate_yn a', expr_eliminate_yn b', tc''))"
| "expr_eq e1 e2 =
     (if etype e1 \<noteq> etype e2 then False
      else (case (e1, e2) of
         (EEqual a b, EEqual c d) \<Rightarrow> a = c \<and> b = d
       | (EUnequal a b, EUnequal c d) \<Rightarrow> a = c \<and> b = d
       | (ESymbol a, ESymbol c) \<Rightarrow> a = c
       | (ENot a, ENot c) \<Rightarrow> expr_eq a c
       | (EAnd _ _, EAnd _ _) \<Rightarrow>
           (case expr_eliminate_eq e1 e2 0 of (a, b, _) \<Rightarrow> etype a = E_SYMBOL \<and> a = b)
       | (EOr _ _, EOr _ _) \<Rightarrow>
           (case expr_eliminate_eq e1 e2 0 of (a, b, _) \<Rightarrow> etype a = E_SYMBOL \<and> a = b)
       | _ \<Rightarrow> False))"
  by pat_completeness auto




lemma elim_sizes:
  "elim_eq_expr_eliminate_eq_expr_eq_dom (Inl (ty, e1, e2, tc)) \<Longrightarrow>
     elim_eq ty e1 e2 tc = (a, b, n) \<Longrightarrow> esize a \<le> esize e1 \<and> esize b \<le> esize e2"
  "elim_eq_expr_eliminate_eq_expr_eq_dom (Inr (Inl (e1, e2, tc))) \<Longrightarrow> True"
  "elim_eq_expr_eliminate_eq_expr_eq_dom (Inr (Inr (e1, e2))) \<Longrightarrow> True"
proof (induction ty e1 e2 tc and e1 e2 tc and e1 e2 arbitrary: a b n and a b n and a b n
    rule: elim_eq_expr_eliminate_eq_expr_eq.pinduct)
  case (1 ty e1 e2 tc)

  note dom = 1(1) and eq = 1(7)
  show ?case
  proof (cases "kids ty e1")
    case (Some p)
    obtain l r where p: "(l, r) = p" by (metis surj_pair)
    obtain x y k where A: "elim_eq ty l e2 tc = (x, y, k)" by (metis prod_cases3)
    obtain x' y' k' where B: "elim_eq ty r y k = (x', y', k')" by (metis prod_cases3)
    from eq dom Some p A B have "a = expr_alloc_two ty x x'" "b = y'"
      by (auto simp: elim_eq.psimps)
    with 1(5)[OF Some p A] 1(6)[OF Some p A[symmetric] refl B] Some p
    show ?thesis using kids_size[of ty e1 l r] esize_alloc_two[of ty x x'] by auto
  next
    case N: None
    show ?thesis
    proof (cases "kids ty e2")
      case (Some p)
      obtain l r where p: "(l, r) = p" by (metis surj_pair)
      obtain x y k where A: "elim_eq ty e1 l tc = (x, y, k)" by (metis prod_cases3)
      obtain x' y' k' where B: "elim_eq ty x r k = (x', y', k')" by (metis prod_cases3)
      from eq dom N Some p A B have "a = x'" "b = expr_alloc_two ty y y'"
        by (auto simp: elim_eq.psimps)
      with 1(3)[OF N Some p A] 1(4)[OF N Some p A[symmetric] refl B] Some p
      show ?thesis using kids_size[of ty e2 l r] esize_alloc_two[of ty y y'] by auto
    next
      case None
      with eq dom N show ?thesis
        by (auto simp: elim_eq.psimps expr_alloc_symbol_def split: if_splits expr_type.splits)
    qed
  qed
qed simp_all


lemma elim_first_sizes:
  assumes "etype e1 = E_OR \<or> etype e1 = E_AND \<Longrightarrow>
      elim_eq_expr_eliminate_eq_expr_eq_dom (Inl (etype e1, e1, e2, tc))"
    and "(a, b, n) = (if etype e1 = E_OR \<or> etype e1 = E_AND then elim_eq (etype e1) e1 e2 tc
      else (e1, e2, tc))"
  shows "esize a + esize b \<le> esize e1 + esize e2"
  using assms elim_sizes(1)[of "etype e1" e1 e2 tc a b n]
  by (cases "etype e1 = E_OR \<or> etype e1 = E_AND") auto

text \<open>The calls that keep the sizes go down this rank.\<close>

fun elim_rank ::
  "(expr_type \<times> expr \<times> expr \<times> nat) + (expr \<times> expr \<times> nat) + (expr \<times> expr) \<Rightarrow> nat" where
  "elim_rank (Inl (ty, e1, e2, tc)) = (if kids ty e1 = None \<and> kids ty e2 = None then 3 else 0)"
| "elim_rank (Inr (Inl x)) = 1"
| "elim_rank (Inr (Inr x)) = 2"

fun elim_measure ::
  "(expr_type \<times> expr \<times> expr \<times> nat) + (expr \<times> expr \<times> nat) + (expr \<times> expr) \<Rightarrow> nat" where
  "elim_measure (Inl (ty, e1, e2, tc)) = esize e1 + esize e2"
| "elim_measure (Inr (Inl (e1, e2, tc))) = esize e1 + esize e2"
| "elim_measure (Inr (Inr (e1, e2))) = esize e1 + esize e2"


lemma kids_of_etype: "etype e = E_OR \<or> etype e = E_AND \<Longrightarrow> kids (etype e) e \<noteq> None"
  by (cases e) auto

lemma elim_total: "\<forall>x. elim_eq_expr_eliminate_eq_expr_eq_dom x"
proof (relation "measures [elim_measure, elim_rank]", goal_cases)
  case (4 ty e1 e2 tc x2 x y xa ya xb yb)
  then show ?case using elim_sizes(1)[of ty e1 x tc xa xb yb] by (auto simp: kids_size)
next
  case (6 ty e1 e2 tc x2 x y xa ya xb yb)
  then show ?case using elim_sizes(1)[of ty x e2 tc xa xb yb] by (auto simp: kids_size)
next
  case (7 e1 e2 tc)
  then show ?case using kids_of_etype[of e1] by auto
next
  case (8 e1 e2 tc x y xa ya)
  then have "esize x + esize xa \<le> esize e1 + esize e2" "kids (etype xa) xa \<noteq> None"
    using elim_first_sizes[of e1 e2 tc x xa ya] kids_of_etype[of xa] by auto
  then show ?case by auto
qed (auto simp: kids_size)

termination elim_eq
  by (rule elim_total)

declare elim_eq.simps [simp del] expr_eliminate_eq.simps [simp del] expr_eq.simps [simp del]

lemma elim_eq_sizes [size_bounds]:
  "elim_eq ty e1 e2 tc = (a, b, n) \<Longrightarrow> esize a \<le> esize e1 \<and> esize b \<le> esize e2"
  by (rule elim_sizes(1)) (simp_all add: elim_total)

subsection \<open>Rewriting of comparisons and negations\<close>

text \<open>\<open>bool FOO!=n => FOO\<close>, which the code applies to symbols of type \<open>S_TRISTATE\<close>.\<close>

primrec expr_trans_bool :: "(symref \<Rightarrow> symbol) \<Rightarrow> expr \<Rightarrow> expr" where
  "expr_trans_bool tab (EAnd l r) = EAnd (expr_trans_bool tab l) (expr_trans_bool tab r)"
| "expr_trans_bool tab (EOr l r) = EOr (expr_trans_bool tab l) (expr_trans_bool tab r)"
| "expr_trans_bool tab (ENot l) = ENot (expr_trans_bool tab l)"
| "expr_trans_bool tab (EUnequal a b) =
     (if sym_type (tab a) = S_TRISTATE \<and> b = symbol_no then ESymbol a else EUnequal a b)"
| "expr_trans_bool tab (ESymbol y) = ESymbol y"
| "expr_trans_bool tab (EEqual a b) = EEqual a b"
| "expr_trans_bool tab (EList l s) = EList l s"
| "expr_trans_bool tab (ERange a b) = ERange a b"
| "expr_trans_bool tab ENone = ENone"

text \<open>The symbol an operand of a join is about.\<close>

fun join_sym1 :: "expr \<Rightarrow> symref option" where
  "join_sym1 (EEqual a b) = Some a"
| "join_sym1 (EUnequal a b) = Some a"
| "join_sym1 (ESymbol a) = Some a"
| "join_sym1 (ENot (EEqual a b)) = Some a"
| "join_sym1 (ENot (EUnequal a b)) = Some a"
| "join_sym1 (ENot (ESymbol a)) = Some a"
| "join_sym1 _ = None"

fun join_sym2 :: "expr \<Rightarrow> symref option" where
  "join_sym2 (EEqual a b) = Some a"
| "join_sym2 (EUnequal a b) = Some a"
| "join_sym2 (ESymbol a) = Some a"
| "join_sym2 (ENot (ESymbol a)) = Some a"
| "join_sym2 _ = None"

fun is_equal_to :: "expr \<Rightarrow> symref \<Rightarrow> bool" where
  "is_equal_to (EEqual a b) c = (b = c)"
| "is_equal_to _ c = False"

fun is_unequal_to :: "expr \<Rightarrow> symref \<Rightarrow> bool" where
  "is_unequal_to (EUnequal a b) c = (b = c)"
| "is_unequal_to _ c = False"

fun is_not_symbol :: "expr \<Rightarrow> bool" where
  "is_not_symbol (ENot (ESymbol a)) = True"
| "is_not_symbol _ = False"

abbreviation (input) is_symbol :: "expr \<Rightarrow> bool" where
  "is_symbol e \<equiv> etype e = E_SYMBOL"

definition expr_join_or :: "(symref \<Rightarrow> symbol) \<Rightarrow> expr \<Rightarrow> expr \<Rightarrow> expr option" where
  "expr_join_or tab e1 e2 =
     (if expr_eq e1 e2 then expr_copy e1
      else (case (join_sym1 e1, join_sym2 e2) of
        (Some sym1, Some sym2) \<Rightarrow>
          if sym1 \<noteq> sym2 then None
          else if sym_type (tab sym1) \<noteq> S_BOOLEAN \<and> sym_type (tab sym1) \<noteq> S_TRISTATE then None
          else if sym_type (tab sym1) = S_TRISTATE
            \<and> ((is_equal_to e1 symbol_yes \<and> is_equal_to e2 symbol_mod)
             \<or> (is_equal_to e1 symbol_mod \<and> is_equal_to e2 symbol_yes))
            then Some (expr_alloc_comp E_UNEQUAL sym1 symbol_no)
          else if sym_type (tab sym1) = S_TRISTATE
            \<and> ((is_equal_to e1 symbol_yes \<and> is_equal_to e2 symbol_no)
             \<or> (is_equal_to e1 symbol_no \<and> is_equal_to e2 symbol_yes))
            then Some (expr_alloc_comp E_UNEQUAL sym1 symbol_mod)
          else if sym_type (tab sym1) = S_TRISTATE
            \<and> ((is_equal_to e1 symbol_mod \<and> is_equal_to e2 symbol_no)
             \<or> (is_equal_to e1 symbol_no \<and> is_equal_to e2 symbol_mod))
            then Some (expr_alloc_comp E_UNEQUAL sym1 symbol_yes)
          else if sym_type (tab sym1) = S_BOOLEAN
            \<and> ((is_not_symbol e1 \<and> is_symbol e2) \<or> (is_not_symbol e2 \<and> is_symbol e1))
            then Some (expr_alloc_symbol symbol_yes)
          else None
      | _ \<Rightarrow> None))"

definition expr_join_and :: "(symref \<Rightarrow> symbol) \<Rightarrow> expr \<Rightarrow> expr \<Rightarrow> expr option" where
  "expr_join_and tab e1 e2 =
     (if expr_eq e1 e2 then expr_copy e1
      else (case (join_sym1 e1, join_sym2 e2) of
        (Some sym1, Some sym2) \<Rightarrow>
          if sym1 \<noteq> sym2 then None
          else if sym_type (tab sym1) \<noteq> S_BOOLEAN \<and> sym_type (tab sym1) \<noteq> S_TRISTATE then None
          else if (is_symbol e1 \<and> is_equal_to e2 symbol_yes)
                \<or> (is_symbol e2 \<and> is_equal_to e1 symbol_yes)
            then Some (expr_alloc_comp E_EQUAL sym1 symbol_yes)
          else if (is_symbol e1 \<and> is_unequal_to e2 symbol_no)
                \<or> (is_symbol e2 \<and> is_unequal_to e1 symbol_no)
            then Some (expr_alloc_symbol sym1)
          else if (is_symbol e1 \<and> is_unequal_to e2 symbol_mod)
                \<or> (is_symbol e2 \<and> is_unequal_to e1 symbol_mod)
            then Some (expr_alloc_comp E_EQUAL sym1 symbol_yes)
          else if sym_type (tab sym1) \<noteq> S_TRISTATE then None
          else (case (e1, e2) of
            (EEqual a b, EUnequal c d) \<Rightarrow>
              if SYMBOL_CONST \<in> sym_flags (tab d) \<and> SYMBOL_CONST \<in> sym_flags (tab b)
              then Some (if b \<noteq> d then expr_alloc_comp E_EQUAL sym1 b
                         else expr_alloc_symbol symbol_no)
              else None
          | (EUnequal a b, EEqual c d) \<Rightarrow>
              if SYMBOL_CONST \<in> sym_flags (tab b) \<and> SYMBOL_CONST \<in> sym_flags (tab d)
              then Some (if d \<noteq> b then expr_alloc_comp E_EQUAL sym1 d
                         else expr_alloc_symbol symbol_no)
              else None
          | (EUnequal a b, EUnequal c d) \<Rightarrow>
              if (b = symbol_yes \<and> d = symbol_no) \<or> (b = symbol_no \<and> d = symbol_yes)
                then Some (expr_alloc_comp E_EQUAL sym1 symbol_mod)
              else if (b = symbol_yes \<and> d = symbol_mod) \<or> (b = symbol_mod \<and> d = symbol_yes)
                then Some (expr_alloc_comp E_EQUAL sym1 symbol_no)
              else if (b = symbol_mod \<and> d = symbol_no) \<or> (b = symbol_no \<and> d = symbol_mod)
                then Some (expr_alloc_comp E_EQUAL sym1 symbol_yes)
              else None
          | _ \<Rightarrow> None)
      | _ \<Rightarrow> None))"

subsection \<open>Negation normal form\<close>

text \<open>
  \<open>expr_transform\<close> pushes negations to the leaves and replaces comparisons of boolean symbols
  with constants. It runs again on the node a negation was pushed into; the weight below
  (a negation triples it) decreases.
\<close>

primrec eweight :: "expr \<Rightarrow> nat" where
  "eweight (EOr l r) = Suc (eweight l + eweight r)"
| "eweight (EAnd l r) = Suc (eweight l + eweight r)"
| "eweight (ENot l) = 3 * eweight l"
| "eweight (ESymbol y) = 1"
| "eweight (EEqual a b) = 4"
| "eweight (EUnequal a b) = 4"
| "eweight (EList l s) = 1"
| "eweight (ERange a b) = 1"
| "eweight ENone = 1"

lemma eweight_pos [simp]: "0 < eweight e"
  by (induction e) auto

lemma eweight_third: "3 * eweight a \<le> eweight b \<Longrightarrow> eweight a < 3 * eweight b"
  using eweight_pos[of b] by linarith

function expr_transform :: "(symref \<Rightarrow> symbol) \<Rightarrow> expr \<Rightarrow> expr" where
  "expr_transform tab e =
     (case e of
        EEqual a b \<Rightarrow>
          if sym_type (tab a) \<noteq> S_BOOLEAN then e
          else if b = symbol_no then expr_alloc_one E_NOT (expr_alloc_symbol a)
          else if b = symbol_mod then ESymbol symbol_no
          else if b = symbol_yes then ESymbol a
          else e
      | EUnequal a b \<Rightarrow>
          if sym_type (tab a) \<noteq> S_BOOLEAN then e
          else if b = symbol_no then ESymbol a
          else if b = symbol_mod then ESymbol symbol_yes
          else if b = symbol_yes then expr_alloc_one E_NOT (expr_alloc_symbol a)
          else e
      | EAnd l r \<Rightarrow> EAnd (expr_transform tab l) (expr_transform tab r)
      | EOr l r \<Rightarrow> EOr (expr_transform tab l) (expr_transform tab r)
      | ENot l \<Rightarrow>
         (case expr_transform tab l of
            ENot x \<Rightarrow> expr_transform tab x
          | EEqual a b \<Rightarrow> EUnequal a b
          | EUnequal a b \<Rightarrow> EEqual a b
          | EOr a b \<Rightarrow> expr_transform tab (EAnd (ENot a) (expr_alloc_one E_NOT b))
          | EAnd a b \<Rightarrow> expr_transform tab (EOr (ENot a) (expr_alloc_one E_NOT b))
          | ESymbol y \<Rightarrow>
              if y = symbol_yes then ESymbol symbol_no
              else if y = symbol_mod then ESymbol symbol_mod
              else if y = symbol_no then ESymbol symbol_yes
              else ENot (ESymbol y)
          | x \<Rightarrow> ENot x)
      | _ \<Rightarrow> e)"
  by pat_completeness auto

declare expr_transform.psimps [simp]

lemma expr_transform_weight:
  assumes "expr_transform_dom (tab, e)"
  shows "eweight (expr_transform tab e) \<le> eweight e"
  using assms
proof (induction tab e rule: expr_transform.pinduct)
  case (1 tab e)
  show ?case
  proof (cases e)
    case (ENot l)
    have "eweight (expr_transform tab l) \<le> eweight l" using 1 ENot by simp
    with 1 ENot show ?thesis
      by (cases "expr_transform tab l") (force simp: expr_alloc_one_def expr_alloc_symbol_def)+
  qed (use 1 in \<open>auto simp: expr_alloc_one_def expr_alloc_symbol_def intro: add_mono\<close>)
qed

declare expr_transform.psimps [simp del]

lemma expr_transform_total: "\<forall>x. expr_transform_dom x"
proof (relation "measure (\<lambda>(tab, e). eweight e)", goal_cases)
  case (7 tab e x l)
  then show ?case using expr_transform_weight[of tab x] by (auto simp: expr_alloc_one_def)
qed (auto dest!: expr_transform_weight simp: expr_alloc_one_def eweight_third)

termination expr_transform
  by (rule expr_transform_total)

lemma eweight_transform [size_bounds]: "eweight (expr_transform tab e) \<le> eweight e"
  by (rule expr_transform_weight) (simp add: expr_transform_total)

declare expr_transform.simps [simp del]

subsection \<open>Dependency tests\<close>

primrec expr_contains_symbol :: "expr \<Rightarrow> symref \<Rightarrow> bool" where
  "expr_contains_symbol (EAnd l r) y = (expr_contains_symbol l y \<or> expr_contains_symbol r y)"
| "expr_contains_symbol (EOr l r) y = (expr_contains_symbol l y \<or> expr_contains_symbol r y)"
| "expr_contains_symbol (ESymbol a) y = (a = y)"
| "expr_contains_symbol (EEqual a b) y = (a = y \<or> b = y)"
| "expr_contains_symbol (EUnequal a b) y = (a = y \<or> b = y)"
| "expr_contains_symbol (ENot l) y = expr_contains_symbol l y"
| "expr_contains_symbol (EList l s) y = False"
| "expr_contains_symbol (ERange a b) y = False"
| "expr_contains_symbol ENone y = False"

primrec expr_depends_symbol :: "expr \<Rightarrow> symref \<Rightarrow> bool" where
  "expr_depends_symbol (EAnd l r) y = (expr_depends_symbol l y \<or> expr_depends_symbol r y)"
| "expr_depends_symbol (ESymbol a) y = (a = y)"
| "expr_depends_symbol (EEqual a b) y = (a = y \<and> (b = symbol_yes \<or> b = symbol_mod))"
| "expr_depends_symbol (EUnequal a b) y = (a = y \<and> b = symbol_no)"
| "expr_depends_symbol (EOr l r) y = False"
| "expr_depends_symbol (ENot l) y = False"
| "expr_depends_symbol (EList l s) y = False"
| "expr_depends_symbol (ERange a b) y = False"
| "expr_depends_symbol ENone y = False"

subsection \<open>Extraction of common factors\<close>

function expr_extract_eq ::
  "expr_type \<Rightarrow> expr option \<Rightarrow> expr \<Rightarrow> expr \<Rightarrow> expr option \<times> expr \<times> expr" where
  "expr_extract_eq ty ep e1 e2 =
     (case kids ty e1 of
        Some (l, r) \<Rightarrow>
          (case expr_extract_eq ty ep l e2 of (ep', l', e2') \<Rightarrow>
           case expr_extract_eq ty ep' r e2' of (ep'', r', e2'') \<Rightarrow>
             (ep'', expr_alloc_two ty l' r', e2''))
      | None \<Rightarrow>
     (case kids ty e2 of
        Some (l, r) \<Rightarrow>
          (case expr_extract_eq ty ep e1 l of (ep', e1', l') \<Rightarrow>
           case expr_extract_eq ty ep' e1' r of (ep'', e1'', r') \<Rightarrow>
             (ep'', e1'', expr_alloc_two ty l' r'))
      | None \<Rightarrow>
     if expr_eq e1 e2 then
       (let ep' = Some (case ep of Some x \<Rightarrow> expr_alloc_two ty x e1 | None \<Rightarrow> e1) in
        if ty = E_AND then (ep', expr_alloc_symbol symbol_yes, expr_alloc_symbol symbol_yes)
        else if ty = E_OR then (ep', expr_alloc_symbol symbol_no, expr_alloc_symbol symbol_no)
        else (ep', e1, e2))
     else (ep, e1, e2)))"
  by pat_completeness auto

lemma extract_sizes:
  assumes "expr_extract_eq_dom (ty, ep, e1, e2)" and "expr_extract_eq ty ep e1 e2 = (f, a, b)"
  shows "esize a \<le> esize e1 \<and> esize b \<le> esize e2"
  using assms
proof (induction ty ep e1 e2 arbitrary: f a b rule: expr_extract_eq.pinduct)
  case (1 ty ep e1 e2)
  note dom = 1(1) and eq = 1(6)
  show ?case
  proof (cases "kids ty e1")
    case (Some p)
    obtain l r where p: "(l, r) = p" by (metis surj_pair)
    obtain k x y where A: "expr_extract_eq ty ep l e2 = (k, x, y)" by (metis prod_cases3)
    obtain k' x' y' where B: "expr_extract_eq ty k r y = (k', x', y')" by (metis prod_cases3)
    from eq dom Some p A B have "a = expr_alloc_two ty x x'" "b = y'"
      by (auto simp: expr_extract_eq.psimps)
    with 1(4)[OF Some p A] 1(5)[OF Some p A[symmetric] refl B] Some p
    show ?thesis using kids_size[of ty e1 l r] esize_alloc_two[of ty x x'] by auto
  next
    case N: None
    show ?thesis
    proof (cases "kids ty e2")
      case (Some p)
      obtain l r where p: "(l, r) = p" by (metis surj_pair)
      obtain k x y where A: "expr_extract_eq ty ep e1 l = (k, x, y)" by (metis prod_cases3)
      obtain k' x' y' where B: "expr_extract_eq ty k x r = (k', x', y')" by (metis prod_cases3)
      from eq dom N Some p A B have "a = x'" "b = expr_alloc_two ty y y'"
        by (auto simp: expr_extract_eq.psimps)
      with 1(2)[OF N Some p A] 1(3)[OF N Some p A[symmetric] refl B] Some p
      show ?thesis using kids_size[of ty e2 l r] esize_alloc_two[of ty y y'] by auto
    next
      case None
      with eq dom N show ?thesis
        by (auto simp: expr_extract_eq.psimps expr_alloc_symbol_def Let_def split: if_splits)
    qed
  qed
qed

termination expr_extract_eq
proof (relation "measure (\<lambda>(ty, ep, e1, e2). esize e1 + esize e2)", goal_cases)
  case (3 ty ep e1 e2 x2 x y xa ya xb yb)
  then show ?case using extract_sizes[of ty ep e1 x xa xb yb] by (auto simp: kids_size)
next
  case (5 ty ep e1 e2 x2 x y xa ya xb yb)
  then show ?case using extract_sizes[of ty ep x e2 xa xb yb] by (auto simp: kids_size)
qed (auto simp: kids_size)

declare expr_extract_eq.simps [simp del]

definition expr_extract_eq_and :: "expr \<Rightarrow> expr \<Rightarrow> expr option \<times> expr \<times> expr" where
  "expr_extract_eq_and e1 e2 =
     (case expr_extract_eq E_AND None e1 e2 of (tmp, a, b) \<Rightarrow>
        if tmp \<noteq> None then (tmp, expr_eliminate_yn a, expr_eliminate_yn b) else (tmp, a, b))"

definition expr_extract_eq_or :: "expr \<Rightarrow> expr \<Rightarrow> expr option \<times> expr \<times> expr" where
  "expr_extract_eq_or e1 e2 =
     (case expr_extract_eq E_OR None e1 e2 of (tmp, a, b) \<Rightarrow>
        if tmp \<noteq> None then (tmp, expr_eliminate_yn a, expr_eliminate_yn b) else (tmp, a, b))"

text \<open>
  \<open>expr_trans_compare\<close> on a non-null expression: the comparison of the whole expression with
  one of the constants, moved to its symbols. With a symbol other than the three constants a
  comparison has no case (\<open>NULL\<close>), and a conjunction or disjunction is kept.
\<close>

fun expr_trans_compare :: "expr option \<Rightarrow> expr_type \<Rightarrow> symref \<Rightarrow> expr option" where
  "expr_trans_compare None ty y =
     (let e = expr_alloc_symbol y in
      Some (if ty = E_UNEQUAL then expr_alloc_one E_NOT e else e))"
| "expr_trans_compare (Some (EAnd l r)) ty y = do {
     e1 \<leftarrow> expr_trans_compare (Some l) E_EQUAL y;
     e2 \<leftarrow> expr_trans_compare (Some r) E_EQUAL y;
     let e = (if y = symbol_yes then expr_alloc_two E_AND e1 e2
              else if y = symbol_no then expr_alloc_two E_OR e1 e2 else EAnd l r);
     Some (if ty = E_UNEQUAL then expr_alloc_one E_NOT e else e) }"
| "expr_trans_compare (Some (EOr l r)) ty y = do {
     e1 \<leftarrow> expr_trans_compare (Some l) E_EQUAL y;
     e2 \<leftarrow> expr_trans_compare (Some r) E_EQUAL y;
     let e = (if y = symbol_yes then expr_alloc_two E_OR e1 e2
              else if y = symbol_no then expr_alloc_two E_AND e1 e2 else EOr l r);
     Some (if ty = E_UNEQUAL then expr_alloc_one E_NOT e else e) }"
| "expr_trans_compare (Some (ENot l)) ty y =
     expr_trans_compare (Some l) (if ty = E_EQUAL then E_UNEQUAL else E_EQUAL) y"
| "expr_trans_compare (Some (ESymbol a)) ty y = Some (expr_alloc_comp ty a y)"
| "expr_trans_compare (Some (EEqual a b)) ty y =
     (if ty = E_EQUAL then
        (if y = symbol_yes then expr_copy (EEqual a b)
         else if y = symbol_mod then Some (expr_alloc_symbol symbol_no)
         else if y = symbol_no then map_option (expr_alloc_one E_NOT) (expr_copy (EEqual a b))
         else None)
      else
        (if y = symbol_yes then map_option (expr_alloc_one E_NOT) (expr_copy (EEqual a b))
         else if y = symbol_mod then Some (expr_alloc_symbol symbol_yes)
         else if y = symbol_no then expr_copy (EEqual a b)
         else None))"
| "expr_trans_compare (Some (EUnequal a b)) ty y =
     (if ty = E_EQUAL then
        (if y = symbol_yes then expr_copy (EUnequal a b)
         else if y = symbol_mod then Some (expr_alloc_symbol symbol_no)
         else if y = symbol_no then map_option (expr_alloc_one E_NOT) (expr_copy (EUnequal a b))
         else None)
      else
        (if y = symbol_yes then map_option (expr_alloc_one E_NOT) (expr_copy (EUnequal a b))
         else if y = symbol_mod then Some (expr_alloc_symbol symbol_yes)
         else if y = symbol_no then expr_copy (EUnequal a b)
         else None))"
| "expr_trans_compare (Some _) ty y = None"

end
