(* ===== verification/Expr_Sem.thy ===== *)
theory Expr_Sem
  imports Expr
begin

text \<open>
  The value of an expression under a valuation of its symbols, and what the rewriting functions
  of \<open>expr.c\<close> keep of it. \<open>eval\<close> is the abstract counterpart of \<open>expr_calc_value\<close>: the theory
  of the value computation shows that the code computes it once the symbols are calculated.
\<close>

subsection \<open>Valuations\<close>

primrec eval :: "(symref \<Rightarrow> tristate) \<Rightarrow> (symref \<Rightarrow> string) \<Rightarrow> expr \<Rightarrow> tristate" where
  "eval tri str (ESymbol y) = tri y"
| "eval tri str (EAnd l r) = EXPR_AND (eval tri str l) (eval tri str r)"
| "eval tri str (EOr l r) = EXPR_OR (eval tri str l) (eval tri str r)"
| "eval tri str (ENot l) = EXPR_NOT (eval tri str l)"
| "eval tri str (EEqual a b) = (if str a = str b then tyes else tno)"
| "eval tri str (EUnequal a b) = (if str a = str b then tno else tyes)"
| "eval tri str (EList l s) = tno"
| "eval tri str (ERange a b) = tno"
| "eval tri str ENone = tno"

text \<open>A null expression is \<open>y\<close>.\<close>

definition eval_opt ::
  "(symref \<Rightarrow> tristate) \<Rightarrow> (symref \<Rightarrow> string) \<Rightarrow> expr option \<Rightarrow> tristate" where
  "eval_opt tri str e = (case e of None \<Rightarrow> tyes | Some x \<Rightarrow> eval tri str x)"

primrec tri_string :: "tristate \<Rightarrow> string" where
  "tri_string tno = ''n''"
| "tri_string tmod = ''m''"
| "tri_string tyes = ''y''"

lemma tri_string_inj [simp]: "tri_string a = tri_string b \<longleftrightarrow> a = b"
  by (cases a; cases b) simp_all

text \<open>The three constants have their values.\<close>

definition const_val :: "(symref \<Rightarrow> tristate) \<Rightarrow> bool" where
  "const_val tri \<longleftrightarrow> tri symbol_yes = tyes \<and> tri symbol_mod = tmod \<and> tri symbol_no = tno"

lemma const_valD [simp]:
  "const_val tri \<Longrightarrow> tri symbol_yes = tyes"
  "const_val tri \<Longrightarrow> tri symbol_mod = tmod"
  "const_val tri \<Longrightarrow> tri symbol_no = tno"
  by (simp_all add: const_val_def)

text \<open>
  A valuation that agrees with the types of the symbols: the strings of boolean and tristate
  symbols and of the constants spell their values, a boolean symbol is never \<open>m\<close>, and
  different constant symbols have different strings.
\<close>

definition typed_val ::
  "(symref \<Rightarrow> symbol) \<Rightarrow> (symref \<Rightarrow> tristate) \<Rightarrow> (symref \<Rightarrow> string) \<Rightarrow> bool" where
  "typed_val tab tri str \<longleftrightarrow>
     const_val tri
     \<and> str symbol_yes = ''y'' \<and> str symbol_mod = ''m'' \<and> str symbol_no = ''n''
     \<and> (\<forall>y. sym_type (tab y) = S_BOOLEAN \<longrightarrow> tri y \<noteq> tmod \<and> str y = tri_string (tri y))
     \<and> (\<forall>y. sym_type (tab y) = S_TRISTATE \<longrightarrow> str y = tri_string (tri y))
     \<and> (\<forall>a b. SYMBOL_CONST \<in> sym_flags (tab a) \<longrightarrow> SYMBOL_CONST \<in> sym_flags (tab b)
          \<longrightarrow> str a = str b \<longrightarrow> a = b)"

lemma typed_valD:
  assumes "typed_val tab tri str"
  shows "const_val tri"
    and "str symbol_yes = tri_string tyes" "str symbol_mod = tri_string tmod"
    and "str symbol_no = tri_string tno"
    and "sym_type (tab y) = S_BOOLEAN \<Longrightarrow> tri y \<noteq> tmod"
    and "sym_type (tab y) = S_BOOLEAN \<Longrightarrow> str y = tri_string (tri y)"
    and "sym_type (tab y) = S_TRISTATE \<Longrightarrow> str y = tri_string (tri y)"
    and "SYMBOL_CONST \<in> sym_flags (tab a) \<Longrightarrow> SYMBOL_CONST \<in> sym_flags (tab b)
      \<Longrightarrow> str a = str b \<Longrightarrow> a = b"
  using assms by (auto simp: typed_val_def)

subsection \<open>The two connectives\<close>

definition conn :: "expr_type \<Rightarrow> tristate \<Rightarrow> tristate \<Rightarrow> tristate" where
  "conn ty = (if ty = E_AND then EXPR_AND else EXPR_OR)"

definition conn_unit :: "expr_type \<Rightarrow> tristate" where
  "conn_unit ty = (if ty = E_AND then tyes else tno)"

lemma conn_laws:
  "conn ty a b = conn ty b a"
  "conn ty (conn ty a b) c = conn ty a (conn ty b c)"
  "conn ty a (conn ty b c) = conn ty b (conn ty a c)"
  "conn ty (conn_unit ty) a = a" "conn ty a (conn_unit ty) = a" "conn ty a a = a"
  by (auto simp: conn_def conn_unit_def EXPR_assoc EXPR_comm)
    (cases a; cases b; cases c; simp add: EXPR_OR_def EXPR_AND_def less_tristate_def)+

lemma eval_kids:
  "kids ty e = Some (l, r) \<Longrightarrow> eval tri str e = conn ty (eval tri str l) (eval tri str r)"
  by (auto simp: kids_Some conn_def)

lemma eval_alloc_two:
  "kids ty e \<noteq> None \<Longrightarrow>
   eval tri str (expr_alloc_two ty a b) = conn ty (eval tri str a) (eval tri str b)"
  by (auto simp: kids_Some conn_def expr_alloc_two_def)

subsection \<open>Construction and constants\<close>

lemma eval_alloc_and:
  "eval_opt tri str (expr_alloc_and a b) = EXPR_AND (eval_opt tri str a) (eval_opt tri str b)"
  by (simp add: eval_opt_def expr_alloc_and_def expr_alloc_two_def split: option.split)

lemma eval_alloc_or:
  "eval_opt tri str (expr_alloc_or (Some a) (Some b)) = EXPR_OR (eval tri str a) (eval tri str b)"
  by (simp add: eval_opt_def expr_alloc_or_def expr_alloc_two_def)

lemma eval_eliminate_yn [val_simps]:
  "const_val tri \<Longrightarrow> eval tri str (expr_eliminate_yn e) = eval tri str e"
  by (induction e) (auto simp: Let_def)

text \<open>No constant \<open>y\<close> or \<open>n\<close> is left as an operand.\<close>

fun yn_free :: "expr \<Rightarrow> bool" where
  "yn_free (EAnd l r) \<longleftrightarrow> yn_free l \<and> yn_free r
     \<and> l \<notin> {ESymbol symbol_yes, ESymbol symbol_no} \<and> r \<notin> {ESymbol symbol_yes, ESymbol symbol_no}"
| "yn_free (EOr l r) \<longleftrightarrow> yn_free l \<and> yn_free r
     \<and> l \<notin> {ESymbol symbol_yes, ESymbol symbol_no} \<and> r \<notin> {ESymbol symbol_yes, ESymbol symbol_no}"
| "yn_free _ \<longleftrightarrow> True"

lemma eliminate_yn_free: "yn_free (expr_eliminate_yn e)"
  by (induction e) (auto simp: Let_def)

lemma eliminate_yn_fixed: "yn_free e \<Longrightarrow> expr_eliminate_yn e = e"
  by (induction e) (auto simp: Let_def)

subsection \<open>Equality and common operands\<close>

lemma conn_cancel:
  assumes "x = conn ty c x'" "y = conn ty c y'" "x' = conn ty d x''" "y' = conn ty d y''"
  shows "x = conn ty (conn ty c d) x''" "y = conn ty (conn ty c d) y''"
  using assms by (simp_all add: conn_laws)

lemma expr_eq_cases [consumes 1, case_names Same Negs Ands Ors]:
  assumes "expr_eq e1 e2"
  obtains "e1 = e2"
  | x y where "e1 = ENot x" "e2 = ENot y" "expr_eq x y"
  | w x y z u k where "e1 = EAnd w x" "e2 = EAnd y z" "expr_eliminate_eq e1 e2 0 = (u, u, k)"
  | w x y z u k where "e1 = EOr w x" "e2 = EOr y z" "expr_eliminate_eq e1 e2 0 = (u, u, k)"
proof -
  note eq = assms[unfolded expr_eq.simps[of e1 e2]]
  show ?thesis
  proof (cases e1)
    case (EOr w x)
    with eq show ?thesis by (cases e2) (auto split: prod.splits intro: that(4))
  next
    case (EAnd w x)
    with eq show ?thesis by (cases e2) (auto split: prod.splits intro: that(3))
  next
    case (ENot x)
    with eq show ?thesis by (cases e2) (auto intro: that(2))
  qed (use eq that(1) in \<open>cases e2; simp\<close>)+
qed

lemma elim_eq_sound:
  assumes c: "const_val tri"
  shows "ty = E_OR \<or> ty = E_AND \<Longrightarrow> elim_eq ty e1 e2 tc = (a, b, n) \<Longrightarrow>
      \<exists>c. eval tri str e1 = conn ty c (eval tri str a) \<and> eval tri str e2 = conn ty c (eval tri str b)"
    and "expr_eliminate_eq e1 e2 tc = (a, b, n) \<Longrightarrow> eval tri str a = eval tri str b \<Longrightarrow>
      eval tri str e1 = eval tri str e2"
    and "expr_eq e1 e2 \<Longrightarrow> eval tri str e1 = eval tri str e2"
proof (induction ty e1 e2 tc and e1 e2 tc and e1 e2 arbitrary: a b n and a b n
    rule: elim_eq_expr_eliminate_eq_expr_eq.induct)
  case (1 ty e1 e2 tc)
  note eq = 1(7)
  show ?case
  proof (cases "kids ty e1")
    case (Some p)
    obtain l r where p: "(l, r) = p" by (metis surj_pair)
    obtain x y k where A: "elim_eq ty l e2 tc = (x, y, k)" by (metis prod_cases3)
    obtain x' y' k' where B: "elim_eq ty r y k = (x', y', k')" by (metis prod_cases3)
    from eq Some p A B have ab: "a = expr_alloc_two ty x x'" "b = y'"
      by (auto simp: elim_eq.simps)
    obtain c d where
      "eval tri str l = conn ty c (eval tri str x)" "eval tri str e2 = conn ty c (eval tri str y)"
      "eval tri str r = conn ty d (eval tri str x')" "eval tri str y = conn ty d (eval tri str y')"
      using 1(4)[OF Some p 1(6) A] 1(5)[OF Some p A[symmetric] refl 1(6) B] by blast
    moreover have "kids ty e1 = Some (l, r)" using Some p by simp
    moreover have "eval tri str a = conn ty (eval tri str x) (eval tri str x')"
      using ab Some by (simp add: eval_alloc_two[where e = e1])
    ultimately have "eval tri str e1 = conn ty (conn ty c d) (eval tri str a)
        \<and> eval tri str e2 = conn ty (conn ty c d) (eval tri str b)"
      using ab by (simp add: eval_kids conn_laws)
    then show ?thesis by blast
  next
    case N: None
    show ?thesis
    proof (cases "kids ty e2")
      case (Some p)
      obtain l r where p: "(l, r) = p" by (metis surj_pair)
      obtain x y k where A: "elim_eq ty e1 l tc = (x, y, k)" by (metis prod_cases3)
      obtain x' y' k' where B: "elim_eq ty x r k = (x', y', k')" by (metis prod_cases3)
      from eq N Some p A B have ab: "a = x'" "b = expr_alloc_two ty y y'"
        by (auto simp: elim_eq.simps)
      obtain c d where
        "eval tri str e1 = conn ty c (eval tri str x)" "eval tri str l = conn ty c (eval tri str y)"
        "eval tri str x = conn ty d (eval tri str x')" "eval tri str r = conn ty d (eval tri str y')"
        using 1(2)[OF N Some p 1(6) A] 1(3)[OF N Some p A[symmetric] refl 1(6) B] by blast
      moreover have "kids ty e2 = Some (l, r)" using Some p by simp
      moreover have "eval tri str b = conn ty (eval tri str y) (eval tri str y')"
        using ab Some by (simp add: eval_alloc_two[where e = e2])
      ultimately have "eval tri str e1 = conn ty (conn ty c d) (eval tri str a)
          \<and> eval tri str e2 = conn ty (conn ty c d) (eval tri str b)"
        using ab by (simp add: eval_kids conn_laws)
      then show ?thesis by blast
    next
      case None
      have unchanged: "\<exists>c. eval tri str e1 = conn ty c (eval tri str e1)
          \<and> eval tri str e2 = conn ty c (eval tri str e2)"
        by (rule exI[of _ "conn_unit ty"]) (simp add: conn_laws)
      show ?thesis
        using eq N None 1(1)[OF N None] 1(6) unchanged c
        by (auto simp: elim_eq.simps expr_alloc_symbol_def conn_def split: if_splits)
    qed
  qed
next
  case (2 e1 e2 tc)
  obtain x y k where A: "(if etype e1 = E_OR \<or> etype e1 = E_AND then elim_eq (etype e1) e1 e2 tc
      else (e1, e2, tc)) = (x, y, k)" by (metis prod_cases3)
  obtain x' y' k' where B: "(if etype x \<noteq> etype y \<and> (etype y = E_OR \<or> etype y = E_AND)
      then elim_eq (etype y) x y k else (x, y, k)) = (x', y', k')" by (metis prod_cases3)
  have "a = expr_eliminate_yn x'" "b = expr_eliminate_yn y'"
    using 2(3) A B by (auto simp: expr_eliminate_eq.simps)
  with 2(4) c have "eval tri str x' = eval tri str y'" by (simp add: val_simps)
  moreover have "eval tri str x' = eval tri str y' \<Longrightarrow> eval tri str x = eval tri str y"
    using 2(2)[OF A[symmetric] refl] B by (auto split: if_splits)
  moreover have "eval tri str x = eval tri str y \<Longrightarrow> eval tri str e1 = eval tri str e2"
    using 2(1) A by (auto split: if_splits)
  ultimately show ?case by blast
next
  case (3 e1 e2)
  from \<open>expr_eq e1 e2\<close> show ?case
  proof (cases rule: expr_eq_cases)
    case (Negs x y)
    with 3(1-3) show ?thesis by simp
  next
    case (Ands w x y z u k)
    with 3(1-3) show ?thesis by simp
  next
    case (Ors w x y z u k)
    with 3(1-3) show ?thesis by simp
  qed simp
qed

lemmas eval_elim_eq = elim_eq_sound(1)
lemmas eval_eliminate_eq = elim_eq_sound(2)
lemmas eval_expr_eq = elim_eq_sound(3)

text \<open>
  What a caller may conclude from \<open>expr_eliminate_eq\<close> on two conjunctions: if nothing is left
  of the second, the first implies it.
\<close>

lemma elim_eq_and_implies:
  assumes "const_val tri" and "elim_eq E_AND e1 e2 tc = (a, b, n)" and "eval tri str b = tyes"
  shows "eval tri str e1 \<le> eval tri str e2"
proof -
  from elim_eq_sound(1)[OF assms(1) _ assms(2), of str] obtain c
    where "eval tri str e1 = conn E_AND c (eval tri str a)"
      and "eval tri str e2 = conn E_AND c (eval tri str b)" by auto
  with assms(3) show ?thesis by (simp add: conn_def EXPR_AND_min)
qed

subsection \<open>Negation normal form\<close>

lemma expr_transform_unfold [expr_simps]:
  "expr_transform tab (EAnd l r) = EAnd (expr_transform tab l) (expr_transform tab r)"
  "expr_transform tab (EOr l r) = EOr (expr_transform tab l) (expr_transform tab r)"
  "expr_transform tab (ESymbol y) = ESymbol y"
  "expr_transform tab (EEqual a b) =
     (if sym_type (tab a) \<noteq> S_BOOLEAN then EEqual a b
      else if b = symbol_no then ENot (ESymbol a) else if b = symbol_mod then ESymbol symbol_no
      else if b = symbol_yes then ESymbol a else EEqual a b)"
  "expr_transform tab (EUnequal a b) =
     (if sym_type (tab a) \<noteq> S_BOOLEAN then EUnequal a b
      else if b = symbol_no then ESymbol a else if b = symbol_mod then ESymbol symbol_yes
      else if b = symbol_yes then ENot (ESymbol a) else EUnequal a b)"
  "expr_transform tab (EList x y) = EList x y"
  "expr_transform tab (ERange a b) = ERange a b"
  "expr_transform tab ENone = ENone"
  by (simp_all add: expr_transform.simps expr_alloc_defs)

lemma expr_transform_not [expr_simps]:
  "expr_transform tab (ENot l) =
     (case expr_transform tab l of
        ENot x \<Rightarrow> expr_transform tab x
      | EEqual a b \<Rightarrow> EUnequal a b
      | EUnequal a b \<Rightarrow> EEqual a b
      | EOr a b \<Rightarrow> EAnd (expr_transform tab (ENot a)) (expr_transform tab (ENot b))
      | EAnd a b \<Rightarrow> EOr (expr_transform tab (ENot a)) (expr_transform tab (ENot b))
      | ESymbol y \<Rightarrow> if y = symbol_yes then ESymbol symbol_no
          else if y = symbol_mod then ESymbol symbol_mod
          else if y = symbol_no then ESymbol symbol_yes else ENot (ESymbol y)
      | x \<Rightarrow> ENot x)"
  by (subst expr_transform.simps)
    (simp add: expr_alloc_one_def expr_transform_unfold cong: expr.case_cong)

text \<open>
  Induction over the calls of \<open>expr_transform\<close>: besides the operands, the operand of a double
  negation and the negated operands of a connective, in the transformed operand.
\<close>

lemma expr_transform_induct [case_names And Or Not Leaf]:
  assumes "\<And>l r. P l \<Longrightarrow> P r \<Longrightarrow> P (EAnd l r)" and "\<And>l r. P l \<Longrightarrow> P r \<Longrightarrow> P (EOr l r)"
    and "\<And>l. P l \<Longrightarrow> (\<And>x. expr_transform tab l = ENot x \<Longrightarrow> P x)
      \<Longrightarrow> (\<And>a b. expr_transform tab l = EOr a b \<or> expr_transform tab l = EAnd a b
            \<Longrightarrow> P (ENot a) \<and> P (ENot b)) \<Longrightarrow> P (ENot l)"
    and "\<And>e. etype e \<notin> {E_AND, E_OR, E_NOT} \<Longrightarrow> P e"
  shows "P e"
proof (induction e rule: measure_induct_rule[of eweight])
  case (less e)
  show ?case
  proof (cases e)
    case (ENot l)
    have w: "eweight (expr_transform tab l) \<le> eweight l" by (rule eweight_transform)
    show ?thesis unfolding ENot
    proof (rule assms(3))
      show "P l" using less ENot by simp
    next
      fix x assume "expr_transform tab l = ENot x"
      with w less ENot eweight_third[of x l] show "P x" by simp
    next
      fix a b assume "expr_transform tab l = EOr a b \<or> expr_transform tab l = EAnd a b"
      with w have "Suc (eweight a + eweight b) \<le> eweight l" by auto
      then show "P (ENot a) \<and> P (ENot b)" using less ENot by simp
    qed
  qed (use less assms in auto)
qed

theorem eval_transform [val_simps]:
  assumes "typed_val tab tri str"
  shows "eval tri str (expr_transform tab e) = eval tri str e"
proof (induction e rule: expr_transform_induct[where tab = tab])
  case (Not l)
  note v = typed_valD[OF assms]
  have IH: "eval tri str (expr_transform tab l) = eval tri str l" by (rule Not)
  show ?case
  proof (cases "expr_transform tab l")
    case (EOr a b)
    then have "eval tri str (expr_transform tab (ENot l)) = EXPR_NOT (eval tri str (EOr a b))"
      using Not(3)[of a b] by (simp add: expr_transform_not)
    then show ?thesis using IH EOr by (simp flip: IH)
  next
    case (EAnd a b)
    then have "eval tri str (expr_transform tab (ENot l)) = EXPR_NOT (eval tri str (EAnd a b))"
      using Not(3)[of a b] by (simp add: expr_transform_not)
    then show ?thesis using IH EAnd by (simp flip: IH)
  next
    case (ENot x)
    then show ?thesis using Not(2)[of x] by (simp add: expr_transform_not flip: IH)
  qed (use IH v(1) in \<open>auto simp: expr_transform_not simp flip: IH\<close>)
next
  case (Leaf e)
  note v = typed_valD[OF assms]
  show ?case
  proof (cases e)
    case (EEqual a b)
    then show ?thesis using v(1-4) v(5,6)[of a]
      by (cases "tri a") (auto simp: expr_transform_unfold)
  next
    case (EUnequal a b)
    then show ?thesis using v(1-4) v(5,6)[of a]
      by (cases "tri a") (auto simp: expr_transform_unfold)
  qed (use Leaf in \<open>auto simp: expr_transform_unfold\<close>)
qed (simp_all add: expr_transform_unfold)

text \<open>Negations are left in front of symbols that are not constants only.\<close>

primrec nnf :: "expr \<Rightarrow> bool" where
  "nnf (EAnd l r) = (nnf l \<and> nnf r)"
| "nnf (EOr l r) = (nnf l \<and> nnf r)"
| "nnf (ENot l) = (\<exists>y. l = ESymbol y \<and> y \<notin> {symbol_yes, symbol_mod, symbol_no})"
| "nnf (ESymbol y) = True"
| "nnf (EEqual a b) = True"
| "nnf (EUnequal a b) = True"
| "nnf (EList l s) = False"
| "nnf (ERange a b) = False"
| "nnf ENone = False"

text \<open>A constant is not a boolean symbol of the store.\<close>

definition const_untyped :: "(symref \<Rightarrow> symbol) \<Rightarrow> bool" where
  "const_untyped tab \<longleftrightarrow> (\<forall>y \<in> {symbol_yes, symbol_mod, symbol_no}. sym_type (tab y) \<noteq> S_BOOLEAN)"

theorem transform_nnf:
  assumes "const_untyped tab" and "logical e"
  shows "nnf (expr_transform tab e) \<and> logical (expr_transform tab e)"
  using assms(2)
proof (induction e rule: expr_transform_induct[where tab = tab])
  case (Not l)
  then have "nnf (expr_transform tab l) \<and> logical (expr_transform tab l)" by simp
  with Not show ?case
    by (cases "expr_transform tab l") (auto simp: expr_transform_not expr_transform_unfold)
next
  case (Leaf e)
  with assms(1) show ?case
    by (cases e) (auto simp: expr_transform_unfold const_untyped_def)
qed (simp_all add: expr_transform_unfold)

subsection \<open>Comparison with a constant\<close>

text \<open>
  The symbols of an expression spell their values, and below a negation none is \<open>m\<close>. Without
  the second condition the rewriting is wrong: \<open>!FOO != n\<close> becomes \<open>FOO = n\<close>, which differ at
  \<open>m\<close>.
\<close>

primrec no_mod :: "(symref \<Rightarrow> tristate) \<Rightarrow> expr \<Rightarrow> bool" where
  "no_mod tri (EAnd l r) = (no_mod tri l \<and> no_mod tri r)"
| "no_mod tri (EOr l r) = (no_mod tri l \<and> no_mod tri r)"
| "no_mod tri (ENot l) = no_mod tri l"
| "no_mod tri (ESymbol y) = (tri y \<noteq> tmod)"
| "no_mod tri (EEqual a b) = True"
| "no_mod tri (EUnequal a b) = True"
| "no_mod tri (EList l s) = True"
| "no_mod tri (ERange a b) = True"
| "no_mod tri ENone = True"

primrec spelled :: "(symref \<Rightarrow> tristate) \<Rightarrow> (symref \<Rightarrow> string) \<Rightarrow> expr \<Rightarrow> bool" where
  "spelled tri str (EAnd l r) = (spelled tri str l \<and> spelled tri str r)"
| "spelled tri str (EOr l r) = (spelled tri str l \<and> spelled tri str r)"
| "spelled tri str (ENot l) = (spelled tri str l \<and> no_mod tri l)"
| "spelled tri str (ESymbol y) = (str y = tri_string (tri y))"
| "spelled tri str (EEqual a b) = True"
| "spelled tri str (EUnequal a b) = True"
| "spelled tri str (EList l s) = True"
| "spelled tri str (ERange a b) = True"
| "spelled tri str ENone = True"

lemma no_mod_eval: "no_mod tri e \<Longrightarrow> eval tri str e \<noteq> tmod"
  by (induction e) (auto simp: EXPR_AND_def EXPR_OR_def, (case_tac "eval tri str e"; simp)+)

theorem eval_trans_compare:
  assumes "const_val tri" and "c = symbol_yes \<or> c = symbol_no" and "ty = E_EQUAL \<or> ty = E_UNEQUAL"
    and "str c = tri_string (tri c)" and "logical e" and "spelled tri str e"
  shows "\<exists>e'. expr_trans_compare (Some e) ty c = Some e'
    \<and> eval tri str e' = (if (eval tri str e = tri c) = (ty = E_EQUAL) then tyes else tno)"
  using assms(3,5,6)
proof (induction e arbitrary: ty)
  case (EAnd l r)
  from EAnd.IH(1)[of E_EQUAL] EAnd.IH(2)[of E_EQUAL] EAnd.prems assms(1,2) show ?case
    by (auto simp: expr_alloc_defs EXPR_AND_def split: if_splits)
next
  case (EOr l r)
  from EOr.IH(1)[of E_EQUAL] EOr.IH(2)[of E_EQUAL] EOr.prems assms(1,2) show ?case
    by (auto simp: expr_alloc_defs EXPR_OR_def split: if_splits)
next
  case (ENot l)
  have "eval tri str l \<noteq> tmod" using ENot.prems no_mod_eval by auto
  with ENot.IH[of "if ty = E_EQUAL then E_UNEQUAL else E_EQUAL"] ENot.prems assms(1,2)
  show ?case by (cases "eval tri str l") (auto split: if_splits)
next
  case (ESymbol y)
  with assms(1,2,4) show ?case
    by (elim disjE; cases "tri y"; simp add: expr_alloc_defs)
next
  case (EEqual a b)
  with assms(1,2) show ?case by (elim disjE; simp add: expr_alloc_defs)
next
  case (EUnequal a b)
  with assms(1,2) show ?case by (elim disjE; simp add: expr_alloc_defs)
qed simp_all

end
