(* ===== verification/Expr_Dups.thy ===== *)
theory Expr_Dups
  imports Expr
begin

text \<open>
  The elimination of repeated operands (\<open>expr_eliminate_dups\<close> and its two passes in
  \<open>adk/config/expr.c\<close>). The passes take two pointers into one tree (both start at its root and
  move to operands), and each rewrite through one pointer is seen through the other. The model
  keeps the whole tree and two positions in it; two pointers are the same when the positions
  are. The recursion runs on fuel, and \<open>None\<close> is running out of it.
\<close>

subsection \<open>Positions in a tree\<close>

datatype dir = L | R

type_synonym pos = "dir list"

fun sub :: "expr \<Rightarrow> pos \<Rightarrow> expr option" where
  "sub e [] = Some e"
| "sub (EAnd l r) (d # p) = sub (case d of L \<Rightarrow> l | R \<Rightarrow> r) p"
| "sub (EOr l r) (d # p) = sub (case d of L \<Rightarrow> l | R \<Rightarrow> r) p"
| "sub _ (d # p) = None"

fun put :: "expr \<Rightarrow> pos \<Rightarrow> expr \<Rightarrow> expr" where
  "put e [] x = x"
| "put (EAnd l r) (d # p) x = (case d of L \<Rightarrow> EAnd (put l p x) r | R \<Rightarrow> EAnd l (put r p x))"
| "put (EOr l r) (d # p) x = (case d of L \<Rightarrow> EOr (put l p x) r | R \<Rightarrow> EOr l (put r p x))"
| "put e (d # p) x = e"

subsection \<open>The two passes\<close>

text \<open>
  \<open>expr_eliminate_dups1\<close> on the operands at \<open>p1\<close> and \<open>p2\<close> of a tree, with \<open>trans_count\<close>.
\<close>

fun expr_eliminate_dups1 ::
  "(symref \<Rightarrow> symbol) \<Rightarrow> nat \<Rightarrow> expr_type \<Rightarrow> pos \<Rightarrow> pos \<Rightarrow> expr \<times> nat \<Rightarrow> (expr \<times> nat) option" where
  "expr_eliminate_dups1 tab 0 ty p1 p2 st = None"
| "expr_eliminate_dups1 tab (Suc n) ty p1 p2 st = do {
     e1 \<leftarrow> sub (fst st) p1;
     e2 \<leftarrow> sub (fst st) p2;
     if kids ty e1 \<noteq> None then do {
       st \<leftarrow> expr_eliminate_dups1 tab n ty (p1 @ [L]) p2 st;
       expr_eliminate_dups1 tab n ty (p1 @ [R]) p2 st }
     else if kids ty e2 \<noteq> None then do {
       st \<leftarrow> expr_eliminate_dups1 tab n ty p1 (p2 @ [L]) st;
       expr_eliminate_dups1 tab n ty p1 (p2 @ [R]) st }
     else if p1 = p2 then Some st
     else do {
       (t, tc) \<leftarrow> (if etype e1 = E_OR \<or> etype e1 = E_AND
                   then expr_eliminate_dups1 tab n (etype e1) p1 p1 st else Some st);
       e1 \<leftarrow> sub t p1;
       e2 \<leftarrow> sub t p2;
       Some (case ty of
         E_OR \<Rightarrow> (case expr_join_or tab e1 e2 of
             Some tmp \<Rightarrow> (put (put t p1 (expr_alloc_symbol symbol_no)) p2 tmp, Suc tc)
           | None \<Rightarrow> (t, tc))
       | E_AND \<Rightarrow> (case expr_join_and tab e1 e2 of
             Some tmp \<Rightarrow> (put (put t p1 (expr_alloc_symbol symbol_yes)) p2 tmp, Suc tc)
           | None \<Rightarrow> (t, tc))
       | _ \<Rightarrow> (t, tc)) }}"

text \<open>
  The test of the second pass: \<open>e1\<close> negated shares all its operands with \<open>e2\<close>, so that
  \<open>(FOO || BAR) && (!FOO && !BAR)\<close> is replaced by \<open>n\<close> (or, dually, a disjunction by \<open>y\<close>).
\<close>

definition dups2_or_test :: "(symref \<Rightarrow> symbol) \<Rightarrow> expr \<Rightarrow> expr \<Rightarrow> bool" where
  "dups2_or_test tab e1 e2 =
     (case expr_extract_eq_and (expr_transform tab (expr_alloc_one E_NOT e1)) e2 of
        (tmp, tmp1, tmp2) \<Rightarrow> expr_is_yes (Some tmp1))"

definition dups2_and_test :: "(symref \<Rightarrow> symbol) \<Rightarrow> expr \<Rightarrow> expr \<Rightarrow> bool" where
  "dups2_and_test tab e1 e2 =
     (case expr_extract_eq_or (expr_transform tab (expr_alloc_one E_NOT e1)) e2 of
        (tmp, tmp1, tmp2) \<Rightarrow> expr_is_no (Some tmp1))"

text \<open>
  \<open>expr_eliminate_dups2\<close>. After visiting the operands of \<open>e2\<close> it goes on with \<open>e1\<close> and the
  whole of \<open>e2\<close>: there is no \<open>return\<close> in that branch.
\<close>

fun expr_eliminate_dups2 ::
  "(symref \<Rightarrow> symbol) \<Rightarrow> nat \<Rightarrow> expr_type \<Rightarrow> pos \<Rightarrow> pos \<Rightarrow> expr \<times> nat \<Rightarrow> (expr \<times> nat) option" where
  "expr_eliminate_dups2 tab 0 ty p1 p2 st = None"
| "expr_eliminate_dups2 tab (Suc n) ty p1 p2 st = do {
     e1 \<leftarrow> sub (fst st) p1;
     e2 \<leftarrow> sub (fst st) p2;
     if kids ty e1 \<noteq> None then do {
       st \<leftarrow> expr_eliminate_dups2 tab n ty (p1 @ [L]) p2 st;
       expr_eliminate_dups2 tab n ty (p1 @ [R]) p2 st }
     else do {
       st \<leftarrow> (if kids ty e2 \<noteq> None then do {
           st \<leftarrow> expr_eliminate_dups2 tab n ty p1 (p2 @ [L]) st;
           expr_eliminate_dups2 tab n ty p1 (p2 @ [R]) st } else Some st);
       if p1 = p2 then Some st
       else do {
         e1 \<leftarrow> sub (fst st) p1;
         case etype e1 of
           E_OR \<Rightarrow> do {
             (t, tc) \<leftarrow> expr_eliminate_dups2 tab n E_OR p1 p1 st;
             e1 \<leftarrow> sub t p1;
             e2 \<leftarrow> sub t p2;
             Some (if dups2_or_test tab e1 e2
                   then (put t p1 (expr_alloc_symbol symbol_no), Suc tc) else (t, tc)) }
         | E_AND \<Rightarrow> do {
             (t, tc) \<leftarrow> expr_eliminate_dups2 tab n E_AND p1 p1 st;
             e1 \<leftarrow> sub t p1;
             e2 \<leftarrow> sub t p2;
             Some (if dups2_and_test tab e1 e2
                   then (put t p1 (expr_alloc_symbol symbol_yes), Suc tc) else (t, tc)) }
         | _ \<Rightarrow> Some st }}}"

text \<open>Fuel that suffices for a pass over a tree, and for the rounds of \<open>while (1)\<close>.\<close>

definition dups_fuel :: "expr \<Rightarrow> nat" where
  "dups_fuel e = 4 * Suc (esize e) * Suc (esize e)"

fun expr_eliminate_dups_loop :: "(symref \<Rightarrow> symbol) \<Rightarrow> nat \<Rightarrow> expr \<Rightarrow> expr option" where
  "expr_eliminate_dups_loop tab 0 e = None"
| "expr_eliminate_dups_loop tab (Suc n) e = do {
     (e', trans_count) \<leftarrow>
       (if etype e = E_OR \<or> etype e = E_AND then do {
          (t, tc) \<leftarrow> expr_eliminate_dups1 tab (dups_fuel e) (etype e) [] [] (e, 0);
          expr_eliminate_dups2 tab (dups_fuel e) (etype t) [] [] (t, tc) }
        else Some (e, 0));
     if trans_count = 0 then Some e'
     else expr_eliminate_dups_loop tab n (expr_eliminate_yn e') }"

definition expr_eliminate_dups :: "(symref \<Rightarrow> symbol) \<Rightarrow> expr \<Rightarrow> expr option" where
  "expr_eliminate_dups tab e = expr_eliminate_dups_loop tab (Suc (esize e)) e"

subsection \<open>Unmet dependencies\<close>

text \<open>Follows \<open>left.expr\<close>; at a comparison that is a symbol pointer, and the model stops.\<close>

primrec leftmost :: "expr \<Rightarrow> expr option" where
  "leftmost (ESymbol y) = Some (ESymbol y)"
| "leftmost (EAnd l r) = leftmost l"
| "leftmost (EOr l r) = leftmost l"
| "leftmost (ENot l) = leftmost l"
| "leftmost (EList l s) = None"
| "leftmost (EEqual a b) = None"
| "leftmost (EUnequal a b) = None"
| "leftmost (ERange a b) = None"
| "leftmost ENone = None"

definition expr_get_leftmost_symbol :: "expr option \<Rightarrow> expr option option" where
  "expr_get_leftmost_symbol e = (case e of None \<Rightarrow> Some None | Some x \<Rightarrow> map_option Some (leftmost x))"

fun expr_simplify_unmet_dep ::
  "(symref \<Rightarrow> symbol) \<Rightarrow> expr \<Rightarrow> expr \<Rightarrow> expr option option" where
  "expr_simplify_unmet_dep tab (EOr l r) e2 = do {
     a \<leftarrow> expr_simplify_unmet_dep tab l e2;
     b \<leftarrow> expr_simplify_unmet_dep tab r e2;
     Some (expr_alloc_and a b) }"
| "expr_simplify_unmet_dep tab (EAnd l r) e2 = do {
     c1 \<leftarrow> expr_copy (EAnd l r);
     c2 \<leftarrow> expr_copy e2;
     e \<leftarrow> expr_eliminate_dups tab (expr_alloc_two E_AND c1 c2);
     expr_get_leftmost_symbol (if \<not> expr_eq e (EAnd l r) then Some (EAnd l r) else None) }"
| "expr_simplify_unmet_dep tab e1 e2 = expr_get_leftmost_symbol (Some e1)"

end
