(* ===== verification/Expr_Join.thy ===== *)
theory Expr_Join
  imports Expr_Sem Expr_Dups
begin

text \<open>
  The joins of two operands, the extraction of common factors, the dependency tests and the
  elimination of repeated operands keep the values of the expressions they rewrite.
\<close>

subsection \<open>Joins\<close>

lemma join_sym1_cases [consumes 1]:
  assumes "join_sym1 e = Some a"
  obtains b where "e = EEqual a b" | b where "e = EUnequal a b" | "e = ESymbol a"
    | b where "e = ENot (EEqual a b)" | b where "e = ENot (EUnequal a b)" | "e = ENot (ESymbol a)"
  using assms by (cases e rule: join_sym1.cases) auto

lemma join_sym2_cases [consumes 1]:
  assumes "join_sym2 e = Some a"
  obtains b where "e = EEqual a b" | b where "e = EUnequal a b" | "e = ESymbol a"
    | "e = ENot (ESymbol a)"
  using assms by (cases e rule: join_sym2.cases) auto

lemma join_or_same:
  assumes "const_val tri" and "expr_eq e1 e2" and "expr_join_or tab e1 e2 = Some e"
  shows "eval tri str e = EXPR_OR (eval tri str e1) (eval tri str e2)"
  using assms eval_expr_eq[OF assms(1,2), of str]
  by (auto simp: expr_join_or_def expr_copy_eq split: if_splits)

lemma join_and_same:
  assumes "const_val tri" and "expr_eq e1 e2" and "expr_join_and tab e1 e2 = Some e"
  shows "eval tri str e = EXPR_AND (eval tri str e1) (eval tri str e2)"
  using assms eval_expr_eq[OF assms(1,2), of str]
  by (auto simp: expr_join_and_def expr_copy_eq split: if_splits)

lemma eval_join_or [val_simps]:
  assumes "typed_val tab tri str" and "expr_join_or tab e1 e2 = Some e"
  shows "eval tri str e = EXPR_OR (eval tri str e1) (eval tri str e2)"
proof (cases "expr_eq e1 e2")
  case True
  with assms show ?thesis using join_or_same typed_valD(1) by blast
next
  case False
  with assms(2) obtain a where a: "join_sym1 e1 = Some a" "join_sym2 e2 = Some a"
    by (auto simp: expr_join_or_def split: option.splits if_splits)
  note v = typed_valD(1-4)[OF assms(1)] typed_valD(5,6,7)[OF assms(1), of a]
  from a(1) show ?thesis
    by (cases rule: join_sym1_cases) (use a(2) assms(2) v False in \<open>cases "tri a";
        cases e2 rule: join_sym2.cases; auto simp: expr_join_or_def expr_alloc_defs split: if_splits\<close>)+
qed

lemma eval_join_and [val_simps]:
  assumes "typed_val tab tri str" and "expr_join_and tab e1 e2 = Some e"
  shows "eval tri str e = EXPR_AND (eval tri str e1) (eval tri str e2)"
proof (cases "expr_eq e1 e2")
  case True
  with assms show ?thesis using join_and_same typed_valD(1) by blast
next
  case False
  with assms(2) obtain a where a: "join_sym1 e1 = Some a" "join_sym2 e2 = Some a"
    by (auto simp: expr_join_and_def split: option.splits if_splits)
  note v = typed_valD(1-4)[OF assms(1)] typed_valD(5,6,7)[OF assms(1), of a]
  note cs = typed_valD(8)[OF assms(1)]
  from a(1) show ?thesis
  proof (cases rule: join_sym1_cases)
    case (1 b)
    with a(2) assms(2) v False show ?thesis
      by (cases "tri a"; cases e2 rule: join_sym2.cases)
        (auto simp: expr_join_and_def expr_alloc_defs dest: cs split: if_splits)
  next
    case (2 b)
    with a(2) assms(2) v False show ?thesis
      by (cases "tri a"; cases e2 rule: join_sym2.cases)
        (auto simp: expr_join_and_def expr_alloc_defs dest: cs split: if_splits)
  qed (use a(2) assms(2) v False in \<open>cases "tri a"; cases e2 rule: join_sym2.cases;
        auto simp: expr_join_and_def expr_alloc_defs split: if_splits\<close>)+
qed

subsection \<open>Common factors\<close>

text \<open>The factor pulled out so far, a neutral element when there is none.\<close>

definition factor ::
  "(symref \<Rightarrow> tristate) \<Rightarrow> (symref \<Rightarrow> string) \<Rightarrow> expr_type \<Rightarrow> expr option \<Rightarrow> tristate" where
  "factor tri str ty ep = (case ep of None \<Rightarrow> conn_unit ty | Some x \<Rightarrow> eval tri str x)"

lemma extract_sound:
  assumes "const_val tri" and "ty = E_OR \<or> ty = E_AND" and "expr_extract_eq ty ep e1 e2 = (f, a, b)"
  shows "conn ty (factor tri str ty ep) (eval tri str e1)
       = conn ty (factor tri str ty f) (eval tri str a)
    \<and> conn ty (factor tri str ty ep) (eval tri str e2)
       = conn ty (factor tri str ty f) (eval tri str b)"
  using assms(2,3)
proof (induction ty ep e1 e2 arbitrary: f a b rule: expr_extract_eq.induct)
  case (1 ty ep e1 e2)
  note eq = 1(6)
  show ?case
  proof (cases "kids ty e1")
    case (Some p)
    obtain l r where p: "(l, r) = p" by (metis surj_pair)
    obtain k x y where A: "expr_extract_eq ty ep l e2 = (k, x, y)" by (metis prod_cases3)
    obtain k' x' y' where B: "expr_extract_eq ty k r y = (k', x', y')" by (metis prod_cases3)
    from eq Some p A B have ab: "a = expr_alloc_two ty x x'" "b = y'" "f = k'"
      by (auto simp: expr_extract_eq.simps)
    note IH = 1(3)[OF Some p 1(5) A] 1(4)[OF Some p A[symmetric] refl 1(5) B]
    have e1: "kids ty e1 = Some (l, r)" using Some p by simp
    have a: "eval tri str a = conn ty (eval tri str x) (eval tri str x')"
      using ab Some by (simp add: eval_alloc_two[where e = e1])
    show ?thesis unfolding a eval_kids[OF e1] using IH ab by (metis conn_laws(1,2))
  next
    case N: None
    show ?thesis
    proof (cases "kids ty e2")
      case (Some p)
      obtain l r where p: "(l, r) = p" by (metis surj_pair)
      obtain k x y where A: "expr_extract_eq ty ep e1 l = (k, x, y)" by (metis prod_cases3)
      obtain k' x' y' where B: "expr_extract_eq ty k x r = (k', x', y')" by (metis prod_cases3)
      from eq N Some p A B have ab: "a = x'" "b = expr_alloc_two ty y y'" "f = k'"
        by (auto simp: expr_extract_eq.simps)
      note IH = 1(1)[OF N Some p 1(5) A] 1(2)[OF N Some p A[symmetric] refl 1(5) B]
      have e2: "kids ty e2 = Some (l, r)" using Some p by simp
      have b: "eval tri str b = conn ty (eval tri str y) (eval tri str y')"
        using ab Some by (simp add: eval_alloc_two[where e = e2])
      show ?thesis unfolding b eval_kids[OF e2] using IH ab by (metis conn_laws(1,2))
    next
      case None
      have "expr_eq e1 e2 \<Longrightarrow> eval tri str e1 = eval tri str e2"
        using assms(1) by (rule eval_expr_eq)
      with eq N None 1(5) assms(1) show ?thesis
        by (auto simp: expr_extract_eq.simps expr_alloc_defs Let_def factor_def conn_def
            conn_unit_def split: if_splits option.splits)
    qed
  qed
qed

lemma extract_and_parts:
  "expr_extract_eq_and e1 e2 = (f, a, b) \<Longrightarrow> \<exists>x y. expr_extract_eq E_AND None e1 e2 = (f, x, y)
     \<and> (a, b) = (if f \<noteq> None then (expr_eliminate_yn x, expr_eliminate_yn y) else (x, y))"
  by (auto simp: expr_extract_eq_and_def split: prod.splits if_splits)

lemma extract_or_parts:
  "expr_extract_eq_or e1 e2 = (f, a, b) \<Longrightarrow> \<exists>x y. expr_extract_eq E_OR None e1 e2 = (f, x, y)
     \<and> (a, b) = (if f \<noteq> None then (expr_eliminate_yn x, expr_eliminate_yn y) else (x, y))"
  by (auto simp: expr_extract_eq_or_def split: prod.splits if_splits)

lemma extract_and_or_sound:
  assumes "const_val tri"
  shows "(expr_extract_eq_and e1 e2 = (f, a, b) \<longrightarrow>
      eval tri str e1 = EXPR_AND (eval_opt tri str f) (eval tri str a)
      \<and> eval tri str e2 = EXPR_AND (eval_opt tri str f) (eval tri str b))
    \<and> (expr_extract_eq_or e1 e2 = (f, a, b) \<longrightarrow>
      eval tri str e1 = EXPR_OR (case f of None \<Rightarrow> tno | Some x \<Rightarrow> eval tri str x) (eval tri str a)
      \<and> eval tri str e2 = EXPR_OR (case f of None \<Rightarrow> tno | Some x \<Rightarrow> eval tri str x) (eval tri str b))"
proof (intro conjI impI)
  assume "expr_extract_eq_and e1 e2 = (f, a, b)"
  then obtain x y where "expr_extract_eq E_AND None e1 e2 = (f, x, y)"
    and ab: "(a, b) = (if f \<noteq> None then (expr_eliminate_yn x, expr_eliminate_yn y) else (x, y))"
    using extract_and_parts by blast
  from extract_sound[OF assms _ this(1), of str] ab assms
  show "eval tri str e1 = EXPR_AND (eval_opt tri str f) (eval tri str a)"
    and "eval tri str e2 = EXPR_AND (eval_opt tri str f) (eval tri str b)"
    by (auto simp: factor_def conn_def conn_unit_def eval_opt_def val_simps split: option.splits if_splits)
next
  assume "expr_extract_eq_or e1 e2 = (f, a, b)"
  then obtain x y where "expr_extract_eq E_OR None e1 e2 = (f, x, y)"
    and ab: "(a, b) = (if f \<noteq> None then (expr_eliminate_yn x, expr_eliminate_yn y) else (x, y))"
    using extract_or_parts by blast
  from extract_sound[OF assms _ this(1), of str] ab assms
  show "eval tri str e1 = EXPR_OR (case f of None \<Rightarrow> tno | Some x \<Rightarrow> eval tri str x) (eval tri str a)"
    and "eval tri str e2 = EXPR_OR (case f of None \<Rightarrow> tno | Some x \<Rightarrow> eval tri str x) (eval tri str b)"
    by (auto simp: factor_def conn_def conn_unit_def val_simps split: option.splits if_splits)
qed

end
