(* ===== verification/Expr_Dups_Sound.thy ===== *)
theory Expr_Dups_Sound
  imports Expr_Join
begin

text \<open>
  The elimination of repeated operands ends within the fuel it is given, never enlarges the
  expression, and keeps its value unless that value is \<open>m\<close>. The operands of a connective are
  the leaves of a skeleton that neither pass changes; positions are positions of the skeleton.
\<close>

subsection \<open>Subtrees\<close>

lemma sub_append: "sub e (p @ q) = Option.bind (sub e p) (\<lambda>x. sub x q)"
  by (induction e p rule: sub.induct) auto

lemma put_append: "sub e p = Some x \<Longrightarrow> put e (p @ q) y = put e p (put x q y)"
  by (induction e p rule: sub.induct) (auto split: dir.splits)

lemma sub_put: "sub e p = Some x \<Longrightarrow> sub (put e p y) (p @ q) = sub y q"
  by (induction e p rule: sub.induct) (auto split: dir.splits)

lemma put_put: "sub e p = Some x \<Longrightarrow> put (put e p y) p z = put e p z"
  by (induction e p rule: sub.induct) (auto split: dir.splits)

lemma put_self: "sub e p = Some x \<Longrightarrow> put e p x = e"
  by (induction e p rule: sub.induct) (auto split: dir.splits)

lemma esize_put: "sub e p = Some x \<Longrightarrow> esize (put e p y) + esize x = esize e + esize y"
  by (induction e p rule: sub.induct) (auto split: dir.splits)

lemma esize_sub: "sub e p = Some x \<Longrightarrow> esize x \<le> esize e \<and> (p \<noteq> [] \<longrightarrow> esize x < esize e)"
  by (induction e p rule: sub.induct) (force split: dir.splits)+

lemma yn_free_sub: "yn_free e \<Longrightarrow> sub e p = Some x \<Longrightarrow> yn_free x"
  by (induction e p rule: sub.induct) (auto split: dir.splits)

lemma not_yn_free_sub:
  "sub e p = Some (ESymbol y) \<Longrightarrow> p \<noteq> [] \<Longrightarrow> y \<in> {symbol_yes, symbol_no} \<Longrightarrow> \<not> yn_free e"
proof (induction e p rule: sub.induct)
  case (2 l r d p)
  then show ?case by (cases p; cases d) auto
next
  case (3 l r d p)
  then show ?case by (cases p; cases d) auto
qed auto

subsection \<open>Skeletons\<close>

fun skel :: "expr_type \<Rightarrow> expr \<Rightarrow> expr" where
  "skel E_OR (EOr l r) = EOr (skel E_OR l) (skel E_OR r)"
| "skel E_AND (EAnd l r) = EAnd (skel E_AND l) (skel E_AND r)"
| "skel _ _ = ENone"

lemma skel_leaf: "skel ty e = ENone \<longleftrightarrow> kids ty e = None"
  by (cases "(ty, e)" rule: skel.cases) auto

lemma skel_kids: "kids ty e = Some (l, r) \<Longrightarrow> skel ty e = expr_alloc_two ty (skel ty l) (skel ty r)"
  by (auto simp: kids_Some expr_alloc_two_def)

lemma esize_skel: "esize (skel ty e) \<le> esize e"
  by (induction ty e rule: skel.induct) auto

lemma skel_sub: "sub (skel ty e) p = Some k \<Longrightarrow> \<exists>x. sub e p = Some x \<and> skel ty x = k"
proof (induction p arbitrary: e)
  case (Cons d p)
  then show ?case by (cases "(ty, e)" rule: skel.cases; cases d) auto
qed simp

lemma sub_skel: "sub (skel ty e) p \<noteq> None \<Longrightarrow> sub e p = Some x \<Longrightarrow> sub (skel ty e) p = Some (skel ty x)"
  using skel_sub by fastforce

lemma skel_put:
  "sub (skel ty e) p = Some (skel ty x) \<Longrightarrow> skel ty (put e p x) = skel ty e"
proof (induction p arbitrary: e)
  case (Cons d p)
  then show ?case by (cases "(ty, e)" rule: skel.cases; cases d) auto
qed auto

lemma skel_kids_path:
  assumes "sub (skel ty e) p = Some (skel ty x)" "kids ty x = Some (l, r)"
  shows "sub (skel ty e) (p @ [L]) = Some (skel ty l)" "sub (skel ty e) (p @ [R]) = Some (skel ty r)"
    "esize (skel ty x) = Suc (esize (skel ty l) + esize (skel ty r))"
  using assms by (auto simp: sub_append kids_Some)

text \<open>Two different leaves of a skeleton do not overlap.\<close>

lemma sub_put_other:
  "sub (skel ty e) a = Some ENone \<Longrightarrow> sub (skel ty e) b = Some ENone \<Longrightarrow> a \<noteq> b \<Longrightarrow>
   sub (put e a x) b = sub e b"
proof (induction a arbitrary: b e)
  case Nil
  then show ?case by (cases b) auto
next
  case (Cons d a)
  then show ?case by (cases "(ty, e)" rule: skel.cases; cases d; cases b) (auto split: dir.splits)
qed

subsection \<open>Values through a position\<close>

lemma one_hole:
  "sub (skel ty t) p \<noteq> None \<Longrightarrow> sub t p = Some e \<Longrightarrow>
   \<exists>c. eval tri str t = conn ty c (eval tri str e) \<and> (\<forall>x. eval tri str (put t p x) = conn ty c (eval tri str x))"
proof (induction p arbitrary: t)
  case Nil
  then show ?case by (intro exI[of _ "conn_unit ty"]) (simp add: conn_laws)
next
  case (Cons d p)
  then obtain l r where k: "kids ty t = Some (l, r)" by (cases "(ty, t)" rule: skel.cases) auto
  let ?u = "case d of L \<Rightarrow> l | R \<Rightarrow> r" and ?o = "case d of L \<Rightarrow> r | R \<Rightarrow> l"
  have s: "sub (skel ty ?u) p \<noteq> None" "sub ?u p = Some e"
    using Cons.prems k by (auto simp: kids_Some split: dir.splits)
  from Cons.IH[OF s] obtain c where c: "eval tri str ?u = conn ty c (eval tri str e)"
    "\<And>x. eval tri str (put ?u p x) = conn ty c (eval tri str x)" by blast
  have "eval tri str t = conn ty (eval tri str ?o) (eval tri str ?u)"
    using k eval_kids[OF k] conn_laws(1) by (cases d) auto
  moreover have "eval tri str (put t (d # p) x) = conn ty (eval tri str ?o) (eval tri str (put ?u p x))" for x
    using k conn_laws(1) by (cases d) (auto simp: kids_Some conn_def EXPR_comm)
  ultimately show ?case using c
    by (intro exI[of _ "conn ty (eval tri str ?o) c"]) (simp add: conn_laws(2))
qed

lemma two_holes:
  assumes "sub (skel ty t) a = Some ENone" "sub (skel ty t) b = Some ENone" "a \<noteq> b"
    and "sub t a = Some e1" "sub t b = Some e2"
    and "eval tri str u = conn_unit ty" "eval tri str y = conn ty (eval tri str e1) (eval tri str e2)"
  shows "eval tri str (put (put t a u) b y) = eval tri str t"
  using assms(1-5)
proof (induction a arbitrary: b t)
  case Nil
  then show ?case by (cases b) auto
next
  case (Cons d a)
  then obtain l r where k: "kids ty t = Some (l, r)" by (cases "(ty, t)" rule: skel.cases) auto
  then obtain d' b' where b: "b = d' # b'" using Cons.prems by (cases b) (auto simp: kids_Some)
  show ?case
  proof (cases "d = d'")
    case True
    then have "eval tri str (put (put (case d of L \<Rightarrow> l | R \<Rightarrow> r) a u) b' y)
        = eval tri str (case d of L \<Rightarrow> l | R \<Rightarrow> r)"
      using Cons.prems k b by (intro Cons.IH) (auto simp: kids_Some split: dir.splits)
    then show ?thesis using k b True by (cases d) (auto simp: kids_Some)
  next
    case False
    let ?x = "case d of L \<Rightarrow> l | R \<Rightarrow> r" and ?z = "case d of L \<Rightarrow> r | R \<Rightarrow> l"
    have x: "sub (skel ty ?x) a \<noteq> None" "sub ?x a = Some e1"
      and z: "sub (skel ty ?z) b' \<noteq> None" "sub ?z b' = Some e2"
      using Cons.prems k b False by (cases d; cases d'; auto simp: kids_Some)+
    obtain c where c: "eval tri str ?x = conn ty c (eval tri str e1)"
      "eval tri str (put ?x a u) = conn ty c (eval tri str u)" using one_hole[OF x] by blast
    obtain c' where c': "eval tri str ?z = conn ty c' (eval tri str e2)"
      "eval tri str (put ?z b' y) = conn ty c' (eval tri str y)" using one_hole[OF z] by blast
    have "eval tri str (put (put t (d # a) u) b y)
        = conn ty (eval tri str (put ?x a u)) (eval tri str (put ?z b' y))"
      using k b False by (cases d; cases d') (auto simp: kids_Some conn_def EXPR_comm)
    also have "\<dots> = conn ty (eval tri str ?x) (eval tri str ?z)"
      unfolding c c' assms(6,7) by (simp add: conn_laws)
    also have "\<dots> = eval tri str t"
      using k by (cases d) (auto simp: kids_Some conn_def EXPR_comm)
    finally show ?thesis .
  qed
qed

subsection \<open>What a pass keeps\<close>

text \<open>Values agree, or the old one is \<open>m\<close>.\<close>

definition agree :: "tristate \<Rightarrow> tristate \<Rightarrow> bool" where
  "agree a b \<longleftrightarrow> a = tmod \<or> b = a"

lemma agree_trans: "agree a b \<Longrightarrow> agree b c \<Longrightarrow> agree a c"
  by (auto simp: agree_def)

lemma agree_conn: "agree a b \<Longrightarrow> agree (conn ty c a) (conn ty c b)"
  by (cases a; cases b; cases c)
    (auto simp: agree_def conn_def EXPR_AND_def EXPR_OR_def less_tristate_def)

definition pass_rel ::
  "(symref \<Rightarrow> symbol) \<Rightarrow> expr_type \<Rightarrow> expr \<times> nat \<Rightarrow> expr \<times> nat \<Rightarrow> bool" where
  "pass_rel tab ty st st' \<longleftrightarrow> skel ty (fst st') = skel ty (fst st)
     \<and> esize (fst st') \<le> esize (fst st) \<and> snd st \<le> snd st'
     \<and> (snd st' = snd st \<longrightarrow> fst st' = fst st) \<and> (snd st < snd st' \<longrightarrow> \<not> yn_free (fst st'))
     \<and> (\<forall>tri str. typed_val tab tri str \<longrightarrow> agree (eval tri str (fst st)) (eval tri str (fst st')))"

lemma pass_rel_refl [simp]: "pass_rel tab ty st st"
  by (simp add: pass_rel_def agree_def)

lemma pass_rel_trans: "pass_rel tab ty a b \<Longrightarrow> pass_rel tab ty b c \<Longrightarrow> pass_rel tab ty a c"
proof -
  assume a: "pass_rel tab ty a b" and b: "pass_rel tab ty b c"
  show ?thesis
  proof (cases "snd c = snd b")
    case True
    then have "fst c = fst b" using b by (simp add: pass_rel_def)
    then have "c = b" using True by (simp add: prod_eq_iff)
    then show ?thesis using a by simp
  next
    case False
    then have lt: "snd b < snd c" using b by (simp add: pass_rel_def)
    have "agree (eval tri str (fst a)) (eval tri str (fst c))" if "typed_val tab tri str" for tri str
      using a b that agree_trans unfolding pass_rel_def by blast
    with a b lt show ?thesis by (auto simp: pass_rel_def)
  qed
qed

text \<open>A pass over the operands of another connective, inside a leaf of the skeleton.\<close>

lemma pass_rel_inside:
  assumes "sub (skel ty t) p = Some ENone" "sub t p = Some e" "kids ty2 e \<noteq> None" "p \<noteq> [] "
    and "pass_rel tab ty2 (e, tc) (e', tc')"
  shows "pass_rel tab ty (t, tc) (put t p e', tc') \<and> skel ty e' = ENone"
proof -
  have se: "skel ty e = ENone" using sub_skel[OF _ assms(2)] assms(1) by fastforce
  have "skel ty2 e' = skel ty2 e" using assms(5) by (simp add: pass_rel_def)
  then have "kids ty2 e' \<noteq> None" using assms(3) skel_leaf by metis
  then have "etype e' = etype e" using kids_etypeD assms(3) by metis
  then have se': "skel ty e' = ENone"
    using se skel_leaf kids_etypeD kids_etype by metis
  have "skel ty (put t p e') = skel ty t" using assms(1) se' by (intro skel_put) simp
  moreover have "esize (put t p e') \<le> esize t" using esize_put[OF assms(2), of e'] assms(5)
    by (simp add: pass_rel_def)
  moreover have "tc' = tc \<longrightarrow> put t p e' = t" using put_self[OF assms(2)] assms(5)
    by (auto simp: pass_rel_def)
  moreover have "tc < tc' \<longrightarrow> \<not> yn_free (put t p e')"
    using yn_free_sub[of "put t p e'" p e'] sub_put[OF assms(2), of e' "[]"] assms(5)
    by (auto simp: pass_rel_def)
  moreover have "agree (eval tri str t) (eval tri str (put t p e'))" if "typed_val tab tri str" for tri str
  proof -
    obtain c where "eval tri str t = conn ty c (eval tri str e)"
      "eval tri str (put t p e') = conn ty c (eval tri str e')"
      using one_hole[of ty t p e tri str] assms(1,2) by auto
    then show ?thesis using assms(5) that agree_conn by (simp add: pass_rel_def)
  qed
  ultimately show ?thesis using assms(5) se' by (simp add: pass_rel_def)
qed

subsection \<open>The first pass\<close>

lemma dups1_local:
  "sub T q = Some t \<Longrightarrow> expr_eliminate_dups1 tab n ty (q @ a) (q @ b) (T, tc)
     = map_option (\<lambda>(t', k). (put T q t', k)) (expr_eliminate_dups1 tab n ty a b (t, tc))"
proof (induction n arbitrary: ty a b T t tc)
  case (Suc n)
  have sub: "sub T (q @ p) = sub t p" for p using Suc.prems by (simp add: sub_append)
  have IH: "expr_eliminate_dups1 tab n ty (q @ a) (q @ b) (put T q u, k)
     = map_option (\<lambda>(t', k). (put T q t', k)) (expr_eliminate_dups1 tab n ty a b (u, k))" for ty a b u k
    using Suc.IH[of "put T q u" u ty a b k] sub_put[OF Suc.prems, of u "[]"]
    by (simp add: put_put[OF Suc.prems])
  note IH0 = IH[of _ _ _ t, unfolded put_self[OF Suc.prems]]
  show ?case
  proof (cases "sub t a = None \<or> sub t b = None")
    case True
    then show ?thesis by (auto simp: sub)
  next
    case False
    then obtain e1 e2 where e: "sub t a = Some e1" "sub t b = Some e2" by auto
    consider "kids ty e1 \<noteq> None" | "kids ty e1 = None" "kids ty e2 \<noteq> None"
      | "kids ty e1 = None" "kids ty e2 = None" by blast
    then show ?thesis
    proof cases
      case 1
      then show ?thesis
        by (cases "expr_eliminate_dups1 tab n ty (a @ [L]) b (t, tc)") (auto simp: sub e IH0 IH)
    next
      case 2
      then show ?thesis
        by (cases "expr_eliminate_dups1 tab n ty a (b @ [L]) (t, tc)") (auto simp: sub e IH0 IH)
    next
      case 3
      show ?thesis
      proof (cases "a = b")
        case True
        then show ?thesis using 3 by (simp add: sub e put_self[OF Suc.prems])
      next
        case False
        let ?in = "if etype e1 = E_OR \<or> etype e1 = E_AND
          then expr_eliminate_dups1 tab n (etype e1) a a (t, tc) else Some (t, tc)"
        have in': "(if etype e1 = E_OR \<or> etype e1 = E_AND
            then expr_eliminate_dups1 tab n (etype e1) (q @ a) (q @ a) (T, tc) else Some (T, tc))
          = map_option (\<lambda>(t', k). (put T q t', k)) ?in"
          by (simp add: IH0 put_self[OF Suc.prems])
        show ?thesis
        proof (cases ?in)
          case None
          with 3 False in' show ?thesis by (simp add: sub e)
        next
          case (Some r)
          obtain u k where r: "r = (u, k)" by fastforce
          have s: "sub (put T q u) (q @ p) = sub u p" for p using sub_put[OF Suc.prems] .
          have pp: "put (put T q u) (q @ p) x = put T q (put u p x)" for p x
            using put_append[of "put T q u" q u p x] s[of "[]"] put_put[OF Suc.prems] by simp
          have s': "sub (put T q w) (q @ p) = sub w p" for p w using sub_put[OF Suc.prems] .
          have pp': "put (put T q w) (q @ p) x = put T q (put w p x)" for p x w
            using put_append[of "put T q w" q w p x] s'[of w "[]"] put_put[OF Suc.prems] by simp
          from Some r in' 3 False show ?thesis
            by (cases "sub u a"; cases "sub u b")
              (simp_all add: sub e s pp' split: expr_type.split option.split)
        qed
      qed
    qed
  qed
qed simp

lemma leaf_nonempty: "kids ty t \<noteq> None \<Longrightarrow> sub (skel ty t) p = Some ENone \<Longrightarrow> p \<noteq> []"
  using skel_leaf[of ty t] by auto

lemma replace_step:
  assumes "kids ty t \<noteq> None" "sub (skel ty t) a = Some ENone" "sub (skel ty t) b = Some ENone" "a \<noteq> b"
    and "sub t a = Some e1" "sub t b = Some e2" "skel ty tmp = ENone" "esize tmp \<le> esize e1"
    and "y = (if ty = E_AND then symbol_yes else symbol_no)"
    and "\<And>tri str. typed_val tab tri str \<Longrightarrow> eval tri str tmp = conn ty (eval tri str e1) (eval tri str e2)"
  shows "pass_rel tab ty (t, tc) (put (put t a (ESymbol y)) b tmp, Suc tc)"
proof -
  let ?t = "put t a (ESymbol y)"
  have sk: "skel ty ?t = skel ty t" using assms(2) by (intro skel_put) (cases ty; simp)
  have sb: "sub ?t b = Some e2" using sub_put_other[OF assms(2-4)] assms(6) by simp
  have sk2: "skel ty (put ?t b tmp) = skel ty t"
    using skel_put[of ty ?t b tmp] sk assms(3,7) by simp
  have "sub (put ?t b tmp) a = sub ?t a"
    using sub_put_other[of ty ?t b a tmp] sk assms(2-4) by simp
  also have "\<dots> = Some (ESymbol y)" using sub_put[OF assms(5), of "ESymbol y" "[]"] by simp
  finally have "\<not> yn_free (put ?t b tmp)"
    by (rule not_yn_free_sub) (use leaf_nonempty[OF assms(1,2)] assms(9) in auto)
  moreover have "esize (put ?t b tmp) \<le> esize t"
  proof -
    have "esize (ESymbol y) = 1" "1 \<le> esize e2" by simp_all
    then show ?thesis
      using esize_put[OF assms(5), of "ESymbol y"] esize_put[OF sb, of tmp] assms(8) by linarith
  qed
  moreover have "eval tri str (put ?t b tmp) = eval tri str t" if "typed_val tab tri str" for tri str
    by (rule two_holes[OF assms(2-6)])
      (use typed_valD(1)[OF that] assms(9,10) that in \<open>auto simp: conn_unit_def\<close>)
  ultimately show ?thesis using sk2 by (simp add: pass_rel_def agree_def)
qed

lemma join_or_cases:
  "expr_join_or tab e1 e2 = Some e \<Longrightarrow> e = e1 \<or> (\<exists>x c. e = EEqual x c \<or> e = EUnequal x c \<or> e = ESymbol x)"
  by (auto simp: expr_join_or_def expr_copy_eq expr_alloc_defs split: if_splits option.splits)

lemma join_and_cases:
  "expr_join_and tab e1 e2 = Some e \<Longrightarrow> e = e1 \<or> (\<exists>x c. e = EEqual x c \<or> e = EUnequal x c \<or> e = ESymbol x)"
  by (cases e1; cases e2)
    (auto simp: expr_join_and_def expr_copy_eq expr_alloc_defs split: if_splits option.splits)

lemma dups1_ends:
  "kids ty t \<noteq> None \<Longrightarrow> sub (skel ty t) a = Some ka \<Longrightarrow> sub (skel ty t) b = Some kb \<Longrightarrow>
   1 + esize ka + esize kb + esize t * esize t \<le> n \<Longrightarrow>
   \<exists>st. expr_eliminate_dups1 tab n ty a b (t, tc) = Some st \<and> pass_rel tab ty (t, tc) st"
proof (induction n arbitrary: ty a b t tc ka kb)
  case (Suc n)
  obtain e1 e2 where e: "sub t a = Some e1" "skel ty e1 = ka" "sub t b = Some e2" "skel ty e2 = kb"
    using skel_sub Suc.prems(2,3) by metis
  \<comment> \<open>Two calls, one after the other.\<close>
  have two: "\<exists>st. Option.bind (expr_eliminate_dups1 tab n ty a1 b1 (t, tc)) (expr_eliminate_dups1 tab n ty a2 b2)
      = Some st \<and> pass_rel tab ty (t, tc) st"
    if "sub (skel ty t) a1 = Some k1" "sub (skel ty t) b1 = Some k2"
      "sub (skel ty t) a2 = Some k3" "sub (skel ty t) b2 = Some k4"
      "1 + esize k1 + esize k2 + esize t * esize t \<le> n" "1 + esize k3 + esize k4 + esize t * esize t \<le> n"
    for a1 b1 a2 b2 k1 k2 k3 k4
  proof -
    note pos = that
    obtain t1 c1 where 1: "expr_eliminate_dups1 tab n ty a1 b1 (t, tc) = Some (t1, c1)"
      "pass_rel tab ty (t, tc) (t1, c1)" using Suc.IH[OF Suc.prems(1) pos(1,2,5)] by (metis surj_pair)
    have sk: "skel ty t1 = skel ty t" and sz: "esize t1 \<le> esize t" using 1(2) by (auto simp: pass_rel_def)
    have k: "kids ty t1 \<noteq> None" using sk skel_leaf Suc.prems(1) by metis
    have "esize t1 * esize t1 \<le> esize t * esize t" using sz by (rule mult_le_mono) (rule sz)
    then have f: "1 + esize k3 + esize k4 + esize t1 * esize t1 \<le> n" using pos(6) by linarith
    have "\<exists>st. expr_eliminate_dups1 tab n ty a2 b2 (t1, c1) = Some st \<and> pass_rel tab ty (t1, c1) st"
      using pos(3,4) by (intro Suc.IH[OF k _ _ f]) (simp_all add: sk)
    with 1 pass_rel_trans show ?thesis by fastforce
  qed
  consider (a) l r where "kids ty e1 = Some (l, r)" | (b) l r where "kids ty e1 = None" "kids ty e2 = Some (l, r)"
    | (leaf) "kids ty e1 = None" "kids ty e2 = None" by (metis option.exhaust surj_pair)
  then show ?case
  proof cases
    case a
    have k: "sub (skel ty t) (a @ [L]) = Some (skel ty l)" "sub (skel ty t) (a @ [R]) = Some (skel ty r)"
      "esize ka = Suc (esize (skel ty l) + esize (skel ty r))"
      using skel_kids_path[of ty t a e1 l r] Suc.prems(2) e(2) a by auto
    have "\<exists>st. Option.bind (expr_eliminate_dups1 tab n ty (a @ [L]) b (t, tc))
        (expr_eliminate_dups1 tab n ty (a @ [R]) b) = Some st \<and> pass_rel tab ty (t, tc) st"
      by (rule two[OF k(1) Suc.prems(3) k(2) Suc.prems(3)]) (use Suc.prems(4) k(3) in auto)
    then show ?thesis using e a by simp
  next
    case b
    have k: "sub (skel ty t) (b @ [L]) = Some (skel ty l)" "sub (skel ty t) (b @ [R]) = Some (skel ty r)"
      "esize kb = Suc (esize (skel ty l) + esize (skel ty r))"
      using skel_kids_path[of ty t b e2 l r] Suc.prems(3) e(4) b by auto
    have "\<exists>st. Option.bind (expr_eliminate_dups1 tab n ty a (b @ [L]) (t, tc))
        (expr_eliminate_dups1 tab n ty a (b @ [R])) = Some st \<and> pass_rel tab ty (t, tc) st"
      by (rule two[OF Suc.prems(2) k(1) Suc.prems(2) k(2)]) (use Suc.prems(4) k(3) in auto)
    then show ?thesis using e b by simp
  next
    case leaf
    show ?thesis
    proof (cases "a = b")
      case True
      then show ?thesis using e leaf by simp
    next
      case False
      have s: "sub (skel ty t) a = Some ENone" "sub (skel ty t) b = Some ENone"
        using Suc.prems(2,3) e leaf skel_leaf by metis+
      have ne: "a \<noteq> []" by (rule leaf_nonempty[OF Suc.prems(1) s(1)])
      have "\<exists>t1 c1. (if etype e1 = E_OR \<or> etype e1 = E_AND
            then expr_eliminate_dups1 tab n (etype e1) a a (t, tc) else Some (t, tc)) = Some (t1, c1)
          \<and> pass_rel tab ty (t, tc) (t1, c1)"
      proof (cases "etype e1 = E_OR \<or> etype e1 = E_AND")
        case True
        let ?u = "etype e1"
        have k: "kids ?u e1 \<noteq> None" using kids_of_etype True by blast
        have lt: "esize e1 < esize t" using esize_sub[OF e(1)] ne by blast
        have "(1 + esize e1) * (1 + esize e1) \<le> esize t * esize t" using lt by (intro mult_le_mono) auto
        then have f: "1 + esize (skel ?u e1) + esize (skel ?u e1) + esize e1 * esize e1 \<le> n"
          using Suc.prems(4) esize_skel[of ?u e1] by simp
        obtain e' c where r: "expr_eliminate_dups1 tab n ?u [] [] (e1, tc) = Some (e', c)"
          "pass_rel tab ?u (e1, tc) (e', c)"
          using Suc.IH[of ?u e1 "[]" "skel ?u e1" "[]" "skel ?u e1" tc] k f by auto
        then have "expr_eliminate_dups1 tab n ?u a a (t, tc) = Some (put t a e', c)"
          using dups1_local[OF e(1), of tab n ?u "[]" "[]" tc] by simp
        then show ?thesis using pass_rel_inside[OF s(1) e(1) k ne r(2)] True by auto
      qed simp
      then obtain t1 c1 where in1: "(if etype e1 = E_OR \<or> etype e1 = E_AND
            then expr_eliminate_dups1 tab n (etype e1) a a (t, tc) else Some (t, tc)) = Some (t1, c1)"
        and rel: "pass_rel tab ty (t, tc) (t1, c1)" by blast
      have sk: "skel ty t1 = skel ty t" using rel by (simp add: pass_rel_def)
      obtain x1 x2 where x: "sub t1 a = Some x1" "sub t1 b = Some x2" "skel ty x1 = ENone"
        using skel_sub[of ty t1] s sk by metis
      have k1: "kids ty t1 \<noteq> None" using sk skel_leaf Suc.prems(1) by metis
      note step = replace_step[OF k1 _ _ False x(1,2), of _ _ tab c1]
      have "ty = E_OR \<or> ty = E_AND" using kids_etypeD Suc.prems(1) by blast
      then show ?thesis
      proof
        assume ty: "ty = E_OR"
        have j: "pass_rel tab ty (t1, c1) (put (put t1 a (ESymbol symbol_no)) b e, Suc c1)"
          if "expr_join_or tab x1 x2 = Some e" for e
          by (rule step) (use s sk x(3) ty join_or_cases[OF that] eval_join_or[OF _ that] in \<open>auto simp: conn_def\<close>)
        show ?thesis using pass_rel_trans[OF rel j] rel in1 leaf False e x ty
          by (auto simp: expr_alloc_symbol_def split: option.split)
      next
        assume ty: "ty = E_AND"
        have j: "pass_rel tab ty (t1, c1) (put (put t1 a (ESymbol symbol_yes)) b e, Suc c1)"
          if "expr_join_and tab x1 x2 = Some e" for e
          by (rule step) (use s sk x(3) ty join_and_cases[OF that] eval_join_and[OF _ that] in \<open>auto simp: conn_def\<close>)
        show ?thesis using pass_rel_trans[OF rel j] rel in1 leaf False e x ty
          by (auto simp: expr_alloc_symbol_def split: option.split)
      qed
    qed
  qed
qed simp

subsection \<open>The second pass\<close>

lemma or_test_sound:
  assumes "typed_val tab tri str" "dups2_or_test tab e1 e2"
  shows "eval tri str e2 \<le> EXPR_NOT (eval tri str e1)"
proof -
  obtain f a b where e: "expr_extract_eq_and (expr_transform tab (ENot e1)) e2 = (f, a, b)"
    by (metis prod_cases3)
  then have "a = ESymbol symbol_yes"
    using assms(2) by (simp add: dups2_or_test_def expr_alloc_one_def expr_is_yes_def)
  then show ?thesis
    using extract_and_or_sound[OF typed_valD(1)[OF assms(1)], of "expr_transform tab (ENot e1)" e2 f a b str]
      e eval_transform[OF assms(1), of "ENot e1"] typed_valD(1)[OF assms(1)]
    by (simp add: EXPR_AND_min)
qed

lemma and_test_sound:
  assumes "typed_val tab tri str" "dups2_and_test tab e1 e2"
  shows "EXPR_NOT (eval tri str e1) \<le> eval tri str e2"
proof -
  obtain f a b where e: "expr_extract_eq_or (expr_transform tab (ENot e1)) e2 = (f, a, b)"
    by (metis prod_cases3)
  then have "a = ESymbol symbol_no"
    using assms(2) by (simp add: dups2_and_test_def expr_alloc_one_def expr_is_no_def)
  then show ?thesis
    using extract_and_or_sound[OF typed_valD(1)[OF assms(1)], of "expr_transform tab (ENot e1)" e2 f a b str]
      e eval_transform[OF assms(1), of "ENot e1"] typed_valD(1)[OF assms(1)]
    by (simp add: EXPR_OR_max)
qed

lemma remove_step:
  assumes "kids ty t \<noteq> None" "sub (skel ty t) a = Some ENone" "sub (skel ty t) b \<noteq> None"
    and "sub t a = Some e1" "sub t b = Some e2"
    and "ty = E_AND \<and> y = symbol_no \<and> dups2_or_test tab e1 e2
      \<or> ty = E_OR \<and> y = symbol_yes \<and> dups2_and_test tab e1 e2"
  shows "pass_rel tab ty (t, tc) (put t a (ESymbol y), Suc tc)"
proof -
  let ?t = "put t a (ESymbol y)"
  have "skel ty ?t = skel ty t" using assms(2) by (intro skel_put) (cases ty; simp)
  moreover have "esize ?t \<le> esize t"
    using esize_put[OF assms(4), of "ESymbol y"] esize_pos(3)[of e1] by (simp del: esize_pos)
  moreover have "\<not> yn_free ?t"
    by (rule not_yn_free_sub[of _ a y]) (use sub_put[OF assms(4), of "ESymbol y" "[]"]
        leaf_nonempty[OF assms(1,2)] assms(6) in auto)
  moreover have "agree (eval tri str t) (eval tri str ?t)" if v: "typed_val tab tri str" for tri str
  proof -
    obtain c where c: "eval tri str t = conn ty c (eval tri str e1)"
      "eval tri str ?t = conn ty c (eval tri str (ESymbol y))"
      using one_hole[of ty t a e1 tri str] assms(2,4) by auto
    obtain d where d: "eval tri str t = conn ty d (eval tri str e2)"
      using one_hole[of ty t b e2 tri str] assms(3,5) by auto
    from assms(6) show ?thesis
    proof
      assume y: "ty = E_AND \<and> y = symbol_no \<and> dups2_or_test tab e1 e2"
      then show ?thesis using c d or_test_sound[OF v, of e1 e2] typed_valD(1)[OF v]
        by (cases "eval tri str e1"; cases "eval tri str e2"; cases c; cases d)
          (auto simp: agree_def conn_def EXPR_AND_def less_tristate_def)
    next
      assume y: "ty = E_OR \<and> y = symbol_yes \<and> dups2_and_test tab e1 e2"
      then show ?thesis using c d and_test_sound[OF v, of e1 e2] typed_valD(1)[OF v]
        by (cases "eval tri str e1"; cases "eval tri str e2"; cases c; cases d)
          (auto simp: agree_def conn_def EXPR_OR_def less_tristate_def)
    qed
  qed
  ultimately show ?thesis by (simp add: pass_rel_def)
qed

text \<open>The last part of the pass, for a leaf at \<open>a\<close> and another operand at \<open>b\<close>.\<close>

definition dups2_tail ::
  "(symref \<Rightarrow> symbol) \<Rightarrow> nat \<Rightarrow> pos \<Rightarrow> pos \<Rightarrow> expr \<times> nat \<Rightarrow> (expr \<times> nat) option" where
  "dups2_tail tab n p1 p2 st =
     (if p1 = p2 then Some st
       else do {
         e1 \<leftarrow> sub (fst st) p1;
         case etype e1 of
           E_OR \<Rightarrow> do {
             (t, tc) \<leftarrow> expr_eliminate_dups2 tab n E_OR p1 p1 st;
             e1 \<leftarrow> sub t p1;
             e2 \<leftarrow> sub t p2;
             Some (if dups2_or_test tab e1 e2
                   then (put t p1 (expr_alloc_symbol symbol_no), Suc tc) else (t, tc)) }
         | E_AND \<Rightarrow> do {
             (t, tc) \<leftarrow> expr_eliminate_dups2 tab n E_AND p1 p1 st;
             e1 \<leftarrow> sub t p1;
             e2 \<leftarrow> sub t p2;
             Some (if dups2_and_test tab e1 e2
                   then (put t p1 (expr_alloc_symbol symbol_yes), Suc tc) else (t, tc)) }
         | _ \<Rightarrow> Some st })"

lemma dups2_unfold:
  "expr_eliminate_dups2 tab (Suc n) ty p1 p2 st = do {
     e1 \<leftarrow> sub (fst st) p1;
     e2 \<leftarrow> sub (fst st) p2;
     if kids ty e1 \<noteq> None then do {
       st \<leftarrow> expr_eliminate_dups2 tab n ty (p1 @ [L]) p2 st;
       expr_eliminate_dups2 tab n ty (p1 @ [R]) p2 st }
     else do {
       st \<leftarrow> (if kids ty e2 \<noteq> None then do {
           st \<leftarrow> expr_eliminate_dups2 tab n ty p1 (p2 @ [L]) st;
           expr_eliminate_dups2 tab n ty p1 (p2 @ [R]) st } else Some st);
       dups2_tail tab n p1 p2 st }}"
  by (simp only: expr_eliminate_dups2.simps dups2_tail_def)

declare expr_eliminate_dups2.simps(2) [simp del]

lemma dups2_local:
  "sub T q = Some t \<Longrightarrow> expr_eliminate_dups2 tab n ty (q @ a) (q @ b) (T, tc)
     = map_option (\<lambda>(t', k). (put T q t', k)) (expr_eliminate_dups2 tab n ty a b (t, tc))"
proof (induction n arbitrary: ty a b T t tc)
  case (Suc n)
  have sub: "sub T (q @ p) = sub t p" for p using Suc.prems by (simp add: sub_append)
  have s: "sub (put T q w) (q @ p) = sub w p" for p w using sub_put[OF Suc.prems] .
  have pp: "put (put T q w) (q @ p) x = put T q (put w p x)" for p x w
    using put_append[of "put T q w" q w p x] s[of w "[]"] put_put[OF Suc.prems] by simp
  have IH: "expr_eliminate_dups2 tab n ty (q @ a) (q @ b) (put T q u, k)
     = map_option (\<lambda>(t', k). (put T q t', k)) (expr_eliminate_dups2 tab n ty a b (u, k))" for ty a b u k
    using Suc.IH[of "put T q u" u ty a b k] s[of u "[]"] by (simp add: put_put[OF Suc.prems])
  note IH0 = IH[of _ _ _ t, unfolded put_self[OF Suc.prems]]
  have tail: "dups2_tail tab n (q @ a) (q @ b) (put T q u, k)
     = map_option (\<lambda>(t', k). (put T q t', k)) (dups2_tail tab n a b (u, k))" for u k
  proof (cases "a = b \<or> sub u a = None")
    case True
    then show ?thesis by (auto simp: dups2_tail_def s)
  next
    case False
    then obtain e where e: "a \<noteq> b" "sub u a = Some e" by auto
    have "map_option (\<lambda>(t', k). (put T q t', k)) (expr_eliminate_dups2 tab n v a a (u, k)) =
       (case expr_eliminate_dups2 tab n v a a (u, k) of None \<Rightarrow> None | Some (w, c) \<Rightarrow> Some (put T q w, c))" for v
      by (simp split: option.split)
    with e show ?thesis
      by (cases "expr_eliminate_dups2 tab n (etype e) a a (u, k)"; cases "etype e")
        (auto simp: dups2_tail_def s IH pp bind_eq_None_conv split: option.split bind_splits)
  qed
  show ?case
  proof (cases "sub t a = None \<or> sub t b = None")
    case True
    then show ?thesis by (auto simp: sub dups2_unfold)
  next
    case False
    then obtain e1 e2 where e: "sub t a = Some e1" "sub t b = Some e2" by auto
    note tail0 = tail[of t, unfolded put_self[OF Suc.prems]]
    consider "kids ty e1 \<noteq> None" | "kids ty e1 = None" "kids ty e2 \<noteq> None"
      | "kids ty e1 = None" "kids ty e2 = None" by blast
    then show ?thesis
    proof cases
      case 1
      then show ?thesis
        by (cases "expr_eliminate_dups2 tab n ty (a @ [L]) b (t, tc)") (auto simp: sub e IH0 IH dups2_unfold)
    next
      case 2
      show ?thesis
      proof (cases "expr_eliminate_dups2 tab n ty a (b @ [L]) (t, tc)")
        case None
        with 2 show ?thesis by (simp add: sub e IH0 dups2_unfold)
      next
        case (Some r)
        with 2 show ?thesis
          by (cases r; cases "expr_eliminate_dups2 tab n ty a (b @ [R]) r")
            (auto simp: sub e IH0 IH dups2_unfold tail)
      qed
    next
      case 3
      then show ?thesis by (simp add: sub e dups2_unfold tail0)
    qed
  qed
qed simp

lemma dups2_tail_ends:
  assumes IH: "\<And>ty t a b tc ka kb. kids ty t \<noteq> None \<Longrightarrow> sub (skel ty t) a = Some ka
      \<Longrightarrow> sub (skel ty t) b = Some kb \<Longrightarrow> 1 + esize ka + esize kb + esize t * esize t \<le> n
      \<Longrightarrow> \<exists>st. expr_eliminate_dups2 tab n ty a b (t, tc) = Some st \<and> pass_rel tab ty (t, tc) st"
    and k: "kids ty t \<noteq> None" and s: "sub (skel ty t) a = Some ENone" "sub (skel ty t) b \<noteq> None"
    and n: "esize t * esize t \<le> n"
  shows "\<exists>st. dups2_tail tab n a b (t, tc) = Some st \<and> pass_rel tab ty (t, tc) st"
proof (cases "a = b")
  case True
  then show ?thesis by (simp add: dups2_tail_def)
next
  case False
  obtain e1 where e: "sub t a = Some e1" "skel ty e1 = ENone" using skel_sub s(1) by blast
  have ne: "a \<noteq> []" by (rule leaf_nonempty[OF k s(1)])
  have ke: "kids ty e1 = None" using e(2) skel_leaf by blast
  show ?thesis
  proof (cases "etype e1 = E_OR \<or> etype e1 = E_AND")
    case c: True
    let ?u = "etype e1"
    have ku: "kids ?u e1 \<noteq> None" using kids_of_etype c by blast
    have lt: "esize e1 < esize t" using esize_sub[OF e(1)] ne by blast
    have "(1 + esize e1) * (1 + esize e1) \<le> esize t * esize t" using lt by (intro mult_le_mono) auto
    then have f: "1 + esize (skel ?u e1) + esize (skel ?u e1) + esize e1 * esize e1 \<le> n"
      using n esize_skel[of ?u e1] by simp
    obtain e' c where r: "expr_eliminate_dups2 tab n ?u [] [] (e1, tc) = Some (e', c)"
      "pass_rel tab ?u (e1, tc) (e', c)"
      using IH[of ?u e1 "[]" "skel ?u e1" "[]" "skel ?u e1" tc] ku f by auto
    let ?t = "put t a e'"
    have t1: "expr_eliminate_dups2 tab n ?u a a (t, tc) = Some (?t, c)"
      using dups2_local[OF e(1), of tab n ?u "[]" "[]" tc] r(1) by simp
    have rel: "pass_rel tab ty (t, tc) (?t, c)" using pass_rel_inside[OF s(1) e(1) ku ne r(2)] by blast
    have sk: "skel ty ?t = skel ty t" using rel by (simp add: pass_rel_def)
    obtain x2 where x2: "sub ?t b = Some x2" using skel_sub[of ty ?t b] sk s(2) by auto
    have x1: "sub ?t a = Some e'" using sub_put[OF e(1), of e' "[]"] by simp
    have k1: "kids ty ?t \<noteq> None" using sk skel_leaf k by metis
    have s1: "sub (skel ty ?t) a = Some ENone" "sub (skel ty ?t) b \<noteq> None" using s sk by simp_all
    note step = remove_step[OF k1 s1 x1 x2, of _ tab c]
    have ty: "?u = E_OR \<and> ty = E_AND \<or> ?u = E_AND \<and> ty = E_OR"
      using c ke kids_etypeD[OF k] kids_etype[of e1] by metis
    show ?thesis
    proof (cases "?u = E_OR")
      case True
      then have "dups2_or_test tab e' x2 \<Longrightarrow> pass_rel tab ty (?t, c) (put ?t a (ESymbol symbol_no), Suc c)"
        using ty step by auto
      then show ?thesis using True False e(1) t1 x1 x2 pass_rel_trans[OF rel] rel
        by (auto simp: dups2_tail_def expr_alloc_symbol_def)
    next
      case F: False
      then have "dups2_and_test tab e' x2 \<Longrightarrow> pass_rel tab ty (?t, c) (put ?t a (ESymbol symbol_yes), Suc c)"
        using ty step by auto
      then show ?thesis using F c False e(1) t1 x1 x2 pass_rel_trans[OF rel] rel
        by (auto simp: dups2_tail_def expr_alloc_symbol_def)
    qed
  next
    case F: False
    then show ?thesis using False e(1) by (cases "etype e1") (auto simp: dups2_tail_def)
  qed
qed

lemma dups2_ends:
  "kids ty t \<noteq> None \<Longrightarrow> sub (skel ty t) a = Some ka \<Longrightarrow> sub (skel ty t) b = Some kb \<Longrightarrow>
   1 + esize ka + esize kb + esize t * esize t \<le> n \<Longrightarrow>
   \<exists>st. expr_eliminate_dups2 tab n ty a b (t, tc) = Some st \<and> pass_rel tab ty (t, tc) st"
proof (induction n arbitrary: ty a b t tc ka kb)
  case (Suc n)
  obtain e1 e2 where e: "sub t a = Some e1" "skel ty e1 = ka" "sub t b = Some e2" "skel ty e2 = kb"
    using skel_sub Suc.prems(2,3) by metis
  have two: "\<exists>st. Option.bind (expr_eliminate_dups2 tab n ty a1 b1 (t, tc)) (expr_eliminate_dups2 tab n ty a2 b2)
      = Some st \<and> pass_rel tab ty (t, tc) st"
    if "sub (skel ty t) a1 = Some k1" "sub (skel ty t) b1 = Some k2"
      "sub (skel ty t) a2 = Some k3" "sub (skel ty t) b2 = Some k4"
      "1 + esize k1 + esize k2 + esize t * esize t \<le> n" "1 + esize k3 + esize k4 + esize t * esize t \<le> n"
    for a1 b1 a2 b2 k1 k2 k3 k4
  proof -
    note pos = that
    obtain t1 c1 where 1: "expr_eliminate_dups2 tab n ty a1 b1 (t, tc) = Some (t1, c1)"
      "pass_rel tab ty (t, tc) (t1, c1)" using Suc.IH[OF Suc.prems(1) pos(1,2,5)] by (metis surj_pair)
    have sk: "skel ty t1 = skel ty t" and sz: "esize t1 \<le> esize t" using 1(2) by (auto simp: pass_rel_def)
    have k: "kids ty t1 \<noteq> None" using sk skel_leaf Suc.prems(1) by metis
    have "esize t1 * esize t1 \<le> esize t * esize t" using sz by (rule mult_le_mono) (rule sz)
    then have f: "1 + esize k3 + esize k4 + esize t1 * esize t1 \<le> n" using pos(6) by linarith
    have "\<exists>st. expr_eliminate_dups2 tab n ty a2 b2 (t1, c1) = Some st \<and> pass_rel tab ty (t1, c1) st"
      using pos(3,4) by (intro Suc.IH[OF k _ _ f]) (simp_all add: sk)
    with 1 pass_rel_trans show ?thesis by fastforce
  qed
  show ?case
  proof (cases "kids ty e1")
    case (Some p)
    obtain l r where p: "p = (l, r)" by fastforce
    have k: "sub (skel ty t) (a @ [L]) = Some (skel ty l)" "sub (skel ty t) (a @ [R]) = Some (skel ty r)"
      "esize ka = Suc (esize (skel ty l) + esize (skel ty r))"
      using skel_kids_path[of ty t a e1 l r] Suc.prems(2) e(2) Some p by auto
    have "\<exists>st. Option.bind (expr_eliminate_dups2 tab n ty (a @ [L]) b (t, tc))
        (expr_eliminate_dups2 tab n ty (a @ [R]) b) = Some st \<and> pass_rel tab ty (t, tc) st"
      by (rule two[OF k(1) Suc.prems(3) k(2) Suc.prems(3)]) (use Suc.prems(4) k(3) in auto)
    then show ?thesis using e Some by (simp add: dups2_unfold)
  next
    case None
    have sa: "sub (skel ty t) a = Some ENone" using Suc.prems(2) e(2) None skel_leaf by metis
    have "\<exists>st. (if kids ty e2 \<noteq> None then do {
           st \<leftarrow> expr_eliminate_dups2 tab n ty a (b @ [L]) (t, tc);
           expr_eliminate_dups2 tab n ty a (b @ [R]) st } else Some (t, tc)) = Some st
        \<and> pass_rel tab ty (t, tc) st"
    proof (cases "kids ty e2")
      case (Some p)
      obtain l r where p: "p = (l, r)" by fastforce
      have k: "sub (skel ty t) (b @ [L]) = Some (skel ty l)" "sub (skel ty t) (b @ [R]) = Some (skel ty r)"
        "esize kb = Suc (esize (skel ty l) + esize (skel ty r))"
        using skel_kids_path[of ty t b e2 l r] Suc.prems(3) e(4) Some p by auto
      have "\<exists>st. Option.bind (expr_eliminate_dups2 tab n ty a (b @ [L]) (t, tc))
          (expr_eliminate_dups2 tab n ty a (b @ [R])) = Some st \<and> pass_rel tab ty (t, tc) st"
        by (rule two[OF Suc.prems(2) k(1) Suc.prems(2) k(2)]) (use Suc.prems(4) k(3) in auto)
      then show ?thesis using Some by simp
    qed simp
    then obtain t1 c1 where 1: "(if kids ty e2 \<noteq> None then do {
           st \<leftarrow> expr_eliminate_dups2 tab n ty a (b @ [L]) (t, tc);
           expr_eliminate_dups2 tab n ty a (b @ [R]) st } else Some (t, tc)) = Some (t1, c1)"
      "pass_rel tab ty (t, tc) (t1, c1)" by auto
    have sk: "skel ty t1 = skel ty t" and sz: "esize t1 \<le> esize t" using 1(2) by (auto simp: pass_rel_def)
    have k: "kids ty t1 \<noteq> None" using sk skel_leaf Suc.prems(1) by metis
    have "esize t1 * esize t1 \<le> esize t * esize t" using sz by (rule mult_le_mono) (rule sz)
    then have f: "esize t1 * esize t1 \<le> n"
      using Suc.prems(4) esize_pos(3)[of ka] by linarith
    have "\<exists>st. dups2_tail tab n a b (t1, c1) = Some st \<and> pass_rel tab ty (t1, c1) st"
      by (rule dups2_tail_ends[OF Suc.IH k _ _ f]) (use sa Suc.prems(3) sk in simp_all)
    then show ?thesis using e None 1 pass_rel_trans by (fastforce simp: dups2_unfold)
  qed
qed simp

subsection \<open>The loop\<close>

lemma eliminate_yn_smaller: "\<not> yn_free e \<Longrightarrow> esize (expr_eliminate_yn e) < esize e"
proof (induction e)
  case (EOr l r)
  then show ?case using esize_eliminate_yn[of l] esize_eliminate_yn[of r] eliminate_yn_fixed[of l]
      eliminate_yn_fixed[of r] by (cases "yn_free l"; cases "yn_free r") (auto simp: Let_def)
next
  case (EAnd l r)
  then show ?case using esize_eliminate_yn[of l] esize_eliminate_yn[of r] eliminate_yn_fixed[of l]
      eliminate_yn_fixed[of r] by (cases "yn_free l"; cases "yn_free r") (auto simp: Let_def)
qed auto

lemma dups_round:
  "\<exists>e' k. (if etype e = E_OR \<or> etype e = E_AND then do {
          (t, tc) \<leftarrow> expr_eliminate_dups1 tab (dups_fuel e) (etype e) [] [] (e, 0);
          expr_eliminate_dups2 tab (dups_fuel e) (etype t) [] [] (t, tc) }
        else Some (e, 0)) = Some (e', k) \<and> pass_rel tab (etype e) (e, 0) (e', k)"
proof (cases "etype e = E_OR \<or> etype e = E_AND")
  case True
  let ?u = "etype e" and ?f = "dups_fuel e"
  have k: "kids ?u e \<noteq> None" using kids_of_etype True by blast
  have f: "1 + esize (skel ?u x) + esize (skel ?u x) + esize x * esize x \<le> ?f" if "esize x \<le> esize e" for x
  proof -
    have "?f = 4 + 8 * esize e + 4 * (esize e * esize e)" by (simp add: dups_fuel_def algebra_simps)
    then show ?thesis using mult_le_mono[OF that that] esize_skel[of ?u x] that by linarith
  qed
  obtain t c where 1: "expr_eliminate_dups1 tab ?f ?u [] [] (e, 0) = Some (t, c)"
    "pass_rel tab ?u (e, 0) (t, c)"
    using dups1_ends[of ?u e "[]" "skel ?u e" "[]" "skel ?u e" ?f tab 0] k f[of e] by auto
  have sk: "skel ?u t = skel ?u e" and sz: "esize t \<le> esize e" using 1(2) by (auto simp: pass_rel_def)
  have kt: "kids ?u t \<noteq> None" using sk skel_leaf k by metis
  then have et: "etype t = ?u" using kids_etypeD by blast
  obtain e' c' where 2: "expr_eliminate_dups2 tab ?f ?u [] [] (t, c) = Some (e', c')"
    "pass_rel tab ?u (t, c) (e', c')"
    using dups2_ends[of ?u t "[]" "skel ?u t" "[]" "skel ?u t" ?f tab c] kt f[OF sz] by auto
  have "pass_rel tab ?u (e, 0) (e', c')" using pass_rel_trans[OF 1(2) 2(2)] .
  moreover have "(if ?u = E_OR \<or> ?u = E_AND then do {
          (t, tc) \<leftarrow> expr_eliminate_dups1 tab ?f ?u [] [] (e, 0);
          expr_eliminate_dups2 tab ?f (etype t) [] [] (t, tc) }
        else Some (e, 0)) = Some (e', c')"
    using True by (simp only: 1(1) 2(1) et if_True bind.bind_lunit split)
  ultimately show ?thesis by blast
qed simp

lemma dups_loop_ends:
  "esize e < n \<Longrightarrow> \<exists>e'. expr_eliminate_dups_loop tab n e = Some e' \<and> esize e' \<le> esize e
     \<and> (\<forall>tri str. typed_val tab tri str \<longrightarrow> agree (eval tri str e) (eval tri str e'))"
proof (induction n arbitrary: e)
  case (Suc n)
  obtain t k where r: "(if etype e = E_OR \<or> etype e = E_AND then do {
          (t, tc) \<leftarrow> expr_eliminate_dups1 tab (dups_fuel e) (etype e) [] [] (e, 0);
          expr_eliminate_dups2 tab (dups_fuel e) (etype t) [] [] (t, tc) }
        else Some (e, 0)) = Some (t, k)" "pass_rel tab (etype e) (e, 0) (t, k)" using dups_round by blast
  show ?case
  proof (cases "k = 0")
    case True
    then have "t = e" using r(2) by (simp add: pass_rel_def)
    then show ?thesis using r(1) True by (simp add: agree_def)
  next
    case False
    let ?y = "expr_eliminate_yn t"
    have "\<not> yn_free t" and st: "esize t \<le> esize e" using r(2) False by (auto simp: pass_rel_def)
    then have "esize ?y < esize t" using eliminate_yn_smaller by blast
    then obtain e' where e': "expr_eliminate_dups_loop tab n ?y = Some e'" "esize e' \<le> esize ?y"
      "\<forall>tri str. typed_val tab tri str \<longrightarrow> agree (eval tri str ?y) (eval tri str e')"
      using Suc.IH[of ?y] Suc.prems st by auto
    have "agree (eval tri str e) (eval tri str e')" if v: "typed_val tab tri str" for tri str
    proof -
      have "agree (eval tri str e) (eval tri str t)" using r(2) v by (simp add: pass_rel_def)
      moreover have "eval tri str ?y = eval tri str t" using typed_valD(1)[OF v] by (rule eval_eliminate_yn)
      ultimately show ?thesis using e'(3) v agree_trans by metis
    qed
    with r(1) False e' \<open>esize ?y < esize t\<close> st show ?thesis by simp
  qed
qed simp

end
