(* ===== verification/Expr_Print.thy ===== *)
theory Expr_Print
  imports Expr
begin

text \<open>
  The printing of expressions (\<open>expr_compare_type\<close>, \<open>expr_print\<close> and its two output functions in
  \<open>adk/config/expr.c\<close>) and the growable strings of \<open>adk/config/util.c\<close>. \<open>expr_print\<close> calls an
  output function once per token; the model returns the list of the calls' arguments (the
  symbol, if any, and the text, \<open>None\<close> for a null name).
\<close>

subsection \<open>Growable strings\<close>

record gstr =
  gs_len :: nat
  gs_s :: string
  gs_max_width :: int

definition str_new :: gstr where
  "str_new = \<lparr>gs_len = 64, gs_s = '''', gs_max_width = 0\<rparr>"

definition str_assign :: "string \<Rightarrow> gstr" where
  "str_assign t = \<lparr>gs_len = length t + 1, gs_s = t, gs_max_width = 0\<rparr>"

definition str_append :: "gstr \<Rightarrow> string option \<Rightarrow> gstr" where
  "str_append gs t = (case t of None \<Rightarrow> gs
     | Some t \<Rightarrow>
        (let l = length (gs_s gs) + length t + 1;
             gs = (if l > gs_len gs then gs\<lparr>gs_len := l\<rparr> else gs)
         in gs\<lparr>gs_s := gs_s gs @ t\<rparr>))"

text \<open>\<open>vsnprintf\<close> into a buffer of 10000 bytes: the formatted text is cut to 9999 characters.\<close>

definition str_printf :: "gstr \<Rightarrow> string \<Rightarrow> gstr" where
  "str_printf gs formatted = str_append gs (Some (take 9999 formatted))"

definition str_get :: "gstr \<Rightarrow> string" where
  "str_get gs = gs_s gs"

text \<open>The buffer always has room for the text and its terminator.\<close>

definition gstr_ok :: "gstr \<Rightarrow> bool" where
  "gstr_ok gs \<longleftrightarrow> length (gs_s gs) < gs_len gs"

lemma gstr_ok_new: "gstr_ok str_new"
  by (simp add: gstr_ok_def str_new_def)

lemma gstr_ok_assign: "gstr_ok (str_assign t)"
  by (simp add: gstr_ok_def str_assign_def)

lemma gstr_ok_append: "gstr_ok gs \<Longrightarrow> gstr_ok (str_append gs t)"
  by (auto simp: gstr_ok_def str_append_def Let_def split: option.split)

lemma gstr_ok_printf: "gstr_ok gs \<Longrightarrow> gstr_ok (str_printf gs t)"
  by (simp add: str_printf_def gstr_ok_append)

lemma str_append_text [simp]:
  "gs_s (str_append gs (Some t)) = gs_s gs @ t" "str_append gs None = gs"
  "gs_max_width (str_append gs x) = gs_max_width gs"
  by (simp_all add: str_append_def Let_def split: option.split)

subsection \<open>Precedence\<close>

text \<open>
  \<open>expr_compare_type\<close>: positive when the first type binds tighter. The cases of the \<open>switch\<close>
  fall through to the weaker types.
\<close>

definition expr_compare_type :: "expr_type \<Rightarrow> expr_type \<Rightarrow> int" where
  "expr_compare_type t1 t2 =
     (let list = (if t2 = E_NONE then 1 else - 1);
          or = (if t2 = E_LIST then 1 else list);
          and = (if t2 = E_OR then 1 else or);
          not = (if t2 = E_AND then 1 else and);
          equal = (if t2 = E_NOT then 1 else not)
      in if t1 = t2 then 0
         else (case t1 of
             E_EQUAL \<Rightarrow> equal | E_UNEQUAL \<Rightarrow> equal | E_NOT \<Rightarrow> not | E_AND \<Rightarrow> and
           | E_OR \<Rightarrow> or | E_LIST \<Rightarrow> list | _ \<Rightarrow> - 1))"

subsection \<open>Printing\<close>

type_synonym token = "symref option \<times> string option"

text \<open>A symbol by its name, a choice without one as \<open><choice>\<close>.\<close>

definition name_token :: "(symref \<Rightarrow> string option) \<Rightarrow> symref \<Rightarrow> token" where
  "name_token nm y = (case nm y of Some n \<Rightarrow> (Some y, Some n) | None \<Rightarrow> (None, Some ''<choice>''))"

definition paren :: "expr_type \<Rightarrow> expr_type \<Rightarrow> token list \<Rightarrow> token list" where
  "paren prevtoken ty ts =
     (if expr_compare_type prevtoken ty > 0
      then [(None, Some ''('')] @ ts @ [(None, Some '')'')] else ts)"

fun expr_print_node :: "(symref \<Rightarrow> string option) \<Rightarrow> expr_type \<Rightarrow> expr \<Rightarrow> token list" where
  "expr_print_node nm prevtoken (ESymbol y) = paren prevtoken E_SYMBOL [name_token nm y]"
| "expr_print_node nm prevtoken (ENot l) =
     paren prevtoken E_NOT ((None, Some ''!'') # expr_print_node nm E_NOT l)"
| "expr_print_node nm prevtoken (EEqual a b) =
     paren prevtoken E_EQUAL [name_token nm a, (None, Some ''=''), (Some b, nm b)]"
| "expr_print_node nm prevtoken (EUnequal a b) =
     paren prevtoken E_UNEQUAL [name_token nm a, (None, Some ''!=''), (Some b, nm b)]"
| "expr_print_node nm prevtoken (EOr l r) =
     paren prevtoken E_OR
       (expr_print_node nm E_OR l @ [(None, Some '' || '')] @ expr_print_node nm E_OR r)"
| "expr_print_node nm prevtoken (EAnd l r) =
     paren prevtoken E_AND
       (expr_print_node nm E_AND l @ [(None, Some '' && '')] @ expr_print_node nm E_AND r)"
| "expr_print_node nm prevtoken (EList None s) = paren prevtoken E_LIST [(Some s, nm s)]"
| "expr_print_node nm prevtoken (EList (Some l) s) =
     paren prevtoken E_LIST
       ([(Some s, nm s), (None, Some '' ^ '')] @ expr_print_node nm E_LIST l)"
| "expr_print_node nm prevtoken (ERange a b) =
     paren prevtoken E_RANGE
       [(None, Some ''[''), (Some a, nm a), (None, Some '' ''), (Some b, nm b), (None, Some '']'')]"
| "expr_print_node nm prevtoken ENone = paren prevtoken E_NONE [(None, Some ''<unknown type 0>'')]"

definition expr_print ::
  "(symref \<Rightarrow> string option) \<Rightarrow> expr option \<Rightarrow> expr_type \<Rightarrow> token list" where
  "expr_print nm e prevtoken =
     (case e of None \<Rightarrow> [(None, Some ''y'')] | Some x \<Rightarrow> expr_print_node nm prevtoken x)"

text \<open>
  Output to a file. \<open>xfwrite\<close> asserts a positive length, so an empty name (of the constant
  \<open>""\<close>) aborts, as does a null one.
\<close>

definition expr_print_file_helper :: "token \<Rightarrow> string \<Rightarrow> string option" where
  "expr_print_file_helper tok out = (case snd tok of
     None \<Rightarrow> None | Some t \<Rightarrow> (if t = [] then None else Some (out @ t)))"

definition expr_fprint :: "(symref \<Rightarrow> string option) \<Rightarrow> expr option \<Rightarrow> string \<Rightarrow> string option" where
  "expr_fprint nm e out = ofold expr_print_file_helper (expr_print nm e E_NONE) out"

text \<open>
  Output to a growable string, wrapping lines at \<open>max_width\<close> (the comparison is on unsigned
  numbers) and showing the value of each symbol of known type; \<open>val\<close> is \<open>sym_get_string_value\<close>,
  which may be a null pointer. A null name is only measured if lines are wrapped.
\<close>

definition last_line_length :: "string \<Rightarrow> nat" where
  "last_line_length t =
     (let tail = takeWhile (\<lambda>c. c \<noteq> CHR 0x0A) (rev t) in
      if length tail = length t then length t else Suc (length tail))"

definition expr_print_gstr_helper ::
  "(symref \<Rightarrow> symbol_type) \<Rightarrow> (symref \<Rightarrow> string option) \<Rightarrow> token \<Rightarrow> gstr \<Rightarrow> gstr option" where
  "expr_print_gstr_helper ty val tok gs =
     (if snd tok = None \<and> gs_max_width gs \<noteq> 0 then None
      else
        (let extra = (case snd tok of None \<Rightarrow> 0 | Some t \<Rightarrow> length t)
               + (case Option.bind (fst tok) val of None \<Rightarrow> 0 | Some v \<Rightarrow> 4 + length v);
             gs1 = (if gs_max_width gs \<noteq> 0
                        \<and> int (last_line_length (gs_s gs) + extra) mod 2 ^ 32 > gs_max_width gs mod 2 ^ 32
                    then str_append gs (Some [CHR 0x5C, CHR 0x0A]) else gs);
             gs2 = str_append gs1 (snd tok)
         in Some (case fst tok of
             Some y \<Rightarrow> (if ty y \<noteq> S_UNKNOWN then str_printf gs2 ('' [='' @ or_null (val y) @ '']'') else gs2)
           | None \<Rightarrow> gs2)))"

definition expr_gstr_print ::
  "(symref \<Rightarrow> string option) \<Rightarrow> (symref \<Rightarrow> symbol_type) \<Rightarrow> (symref \<Rightarrow> string option) \<Rightarrow>
   expr option \<Rightarrow> gstr \<Rightarrow> gstr option" where
  "expr_gstr_print nm ty val e gs =
     ofold (expr_print_gstr_helper ty val) (expr_print nm e E_NONE) gs"

end
