(* ===== verification/Expr_Properties.thy ===== *)
theory Expr_Properties
  imports Expr_Dups_Sound Expr_Print
begin

text \<open>
  The properties of the expression engine: its rewriting functions keep the value of the
  expressions, reach the normal forms they are meant to reach, and the dependency tests mean
  what \<open>menu_finalize\<close> takes them to mean. The witnesses use the valuation \<open>wit_tri\<close>, in which
  symbol 0 is \<open>y\<close>, symbol 1 is \<open>m\<close> and every other symbol is \<open>n\<close>.
\<close>

subsection \<open>A concrete valuation\<close>

fun wit_tri :: "symref \<Rightarrow> tristate" where
  "wit_tri symbol_yes = tyes"
| "wit_tri symbol_mod = tmod"
| "wit_tri (heap_sym 0) = tyes"
| "wit_tri (heap_sym (Suc 0)) = tmod"
| "wit_tri _ = tno"

definition wit_str :: "symref \<Rightarrow> string" where
  "wit_str y = (if y = symbol_empty then [] else tri_string (wit_tri y))"

text \<open>A store in which every symbol of the heap is a tristate.\<close>

fun wit_tab :: "symref \<Rightarrow> symbol" where
  "wit_tab (heap_sym i) = \<lparr>sym_name = Some ''S'', sym_type = S_TRISTATE,
     sym_curr = \<lparr>sv_val = VNull, sv_tri = tno\<rparr>, sym_def = (\<lambda>_. \<lparr>sv_val = VNull, sv_tri = tno\<rparr>),
     sym_visible = tno, sym_flags = {}, sym_prop = [], dir_dep = \<lparr>ev_expr = None, ev_tri = tno\<rparr>,
     rev_dep = \<lparr>ev_expr = None, ev_tri = tno\<rparr>, val_dep = []\<rparr>"
| "wit_tab y = \<lparr>sym_name = Some ''C'', sym_type = S_UNKNOWN,
     sym_curr = \<lparr>sv_val = VNull, sv_tri = tno\<rparr>, sym_def = (\<lambda>_. \<lparr>sv_val = VNull, sv_tri = tno\<rparr>),
     sym_visible = tno, sym_flags = (if y = symbol_empty then {} else {SYMBOL_CONST}), sym_prop = [],
     dir_dep = \<lparr>ev_expr = None, ev_tri = tno\<rparr>, rev_dep = \<lparr>ev_expr = None, ev_tri = tno\<rparr>,
     val_dep = []\<rparr>"

lemma wit_const: "const_val wit_tri"
  by (simp add: const_val_def)

lemma wit_types [simp]:
  "sym_type (wit_tab y) \<noteq> S_BOOLEAN"
  "sym_type (wit_tab y) = S_TRISTATE \<longleftrightarrow> (\<exists>i. y = heap_sym i)"
  "SYMBOL_CONST \<in> sym_flags (wit_tab y) \<longleftrightarrow> y \<in> {symbol_yes, symbol_mod, symbol_no}"
  by (cases y; simp)+

lemma wit_typed: "typed_val wit_tab wit_tri wit_str"
  by (auto simp: typed_val_def wit_const wit_str_def)

abbreviation (input) wit_a :: symref where "wit_a \<equiv> heap_sym 0"

abbreviation (input) wit_b :: symref where "wit_b \<equiv> heap_sym 1"

subsection \<open>Equality and common operands\<close>

text \<open>C17: expressions that \<open>expr_eq\<close> takes for equal have the same value under every valuation
  that gives the constants their values.\<close>

theorem expr_eq_sound:
  assumes "const_val tri" and "expr_eq e1 e2"
  shows "eval tri str e1 = eval tri str e2"
  using assms by (rule eval_expr_eq)

theorem expr_eq_sound_witness:
  "eval wit_tri wit_str (EAnd (ESymbol wit_a) (ENot (ESymbol wit_b)))
     = eval wit_tri wit_str (EAnd (ENot (ESymbol wit_b)) (EAnd (ESymbol wit_a) (ESymbol symbol_yes)))"
  by (rule expr_eq_sound[OF wit_const]) code_simp

lemma eliminate_eq_sizes:
  assumes "expr_eliminate_eq e1 e2 tc = (a, b, n)"
  shows "esize a \<le> esize e1 \<and> esize b \<le> esize e2"
proof -
  obtain x y k where A: "(if etype e1 = E_OR \<or> etype e1 = E_AND then elim_eq (etype e1) e1 e2 tc
      else (e1, e2, tc)) = (x, y, k)" by (metis prod_cases3)
  obtain x' y' k' where B: "(if etype x \<noteq> etype y \<and> (etype y = E_OR \<or> etype y = E_AND)
      then elim_eq (etype y) x y k else (x, y, k)) = (x', y', k')" by (metis prod_cases3)
  have "esize x \<le> esize e1 \<and> esize y \<le> esize e2" using A elim_eq_sizes by (auto split: if_splits)
  moreover have "esize x' \<le> esize x \<and> esize y' \<le> esize y" using B elim_eq_sizes by (auto split: if_splits)
  moreover have "a = expr_eliminate_yn x'" "b = expr_eliminate_yn y'"
    using assms A B by (auto simp: expr_eliminate_eq.simps)
  ultimately show ?thesis using esize_eliminate_yn[of x'] esize_eliminate_yn[of y'] by auto
qed

text \<open>C18: eliminating the common operands of two expressions changes neither their equality
  nor their sizes for the worse: when the two results have the same value, so had the
  arguments, and neither grows.\<close>

theorem expr_eliminate_eq_sound:
  assumes "const_val tri" and "expr_eliminate_eq e1 e2 tc = (a, b, n)"
  shows "(eval tri str a = eval tri str b \<longrightarrow> eval tri str e1 = eval tri str e2)
    \<and> esize a \<le> esize e1 \<and> esize b \<le> esize e2 \<and> yn_free a \<and> yn_free b"
  using eval_eliminate_eq[OF assms, of str] eliminate_eq_sizes[OF assms(2)] assms(2) eliminate_yn_free
  by (auto simp: expr_eliminate_eq.simps split: prod.splits)

theorem expr_eliminate_eq_sound_witness:
  "esize (fst (expr_eliminate_eq (EOr (ESymbol wit_a) (ESymbol wit_b)) (EOr (ESymbol wit_b) (ESymbol wit_a)) 0)) \<le> 3"
proof -
  obtain a b n where e: "expr_eliminate_eq (EOr (ESymbol wit_a) (ESymbol wit_b))
      (EOr (ESymbol wit_b) (ESymbol wit_a)) 0 = (a, b, n)" by (metis prod_cases3)
  show ?thesis unfolding e using expr_eliminate_eq_sound[OF wit_const e, of wit_str] by simp
qed

subsection \<open>Constants and normal forms\<close>

text \<open>C19: \<open>expr_eliminate_yn\<close> keeps the value, leaves no constant \<open>y\<close> or \<open>n\<close> as an operand of a
  conjunction or disjunction, is idempotent and never enlarges the expression.\<close>

theorem expr_eliminate_yn_correct:
  assumes "const_val tri"
  shows "eval tri str (expr_eliminate_yn e) = eval tri str e \<and> yn_free (expr_eliminate_yn e)
    \<and> expr_eliminate_yn (expr_eliminate_yn e) = expr_eliminate_yn e
    \<and> esize (expr_eliminate_yn e) \<le> esize e"
  using eval_eliminate_yn[OF assms] eliminate_yn_free eliminate_yn_fixed esize_eliminate_yn by blast

theorem expr_eliminate_yn_correct_witness:
  "eval wit_tri wit_str (expr_eliminate_yn (EAnd (ESymbol symbol_yes) (EOr (ESymbol wit_b) (ESymbol symbol_no)))) = tmod"
  using expr_eliminate_yn_correct[OF wit_const, of wit_str
    "EAnd (ESymbol symbol_yes) (EOr (ESymbol wit_b) (ESymbol symbol_no))"] by simp

text \<open>C14: \<open>expr_transform\<close> keeps the value of an expression under every valuation that agrees
  with the types of the symbols (a boolean symbol is never \<open>m\<close>).\<close>

theorem expr_transform_sound:
  assumes "typed_val tab tri str"
  shows "eval tri str (expr_transform tab e) = eval tri str e"
  using assms by (rule eval_transform)

theorem expr_transform_sound_witness:
  "eval wit_tri wit_str (expr_transform wit_tab (ENot (EAnd (ESymbol wit_a) (ENot (ESymbol wit_b))))) = tmod"
  using expr_transform_sound[OF wit_typed, of "ENot (EAnd (ESymbol wit_a) (ENot (ESymbol wit_b)))"]
  by (simp add: EXPR_OR_def EXPR_AND_def less_tristate_def)

text \<open>C15: the result of \<open>expr_transform\<close> is in negation normal form, with negations left only in
  front of symbols that are no constants, and it is not heavier than its argument.\<close>

theorem expr_transform_nnf:
  assumes "const_untyped tab" and "logical e"
  shows "nnf (expr_transform tab e) \<and> logical (expr_transform tab e)
    \<and> eweight (expr_transform tab e) \<le> eweight e"
  using transform_nnf[OF assms] eweight_transform by blast

theorem expr_transform_nnf_witness:
  "nnf (expr_transform wit_tab (ENot (EOr (ENot (ESymbol wit_a)) (EEqual wit_b symbol_no))))"
  using expr_transform_nnf[of wit_tab "ENot (EOr (ENot (ESymbol wit_a)) (EEqual wit_b symbol_no))"]
  by (simp add: const_untyped_def)



subsection \<open>Joins and common factors\<close>

text \<open>C20: when \<open>expr_join_or\<close> or \<open>expr_join_and\<close> replaces two operands by one expression, that
  expression has the value of their disjunction or conjunction.\<close>

theorem expr_join_sound:
  assumes "typed_val tab tri str"
  shows "(expr_join_or tab e1 e2 = Some e \<longrightarrow> eval tri str e = EXPR_OR (eval tri str e1) (eval tri str e2))
    \<and> (expr_join_and tab e1 e2 = Some e \<longrightarrow> eval tri str e = EXPR_AND (eval tri str e1) (eval tri str e2))"
  using eval_join_or[OF assms] eval_join_and[OF assms] by blast

theorem expr_join_sound_witness:
  "eval wit_tri wit_str (EUnequal wit_b symbol_no) = EXPR_OR
     (eval wit_tri wit_str (EEqual wit_b symbol_yes)) (eval wit_tri wit_str (EEqual wit_b symbol_mod))"
proof -
  have j: "expr_join_or wit_tab (EEqual wit_b symbol_yes) (EEqual wit_b symbol_mod)
      = Some (EUnequal wit_b symbol_no)" by (simp add: expr_join_or_def expr_eq.simps expr_alloc_comp_def)
  show ?thesis using expr_join_sound[OF wit_typed] j by blast
qed

text \<open>C21: \<open>expr_extract_eq_and\<close> splits two expressions into a common factor and two rests: each
  is the conjunction of the factor (\<open>y\<close> if there is none) and its rest, and \<open>expr_extract_eq_or\<close>
  dually.\<close>

theorem expr_extract_eq_sound:
  assumes "const_val tri"
  shows "(expr_extract_eq_and e1 e2 = (f, a, b) \<longrightarrow>
      eval tri str e1 = EXPR_AND (eval_opt tri str f) (eval tri str a)
      \<and> eval tri str e2 = EXPR_AND (eval_opt tri str f) (eval tri str b))
    \<and> (expr_extract_eq_or e1 e2 = (f, a, b) \<longrightarrow>
      eval tri str e1 = EXPR_OR (case f of None \<Rightarrow> tno | Some x \<Rightarrow> eval tri str x) (eval tri str a)
      \<and> eval tri str e2 = EXPR_OR (case f of None \<Rightarrow> tno | Some x \<Rightarrow> eval tri str x) (eval tri str b))"
  using assms by (rule extract_and_or_sound)

theorem expr_extract_eq_sound_witness:
  "expr_extract_eq_and (EAnd (ESymbol wit_a) (ESymbol wit_b)) (ESymbol wit_b)
     = (Some (ESymbol wit_b), ESymbol wit_a, ESymbol symbol_yes)
   \<and> eval wit_tri wit_str (EAnd (ESymbol wit_a) (ESymbol wit_b))
     = EXPR_AND (eval_opt wit_tri wit_str (Some (ESymbol wit_b))) (eval wit_tri wit_str (ESymbol wit_a))"
proof -
  have e: "expr_extract_eq_and (EAnd (ESymbol wit_a) (ESymbol wit_b)) (ESymbol wit_b)
     = (Some (ESymbol wit_b), ESymbol wit_a, ESymbol symbol_yes)" by code_simp
  then show ?thesis using expr_extract_eq_sound[OF wit_const] by blast
qed

subsection \<open>Dependency tests\<close>

text \<open>C23: an expression that \<open>expr_depends_symbol\<close> holds of is \<open>n\<close> whenever the symbol is: the
  entry of such an expression is hidden with the symbol's.\<close>

theorem expr_depends_symbol_sound:
  assumes "const_val tri" and "\<forall>c \<in> {y, symbol_yes, symbol_mod, symbol_no}. str c = tri_string (tri c)"
    and "expr_depends_symbol e y" and "tri y = tno"
  shows "eval tri str e = tno"
  using assms(3) by (induction e) (use assms(1,2,4) in auto)

theorem expr_depends_symbol_sound_witness:
  "eval wit_tri wit_str (EAnd (EOr (ESymbol wit_a) (ESymbol wit_b)) (EUnequal (heap_sym 5) symbol_no)) = tno"
  by (rule expr_depends_symbol_sound[OF wit_const, of "heap_sym 5"])
    (simp_all add: wit_str_def eval_nat_numeral)

text \<open>An expression that does not contain a symbol does not depend on its value.\<close>

theorem expr_contains_symbol_sound:
  assumes "\<not> expr_contains_symbol e y"
  shows "eval (tri(y := t)) (str(y := v)) e = eval tri str e"
  using assms by (induction e) auto

theorem expr_contains_symbol_sound_witness:
  "eval (wit_tri(wit_a := tno)) (wit_str(wit_a := ''n'')) (EAnd (ESymbol wit_b) (ESymbol symbol_yes)) = tmod"
  using expr_contains_symbol_sound[of "EAnd (ESymbol wit_b) (ESymbol symbol_yes)" wit_a wit_tri tno wit_str "''n''"]
  by simp

lemma trans_bool_eval:
  "typed_val tab tri str \<Longrightarrow> \<forall>y. sym_type (tab y) = S_TRISTATE \<longrightarrow> tri y \<noteq> tmod \<Longrightarrow>
   eval tri str (expr_trans_bool tab e) = eval tri str e"
proof (induction e)
  case (EUnequal a b)
  then show ?case using typed_valD(1,4)[OF EUnequal.prems(1)] typed_valD(7)[OF EUnequal.prems(1), of a]
    by (cases "tri a") auto
qed auto

text \<open>C24: \<open>expr_trans_bool\<close> keeps the value of an expression if no tristate symbol is \<open>m\<close>; with
  \<open>m\<close> it does not, even though the symbols it rewrites are the tristate ones.\<close>

theorem expr_trans_bool_two_valued:
  "(typed_val tab tri str \<and> (\<forall>y. sym_type (tab y) = S_TRISTATE \<longrightarrow> tri y \<noteq> tmod)
      \<longrightarrow> eval tri str (expr_trans_bool tab e) = eval tri str e)
   \<and> (\<exists>e. typed_val wit_tab wit_tri wit_str
      \<and> eval wit_tri wit_str (expr_trans_bool wit_tab e) \<noteq> eval wit_tri wit_str e)"
proof
  have "eval wit_tri wit_str (expr_trans_bool wit_tab (EUnequal wit_b symbol_no))
      \<noteq> eval wit_tri wit_str (EUnequal wit_b symbol_no)"
    by (simp add: wit_str_def)
  then show "\<exists>e. typed_val wit_tab wit_tri wit_str
      \<and> eval wit_tri wit_str (expr_trans_bool wit_tab e) \<noteq> eval wit_tri wit_str e"
    using wit_typed by blast
qed (use trans_bool_eval in blast)

theorem expr_trans_bool_two_valued_witness:
  "eval (wit_tri(wit_b := tyes)) (wit_str(wit_b := ''y''))
     (expr_trans_bool wit_tab (EUnequal wit_b symbol_no)) = tyes"
proof -
  let ?tri = "wit_tri(wit_b := tyes)" and ?str = "wit_str(wit_b := ''y'')"
  have "typed_val wit_tab ?tri ?str"
    by (auto simp: typed_val_def const_val_def wit_str_def)
  moreover have "\<forall>y. sym_type (wit_tab y) = S_TRISTATE \<longrightarrow> ?tri y \<noteq> tmod"
  proof (intro allI impI)
    fix y assume "sym_type (wit_tab y) = S_TRISTATE"
    then obtain i where "y = heap_sym i" by auto
    then show "?tri y \<noteq> tmod" by (cases "heap_sym i" rule: wit_tri.cases) auto
  qed
  ultimately have "eval ?tri ?str (expr_trans_bool wit_tab (EUnequal wit_b symbol_no))
      = eval ?tri ?str (EUnequal wit_b symbol_no)"
    using expr_trans_bool_two_valued[of wit_tab ?tri ?str "EUnequal wit_b symbol_no"] by blast
  then show ?thesis by (simp add: wit_str_def)
qed

subsection \<open>Repeated operands\<close>

text \<open>C16: \<open>expr_eliminate_dups\<close> ends within its fuel (no position it follows is missing), its
  result is not larger than its argument and has the same value, for every valuation under
  which the argument is not \<open>m\<close>.\<close>

theorem expr_eliminate_dups_correct:
  "\<exists>e'. expr_eliminate_dups tab e = Some e' \<and> esize e' \<le> esize e
     \<and> (\<forall>tri str. typed_val tab tri str \<longrightarrow> eval tri str e \<noteq> tmod \<longrightarrow> eval tri str e' = eval tri str e)"
  using dups_loop_ends[of e "Suc (esize e)" tab]
  unfolding expr_eliminate_dups_def agree_def by blast

theorem expr_eliminate_dups_correct_witness:
  "\<exists>e'. expr_eliminate_dups wit_tab (EAnd (ESymbol wit_a) (EOr (ESymbol wit_a) (ESymbol wit_b))) = Some e'
     \<and> eval wit_tri wit_str e' = tyes"
proof -
  let ?e = "EAnd (ESymbol wit_a) (EOr (ESymbol wit_a) (ESymbol wit_b))"
  have "eval wit_tri wit_str ?e = tyes" by (simp add: EXPR_OR_def less_tristate_def)
  then show ?thesis using expr_eliminate_dups_correct[of wit_tab ?e] wit_typed by fastforce
qed


end
