(* ===== verification/Symbol_Value.thy ===== *)
theory Symbol_Value
  imports Expr_Sem Expr_Print
begin

text \<open>
  The computation of symbol values: \<open>sym_calc_value\<close> and the functions it calls
  (\<open>adk/config/symbol.c\<close>, \<open>expr_calc_value\<close> of \<open>expr.c\<close>, \<open>set_all_choice_values\<close> of
  \<open>confdata.c\<close>). The functions are mutually recursive through \<open>sym_calc_value\<close>; each is a
  definition of its own that takes the recursive call as the argument \<open>calc\<close>, and
  \<open>sym_calc_value\<close> ties the knot with fuel. Results of \<open>None\<close> are null dereferences (a choice
  without its property, a string that was never set) and the end of the fuel.

  One difference of representation: the comparison of the old and new value by \<open>memcmp\<close> is a
  comparison of contents (an equal string at another address counts as unchanged, which only
  affects the \<open>CHANGED\<close> flags).
\<close>

type_synonym calc_fun = "symref \<Rightarrow> kconf \<Rightarrow> kconf option"

subsection \<open>Types, properties and flags of a symbol\<close>

definition sym_get_type :: "kconf \<Rightarrow> symref \<Rightarrow> symbol_type" where
  "sym_get_type s y =
     (let ty = sym_type (symtab s y) in
      if ty = S_TRISTATE then
        (if sym_is_choice_value s y \<and> sym_visible (symtab s y) = tyes then S_BOOLEAN
         else if modules_val s = tno then S_BOOLEAN else ty)
      else ty)"

primrec sym_type_name :: "symbol_type \<Rightarrow> string" where
  "sym_type_name S_BOOLEAN = ''boolean''"
| "sym_type_name S_TRISTATE = ''tristate''"
| "sym_type_name S_INT = ''integer''"
| "sym_type_name S_HEX = ''hex''"
| "sym_type_name S_STRING = ''string''"
| "sym_type_name S_UNKNOWN = ''unknown''"
| "sym_type_name S_OTHER = ''???''"

text \<open>\<open>for_all_properties\<close>, and \<open>for_all_prompts\<close>, which asks for a text.\<close>

definition props_of_type :: "kconf \<Rightarrow> symref \<Rightarrow> prop_type \<Rightarrow> propref list" where
  "props_of_type s y ty = filter (\<lambda>p. prop_type (proptab s p) = ty) (sym_prop (symtab s y))"

definition prompts :: "kconf \<Rightarrow> symref \<Rightarrow> propref list" where
  "prompts s y = filter (\<lambda>p. prop_text (proptab s p) \<noteq> None) (sym_prop (symtab s y))"

definition first_prop :: "propref list \<Rightarrow> propref option" where
  "first_prop ps = (case ps of [] \<Rightarrow> None | p # _ \<Rightarrow> Some p)"

definition sym_get_choice_prop :: "kconf \<Rightarrow> symref \<Rightarrow> propref option" where
  "sym_get_choice_prop s y = first_prop (props_of_type s y P_CHOICE)"

definition sym_get_env_prop :: "kconf \<Rightarrow> symref \<Rightarrow> propref option" where
  "sym_get_env_prop s y = first_prop (props_of_type s y P_ENV)"

text \<open>
  \<open>prop_get_symbol\<close>: the outer \<open>None\<close> is the list cell whose \<open>left\<close> is a pointer to the next
  cell, which the code would return as a symbol.
\<close>

definition prop_get_symbol :: "property \<Rightarrow> symref option option" where
  "prop_get_symbol p = (case prop_expr p of
     Some (ESymbol y) \<Rightarrow> Some (Some y)
   | Some (EList None y) \<Rightarrow> Some None
   | Some (EList (Some l) y) \<Rightarrow> None
   | _ \<Rightarrow> Some None)"

text \<open>The choice a value belongs to, \<open>prop_get_symbol(sym_get_choice_prop(sym))\<close>.\<close>

definition choice_of :: "kconf \<Rightarrow> symref \<Rightarrow> symref option" where
  "choice_of s y = do {
     p \<leftarrow> sym_get_choice_prop s y;
     c \<leftarrow> prop_get_symbol (proptab s p);
     c }"

text \<open>The values of a choice.\<close>

definition choice_values :: "kconf \<Rightarrow> symref \<Rightarrow> symref list option" where
  "choice_values s y = do {
     p \<leftarrow> sym_get_choice_prop s y;
     Some (expr_list_syms (prop_expr (proptab s p))) }"

definition menu_set_changed :: "menuref option \<Rightarrow> kconf \<Rightarrow> kconf" where
  "menu_set_changed m s = (case m of None \<Rightarrow> s
     | Some k \<Rightarrow> upd_menu k (\<lambda>x. x\<lparr>menu_flags := insert MENU_CHANGED (menu_flags x)\<rparr>) s)"

definition sym_set_changed :: "symref \<Rightarrow> kconf \<Rightarrow> kconf" where
  "sym_set_changed y s =
     fold (\<lambda>p s. menu_set_changed (prop_menu (proptab s p)) s) (sym_prop (symtab s y))
       (set_flag SYMBOL_CHANGED y s)"

definition sym_set_all_changed :: "kconf \<Rightarrow> kconf" where
  "sym_set_all_changed s = fold sym_set_changed (all_symbols s) s"

subsection \<open>Values of expressions\<close>

text \<open>A \<open>char *\<close> that is read.\<close>

definition str_of :: "symval \<Rightarrow> string option" where
  "str_of v = (case v of VStr x \<Rightarrow> Some x | _ \<Rightarrow> None)"

text \<open>\<open>sym_calc_value\<close> on a pointer that may be null.\<close>

definition calc_opt :: "calc_fun \<Rightarrow> symref option \<Rightarrow> kconf \<Rightarrow> kconf option" where
  "calc_opt calc y s = (case y of None \<Rightarrow> Some s | Some z \<Rightarrow> calc z s)"

definition sym_get_string_value ::
  "calc_fun \<Rightarrow> symref \<Rightarrow> kconf \<Rightarrow> (symval \<times> kconf) option" where
  "sym_get_string_value calc y s =
     (if sym_type (symtab s y) = S_BOOLEAN \<or> sym_type (symtab s y) = S_TRISTATE then
        (case sym_get_tristate_value s y of
           tno \<Rightarrow> Some (VStr ''n'', s)
         | tmod \<Rightarrow> do {
             s \<leftarrow> calc_opt calc (modules_sym s) s;
             m \<leftarrow> modules_sym s;
             Some (VStr (if sym_get_tristate_value s m = tno then ''n'' else ''m''), s) }
         | tyes \<Rightarrow> Some (VStr ''y'', s))
      else Some (sv_val (sym_curr (symtab s y)), s))"

definition calc_strings ::
  "calc_fun \<Rightarrow> symref \<Rightarrow> symref \<Rightarrow> kconf \<Rightarrow> ((string \<times> string) \<times> kconf) option" where
  "calc_strings calc a b s = do {
     s \<leftarrow> calc a s;
     s \<leftarrow> calc b s;
     (v1, s) \<leftarrow> sym_get_string_value calc a s;
     (v2, s) \<leftarrow> sym_get_string_value calc b s;
     str1 \<leftarrow> str_of v1;
     str2 \<leftarrow> str_of v2;
     Some ((str1, str2), s) }"

primrec expr_calc_node :: "calc_fun \<Rightarrow> expr \<Rightarrow> kconf \<Rightarrow> (tristate \<times> kconf) option" where
  "expr_calc_node calc (ESymbol y) s = do {
     s \<leftarrow> calc y s;
     Some (sym_get_tristate_value s y, s) }"
| "expr_calc_node calc (EAnd l r) s = do {
     (val1, s) \<leftarrow> expr_calc_node calc l s;
     (val2, s) \<leftarrow> expr_calc_node calc r s;
     Some (EXPR_AND val1 val2, s) }"
| "expr_calc_node calc (EOr l r) s = do {
     (val1, s) \<leftarrow> expr_calc_node calc l s;
     (val2, s) \<leftarrow> expr_calc_node calc r s;
     Some (EXPR_OR val1 val2, s) }"
| "expr_calc_node calc (ENot l) s = do {
     (val1, s) \<leftarrow> expr_calc_node calc l s;
     Some (EXPR_NOT val1, s) }"
| "expr_calc_node calc (EEqual a b) s = do {
     ((str1, str2), s) \<leftarrow> calc_strings calc a b s;
     Some (if str1 = str2 then tyes else tno, s) }"
| "expr_calc_node calc (EUnequal a b) s = do {
     ((str1, str2), s) \<leftarrow> calc_strings calc a b s;
     Some (if str1 = str2 then tno else tyes, s) }"
| "expr_calc_node calc (EList l y) s = Some (tno, s)"
| "expr_calc_node calc (ERange a b) s = Some (tno, s)"
| "expr_calc_node calc ENone s = Some (tno, s)"

definition expr_calc_value ::
  "calc_fun \<Rightarrow> expr option \<Rightarrow> kconf \<Rightarrow> (tristate \<times> kconf) option" where
  "expr_calc_value calc e s = (case e of None \<Rightarrow> Some (tyes, s) | Some x \<Rightarrow> expr_calc_node calc x s)"

subsection \<open>Visible properties\<close>

text \<open>\<open>prop->visible.tri = expr_calc_value(prop->visible.expr)\<close>\<close>

definition prop_calc_visible ::
  "calc_fun \<Rightarrow> propref \<Rightarrow> kconf \<Rightarrow> (tristate \<times> kconf) option" where
  "prop_calc_visible calc p s = do {
     (t, s) \<leftarrow> expr_calc_value calc (ev_expr (prop_visible (proptab s p))) s;
     Some (t, upd_prop p (\<lambda>x. x\<lparr>prop_visible := (prop_visible x)\<lparr>ev_tri := t\<rparr>\<rparr>) s) }"

fun first_visible ::
  "calc_fun \<Rightarrow> propref list \<Rightarrow> kconf \<Rightarrow> (propref option \<times> kconf) option" where
  "first_visible calc [] s = Some (None, s)"
| "first_visible calc (p # ps) s = do {
     (t, s) \<leftarrow> prop_calc_visible calc p s;
     if t \<noteq> tno then Some (Some p, s) else first_visible calc ps s }"

definition sym_get_default_prop ::
  "calc_fun \<Rightarrow> symref \<Rightarrow> kconf \<Rightarrow> (propref option \<times> kconf) option" where
  "sym_get_default_prop calc y s = first_visible calc (props_of_type s y P_DEFAULT) s"

definition sym_get_range_prop ::
  "calc_fun \<Rightarrow> symref \<Rightarrow> kconf \<Rightarrow> (propref option \<times> kconf) option" where
  "sym_get_range_prop calc y s = first_visible calc (props_of_type s y P_RANGE) s"

subsection \<open>Numbers\<close>

fun parse_digits :: "nat \<Rightarrow> int \<Rightarrow> string \<Rightarrow> int" where
  "parse_digits base acc (c # cs) =
     (if digit_val c < base then parse_digits base (acc * int base + int (digit_val c)) cs else acc)"
| "parse_digits base acc [] = acc"

definition LLONG_MAX :: int where "LLONG_MAX = 9223372036854775807"

definition LLONG_MIN :: int where "LLONG_MIN = - 9223372036854775808"

definition skip_hex_prefix :: "string \<Rightarrow> string" where
  "skip_hex_prefix str = (case str of
     z # x # d # cs \<Rightarrow> if z = CHR ''0'' \<and> (x = CHR ''x'' \<or> x = CHR ''X'') \<and> isxdigit d
       then d # cs else str
   | _ \<Rightarrow> str)"

text \<open>\<open>strtoll(str, NULL, base)\<close> for the bases 10 and 16: the result is cut to 64 bits.\<close>

definition strtoll :: "string \<Rightarrow> nat \<Rightarrow> int" where
  "strtoll str base =
     (let t = dropWhile isspace str;
          neg = (char_at t 0 = CHR ''-'');
          t = (if char_at t 0 = CHR ''-'' \<or> char_at t 0 = CHR ''+'' then drop 1 t else t);
          t = (if base = 16 then skip_hex_prefix t else t);
          v = parse_digits base 0 t
      in max LLONG_MIN (min LLONG_MAX (if neg then - v else v)))"

text \<open>The format \<open>0x%llx\<close>.\<close>

definition show_llx :: "int \<Rightarrow> string" where
  "show_llx v = ''0x'' @ show_nat 16 (nat (v mod 2 ^ 64))"

definition sym_base :: "symbol_type \<Rightarrow> nat \<Rightarrow> nat" where
  "sym_base ty base = (if ty = S_INT then 10 else if ty = S_HEX then 16 else base)"

definition sym_get_range_val ::
  "calc_fun \<Rightarrow> symref \<Rightarrow> nat \<Rightarrow> kconf \<Rightarrow> (int \<times> kconf) option" where
  "sym_get_range_val calc y base s = do {
     s \<leftarrow> calc y s;
     str \<leftarrow> str_of (sv_val (sym_curr (symtab s y)));
     Some (strtoll str (sym_base (sym_type (symtab s y)) base), s) }"

text \<open>\<open>prop->expr->left.sym\<close> and \<open>right.sym\<close> of a range.\<close>

definition range_syms :: "kconf \<Rightarrow> propref \<Rightarrow> (symref \<times> symref) option" where
  "range_syms s p = (case prop_expr (proptab s p) of
     Some (ERange a b) \<Rightarrow> Some (a, b) | Some (EEqual a b) \<Rightarrow> Some (a, b)
   | Some (EUnequal a b) \<Rightarrow> Some (a, b) | _ \<Rightarrow> None)"

definition sym_set_val :: "symref \<Rightarrow> symval \<Rightarrow> kconf \<Rightarrow> kconf" where
  "sym_set_val y v = upd_sym y (\<lambda>x. x\<lparr>sym_curr := (sym_curr x)\<lparr>sv_val := v\<rparr>\<rparr>)"

definition sym_set_curr :: "symref \<Rightarrow> symbol_value \<Rightarrow> kconf \<Rightarrow> kconf" where
  "sym_set_curr y v = upd_sym y (\<lambda>x. x\<lparr>sym_curr := v\<rparr>)"

definition sym_validate_range :: "calc_fun \<Rightarrow> symref \<Rightarrow> kconf \<Rightarrow> kconf option" where
  "sym_validate_range calc y s =
     (if sym_type (symtab s y) \<noteq> S_INT \<and> sym_type (symtab s y) \<noteq> S_HEX then Some s
      else do {
        let base = sym_base (sym_type (symtab s y)) 0;
        (p, s) \<leftarrow> sym_get_range_prop calc y s;
        case p of
          None \<Rightarrow> Some s
        | Some p \<Rightarrow> do {
            str \<leftarrow> str_of (sv_val (sym_curr (symtab s y)));
            let val = strtoll str base;
            (lo, hi) \<leftarrow> range_syms s p;
            (val2, s) \<leftarrow> sym_get_range_val calc lo base s;
            (ok, val2, s) \<leftarrow> (if val \<ge> val2 then do {
                (val2, s) \<leftarrow> sym_get_range_val calc hi base s;
                Some (val \<le> val2, val2, s) }
              else Some (False, val2, s));
            Some (if ok then s
              else sym_set_val y (VStr (if sym_type (symtab s y) = S_INT then show_lld val2
                                        else show_llx val2)) s) }})"

subsection \<open>Visibility\<close>

definition dep_set :: "(tristate \<Rightarrow> symbol \<Rightarrow> symbol) \<Rightarrow> (symbol \<Rightarrow> tristate) \<Rightarrow> symref \<Rightarrow>
    tristate \<Rightarrow> kconf \<Rightarrow> kconf" where
  "dep_set upd get y tri s =
     (if get (symtab s y) \<noteq> tri then sym_set_changed y (upd_sym y (upd tri) s) else s)"

fun calc_prompts ::
  "calc_fun \<Rightarrow> propref list \<Rightarrow> tristate \<Rightarrow> kconf \<Rightarrow> (tristate \<times> kconf) option" where
  "calc_prompts calc [] tri s = Some (tri, s)"
| "calc_prompts calc (p # ps) tri s = do {
     (t, s) \<leftarrow> prop_calc_visible calc p s;
     calc_prompts calc ps (EXPR_OR tri t) s }"

definition calc_val_dep :: "calc_fun \<Rightarrow> symref \<Rightarrow> nat \<Rightarrow> kconf \<Rightarrow> kconf option" where
  "calc_val_dep calc y i s = do {
     (tri, s) \<leftarrow> expr_calc_value calc (esv_expr (val_dep (symtab s y) ! i)) s;
     let tri = (if tri = tmod \<and> sym_get_type s y = S_BOOLEAN then tyes else tri);
     Some (dep_set
       (\<lambda>t x. x\<lparr>val_dep := (val_dep x)[i := (val_dep x ! i)\<lparr>esv_tri := t\<rparr>]\<rparr>)
       (\<lambda>x. esv_tri (val_dep x ! i)) y tri s) }"

text \<open>The stages of \<open>sym_calc_visibility\<close>: the prompts, the direct dependency, the selects.\<close>

definition calc_visible :: "calc_fun \<Rightarrow> symref \<Rightarrow> kconf \<Rightarrow> kconf option" where
  "calc_visible calc y s = do {
     (tri, s) \<leftarrow> calc_prompts calc (prompts s y) tno s;
     let tri = (if tri = tmod \<and> (sym_type (symtab s y) \<noteq> S_TRISTATE \<or> modules_val s = tno)
                then tyes else tri);
     Some (dep_set (\<lambda>t x. x\<lparr>sym_visible := t\<rparr>) sym_visible y tri s) }"

definition calc_dir_dep :: "calc_fun \<Rightarrow> symref \<Rightarrow> kconf \<Rightarrow> kconf option" where
  "calc_dir_dep calc y s = do {
     (tri, s) \<leftarrow> expr_calc_value calc (ev_expr (dir_dep (symtab s y))) s;
     let tri = (if tri = tmod then tyes else tri);
     Some (dep_set (\<lambda>t x. x\<lparr>dir_dep := (dir_dep x)\<lparr>ev_tri := t\<rparr>\<rparr>) (ev_tri \<circ> dir_dep) y tri s) }"

definition calc_rev_dep :: "calc_fun \<Rightarrow> symref \<Rightarrow> kconf \<Rightarrow> kconf option" where
  "calc_rev_dep calc y s = do {
     (tri, s) \<leftarrow> (if ev_expr (rev_dep (symtab s y)) = None then Some (tno, s)
                  else expr_calc_value calc (ev_expr (rev_dep (symtab s y))) s);
     let tri = (if tri = tmod \<and> sym_get_type s y = S_BOOLEAN then tyes else tri);
     Some (dep_set (\<lambda>t x. x\<lparr>rev_dep := (rev_dep x)\<lparr>ev_tri := t\<rparr>\<rparr>) (ev_tri \<circ> rev_dep) y tri s) }"

definition sym_calc_visibility :: "calc_fun \<Rightarrow> symref \<Rightarrow> kconf \<Rightarrow> kconf option" where
  "sym_calc_visibility calc y s = do {
     s \<leftarrow> calc_visible calc y s;
     s \<leftarrow> calc_dir_dep calc y s;
     s \<leftarrow> calc_rev_dep calc y s;
     ofold (calc_val_dep calc y) [0..<length (val_dep (symtab s y))] s }"

subsection \<open>Choices\<close>

text \<open>The selected values of a choice: the first one counts, every further one is reported.\<close>

definition choice_selected :: "symref \<Rightarrow> symref list \<Rightarrow> kconf \<Rightarrow> symref option \<times> kconf" where
  "choice_selected y vs s =
     fold (\<lambda>d (ret, s).
       if ev_tri (rev_dep (symtab s d)) \<noteq> tno then
         (if ret \<noteq> None
          then (ret, kwarn (''warning: conflicting selects on choice block: ''
                 @ or_null (sym_name (symtab s y))) s)
          else (Some d, s))
       else (ret, s)) vs (None, s)"

fun choice_defaults ::
  "calc_fun \<Rightarrow> propref list \<Rightarrow> kconf \<Rightarrow> (symref option \<times> kconf) option" where
  "choice_defaults calc [] s = Some (None, s)"
| "choice_defaults calc (p # ps) s = do {
     (t, s) \<leftarrow> prop_calc_visible calc p s;
     if t = tno then choice_defaults calc ps s
     else do {
       d \<leftarrow> prop_get_symbol (proptab s p);
       d \<leftarrow> d;
       if sym_visible (symtab s d) \<noteq> tno then Some (Some d, s) else choice_defaults calc ps s }}"

definition first_visible_sym :: "kconf \<Rightarrow> symref list \<Rightarrow> symref option" where
  "first_visible_sym s vs = List.find (\<lambda>d. sym_visible (symtab s d) \<noteq> tno) vs"

definition sym_choice_default ::
  "calc_fun \<Rightarrow> symref \<Rightarrow> kconf \<Rightarrow> (symref option \<times> kconf) option" where
  "sym_choice_default calc y s = do {
     vs \<leftarrow> choice_values s y;
     let (ret, s) = choice_selected y vs s;
     if ret \<noteq> None then Some (ret, s)
     else do {
       (d, s) \<leftarrow> choice_defaults calc (props_of_type s y P_DEFAULT) s;
       if d \<noteq> None then Some (d, s)
       else do {
         vs \<leftarrow> choice_values s y;
         Some (first_visible_sym s vs, s) }}}"

text \<open>A choice's user value is a symbol pointer; a string there would be taken for one.\<close>

definition sym_of :: "symval \<Rightarrow> symref option option" where
  "sym_of v = (case v of VNull \<Rightarrow> Some None | VSym d \<Rightarrow> Some (Some d) | VStr _ \<Rightarrow> None)"

definition symval_of :: "symref option \<Rightarrow> symval" where
  "symval_of d = (case d of None \<Rightarrow> VNull | Some y \<Rightarrow> VSym y)"

definition sym_calc_choice ::
  "calc_fun \<Rightarrow> symref \<Rightarrow> kconf \<Rightarrow> (symref option \<times> kconf) option" where
  "sym_calc_choice calc y s = do {
     let flags = sym_flags (symtab s y);
     vs \<leftarrow> choice_values s y;
     (flags, s) \<leftarrow> ofold (\<lambda>d (flags, s). do {
         s \<leftarrow> sym_calc_visibility calc d s;
         Some (if sym_visible (symtab s d) \<noteq> tno then flags \<inter> sym_flags (symtab s d) else flags, s) })
       vs (flags, s);
     let s = (if SYMBOL_DEF_USER \<in> flags then s else clear_flag SYMBOL_DEF_USER y s);
     d \<leftarrow> sym_of (sv_val (sym_def (symtab s y) S_DEF_USER));
     if (case d of None \<Rightarrow> False | Some z \<Rightarrow> sym_visible (symtab s z) \<noteq> tno) then Some (d, s)
     else do {
       (d, s) \<leftarrow> sym_choice_default calc y s;
       Some (d, if d = None
         then upd_sym y (\<lambda>x. x\<lparr>sym_curr := (sym_curr x)\<lparr>sv_tri := tno\<rparr>\<rparr>) s else s) }}"

text \<open>\<open>set_all_choice_values\<close> of \<open>confdata.c\<close>.\<close>

definition set_def_tri :: "def_index \<Rightarrow> symref \<Rightarrow> tristate \<Rightarrow> kconf \<Rightarrow> kconf" where
  "set_def_tri i y t = upd_sym y (\<lambda>x. x\<lparr>sym_def := (sym_def x)(i := (sym_def x i)\<lparr>sv_tri := t\<rparr>)\<rparr>)"

definition set_def_val :: "def_index \<Rightarrow> symref \<Rightarrow> symval \<Rightarrow> kconf \<Rightarrow> kconf" where
  "set_def_val i y v = upd_sym y (\<lambda>x. x\<lparr>sym_def := (sym_def x)(i := (sym_def x i)\<lparr>sv_val := v\<rparr>)\<rparr>)"

definition set_all_choice_values :: "symref \<Rightarrow> kconf \<Rightarrow> kconf option" where
  "set_all_choice_values y s = do {
     vs \<leftarrow> choice_values s y;
     let s = fold (\<lambda>d s. if sym_has_value s d then s else set_def_tri S_DEF_USER d tno s) vs s;
     let s = set_flag SYMBOL_DEF_USER y s;
     Some (clear_flag SYMBOL_VALID y (clear_flag SYMBOL_NEED_SET_CHOICE_VALUES y s)) }"

subsection \<open>The value of a symbol\<close>

definition left_sym :: "expr option \<Rightarrow> symref option" where
  "left_sym e = (case e of Some (ESymbol y) \<Rightarrow> Some y | Some (EEqual a b) \<Rightarrow> Some a
     | Some (EUnequal a b) \<Rightarrow> Some a | Some (ERange a b) \<Rightarrow> Some a | _ \<Rightarrow> None)"

definition val_deps_set :: "kconf \<Rightarrow> symref \<Rightarrow> bool" where
  "val_deps_set s y \<longleftrightarrow> (\<exists>v \<in> set (val_dep (symtab s y)). esv_tri v \<noteq> tno)"

text \<open>
  A boolean or tristate symbol that is not a visible choice value, up to the label
  \<open>calc_newval\<close>: the user's value limited by the visibility, or the default.
\<close>

definition calc_user_or_default :: "calc_fun \<Rightarrow> symref \<Rightarrow> kconf \<Rightarrow> (tristate \<times> kconf) option" where
  "calc_user_or_default calc y s = do {
     let s = (if sym_visible (symtab s y) \<noteq> tno then set_flag SYMBOL_WRITE y s else s);
     if sym_visible (symtab s y) \<noteq> tno \<and> sym_has_value s y then
       Some (EXPR_AND (sv_tri (sym_def (symtab s y) S_DEF_USER)) (sym_visible (symtab s y)), s)
     else do {
       let s = (if ev_tri (rev_dep (symtab s y)) \<noteq> tno then set_flag SYMBOL_WRITE y s else s);
       let s = (if val_deps_set s y then set_flag SYMBOL_WRITE y s else s);
       if sym_is_choice s y then Some (tno, s)
       else do {
         (p, s) \<leftarrow> sym_get_default_prop calc y s;
         case p of
           None \<Rightarrow> Some (tno, s)
         | Some p \<Rightarrow> do {
             let s = set_flag SYMBOL_WRITE y s;
             (t, s) \<leftarrow> expr_calc_value calc (prop_expr (proptab s p)) s;
             Some (EXPR_AND t (ev_tri (prop_visible (proptab s p))), s) }}}}"

text \<open>The loops over \<open>val_dep\<close> that come after it: the report of selects with an unmet
  dependency, and the selected values.\<close>

definition printed :: "kconf \<Rightarrow> expr option \<Rightarrow> string option" where
  "printed s e = expr_fprint (\<lambda>z. sym_name (symtab s z)) e []"

definition unmet_message :: "kconf \<Rightarrow> symref \<Rightarrow> expr_select_value \<Rightarrow> string option" where
  "unmet_message s y v = do {
     e \<leftarrow> printed s (esv_expr v);
     value \<leftarrow> printed s (esv_value v);
     dep \<leftarrow> printed s (ev_expr (dir_dep (symtab s y)));
     Some (''warning: ('' @ e @ '') selects '' @ or_null (sym_name (symtab s y))
       @ '' (with value '' @ value @ '') which has unmet direct dependencies ('' @ dep @ '')'') }"

definition unmet_val_dep :: "calc_fun \<Rightarrow> symref \<Rightarrow> nat \<Rightarrow> kconf \<Rightarrow> kconf option" where
  "unmet_val_dep calc y i s =
     (if esv_tri (val_dep (symtab s y) ! i) \<noteq> tno then do {
        (t, s) \<leftarrow> expr_calc_value calc (esv_value (val_dep (symtab s y) ! i)) s;
        if t \<noteq> tno then do {
          msg \<leftarrow> unmet_message s y (val_dep (symtab s y) ! i);
          Some (kwarn msg s) }
        else Some s }
      else Some s)"

definition or_val_dep ::
  "calc_fun \<Rightarrow> symref \<Rightarrow> nat \<Rightarrow> tristate \<times> kconf \<Rightarrow> (tristate \<times> kconf) option" where
  "or_val_dep calc y i ts =
     (if esv_tri (val_dep (symtab (snd ts) y) ! i) \<noteq> tno then do {
        (t, s) \<leftarrow> expr_calc_value calc (esv_value (val_dep (symtab (snd ts) y) ! i)) (snd ts);
        Some (EXPR_OR (fst ts) t, s) }
      else Some ts)"

definition calc_newval ::
  "calc_fun \<Rightarrow> symref \<Rightarrow> tristate \<Rightarrow> kconf \<Rightarrow> (tristate \<times> kconf) option" where
  "calc_newval calc y t s = do {
     s \<leftarrow> (if ev_tri (dir_dep (symtab s y)) = tno
          then ofold (unmet_val_dep calc y) [0..<length (val_dep (symtab s y))] s else Some s);
     ofold (or_val_dep calc y) [0..<length (val_dep (symtab s y))]
       (EXPR_OR t (ev_tri (rev_dep (symtab s y))), s) }"

text \<open>The \<open>S_BOOLEAN\<close>/\<open>S_TRISTATE\<close> case of the switch.\<close>

definition calc_tristate :: "calc_fun \<Rightarrow> symref \<Rightarrow> kconf \<Rightarrow> (tristate \<times> kconf) option" where
  "calc_tristate calc y s = do {
     (t, s) \<leftarrow>
       (if sym_is_choice_value s y \<and> sym_visible (symtab s y) = tyes then do {
          c \<leftarrow> choice_of s y;
          Some (if sv_val (sym_curr (symtab s c)) = VSym y then tyes else tno, s) }
        else do {
          (t, s) \<leftarrow> calc_user_or_default calc y s;
          calc_newval calc y t s });
     Some (if t = tmod \<and> sym_get_type s y = S_BOOLEAN then tyes else t, s) }"

text \<open>The \<open>S_STRING\<close>/\<open>S_HEX\<close>/\<open>S_INT\<close> case; \<open>got_sel_val\<close> is the flag of the code.\<close>

definition sel_val_dep ::
  "calc_fun \<Rightarrow> symref \<Rightarrow> nat \<Rightarrow> (symval \<times> bool) \<times> kconf \<Rightarrow> ((symval \<times> bool) \<times> kconf) option" where
  "sel_val_dep calc y i vs = (case vs of ((v, got_sel_val), s) \<Rightarrow>
     if esv_tri (val_dep (symtab s y) ! i) \<noteq> tno then do {
       ss \<leftarrow> left_sym (esv_value (val_dep (symtab s y) ! i));
       if got_sel_val then Some vs
       else do {
         s \<leftarrow> calc ss (set_flag SYMBOL_WRITE y s);
         Some ((sv_val (sym_curr (symtab s ss)), True), s) }}
     else Some vs)"

definition calc_default_string ::
  "calc_fun \<Rightarrow> symref \<Rightarrow> symval \<Rightarrow> kconf \<Rightarrow> (symval \<times> kconf) option" where
  "calc_default_string calc y v s = do {
     (p, s) \<leftarrow> sym_get_default_prop calc y s;
     case p of
       None \<Rightarrow> Some (v, s)
     | Some p \<Rightarrow> do {
         ds \<leftarrow> prop_get_symbol (proptab s p);
         case ds of
           None \<Rightarrow> Some (v, s)
         | Some ds \<Rightarrow> do {
             s \<leftarrow> calc ds (set_flag SYMBOL_WRITE y s);
             Some (sv_val (sym_curr (symtab s ds)), s) }}}"

definition calc_string :: "calc_fun \<Rightarrow> symref \<Rightarrow> symval \<Rightarrow> kconf \<Rightarrow> (symval \<times> kconf) option" where
  "calc_string calc y v s = do {
     let s = (if sym_visible (symtab s y) \<noteq> tno then set_flag SYMBOL_WRITE y s else s);
     if sym_visible (symtab s y) \<noteq> tno \<and> sym_has_value s y then
       Some (sv_val (sym_def (symtab s y) S_DEF_USER), s)
     else do {
       ((v, got_sel_val), s) \<leftarrow>
         ofold (sel_val_dep calc y) [0..<length (val_dep (symtab s y))] ((v, False), s);
       if got_sel_val then Some (v, s) else calc_default_string calc y v s }}"

definition calc_newval_by_type ::
  "calc_fun \<Rightarrow> symref \<Rightarrow> symbol_value \<Rightarrow> kconf \<Rightarrow> (symbol_value \<times> kconf) option" where
  "calc_newval_by_type calc y newval s =
     (let ty = sym_get_type s y in
      if ty = S_BOOLEAN \<or> ty = S_TRISTATE then do {
        (t, s) \<leftarrow> calc_tristate calc y s;
        Some (newval\<lparr>sv_tri := t\<rparr>, s) }
      else if ty = S_STRING \<or> ty = S_HEX \<or> ty = S_INT then do {
        (v, s) \<leftarrow> calc_string calc y (sv_val newval) s;
        Some (newval\<lparr>sv_val := v\<rparr>, s) }
      else Some (newval, s))"

text \<open>What follows the new value: the changed flags, the choice's values, the write flag.\<close>

definition calc_notify :: "symref \<Rightarrow> symbol_value \<Rightarrow> kconf \<Rightarrow> kconf" where
  "calc_notify y oldval s =
     (if oldval \<noteq> sym_curr (symtab s y) then
        (let s = sym_set_changed y s in
         if modules_sym s = Some y
         then (sym_set_all_changed s)\<lparr>modules_val := sym_get_tristate_value s y\<rparr> else s)
      else s)"

definition calc_choice_flags :: "symref \<Rightarrow> kconf \<Rightarrow> kconf option" where
  "calc_choice_flags y s =
     (if sym_is_choice s y then do {
        vs \<leftarrow> choice_values s y;
        Some (fold (\<lambda>d s.
          let s = (if has_flag SYMBOL_WRITE y s \<and> sym_visible (symtab s d) \<noteq> tno
                   then set_flag SYMBOL_WRITE d s else s)
          in if has_flag SYMBOL_CHANGED y s then sym_set_changed d s else s) vs s) }
      else Some s)"

definition calc_finish :: "symref \<Rightarrow> kconf \<Rightarrow> kconf option" where
  "calc_finish y s = do {
     s \<leftarrow> calc_choice_flags y s;
     let s = (if has_flag SYMBOL_AUTO y s then clear_flag SYMBOL_WRITE y s else s);
     if has_flag SYMBOL_NEED_SET_CHOICE_VALUES y s then set_all_choice_values y s else Some s }"

text \<open>The default for a recursive call, the new value by type, and the choice's symbol.\<close>

definition calc_set_newval ::
  "calc_fun \<Rightarrow> symref \<Rightarrow> symbol_value \<Rightarrow> kconf \<Rightarrow> kconf option" where
  "calc_set_newval calc y newval s = do {
     (newval, s) \<leftarrow> calc_newval_by_type calc y newval (sym_set_curr y newval s);
     let s = sym_set_curr y newval s;
     if sym_is_choice s y \<and> sv_tri newval = tyes then do {
       (d, s) \<leftarrow> sym_calc_choice calc y s;
       Some (sym_set_val y (symval_of d) s) }
     else Some s }"

definition sym_calc_typed ::
  "calc_fun \<Rightarrow> symref \<Rightarrow> symbol_value \<Rightarrow> symbol_value \<Rightarrow> kconf \<Rightarrow> kconf option" where
  "sym_calc_typed calc y oldval newval s = do {
     let s = (if sym_is_choice_value s y then s else clear_flag SYMBOL_WRITE y s);
     s \<leftarrow> sym_calc_visibility calc y s;
     s \<leftarrow> calc_set_newval calc y newval s;
     s \<leftarrow> sym_validate_range calc y s;
     calc_finish y (calc_notify y oldval s) }"

definition calc_choice_first :: "calc_fun \<Rightarrow> symref \<Rightarrow> kconf \<Rightarrow> kconf option" where
  "calc_choice_first calc y s =
     (if sym_is_choice_value s y \<and> has_flag SYMBOL_NEED_SET_CHOICE_VALUES y s then do {
        let s = clear_flag SYMBOL_NEED_SET_CHOICE_VALUES y s;
        p \<leftarrow> sym_get_choice_prop s y;
        c \<leftarrow> prop_get_symbol (proptab s p);
        calc_opt calc c s }
      else Some s)"

definition sym_calc_body :: "calc_fun \<Rightarrow> symref \<Rightarrow> kconf \<Rightarrow> kconf option" where
  "sym_calc_body calc y s =
     (if has_flag SYMBOL_VALID y s then Some s
      else do {
        s \<leftarrow> calc_choice_first calc y s;
        let s = set_flag SYMBOL_VALID y s;
        let oldval = sym_curr (symtab s y);
        let ty = sym_type (symtab s y);
        if ty = S_INT \<or> ty = S_HEX \<or> ty = S_STRING
        then sym_calc_typed calc y oldval (sym_curr (symtab s symbol_empty)) s
        else if ty = S_BOOLEAN \<or> ty = S_TRISTATE
        then sym_calc_typed calc y oldval (sym_curr (symtab s symbol_no)) s
        else Some (sym_set_curr y
          \<lparr>sv_val = (case sym_name (symtab s y) of None \<Rightarrow> VNull | Some x \<Rightarrow> VStr x), sv_tri = tno\<rparr> s) })"

primrec sym_calc_value :: "nat \<Rightarrow> calc_fun" where
  "sym_calc_value 0 = (\<lambda>y s. None)"
| "sym_calc_value (Suc n) = sym_calc_body (sym_calc_value n)"

text \<open>
  Fuel for a call: every recursive call that is not on a valid symbol makes one more symbol
  valid, or answers one request to set the values of a choice (which makes the choice invalid
  again, once). The theory \<open>Symbol_Total\<close> shows that this is enough.
\<close>

definition calc_fuel :: "kconf \<Rightarrow> nat" where
  "calc_fuel s = 3 * (nsyms s + 4) + 1"

definition sym_calc :: calc_fun where
  "sym_calc y s = sym_calc_value (calc_fuel s) y s"

end
