(* ===== verification/Symbol_Tab.thy ===== *)
theory Symbol_Tab
  imports Symbol_Value "HOL-Library.Word"
begin

text \<open>
  The symbol table of \<open>adk/config/symbol.c\<close>: hashing, lookup and creation of symbols, the
  properties attached to them, the expansion and escaping of strings, and the search by a
  regular expression. A bucket is the chain of its symbols, front first.
\<close>

unbundle bit_operations_syntax

subsection \<open>Freshly allocated objects and the initial state\<close>

definition zero_value :: symbol_value where
  "zero_value = \<lparr>sv_val = VNull, sv_tri = tno\<rparr>"

definition zero_expr_value :: expr_value where
  "zero_expr_value = \<lparr>ev_expr = None, ev_tri = tno\<rparr>"

definition zero_symbol :: symbol where
  "zero_symbol = \<lparr>sym_name = None, sym_type = S_UNKNOWN, sym_curr = zero_value,
     sym_def = (\<lambda>_. zero_value), sym_visible = tno, sym_flags = {}, sym_prop = [],
     dir_dep = zero_expr_value, rev_dep = zero_expr_value, val_dep = []\<rparr>"

definition zero_property :: property where
  "zero_property = \<lparr>prop_sym = None, prop_type = P_UNKNOWN, prop_text = None,
     prop_visible = zero_expr_value, prop_expr = None, prop_menu = None, prop_file = None,
     prop_lineno = 0, prop_value = None\<rparr>"

definition zero_menu :: menu where
  "zero_menu = \<lparr>menu_next = None, menu_parent = None, menu_list = None, menu_sym = None,
     menu_prompt = None, menu_visibility = None, menu_dep = None, menu_flags = {},
     menu_help = None, menu_file = None, menu_lineno = 0\<rparr>"

text \<open>The four constant symbols.\<close>

definition const_symbol :: "string \<Rightarrow> tristate \<Rightarrow> symflag set \<Rightarrow> symbol" where
  "const_symbol name t flags = zero_symbol\<lparr>sym_name := Some name,
     sym_curr := \<lparr>sv_val = VStr name, sv_tri = t\<rparr>, sym_flags := flags\<rparr>"

primrec init_symtab :: "symref \<Rightarrow> symbol" where
  "init_symtab symbol_yes = const_symbol ''y'' tyes {SYMBOL_CONST, SYMBOL_VALID}"
| "init_symtab symbol_mod = const_symbol ''m'' tmod {SYMBOL_CONST, SYMBOL_VALID}"
| "init_symtab symbol_no = const_symbol ''n'' tno {SYMBOL_CONST, SYMBOL_VALID}"
| "init_symtab symbol_empty = const_symbol [] tno {SYMBOL_VALID}"
| "init_symtab (heap_sym i) = zero_symbol"

definition init_kconf :: kconf where
  "init_kconf = \<lparr>symtab = init_symtab, nsyms = 0, proptab = (\<lambda>_. zero_property), nprops = 0,
     menutab = (\<lambda>_. zero_menu), nmenus = 1, symbol_hash = (\<lambda>_. []), modules_sym = None,
     modules_val = tno, sym_defconfig_list = None, sym_env_list = None, current_entry = rootmenu,
     current_menu = rootmenu, last_entry_ptr = List_of rootmenu, current_file = None,
     file_list = [], zconf_lineno = 0, zconfnerrs = 0, sym_change_count = 0,
     conf_filename = None, conf_lineno = 0, conf_warnings = 0, conf_unsaved = 0, kmsgs = [], kcallbacks = 0\<rparr>"

subsection \<open>Lookup\<close>

text \<open>The 32-bit FNV hash; a \<open>char\<close> is signed and is extended when it is combined.\<close>

definition fnv_step :: "32 word \<Rightarrow> char \<Rightarrow> 32 word" where
  "fnv_step hash c = (hash XOR scast (of_char c :: 8 word)) * 0x01000193"

definition strhash :: "string \<Rightarrow> 32 word" where
  "strhash str = foldl fnv_step 2166136261 str"

definition sym_bucket :: "string \<Rightarrow> nat" where
  "sym_bucket name = unat (strhash name) mod SYMBOL_HASHSIZE"

definition const_name :: "string \<Rightarrow> symref option" where
  "const_name name = (if name = ''y'' then Some symbol_yes else if name = ''m'' then Some symbol_mod
     else if name = ''n'' then Some symbol_no else None)"

definition lookup_match :: "kconf \<Rightarrow> string \<Rightarrow> symflag set \<Rightarrow> symref \<Rightarrow> bool" where
  "lookup_match s name flags y \<longleftrightarrow> sym_name (symtab s y) = Some name
     \<and> (if flags \<noteq> {} then sym_flags (symtab s y) \<inter> flags \<noteq> {}
        else sym_flags (symtab s y) \<inter> {SYMBOL_CONST, SYMBOL_CHOICE} = {})"

definition sym_alloc :: "string option \<Rightarrow> symflag set \<Rightarrow> nat \<Rightarrow> kconf \<Rightarrow> symref \<times> kconf" where
  "sym_alloc name flags hash s =
     (let y = heap_sym (nsyms s) in
      (y, s\<lparr>symtab := (symtab s)(y := zero_symbol\<lparr>sym_name := name, sym_flags := flags\<rparr>),
            nsyms := Suc (nsyms s),
            symbol_hash := (symbol_hash s)(hash := y # symbol_hash s hash)\<rparr>))"

definition sym_lookup :: "string option \<Rightarrow> symflag set \<Rightarrow> kconf \<Rightarrow> symref \<times> kconf" where
  "sym_lookup name flags s = (case name of
     None \<Rightarrow> sym_alloc None flags 0 s
   | Some str \<Rightarrow>
      (case const_name str of
         Some y \<Rightarrow> (y, s)
       | None \<Rightarrow>
          (case List.find (lookup_match s str flags) (symbol_hash s (sym_bucket str)) of
             Some y \<Rightarrow> (y, s)
           | None \<Rightarrow> sym_alloc (Some str) flags (sym_bucket str) s)))"

definition sym_find :: "kconf \<Rightarrow> string option \<Rightarrow> symref option" where
  "sym_find s name = (case name of
     None \<Rightarrow> None
   | Some str \<Rightarrow>
      (case const_name str of
         Some y \<Rightarrow> Some y
       | None \<Rightarrow> List.find (\<lambda>y. sym_name (symtab s y) = Some str \<and> \<not> has_flag SYMBOL_CONST y s)
           (symbol_hash s (sym_bucket str))))"

subsection \<open>Properties\<close>

definition prop_alloc :: "prop_type \<Rightarrow> symref option \<Rightarrow> kconf \<Rightarrow> propref \<times> kconf" where
  "prop_alloc ty y s =
     (let p = nprops s;
          s = s\<lparr>proptab := (proptab s)(p := zero_property\<lparr>prop_type := ty, prop_sym := y,
                  prop_file := current_file s, prop_lineno := zconf_lineno s\<rparr>),
                nprops := Suc p\<rparr>
      in (p, case y of None \<Rightarrow> s | Some z \<Rightarrow> upd_sym z (\<lambda>x. x\<lparr>sym_prop := sym_prop x @ [p]\<rparr>) s))"

definition prop_set_expr :: "propref \<Rightarrow> expr option \<Rightarrow> kconf \<Rightarrow> kconf" where
  "prop_set_expr p e = upd_prop p (\<lambda>x. x\<lparr>prop_expr := e\<rparr>)"

primrec prop_get_type_name :: "prop_type \<Rightarrow> string" where
  "prop_get_type_name P_PROMPT = ''prompt''"
| "prop_get_type_name P_ENV = ''env''"
| "prop_get_type_name P_COMMENT = ''comment''"
| "prop_get_type_name P_MENU = ''menu''"
| "prop_get_type_name P_DEFAULT = ''default''"
| "prop_get_type_name P_CHOICE = ''choice''"
| "prop_get_type_name P_SELECT = ''select''"
| "prop_get_type_name P_RANGE = ''range''"
| "prop_get_type_name P_SYMBOL = ''symbol''"
| "prop_get_type_name P_UNKNOWN = ''unknown''"

definition sym_add_default :: "symref \<Rightarrow> string \<Rightarrow> kconf \<Rightarrow> kconf" where
  "sym_add_default y def s =
     (let (p, s) = prop_alloc P_DEFAULT (Some y) s;
          (d, s) = sym_lookup (Some def) {SYMBOL_CONST} s
      in prop_set_expr p (Some (expr_alloc_symbol d)) s)"

text \<open>\<open>sym_init\<close>; \<open>release\<close> is what \<open>uname\<close> reports.\<close>

definition sym_init :: "string \<Rightarrow> kconf \<Rightarrow> kconf" where
  "sym_init release s =
     (let (y, s) = sym_lookup (Some ''UNAME_RELEASE'') {} s;
          s = upd_sym y (\<lambda>x. x\<lparr>sym_type := S_STRING, sym_flags := insert SYMBOL_AUTO (sym_flags x)\<rparr>) s
      in sym_add_default y release s)"

definition menu_warn :: "menuref \<Rightarrow> string \<Rightarrow> kconf \<Rightarrow> kconf" where
  "menu_warn m msg s = kwarn (or_null (menu_file (menutab s m)) @ '':''
     @ show_nat 10 (menu_lineno (menutab s m)) @ '':warning: '' @ msg) s"

definition prop_warn :: "propref \<Rightarrow> string \<Rightarrow> kconf \<Rightarrow> kconf" where
  "prop_warn p msg s = kwarn (or_null (prop_file (proptab s p)) @ '':''
     @ show_nat 10 (prop_lineno (proptab s p)) @ '':warning: '' @ msg) s"

text \<open>\<open>prop_add_env\<close>; \<open>getenv\<close> is the environment.\<close>

definition prop_add_env :: "(string \<Rightarrow> string option) \<Rightarrow> string \<Rightarrow> kconf \<Rightarrow> kconf option" where
  "prop_add_env getenv env s = do {
     y \<leftarrow> menu_sym (menutab s (current_entry s));
     let s = set_flag SYMBOL_AUTO y s;
     case sym_get_env_prop s y of
       Some p \<Rightarrow> do {
         d \<leftarrow> prop_get_symbol (proptab s p);
         d \<leftarrow> d;
         name \<leftarrow> sym_name (symtab s d);
         Some (if name \<noteq> env
           then menu_warn (current_entry s) (''redefining environment symbol from '' @ name) s
           else s) }
     | None \<Rightarrow> do {
         let (p, s) = prop_alloc P_ENV (Some y) s;
         let (d, s) = sym_lookup (Some env) {SYMBOL_CONST} s;
         let s = prop_set_expr p (Some (expr_alloc_symbol d)) s;
         let s = s\<lparr>sym_env_list := Some (EList (sym_env_list s) y)\<rparr>;
         Some (case getenv env of
           Some v \<Rightarrow> sym_add_default y v s
         | None \<Rightarrow> menu_warn (current_entry s)
             (''environment variable '' @ env @ '' undefined'') s) }}"

subsection \<open>Strings\<close>

definition is_ident_char :: "char \<Rightarrow> bool" where
  "is_ident_char c \<longleftrightarrow> isalnum c \<or> c = CHR ''_''"

text \<open>
  One \<open>$NAME\<close> of \<open>sym_expand_string_value\<close>: the name is collected in a buffer of
  \<open>SYMBOL_MAXLENGTH\<close> bytes, which a longer name overruns.
\<close>

definition expand_name :: "calc_fun \<Rightarrow> string \<Rightarrow> kconf \<Rightarrow> (string \<times> kconf) option" where
  "expand_name calc name s =
     (if length name \<ge> SYMBOL_MAXLENGTH then None
      else (case sym_find s (Some name) of
        None \<Rightarrow> Some ([], s)
      | Some y \<Rightarrow> do {
          s \<leftarrow> calc y s;
          (v, s) \<leftarrow> sym_get_string_value calc y s;
          str \<leftarrow> str_of v;
          Some (str, s) }))"

lemma dropWhile_Cons_length: "dropWhile P str = c # cs \<Longrightarrow> length cs < length str"
  by (metis Suc_le_eq length_Cons length_dropWhile_le)

function sym_expand_loop ::
  "calc_fun \<Rightarrow> string \<Rightarrow> string \<Rightarrow> kconf \<Rightarrow> (string \<times> kconf) option" where
  "sym_expand_loop calc res str s =
     (case dropWhile (\<lambda>c. c \<noteq> CHR ''$'') str of
        [] \<Rightarrow> Some (res @ str, s)
      | _ # src \<Rightarrow>
         (case expand_name calc (takeWhile is_ident_char src) s of
            None \<Rightarrow> None
          | Some (symval, s) \<Rightarrow>
              sym_expand_loop calc (res @ takeWhile (\<lambda>c. c \<noteq> CHR ''$'') str @ symval)
                (dropWhile is_ident_char src) s))"
  by pat_completeness auto

termination
  by (relation "measure (\<lambda>(calc, res, str, s). length str)")
    (auto dest!: dropWhile_Cons_length intro: le_less_trans[OF length_dropWhile_le])

declare sym_expand_loop.simps [simp del]

definition sym_expand_string_value ::
  "calc_fun \<Rightarrow> string \<Rightarrow> kconf \<Rightarrow> (string \<times> kconf) option" where
  "sym_expand_string_value calc str s = sym_expand_loop calc [] str s"

definition escaped_char :: "char \<Rightarrow> bool" where
  "escaped_char c \<longleftrightarrow> c = CHR 0x22 \<or> c = CHR 0x5C"

function escape_loop :: "string \<Rightarrow> string \<Rightarrow> string" where
  "escape_loop res p =
     (case dropWhile (\<lambda>c. \<not> escaped_char c) p of
        [] \<Rightarrow> res @ p
      | c # cs \<Rightarrow> escape_loop (res @ takeWhile (\<lambda>c. \<not> escaped_char c) p @ [CHR 0x5C, c]) cs)"
  by pat_completeness auto

termination
  by (relation "measure (\<lambda>(res, p). length p)") (auto dest!: dropWhile_Cons_length)

declare escape_loop.simps [simp del]

definition sym_escape_string_value :: "string \<Rightarrow> string" where
  "sym_escape_string_value str = escape_loop [CHR 0x22] str @ [CHR 0x22]"

subsection \<open>Search\<close>

text \<open>\<open>strcmp\<close> compares bytes as unsigned; the sign of its result.\<close>

fun strcmp :: "string \<Rightarrow> string \<Rightarrow> int" where
  "strcmp [] [] = 0"
| "strcmp [] (_ # _) = -1"
| "strcmp (_ # _) [] = 1"
| "strcmp (a # as) (b # bs) =
     (if a = b then strcmp as bs else if (of_char a :: nat) < of_char b then -1 else 1)"

definition name_of :: "string option \<Rightarrow> string" where
  "name_of x = (case x of None \<Rightarrow> [] | Some n \<Rightarrow> n)"

record sym_match =
  match_sym :: symref
  match_so :: nat
  match_eo :: nat

definition sym_exact :: "kconf \<Rightarrow> sym_match \<Rightarrow> bool" where
  "sym_exact s m \<longleftrightarrow>
     match_eo m - match_so m = length (name_of (sym_name (symtab s (match_sym m))))"

definition sym_rel_comp :: "kconf \<Rightarrow> sym_match \<Rightarrow> sym_match \<Rightarrow> int" where
  "sym_rel_comp s s1 s2 =
     (if sym_exact s s1 \<and> \<not> sym_exact s s2 then -1
      else if \<not> sym_exact s s1 \<and> sym_exact s s2 then 1
      else strcmp (name_of (sym_name (symtab s (match_sym s1))))
        (name_of (sym_name (symtab s (match_sym s2)))))"

text \<open>
  \<open>qsort\<close> with \<open>sym_rel_comp\<close>, as an insertion sort: entries that compare equal keep their
  order here, in one of the orders \<open>qsort\<close> may leave them in.
\<close>

fun match_insert :: "kconf \<Rightarrow> sym_match \<Rightarrow> sym_match list \<Rightarrow> sym_match list" where
  "match_insert s m [] = [m]"
| "match_insert s m (x # xs) =
     (if sym_rel_comp s m x \<le> 0 then m # x # xs else x # match_insert s m xs)"

text \<open>
  \<open>sym_re_search\<close>. \<open>regcomp\<close> and \<open>regexec\<close> are the library's: the argument gives the matcher
  of a pattern, if it compiles, and a matcher the bounds of the first match in a name. An
  answer of \<open>None\<close> is the null pointer.
\<close>

definition re_matches ::
  "calc_fun \<Rightarrow> (string \<Rightarrow> (nat \<times> nat) option) \<Rightarrow> kconf \<Rightarrow> (sym_match list \<times> kconf) option" where
  "re_matches calc regexec s =
     ofold (\<lambda>y (ms, s). case sym_name (symtab s y) of
         None \<Rightarrow> Some (ms, s)
       | Some name \<Rightarrow>
          if has_flag SYMBOL_CONST y s then Some (ms, s)
          else (case regexec name of
              None \<Rightarrow> Some (ms, s)
            | Some (so, eo) \<Rightarrow> do {
                s \<leftarrow> calc y s;
                Some (ms @ [\<lparr>match_sym = y, match_so = so, match_eo = eo\<rparr>], s) }))
       (all_symbols s) ([], s)"

definition sym_re_search ::
  "calc_fun \<Rightarrow> (string \<Rightarrow> (string \<Rightarrow> (nat \<times> nat) option) option) \<Rightarrow> string \<Rightarrow> kconf
     \<Rightarrow> (symref list option \<times> kconf) option" where
  "sym_re_search calc regcomp pattern s =
     (if pattern = [] then Some (None, s)
      else (case regcomp pattern of
        None \<Rightarrow> Some (None, s)
      | Some regexec \<Rightarrow> do {
          (ms, s) \<leftarrow> re_matches calc regexec s;
          Some (if ms = [] then None else Some (map match_sym (foldr (match_insert s) ms [])), s) }))"

end
