(* ===== verification/Symbol_Frame.thy ===== *)
theory Symbol_Frame
  imports Symbol_Tab
begin

text \<open>
  What a value computation may change: the computed values, the visibilities and dependency
  values it caches, the messages, and the flags \<open>VALID\<close>, \<open>WRITE\<close>, \<open>CHANGED\<close>,
  \<open>NEED_SET_CHOICE_VALUES\<close> and (of a choice) \<open>DEF_USER\<close>. \<open>frame\<close> erases these, so an operation
  that keeps the frame keeps the configuration: names, types, properties, expressions, user
  values that were set (but of choices) and the menu tree.
\<close>

subsection \<open>The frame of a state\<close>

definition cached_flags :: "symflag set \<Rightarrow> symflag set" where
  "cached_flags fl = {SYMBOL_VALID, SYMBOL_WRITE, SYMBOL_CHANGED, SYMBOL_NEED_SET_CHOICE_VALUES}
     \<union> (if SYMBOL_CHOICE \<in> fl then {SYMBOL_DEF_USER} else {})"

definition frame_sym :: "symbol \<Rightarrow> symbol" where
  "frame_sym x = x\<lparr>sym_curr := zero_value, sym_visible := tno,
     sym_flags := sym_flags x - cached_flags (sym_flags x),
     sym_def := (\<lambda>i. if i = S_DEF_USER \<and> (SYMBOL_CHOICE \<in> sym_flags x \<or> SYMBOL_DEF_USER \<notin> sym_flags x)
       then (sym_def x i)\<lparr>sv_tri := tno\<rparr> else sym_def x i),
     dir_dep := (dir_dep x)\<lparr>ev_tri := tno\<rparr>, rev_dep := (rev_dep x)\<lparr>ev_tri := tno\<rparr>,
     val_dep := map (\<lambda>v. v\<lparr>esv_tri := tno\<rparr>) (val_dep x)\<rparr>"

definition frame_prop :: "property \<Rightarrow> property" where
  "frame_prop x = x\<lparr>prop_visible := (prop_visible x)\<lparr>ev_tri := tno\<rparr>\<rparr>"

definition frame_menu :: "menu \<Rightarrow> menu" where
  "frame_menu x = x\<lparr>menu_flags := {}\<rparr>"

definition frame :: "kconf \<Rightarrow> kconf" where
  "frame s = s\<lparr>symtab := frame_sym \<circ> symtab s, proptab := frame_prop \<circ> proptab s,
     menutab := frame_menu \<circ> menutab s, modules_val := tno, kmsgs := []\<rparr>"

lemma frame_upd_sym:
  "frame_sym (f (symtab s y)) = frame_sym (symtab s y) \<Longrightarrow> frame (upd_sym y f s) = frame s"
  by (auto simp: frame_def upd_sym_def fun_eq_iff intro!: kconf.equality)

lemma frame_upd_prop:
  "frame_prop (f (proptab s p)) = frame_prop (proptab s p) \<Longrightarrow> frame (upd_prop p f s) = frame s"
  by (auto simp: frame_def upd_prop_def fun_eq_iff intro!: kconf.equality)

lemma frame_upd_menu:
  "frame_menu (f (menutab s m)) = frame_menu (menutab s m) \<Longrightarrow> frame (upd_menu m f s) = frame s"
  by (auto simp: frame_def upd_menu_def fun_eq_iff intro!: kconf.equality)

lemma frame_set_flag:
  "b \<in> {SYMBOL_VALID, SYMBOL_WRITE, SYMBOL_CHANGED, SYMBOL_NEED_SET_CHOICE_VALUES}
     \<Longrightarrow> frame (set_flag b y s) = frame s"
  "b \<in> {SYMBOL_VALID, SYMBOL_WRITE, SYMBOL_CHANGED, SYMBOL_NEED_SET_CHOICE_VALUES}
     \<Longrightarrow> frame (clear_flag b y s) = frame s"
  unfolding set_flag_def clear_flag_def
  by (rule frame_upd_sym; auto simp: frame_sym_def cached_flags_def intro!: symbol.equality)+

lemma frame_choice_user:
  "sym_is_choice s y \<Longrightarrow> frame (set_flag SYMBOL_DEF_USER y s) = frame s"
  "sym_is_choice s y \<Longrightarrow> frame (clear_flag SYMBOL_DEF_USER y s) = frame s"
  unfolding set_flag_def clear_flag_def sym_is_choice_def has_flag_def
  by (rule frame_upd_sym; auto simp: frame_sym_def cached_flags_def intro!: symbol.equality)+

lemma frame_set_value [frame_simps]:
  "frame (sym_set_curr y v s) = frame s"
  "frame (sym_set_val y w s) = frame s"
  "frame (upd_sym y (\<lambda>x. x\<lparr>sym_curr := (sym_curr x)\<lparr>sv_tri := t\<rparr>\<rparr>) s) = frame s"
  "frame (upd_prop p (\<lambda>x. x\<lparr>prop_visible := (prop_visible x)\<lparr>ev_tri := t\<rparr>\<rparr>) s) = frame s"
  "frame (kwarn msg s) = frame s"
  "frame (s\<lparr>modules_val := t\<rparr>) = frame s"
  unfolding sym_set_curr_def sym_set_val_def
  by (rule frame_upd_sym frame_upd_prop; auto simp: frame_sym_def frame_prop_def fun_eq_iff)+
    (simp_all add: frame_def kwarn_def)

lemma frame_set_def_tri [frame_simps]:
  "\<not> sym_has_value s y \<Longrightarrow> frame (set_def_tri S_DEF_USER y t s) = frame s"
  unfolding set_def_tri_def sym_has_value_def has_flag_def
  by (rule frame_upd_sym) (auto simp: frame_sym_def fun_eq_iff)

lemma frame_menu_set_changed [frame_simps]: "frame (menu_set_changed m s) = frame s"
  by (auto simp: menu_set_changed_def frame_menu_def intro!: frame_upd_menu split: option.split)

lemma frame_fold: "(\<And>x s. frame (f x s) = frame s) \<Longrightarrow> frame (fold f xs s) = frame s"
  by (induction xs arbitrary: s) simp_all

lemma frame_sym_set_changed [frame_simps]: "frame (sym_set_changed y s) = frame s"
proof -
  have "frame (fold (\<lambda>p s. menu_set_changed (prop_menu (proptab s p)) s) ps s) = frame s" for ps s
    by (rule frame_fold) (rule frame_menu_set_changed)
  then show ?thesis by (simp add: sym_set_changed_def frame_set_flag)
qed

lemma frame_sym_set_all_changed [frame_simps]: "frame (sym_set_all_changed s) = frame s"
  unfolding sym_set_all_changed_def by (rule frame_fold) (rule frame_sym_set_changed)

text \<open>What the frame determines.\<close>

lemma frame_fields [simp]:
  "sym_type (symtab (frame s) y) = sym_type (symtab s y)"
  "sym_name (symtab (frame s) y) = sym_name (symtab s y)"
  "sym_prop (symtab (frame s) y) = sym_prop (symtab s y)"
  "ev_expr (dir_dep (symtab (frame s) y)) = ev_expr (dir_dep (symtab s y))"
  "ev_expr (rev_dep (symtab (frame s) y)) = ev_expr (rev_dep (symtab s y))"
  "length (val_dep (symtab (frame s) y)) = length (val_dep (symtab s y))"
  "map esv_expr (val_dep (symtab (frame s) y)) = map esv_expr (val_dep (symtab s y))"
  "map esv_value (val_dep (symtab (frame s) y)) = map esv_value (val_dep (symtab s y))"
  "sv_val (sym_def (symtab (frame s) y) i) = sv_val (sym_def (symtab s y) i)"
  "prop_type (proptab (frame s) p) = prop_type (proptab s p)"
  "prop_expr (proptab (frame s) p) = prop_expr (proptab s p)"
  "prop_text (proptab (frame s) p) = prop_text (proptab s p)"
  "ev_expr (prop_visible (proptab (frame s) p)) = ev_expr (prop_visible (proptab s p))"
  "nsyms (frame s) = nsyms s" "modules_sym (frame s) = modules_sym s"
  "symbol_hash (frame s) = symbol_hash s"
  by (simp_all add: frame_def frame_sym_def frame_prop_def comp_def)

lemma frame_flags [simp]:
  "sym_is_choice (frame s) y = sym_is_choice s y"
  "sym_is_choice_value (frame s) y = sym_is_choice_value s y"
  "\<not> sym_is_choice s y \<Longrightarrow> sym_has_value (frame s) y = sym_has_value s y"
  by (auto simp: lkc_inline_defs frame_def frame_sym_def cached_flags_def)

text \<open>A computation keeps the user values there are, but for those of choices.\<close>

lemma frame_user:
  assumes "frame s' = frame s" "\<not> sym_is_choice s y" "sym_has_value s y"
  shows "sym_has_value s' y" "sym_def (symtab s' y) S_DEF_USER = sym_def (symtab s y) S_DEF_USER"
proof -
  have c: "sym_is_choice s' y = sym_is_choice s y"
    using arg_cong[OF assms(1), of "\<lambda>s. sym_is_choice s y"] by simp
  show h: "sym_has_value s' y"
    using arg_cong[OF assms(1), of "\<lambda>s. sym_has_value s y"] c assms(2,3) by simp
  show "sym_def (symtab s' y) S_DEF_USER = sym_def (symtab s y) S_DEF_USER"
    using arg_cong[OF assms(1), of "\<lambda>s. sym_def (symtab s y) S_DEF_USER"] c h assms(2,3)
    by (simp add: frame_def frame_sym_def lkc_inline_defs)
qed

lemma frame_props [simp]:
  "props_of_type (frame s) y ty = props_of_type s y ty"
  "prompts (frame s) y = prompts s y"
  "sym_get_choice_prop (frame s) y = sym_get_choice_prop s y"
  "prop_get_symbol (proptab (frame s) p) = prop_get_symbol (proptab s p)"
  "choice_of (frame s) y = choice_of s y"
  "choice_values (frame s) y = choice_values s y"
  "range_syms (frame s) p = range_syms s p"
  by (simp_all add: props_of_type_def prompts_def sym_get_choice_prop_def prop_get_symbol_def
      choice_of_def choice_values_def range_syms_def)

end
