(* ===== verification/Symbol_Total.thy ===== *)
theory Symbol_Total
  imports Symbol_Frame
begin

text \<open>
  The value computation returns: on a well-formed configuration \<open>sym_calc_value\<close> dereferences no
  null pointer and its recursion is bounded. \<open>calc_ready\<close> collects what the code relies on, the
  relation \<open>calc_post\<close> what a computation keeps and the measure that goes down, and the locale
  \<open>calc_total\<close> is the interface through which the functions of \<open>Symbol_Value\<close> use the
  recursive call.
\<close>

subsection \<open>Well-formed configurations\<close>

definition sym_univ :: "kconf \<Rightarrow> symref set" where
  "sym_univ s = {symbol_yes, symbol_mod, symbol_no, symbol_empty} \<union> heap_sym ` {..<nsyms s}"

abbreviation logic_sym :: "kconf \<Rightarrow> symref \<Rightarrow> bool" where
  "logic_sym s y \<equiv> sym_type (symtab s y) \<in> {S_BOOLEAN, S_TRISTATE}"

abbreviation stringy_sym :: "kconf \<Rightarrow> symref \<Rightarrow> bool" where
  "stringy_sym s y \<equiv> sym_type (symtab s y) \<in> {S_INT, S_HEX, S_STRING}"

primrec calc_syms :: "expr \<Rightarrow> symref set" where
  "calc_syms (ESymbol y) = {y}"
| "calc_syms (EAnd l r) = calc_syms l \<union> calc_syms r"
| "calc_syms (EOr l r) = calc_syms l \<union> calc_syms r"
| "calc_syms (ENot l) = calc_syms l"
| "calc_syms (EEqual a b) = {a, b}"
| "calc_syms (EUnequal a b) = {a, b}"
| "calc_syms (EList l y) = {}"
| "calc_syms (ERange a b) = {}"
| "calc_syms ENone = {}"

definition expr_ok :: "kconf \<Rightarrow> expr option \<Rightarrow> bool" where
  "expr_ok s e \<longleftrightarrow> (case e of None \<Rightarrow> True | Some x \<Rightarrow> calc_syms x \<subseteq> sym_univ s)"

text \<open>A symbol whose value is read as a string: it exists and is no boolean or tristate.\<close>

definition str_sym :: "kconf \<Rightarrow> symref \<Rightarrow> bool" where
  "str_sym s y \<longleftrightarrow> y \<in> sym_univ s \<and> \<not> logic_sym s y"

definition default_ok :: "kconf \<Rightarrow> symref \<Rightarrow> propref \<Rightarrow> bool" where
  "default_ok s y p \<longleftrightarrow>
     (if sym_is_choice s y then \<exists>d \<in> sym_univ s. prop_get_symbol (proptab s p) = Some (Some d)
      else if logic_sym s y then expr_ok s (prop_expr (proptab s p))
      else stringy_sym s y \<longrightarrow> prop_get_symbol (proptab s p) = Some None
        \<or> (\<exists>d. str_sym s d \<and> prop_get_symbol (proptab s p) = Some (Some d)))"

definition range_ok :: "kconf \<Rightarrow> propref \<Rightarrow> bool" where
  "range_ok s p \<longleftrightarrow> (\<exists>lo hi. range_syms s p = Some (lo, hi) \<and> str_sym s lo \<and> str_sym s hi)"

definition printable :: "kconf \<Rightarrow> expr option \<Rightarrow> bool" where
  "printable s e \<longleftrightarrow> printed s e \<noteq> None"

definition val_dep_ok :: "kconf \<Rightarrow> symref \<Rightarrow> bool" where
  "val_dep_ok s y \<longleftrightarrow> (\<forall>e \<in> set (map esv_expr (val_dep (symtab s y))). expr_ok s e)
     \<and> (logic_sym s y \<longrightarrow> printable s (ev_expr (dir_dep (symtab s y)))
          \<and> (\<forall>e \<in> set (map esv_expr (val_dep (symtab s y))). printable s e))
     \<and> (\<forall>e \<in> set (map esv_value (val_dep (symtab s y))).
          (logic_sym s y \<longrightarrow> expr_ok s e \<and> printable s e)
        \<and> (stringy_sym s y \<longrightarrow> (\<exists>d. left_sym e = Some d \<and> str_sym s d)))"

definition choice_ok :: "kconf \<Rightarrow> symref \<Rightarrow> bool" where
  "choice_ok s y \<longleftrightarrow>
     (sym_is_choice s y \<longrightarrow> logic_sym s y
        \<and> (\<exists>vs. choice_values s y = Some vs \<and> set vs \<subseteq> sym_univ s)
        \<and> sym_of (sv_val (sym_def (symtab s y) S_DEF_USER)) \<noteq> None)
     \<and> (sym_is_choice_value s y \<longrightarrow> (\<exists>c \<in> sym_univ s. choice_of s y = Some c))"

definition sym_wf :: "kconf \<Rightarrow> symref \<Rightarrow> bool" where
  "sym_wf s y \<longleftrightarrow>
     (\<forall>p \<in> set (sym_prop (symtab s y)). expr_ok s (ev_expr (prop_visible (proptab s p))))
     \<and> (\<forall>p \<in> set (props_of_type s y P_DEFAULT). default_ok s y p)
     \<and> (\<forall>p \<in> set (props_of_type s y P_RANGE). range_ok s p)
     \<and> expr_ok s (ev_expr (dir_dep (symtab s y))) \<and> expr_ok s (ev_expr (rev_dep (symtab s y)))
     \<and> val_dep_ok s y \<and> choice_ok s y
     \<and> (stringy_sym s y \<longrightarrow> \<not> sym_is_choice s y \<longrightarrow> sym_has_value s y
          \<longrightarrow> (\<exists>x. sv_val (sym_def (symtab s y) S_DEF_USER) = VStr x))
     \<and> (\<not> logic_sym s y \<longrightarrow> \<not> stringy_sym s y \<longrightarrow> sym_name (symtab s y) \<noteq> None)"

definition conf_wf :: "kconf \<Rightarrow> bool" where
  "conf_wf s \<longleftrightarrow> (\<exists>m \<in> sym_univ s. modules_sym s = Some m)
     \<and> (\<forall>y \<in> {symbol_yes, symbol_mod, symbol_no, symbol_empty}.
          \<not> logic_sym s y \<and> \<not> stringy_sym s y)
     \<and> (\<forall>y \<in> sym_univ s. sym_wf s y)"

lemma sym_univ_frame [simp]: "sym_univ (frame s) = sym_univ s"
  by (simp add: sym_univ_def)

lemma expr_ok_frame [simp]: "expr_ok (frame s) e = expr_ok s e"
  by (simp add: expr_ok_def split: option.split)

lemma printed_frame [simp]: "printed (frame s) e = printed s e"
  by (simp add: printed_def)

lemma sym_wf_frame [simp]: "sym_wf (frame s) y = sym_wf s y"
proof -
  have "default_ok (frame s) y p = default_ok s y p" for p
    by (simp add: default_ok_def str_sym_def)
  moreover have "range_ok (frame s) p = range_ok s p" for p
    by (simp add: range_ok_def str_sym_def)
  moreover have "val_dep_ok (frame s) y = val_dep_ok s y"
    by (simp only: val_dep_ok_def str_sym_def printable_def frame_fields sym_univ_frame
        expr_ok_frame printed_frame)
  moreover have "choice_ok (frame s) y = choice_ok s y"
    by (simp add: choice_ok_def)
  ultimately show ?thesis by (simp add: sym_wf_def)
qed

lemma conf_wf_frame [simp]: "conf_wf (frame s) = conf_wf s"
  by (simp add: conf_wf_def)

text \<open>Facts that follow from equal frames.\<close>

lemma frame_eqD:
  assumes "frame s' = frame s"
  shows "conf_wf s' = conf_wf s" "sym_univ s' = sym_univ s"
    "sym_type (symtab s' y) = sym_type (symtab s y)" "expr_ok s' e = expr_ok s e"
    "sym_prop (symtab s' y) = sym_prop (symtab s y)" "str_sym s' y = str_sym s y"
    "sym_wf s' y = sym_wf s y" "sym_is_choice s' y = sym_is_choice s y"
    "sym_is_choice_value s' y = sym_is_choice_value s y"
    "modules_sym s' = modules_sym s" "sym_name (symtab s' y) = sym_name (symtab s y)"
    "length (val_dep (symtab s' y)) = length (val_dep (symtab s y))"
    "choice_values s' y = choice_values s y" "choice_of s' y = choice_of s y"
    "prop_get_symbol (proptab s' p) = prop_get_symbol (proptab s p)"
    "ev_expr (prop_visible (proptab s' p)) = ev_expr (prop_visible (proptab s p))"
    "sv_val (sym_def (symtab s' y) i) = sv_val (sym_def (symtab s y) i)"
    "props_of_type s' y t = props_of_type s y t" "prompts s' y = prompts s y"
    "sym_get_choice_prop s' y = sym_get_choice_prop s y"
    "prop_expr (proptab s' p) = prop_expr (proptab s p)"
  using arg_cong[OF assms, of "conf_wf"]
    arg_cong[OF assms, of "sym_univ"]
    arg_cong[OF assms, of "\<lambda>s. sym_type (symtab s y)"]
    arg_cong[OF assms, of "\<lambda>s. expr_ok s e"]
    arg_cong[OF assms, of "\<lambda>s. sym_prop (symtab s y)"]
    arg_cong[OF assms, of "\<lambda>s. sym_wf s y"]
    arg_cong[OF assms, of "\<lambda>s. sym_is_choice s y"]
    arg_cong[OF assms, of "\<lambda>s. sym_is_choice_value s y"]
    arg_cong[OF assms, of "modules_sym"]
    arg_cong[OF assms, of "\<lambda>s. sym_name (symtab s y)"]
    arg_cong[OF assms, of "\<lambda>s. length (val_dep (symtab s y))"]
    arg_cong[OF assms, of "\<lambda>s. choice_values s y"]
    arg_cong[OF assms, of "\<lambda>s. choice_of s y"]
    arg_cong[OF assms, of "\<lambda>s. prop_get_symbol (proptab s p)"]
    arg_cong[OF assms, of "\<lambda>s. ev_expr (prop_visible (proptab s p))"]
    arg_cong[OF assms, of "\<lambda>s. sv_val (sym_def (symtab s y) i)"]
    arg_cong[OF assms, of "\<lambda>s. props_of_type s y t"]
    arg_cong[OF assms, of "\<lambda>s. prompts s y"]
    arg_cong[OF assms, of "\<lambda>s. sym_get_choice_prop s y"]
    arg_cong[OF assms, of "\<lambda>s. prop_expr (proptab s p)"]
  by (simp_all add: str_sym_def)

subsection \<open>Readiness, progress and the measure\<close>

text \<open>What besides the frame matters: the flags the recursion is steered by, and the strings.\<close>

definition view :: "kconf \<Rightarrow> symref \<Rightarrow> bool \<times> bool \<times> symval \<times> tristate" where
  "view s y = (has_flag SYMBOL_VALID y s, has_flag SYMBOL_NEED_SET_CHOICE_VALUES y s,
     if logic_sym s y then VNull else sv_val (sym_curr (symtab s y)), sv_tri (sym_curr (symtab s y)))"

definition is_str :: "symval \<Rightarrow> bool" where
  "is_str v \<longleftrightarrow> (\<exists>x. v = VStr x)"

text \<open>The values of the constant symbols.\<close>

primrec const_tri :: "symref \<Rightarrow> tristate" where
  "const_tri symbol_yes = tyes"
| "const_tri symbol_mod = tmod"
| "const_tri symbol_no = tno"
| "const_tri symbol_empty = tno"
| "const_tri (heap_sym i) = tno"

lemma const_tri_heap: "y \<notin> {symbol_yes, symbol_mod, symbol_no, symbol_empty} \<Longrightarrow> const_tri y = tno"
  by (cases y) simp_all

definition vals_ok :: "kconf \<Rightarrow> bool" where
  "vals_ok s \<longleftrightarrow> (\<forall>y \<in> sym_univ s.
     (stringy_sym s y \<longrightarrow> is_str (sv_val (sym_curr (symtab s y))))
     \<and> (\<not> logic_sym s y \<longrightarrow> \<not> stringy_sym s y \<longrightarrow> has_flag SYMBOL_VALID y s
          \<longrightarrow> is_str (sv_val (sym_curr (symtab s y))))
     \<and> (sym_type (symtab s y) = S_BOOLEAN \<longrightarrow> sv_tri (sym_curr (symtab s y)) \<noteq> tmod)
     \<and> (\<not> logic_sym s y \<longrightarrow> sv_tri (sym_curr (symtab s y)) = const_tri y)
     \<and> (has_flag SYMBOL_NEED_SET_CHOICE_VALUES y s \<longrightarrow> sym_is_choice s y \<or> sym_is_choice_value s y))
   \<and> (\<forall>y \<in> {symbol_yes, symbol_mod, symbol_no, symbol_empty}. has_flag SYMBOL_VALID y s
     \<and> sv_tri (sym_curr (symtab s y)) = const_tri y)"

definition calc_ready :: "kconf \<Rightarrow> bool" where
  "calc_ready s \<longleftrightarrow> conf_wf s \<and> vals_ok s"

definition invalid_syms :: "kconf \<Rightarrow> symref set" where
  "invalid_syms s = {y \<in> sym_univ s. \<not> has_flag SYMBOL_VALID y s}"

definition need_syms :: "kconf \<Rightarrow> symref set" where
  "need_syms s = {y \<in> sym_univ s. has_flag SYMBOL_NEED_SET_CHOICE_VALUES y s}"

definition calc_work :: "kconf \<Rightarrow> nat" where
  "calc_work s = card (invalid_syms s) + 2 * card (need_syms s)"

definition calc_post :: "kconf \<Rightarrow> kconf \<Rightarrow> bool" where
  "calc_post s s' \<longleftrightarrow> frame s' = frame s \<and> calc_ready s' \<and> calc_work s' \<le> calc_work s
     \<and> need_syms s' \<subseteq> need_syms s
     \<and> (\<forall>y \<in> sym_univ s. \<not> logic_sym s y \<longrightarrow> has_flag SYMBOL_VALID y s
          \<longrightarrow> has_flag SYMBOL_VALID y s')
     \<and> (\<forall>y \<in> sym_univ s. has_flag SYMBOL_VALID y s
          \<longrightarrow> has_flag SYMBOL_VALID y s' \<or> y \<in> need_syms s - need_syms s')"

lemma finite_univ [simp]: "finite (sym_univ s)" "finite (invalid_syms s)" "finite (need_syms s)"
  by (simp_all add: sym_univ_def invalid_syms_def need_syms_def)

lemma card_univ: "card (sym_univ s) = nsyms s + 4"
proof -
  have "card (heap_sym ` {..<nsyms s}) = nsyms s" by (simp add: card_image inj_on_def)
  moreover have "sym_univ s = {symbol_yes, symbol_mod, symbol_no, symbol_empty} \<union> heap_sym ` {..<nsyms s}"
    by (simp add: sym_univ_def)
  moreover have "card ({symbol_yes, symbol_mod, symbol_no, symbol_empty} \<union> heap_sym ` {..<nsyms s})
      = card {symbol_yes, symbol_mod, symbol_no, symbol_empty} + card (heap_sym ` {..<nsyms s})"
    by (rule card_Un_disjoint) auto
  ultimately show ?thesis by simp
qed

lemma calc_work_fuel: "calc_work s < calc_fuel s"
proof -
  have "card (invalid_syms s) \<le> nsyms s + 4" "card (need_syms s) \<le> nsyms s + 4"
    unfolding card_univ[symmetric] by (rule card_mono; auto simp: invalid_syms_def need_syms_def)+
  then show ?thesis by (simp add: calc_work_def calc_fuel_def)
qed

lemma calc_post_refl [simp]: "calc_ready s \<Longrightarrow> calc_post s s"
  by (simp add: calc_post_def)

lemma calc_post_trans: "calc_post s t \<Longrightarrow> calc_post t u \<Longrightarrow> calc_post s u"
  unfolding calc_post_def using frame_eqD(2,3)[of t s] by auto

lemma calc_postD:
  assumes "calc_post s s'"
  shows "calc_ready s'" "frame s' = frame s" "calc_work s' \<le> calc_work s"
  using assms by (simp_all add: calc_post_def)

lemma vals_ok_view:
  assumes "frame s' = frame s" "view s' = view s"
  shows "vals_ok s' = vals_ok s" "invalid_syms s' = invalid_syms s" "need_syms s' = need_syms s"
    "has_flag SYMBOL_VALID y s' = has_flag SYMBOL_VALID y s"
proof -
  have v: "has_flag SYMBOL_VALID y s' = has_flag SYMBOL_VALID y s"
    "has_flag SYMBOL_NEED_SET_CHOICE_VALUES y s' = has_flag SYMBOL_NEED_SET_CHOICE_VALUES y s"
    "sv_tri (sym_curr (symtab s' y)) = sv_tri (sym_curr (symtab s y))"
    "\<not> logic_sym s y \<Longrightarrow> sv_val (sym_curr (symtab s' y)) = sv_val (sym_curr (symtab s y))" for y
    using fun_cong[OF assms(2), of y] frame_eqD(3)[OF assms(1), of y]
    by (auto simp: view_def split: if_splits)
  note f = frame_eqD[OF assms(1)]
  show "vals_ok s' = vals_ok s" unfolding vals_ok_def f v(1,2,3)
    by (intro conj_cong refl ball_cong) (use v(4) in auto)
  show "invalid_syms s' = invalid_syms s" "need_syms s' = need_syms s"
    "has_flag SYMBOL_VALID y s' = has_flag SYMBOL_VALID y s"
    by (simp_all add: invalid_syms_def need_syms_def v f)
qed

lemma calc_post_same:
  assumes "calc_ready s" "frame s' = frame s" "view s' = view s"
  shows "calc_post s s'"
  using assms vals_ok_view[OF assms(2,3)] frame_eqD(1)[OF assms(2)]
  by (simp add: calc_post_def calc_ready_def calc_work_def)

lemma view_upd_sym:
  assumes "sym_type (f (symtab s y)) = sym_type (symtab s y)"
    and "\<And>b. b \<in> {SYMBOL_VALID, SYMBOL_NEED_SET_CHOICE_VALUES}
      \<Longrightarrow> (b \<in> sym_flags (f (symtab s y))) = (b \<in> sym_flags (symtab s y))"
    and "logic_sym s y \<or> sv_val (sym_curr (f (symtab s y))) = sv_val (sym_curr (symtab s y))"
    and "sv_tri (sym_curr (f (symtab s y))) = sv_tri (sym_curr (symtab s y))"
  shows "view (upd_sym y f s) = view s"
  using assms by (auto simp: view_def has_flag_def fun_eq_iff)

lemma view_flag:
  "b \<notin> {SYMBOL_VALID, SYMBOL_NEED_SET_CHOICE_VALUES} \<Longrightarrow> view (set_flag b y s) = view s"
  "b \<notin> {SYMBOL_VALID, SYMBOL_NEED_SET_CHOICE_VALUES} \<Longrightarrow> view (clear_flag b y s) = view s"
  unfolding set_flag_def clear_flag_def by (rule view_upd_sym; auto)+

lemma view_simps [frame_simps]:
  "view (upd_prop p g s) = view s" "view (upd_menu m h s) = view s" "view (kwarn msg s) = view s"
  "view (s\<lparr>modules_val := t\<rparr>) = view s" "view (menu_set_changed k s) = view s"
  by (auto simp: view_def has_flag_def fun_eq_iff upd_prop_def upd_menu_def kwarn_def
      menu_set_changed_def split: option.split)

lemma view_def_tri [frame_simps]: "view (set_def_tri i y t s) = view s"
  unfolding set_def_tri_def by (rule view_upd_sym; simp)

lemma view_fold: "(\<And>x s. view (f x s) = view s) \<Longrightarrow> view (fold f xs s) = view s"
  by (induction xs arbitrary: s) simp_all

lemma view_sym_set_changed [frame_simps]:
  "view (sym_set_changed y s) = view s" "view (sym_set_all_changed s) = view s"
proof -
  have m: "view (fold (\<lambda>p s. menu_set_changed (prop_menu (proptab s p)) s) ps s) = view s" for ps s
    by (rule view_fold) (simp add: frame_simps)
  then have c: "view (sym_set_changed y s) = view s" for y s
    by (simp add: sym_set_changed_def view_flag)
  show "view (sym_set_changed y s) = view s" by (rule c)
  show "view (sym_set_all_changed s) = view s"
    unfolding sym_set_all_changed_def by (rule view_fold) (rule c)
qed

text \<open>Operations that change neither the frame nor the view.\<close>

lemmas quiet_simps = frame_simps view_flag frame_set_flag

lemma post_write [simp]:
  "calc_ready s \<Longrightarrow> calc_post s (set_flag SYMBOL_WRITE y s)"
  "calc_ready s \<Longrightarrow> calc_post s (clear_flag SYMBOL_WRITE y s)"
  "calc_ready s \<Longrightarrow> calc_post s (sym_set_changed y s)"
  "calc_ready s \<Longrightarrow> calc_post s (kwarn msg s)"
  by (rule calc_post_same; simp add: quiet_simps)+

definition quiet_upd :: "(tristate \<Rightarrow> symbol \<Rightarrow> symbol) \<Rightarrow> bool" where
  "quiet_upd upd \<longleftrightarrow> (\<forall>t x. frame_sym (upd t x) = frame_sym x \<and> sym_type (upd t x) = sym_type x
     \<and> sym_flags (upd t x) = sym_flags x \<and> sym_curr (upd t x) = sym_curr x)"

lemma post_dep_set:
  assumes "calc_ready s" "quiet_upd upd"
  shows "calc_post s (dep_set upd get y t s)"
proof -
  have "calc_post s (upd_sym y (upd t) s)"
    using assms by (intro calc_post_same frame_upd_sym view_upd_sym) (auto simp: quiet_upd_def)
  then show ?thesis using assms calc_postD(1) calc_post_trans post_write(3)
    by (metis calc_post_refl dep_set_def)
qed

lemma quiet_upds:
  "quiet_upd (\<lambda>t x. x\<lparr>sym_visible := t\<rparr>)"
  "quiet_upd (\<lambda>t x. x\<lparr>dir_dep := (dir_dep x)\<lparr>ev_tri := t\<rparr>\<rparr>)"
  "quiet_upd (\<lambda>t x. x\<lparr>rev_dep := (rev_dep x)\<lparr>ev_tri := t\<rparr>\<rparr>)"
  "quiet_upd (\<lambda>t x. x\<lparr>val_dep := (val_dep x)[i := (val_dep x ! i)\<lparr>esv_tri := t\<rparr>]\<rparr>)"
proof -
  have "map (\<lambda>v. v\<lparr>esv_tri := tno\<rparr>) (vs[i := (vs ! i)\<lparr>esv_tri := t\<rparr>]) = map (\<lambda>v. v\<lparr>esv_tri := tno\<rparr>) vs"
    for vs :: "expr_select_value list" and t
    by (cases "i < length vs") (simp_all add: map_update list_update_same_conv nth_map list_update_beyond)
  then show "quiet_upd (\<lambda>t x. x\<lparr>val_dep := (val_dep x)[i := (val_dep x ! i)\<lparr>esv_tri := t\<rparr>]\<rparr>)"
    by (simp add: quiet_upd_def frame_sym_def cong: if_cong)
qed (auto simp: quiet_upd_def frame_sym_def cong: if_cong)

lemma post_prop_visible:
  "calc_ready s \<Longrightarrow>
   calc_post s (upd_prop p (\<lambda>x. x\<lparr>prop_visible := (prop_visible x)\<lparr>ev_tri := t\<rparr>\<rparr>) s)"
  by (rule calc_post_same) (simp_all add: frame_simps)

lemma readyD:
  assumes "calc_ready s" "y \<in> sym_univ s"
  shows "sym_wf s y"
    "stringy_sym s y \<Longrightarrow> is_str (sv_val (sym_curr (symtab s y)))"
    "\<not> logic_sym s y \<Longrightarrow> has_flag SYMBOL_VALID y s \<Longrightarrow> is_str (sv_val (sym_curr (symtab s y)))"
    "\<exists>m \<in> sym_univ s. modules_sym s = Some m"
  using assms by (auto simp: calc_ready_def conf_wf_def vals_ok_def)

lemma is_strE: "is_str v \<Longrightarrow> (\<And>x. v = VStr x \<Longrightarrow> P) \<Longrightarrow> P"
  by (auto simp: is_str_def)

lemma post_univ: "calc_post s t \<Longrightarrow> sym_univ t = sym_univ s"
  using frame_eqD(2) calc_postD(2) by blast

lemma post_wf: "calc_post s t \<Longrightarrow> sym_wf t y = sym_wf s y"
  using frame_eqD(7) calc_postD(2) by blast

subsection \<open>The interface of the recursive call\<close>

text \<open>A computation of the value of \<open>y\<close> ends, and a string can be read if \<open>y\<close> has one.\<close>

definition calc_done :: "kconf \<Rightarrow> symref \<Rightarrow> kconf \<Rightarrow> bool" where
  "calc_done s y s' \<longleftrightarrow> calc_post s s' \<and> (\<not> logic_sym s y \<longrightarrow> has_flag SYMBOL_VALID y s')
     \<and> (has_flag SYMBOL_VALID y s' \<or> y \<in> need_syms s - need_syms s')"

locale calc_total =
  fixes calc :: calc_fun and fuel :: nat
  assumes calc_total: "calc_ready s \<Longrightarrow> y \<in> sym_univ s \<Longrightarrow> calc_work s < fuel
    \<Longrightarrow> \<exists>s'. calc y s = Some s' \<and> calc_done s y s'"
begin

text \<open>The states a call may be made in.\<close>

definition go :: "kconf \<Rightarrow> bool" where
  "go s \<longleftrightarrow> calc_ready s \<and> calc_work s < fuel"

definition ends :: "kconf \<Rightarrow> (kconf \<Rightarrow> bool) \<Rightarrow> kconf option \<Rightarrow> bool" where
  "ends s P r \<longleftrightarrow> (\<exists>s'. r = Some s' \<and> calc_post s s' \<and> P s')"

definition returns :: "kconf \<Rightarrow> ('b \<Rightarrow> kconf \<Rightarrow> bool) \<Rightarrow> ('b \<times> kconf) option \<Rightarrow> bool" where
  "returns s P r \<longleftrightarrow> (\<exists>v s'. r = Some (v, s') \<and> calc_post s s' \<and> P v s')"

lemma go_ready: "go s \<Longrightarrow> calc_ready s"
  by (simp add: go_def)

lemma go_post: "go s \<Longrightarrow> calc_post s s' \<Longrightarrow> go s'"
  by (auto simp: go_def calc_post_def)

lemma returns_bind:
  assumes "returns s P m" "\<And>v t. calc_post s t \<Longrightarrow> P v t \<Longrightarrow> returns t Q (f (v, t))"
  shows "returns s Q (Option.bind m f)"
  using assms calc_post_trans by (fastforce simp: returns_def)

lemma returns_ends:
  assumes "ends s P m" "\<And>t. calc_post s t \<Longrightarrow> P t \<Longrightarrow> returns t Q (f t)"
  shows "returns s Q (Option.bind m f)"
  using assms calc_post_trans by (fastforce simp: returns_def ends_def)

lemma ends_bind:
  assumes "ends s P m" "\<And>t. calc_post s t \<Longrightarrow> P t \<Longrightarrow> ends t Q (f t)"
  shows "ends s Q (Option.bind m f)"
  using assms calc_post_trans by (fastforce simp: ends_def)

lemma ends_returns:
  assumes "returns s P m" "\<And>v t. calc_post s t \<Longrightarrow> P v t \<Longrightarrow> ends t Q (f (v, t))"
  shows "ends s Q (Option.bind m f)"
  using assms calc_post_trans by (fastforce simp: returns_def ends_def)

lemma returns_Some: "calc_post s t \<Longrightarrow> P v t \<Longrightarrow> returns s P (Some (v, t))"
  by (auto simp: returns_def)

lemma ends_Some: "calc_post s t \<Longrightarrow> P t \<Longrightarrow> ends s P (Some t)"
  by (auto simp: ends_def)

lemma returns_post: "calc_post s t \<Longrightarrow> returns t P r \<Longrightarrow> returns s P r"
  using calc_post_trans by (fastforce simp: returns_def)

lemma ends_post: "calc_post s t \<Longrightarrow> ends t P r \<Longrightarrow> ends s P r"
  using calc_post_trans by (fastforce simp: ends_def)

lemma ofold_ends:
  assumes "\<And>x t. x \<in> set xs \<Longrightarrow> go t \<Longrightarrow> frame t = frame s \<Longrightarrow> ends t (\<lambda>_. True) (f x t)"
    and "go s"
  shows "ends s (\<lambda>_. True) (ofold f xs s)"
proof -
  have "\<exists>t. ofold f xs s = Some t \<and> calc_post s t"
  proof (rule ofold_returns)
    fix x t assume x: "x \<in> set xs" "calc_post s t"
    then have "go t" "frame t = frame s" using assms(2) go_post calc_postD(2) by auto
    with assms(1)[of x t] x show "\<exists>u. f x t = Some u \<and> calc_post s u"
      using calc_post_trans by (fastforce simp: ends_def)
  qed (use assms(2) go_ready in simp)
  then show ?thesis by (auto simp: ends_def)
qed

lemma calc_ends:
  assumes "go s" "y \<in> sym_univ s"
  shows "ends s (\<lambda>t. \<not> logic_sym t y \<longrightarrow> has_flag SYMBOL_VALID y t) (calc y s)"
proof -
  from calc_total[of s y] assms obtain t where "calc y s = Some t" "calc_done s y t"
    by (auto simp: go_def)
  then show ?thesis using frame_eqD(3)[OF calc_postD(2), of s t y]
    by (auto simp: ends_def calc_done_def)
qed

lemma calc_opt_ends: "go s \<Longrightarrow> (\<And>z. y = Some z \<Longrightarrow> z \<in> sym_univ s) \<Longrightarrow> ends s (\<lambda>_. True) (calc_opt calc y s)"
  using calc_ends by (cases y) (auto simp: calc_opt_def ends_def go_ready)

lemma string_value_returns:
  assumes "go s" "y \<in> sym_univ s" "\<not> logic_sym s y \<longrightarrow> has_flag SYMBOL_VALID y s"
  shows "returns s (\<lambda>v t. is_str v) (sym_get_string_value calc y s)"
proof (cases "logic_sym s y \<and> sym_get_tristate_value s y = tmod")
  case True
  from assms(1,2) obtain m where m: "m \<in> sym_univ s" "modules_sym s = Some m"
    using readyD(4) go_ready by metis
  have "returns s (\<lambda>v t. is_str v) (do { t \<leftarrow> calc m s; k \<leftarrow> modules_sym t;
     Some (VStr (if sym_get_tristate_value t k = tno then ''n'' else ''m''), t) })"
    using calc_ends[OF assms(1) m(1)]
  proof (rule returns_ends)
    fix t assume "calc_post s t"
    then have "modules_sym t = Some m" "calc_ready t"
      using frame_eqD(10)[OF calc_postD(2)] m(2) calc_postD(1) by auto
    then show "returns t (\<lambda>v t. is_str v) (do { k \<leftarrow> modules_sym t;
       Some (VStr (if sym_get_tristate_value t k = tno then ''n'' else ''m''), t) })"
      by (auto intro!: returns_Some simp: is_str_def)
  qed
  with True m show ?thesis by (simp add: sym_get_string_value_def calc_opt_def)
next
  case False
  with assms go_ready[OF assms(1)] readyD(3)[of s y] show ?thesis
    by (cases "sym_get_tristate_value s y")
      (auto simp: sym_get_string_value_def is_str_def intro!: returns_Some)
qed

lemma calc_strings_returns:
  assumes "go s" "a \<in> sym_univ s" "b \<in> sym_univ s"
  shows "returns s (\<lambda>_ _. True) (calc_strings calc a b s)"
  unfolding calc_strings_def
proof (rule returns_ends[OF calc_ends[OF assms(1,2)]])
  fix t assume t: "calc_post s t" "\<not> logic_sym t a \<longrightarrow> has_flag SYMBOL_VALID a t"
  have u: "sym_univ t = sym_univ s" using frame_eqD(2) calc_postD(2)[OF t(1)] by blast
  have gt: "go t" using go_post assms(1) t(1) by blast
  show "returns t (\<lambda>_ _. True) (do { s \<leftarrow> calc b t; (v1, s) \<leftarrow> sym_get_string_value calc a s;
      (v2, s) \<leftarrow> sym_get_string_value calc b s; x \<leftarrow> str_of v1; y \<leftarrow> str_of v2; Some ((x, y), s) })"
  proof (rule returns_ends[OF calc_ends[OF gt]])
    show "b \<in> sym_univ t" using u assms(3) by simp
    fix w assume w: "calc_post t w" "\<not> logic_sym w b \<longrightarrow> has_flag SYMBOL_VALID b w"
    have uw: "sym_univ w = sym_univ s" using frame_eqD(2) calc_postD(2)[OF w(1)] u by blast
    have gw: "go w" using go_post gt w(1) by blast
    have a: "\<not> logic_sym w a \<longrightarrow> has_flag SYMBOL_VALID a w"
      using w(1) t(2) u assms(2) frame_eqD(3)[OF calc_postD(2)[OF w(1)]] by (auto simp: calc_post_def)
    show "returns w (\<lambda>_ _. True) (do { (v1, s) \<leftarrow> sym_get_string_value calc a w;
        (v2, s) \<leftarrow> sym_get_string_value calc b s; x \<leftarrow> str_of v1; y \<leftarrow> str_of v2; Some ((x, y), s) })"
    proof (rule returns_bind[OF string_value_returns[OF gw _ a]], goal_cases)
      case 1
      then show ?case using uw assms(2) by simp
    next
      case (2 v x)
      have ux: "b \<in> sym_univ x" using frame_eqD(2) calc_postD(2)[OF 2(1)] uw assms(3) by blast
      have b: "\<not> logic_sym x b \<longrightarrow> has_flag SYMBOL_VALID b x"
        using 2(1) w(2) ux frame_eqD(2,3)[OF calc_postD(2)[OF 2(1)]] by (auto simp: calc_post_def)
      show ?case unfolding split
        by (rule returns_bind[OF string_value_returns[OF go_post[OF gw 2(1)] ux b]])
          (use 2(2) calc_postD(1) in \<open>auto simp: is_str_def str_of_def intro!: returns_Some\<close>)
    qed
  qed
qed

lemma expr_node_returns:
  "go s \<Longrightarrow> calc_syms e \<subseteq> sym_univ s \<Longrightarrow> returns s (\<lambda>_ _. True) (expr_calc_node calc e s)"
proof (induction e arbitrary: s)
  case (EOr l r)
  show ?case unfolding expr_calc_node.simps
  proof (rule returns_bind[OF EOr.IH(1)])
    fix v t assume t: "calc_post s t"
    have "calc_syms r \<subseteq> sym_univ t" using EOr.prems(2) post_univ[OF t] by simp
    with go_post[OF EOr.prems(1) t] have "returns t (\<lambda>_ _. True) (expr_calc_node calc r t)"
      by (rule EOr.IH(2))
    then show "returns t (\<lambda>_ _. True) (case (v, t) of (val1, s) \<Rightarrow> do { (val2, s) \<leftarrow> expr_calc_node calc r s; Some (EXPR_OR val1 val2, s) })"
      unfolding split by (rule returns_bind) (auto intro!: returns_Some simp: calc_postD(1))
  qed (use EOr.prems in auto)
next
  case (EAnd l r)
  show ?case unfolding expr_calc_node.simps
  proof (rule returns_bind[OF EAnd.IH(1)])
    fix v t assume t: "calc_post s t"
    have "calc_syms r \<subseteq> sym_univ t" using EAnd.prems(2) post_univ[OF t] by simp
    with go_post[OF EAnd.prems(1) t] have "returns t (\<lambda>_ _. True) (expr_calc_node calc r t)"
      by (rule EAnd.IH(2))
    then show "returns t (\<lambda>_ _. True) (case (v, t) of (val1, s) \<Rightarrow> do { (val2, s) \<leftarrow> expr_calc_node calc r s; Some (EXPR_AND val1 val2, s) })"
      unfolding split by (rule returns_bind) (auto intro!: returns_Some simp: calc_postD(1))
  qed (use EAnd.prems in auto)
next
  case (ENot l)
  then show ?case unfolding expr_calc_node.simps
    by (intro returns_bind[OF ENot.IH]) (auto intro!: returns_Some simp: calc_postD(1))
next
  case (ESymbol y)
  then show ?case unfolding expr_calc_node.simps
    by (intro returns_ends[OF calc_ends]) (auto intro!: returns_Some simp: calc_postD(1))
next
  case (EEqual a b)
  then show ?case unfolding expr_calc_node.simps
    by (intro returns_bind[OF calc_strings_returns]) (auto intro!: returns_Some simp: calc_postD(1))
next
  case (EUnequal a b)
  then show ?case unfolding expr_calc_node.simps
    by (intro returns_bind[OF calc_strings_returns]) (auto intro!: returns_Some simp: calc_postD(1))
qed (auto intro!: returns_Some simp: go_ready)

lemma expr_value_returns:
  "go s \<Longrightarrow> expr_ok s e \<Longrightarrow> returns s (\<lambda>_ _. True) (expr_calc_value calc e s)"
  by (cases e) (auto simp: expr_calc_value_def expr_ok_def expr_node_returns go_ready intro!: returns_Some)

lemma prop_visible_returns:
  "go s \<Longrightarrow> expr_ok s (ev_expr (prop_visible (proptab s p))) \<Longrightarrow>
   returns s (\<lambda>_ _. True) (prop_calc_visible calc p s)"
  unfolding prop_calc_visible_def
  by (rule returns_bind[OF expr_value_returns])
    (auto intro!: returns_Some post_prop_visible simp: calc_postD(1))

end

end
