(* ===== verification/Symbol_Returns.thy ===== *)
theory Symbol_Returns
  imports Symbol_Total
begin

text \<open>
  The functions of \<open>Symbol_Value\<close> return when the recursive call does, up to the body of
  \<open>sym_calc_value\<close>; by induction on the fuel \<open>sym_calc_value\<close> returns.
\<close>

subsection \<open>Setting a value\<close>

lemma post_set_value:
  assumes "calc_ready s" "\<And>x. symtab s' x = (if x = y then (symtab s y)\<lparr>sym_curr := v\<rparr> else symtab s x)"
    and "frame s' = frame s" "logic_sym s y \<or> stringy_sym s y" "stringy_sym s y \<longrightarrow> is_str (sv_val v)"
    and "sym_type (symtab s y) = S_BOOLEAN \<longrightarrow> sv_tri v \<noteq> tmod" "stringy_sym s y \<longrightarrow> sv_tri v = tno"
  shows "calc_post s s'"
proof -
  note f = frame_eqD[OF assms(3)]
  have fl: "has_flag b x s' = has_flag b x s" for b x by (simp add: has_flag_def assms(2))
  have "y \<notin> {symbol_yes, symbol_mod, symbol_no, symbol_empty}"
    using assms(1,4) by (auto simp: calc_ready_def conf_wf_def)
  then have "vals_ok s'" using assms(1,4,5,6,7) const_tri_heap[of y]
    unfolding vals_ok_def f fl by (auto simp: assms(2) calc_ready_def vals_ok_def)
  moreover have "invalid_syms s' = invalid_syms s" "need_syms s' = need_syms s"
    by (simp_all add: invalid_syms_def need_syms_def f fl)
  ultimately show ?thesis using assms(1,3) f(1) fl
    by (simp add: calc_post_def calc_ready_def calc_work_def)
qed

lemma post_set_curr:
  assumes "calc_ready s" "logic_sym s y \<or> stringy_sym s y" "stringy_sym s y \<longrightarrow> is_str (sv_val v)"
    and "sym_type (symtab s y) = S_BOOLEAN \<longrightarrow> sv_tri v \<noteq> tmod" "stringy_sym s y \<longrightarrow> sv_tri v = tno"
  shows "calc_post s (sym_set_curr y v s)"
  by (rule post_set_value[OF assms(1) _ _ assms(2-5)]) (simp_all add: frame_simps, simp add: sym_set_curr_def)

lemma post_set_val:
  assumes "calc_ready s" "y \<in> sym_univ s" "logic_sym s y \<or> stringy_sym s y" "stringy_sym s y \<longrightarrow> is_str v"
  shows "calc_post s (sym_set_val y v s)"
proof (rule post_set_value[OF assms(1) _ _ assms(3)])
  show "symtab (sym_set_val y v s) x
      = (if x = y then (symtab s y)\<lparr>sym_curr := (sym_curr (symtab s y))\<lparr>sv_val := v\<rparr>\<rparr> else symtab s x)"
    for x by (simp add: sym_set_val_def)
  have "y \<notin> {symbol_yes, symbol_mod, symbol_no, symbol_empty}"
    using assms(1,3) by (auto simp: calc_ready_def conf_wf_def)
  then show "stringy_sym s y \<longrightarrow> sv_tri ((sym_curr (symtab s y))\<lparr>sv_val := v\<rparr>) = tno"
    using assms(1,2) const_tri_heap[of y] by (auto simp: calc_ready_def vals_ok_def)
qed (use assms in \<open>auto simp: frame_simps calc_ready_def vals_ok_def\<close>)

lemma sym_wfD:
  assumes "sym_wf s y"
  shows "p \<in> set (sym_prop (symtab s y)) \<Longrightarrow> expr_ok s (ev_expr (prop_visible (proptab s p)))"
    and "p \<in> set (props_of_type s y P_DEFAULT) \<Longrightarrow> default_ok s y p"
    and "p \<in> set (props_of_type s y P_RANGE) \<Longrightarrow> range_ok s p"
    and "expr_ok s (ev_expr (dir_dep (symtab s y)))" "expr_ok s (ev_expr (rev_dep (symtab s y)))"
    and "val_dep_ok s y" "choice_ok s y"
    and "stringy_sym s y \<Longrightarrow> \<not> sym_is_choice s y \<Longrightarrow> sym_has_value s y
      \<Longrightarrow> is_str (sv_val (sym_def (symtab s y) S_DEF_USER))"
    and "\<not> logic_sym s y \<Longrightarrow> \<not> stringy_sym s y \<Longrightarrow> sym_name (symtab s y) \<noteq> None"
  using assms unfolding sym_wf_def is_str_def by blast+

lemma props_of_type_sub: "p \<in> set (props_of_type s y ty) \<Longrightarrow> p \<in> set (sym_prop (symtab s y))"
  by (simp add: props_of_type_def)

context calc_total
begin

subsection \<open>Properties and ranges\<close>

lemma first_visible_returns:
  "go s \<Longrightarrow> (\<And>p. p \<in> set ps \<Longrightarrow> expr_ok s (ev_expr (prop_visible (proptab s p)))) \<Longrightarrow>
   returns s (\<lambda>v t. \<forall>q. v = Some q \<longrightarrow> q \<in> set ps) (first_visible calc ps s)"
proof (induction ps arbitrary: s)
  case (Cons p ps)
  show ?case unfolding first_visible.simps
  proof (rule returns_bind[OF prop_visible_returns[OF Cons.prems(1)]])
    fix v t assume t: "calc_post s t"
    note f = frame_eqD[OF calc_postD(2)[OF t]]
    have "returns t (\<lambda>v t. \<forall>q. v = Some q \<longrightarrow> q \<in> set ps) (first_visible calc ps t)"
      by (rule Cons.IH) (use Cons.prems go_post t in \<open>simp_all add: f\<close>)
    then show "returns t (\<lambda>v t. \<forall>q. v = Some q \<longrightarrow> q \<in> set (p # ps))
        (case (v, t) of (u, s) \<Rightarrow> if u \<noteq> tno then Some (Some p, s) else first_visible calc ps s)"
      using t calc_postD(1) by (auto intro!: returns_Some simp: returns_def)
  qed (use Cons.prems in simp)
qed (auto intro!: returns_Some simp: go_ready)

lemma default_prop_returns:
  assumes "go s" "sym_wf s y"
  shows "returns s (\<lambda>v t. \<forall>p. v = Some p \<longrightarrow> default_ok s y p) (sym_get_default_prop calc y s)"
proof -
  have "returns s (\<lambda>v t. \<forall>q. v = Some q \<longrightarrow> q \<in> set (props_of_type s y P_DEFAULT))
      (sym_get_default_prop calc y s)"
    unfolding sym_get_default_prop_def
    by (rule first_visible_returns[OF assms(1)]) (rule sym_wfD(1)[OF assms(2) props_of_type_sub])
  then show ?thesis using sym_wfD(2,3)[OF assms(2)] by (fastforce simp: returns_def)
qed

lemma range_prop_returns:
  assumes "go s" "sym_wf s y"
  shows "returns s (\<lambda>v t. \<forall>p. v = Some p \<longrightarrow> range_ok s p) (sym_get_range_prop calc y s)"
proof -
  have "returns s (\<lambda>v t. \<forall>q. v = Some q \<longrightarrow> q \<in> set (props_of_type s y P_RANGE))
      (sym_get_range_prop calc y s)"
    unfolding sym_get_range_prop_def
    by (rule first_visible_returns[OF assms(1)]) (rule sym_wfD(1)[OF assms(2) props_of_type_sub])
  then show ?thesis using sym_wfD(2,3)[OF assms(2)] by (fastforce simp: returns_def)
qed

lemma str_sym_calc:
  assumes "go s" "str_sym s y"
  shows "ends s (\<lambda>t. is_str (sv_val (sym_curr (symtab t y)))) (calc y s)"
proof -
  from assms have y: "y \<in> sym_univ s" "\<not> logic_sym s y" by (auto simp: str_sym_def)
  from calc_ends[OF assms(1) y(1)] obtain t where t: "calc y s = Some t" "calc_post s t"
    "\<not> logic_sym t y \<longrightarrow> has_flag SYMBOL_VALID y t" by (auto simp: ends_def)
  then show ?thesis using y readyD(3)[of t y] frame_eqD(2,3)[OF calc_postD(2)[OF t(2)]]
    calc_postD(1)[OF t(2)] by (auto simp: ends_def)
qed

lemma range_val_returns:
  assumes "go s" "str_sym s y"
  shows "returns s (\<lambda>_ _. True) (sym_get_range_val calc y base s)"
  unfolding sym_get_range_val_def
  by (rule returns_ends[OF str_sym_calc[OF assms]])
    (auto intro!: returns_Some simp: str_of_def is_str_def calc_postD(1))

lemma validate_range_ends:
  assumes "go s" "y \<in> sym_univ s"
  shows "ends s (\<lambda>_. True) (sym_validate_range calc y s)"
proof (cases "sym_type (symtab s y) \<noteq> S_INT \<and> sym_type (symtab s y) \<noteq> S_HEX")
  case True
  then show ?thesis using assms by (auto simp: sym_validate_range_def go_ready intro!: ends_Some)
next
  case False
  let ?set = "\<lambda>val2 s. Some (sym_set_val y (VStr
    (if sym_type (symtab s y) = S_INT then show_lld val2 else show_llx val2)) s)"
  have wf: "sym_wf s y" using assms go_ready readyD(1) by blast
  show ?thesis unfolding sym_validate_range_def Let_def if_not_P[OF False]
  proof (rule ends_returns[OF range_prop_returns[OF assms(1) wf]], unfold split)
    fix p t assume t: "calc_post s t" "\<forall>q. p = Some q \<longrightarrow> range_ok s q"
    note f = frame_eqD[OF calc_postD(2)[OF t(1)]]
    have gt: "go t" using go_post assms(1) t(1) by blast
    have y: "y \<in> sym_univ t" "stringy_sym t y" using assms(2) False f by auto
    obtain x where x: "sv_val (sym_curr (symtab t y)) = VStr x"
      using readyD(2)[OF go_ready[OF gt] y] by (auto elim: is_strE)
    have set: "ends u (\<lambda>_. True) (?set v u)" if "calc_post t u" for u v
      using that y post_univ[OF that] frame_eqD(3)[OF calc_postD(2)[OF that]] calc_postD(1)
      by (auto intro!: ends_Some post_set_val simp: is_str_def)
    show "ends t (\<lambda>_. True) (case p of None \<Rightarrow> Some t | Some p \<Rightarrow> do {
            str \<leftarrow> str_of (sv_val (sym_curr (symtab t y)));
            (lo, hi) \<leftarrow> range_syms t p;
            (val2, u) \<leftarrow> sym_get_range_val calc lo (sym_base (sym_type (symtab s y)) 0) t;
            (ok, val2, u) \<leftarrow> (if val2 \<le> strtoll str (sym_base (sym_type (symtab s y)) 0) then do {
                (val2, u) \<leftarrow> sym_get_range_val calc hi (sym_base (sym_type (symtab s y)) 0) u;
                Some (strtoll str (sym_base (sym_type (symtab s y)) 0) \<le> val2, val2, u) }
              else Some (False, val2, u));
            Some (if ok then u
              else sym_set_val y (VStr (if sym_type (symtab u y) = S_INT then show_lld val2
                                        else show_llx val2)) u) })"
    proof (cases p)
      case None
      then show ?thesis using gt go_ready by (auto intro!: ends_Some)
    next
      case (Some q)
      then obtain lo hi where r: "range_syms t q = Some (lo, hi)" "str_sym t lo" "str_sym t hi"
        using t(2) f(6) arg_cong[OF calc_postD(2)[OF t(1)], of "\<lambda>s. range_syms s q"]
        by (auto simp: range_ok_def)
      let ?b = "sym_base (sym_type (symtab s y)) 0"
      have hi: "returns u (\<lambda>_ _. True) (sym_get_range_val calc hi ?b u)" if "calc_post t u" for u
        using that gt go_post range_val_returns frame_eqD(6)[OF calc_postD(2)[OF that]] r(3) by blast
      show ?thesis unfolding Some option.case x str_of_def symval.case bind.bind_lunit r(1) split
      proof (rule ends_returns[OF range_val_returns[OF gt r(2)]], unfold split)
        fix v u assume u: "calc_post t u"
        show "ends u (\<lambda>_. True) (do {
            (ok, val2, u) \<leftarrow> (if v \<le> strtoll x ?b then do {
                (val2, u) \<leftarrow> sym_get_range_val calc hi ?b u;
                Some (strtoll x ?b \<le> val2, val2, u) }
              else Some (False, v, u));
            Some (if ok then u
              else sym_set_val y (VStr (if sym_type (symtab u y) = S_INT then show_lld val2
                                        else show_llx val2)) u) })"
        proof (cases "v \<le> strtoll x ?b")
          case True
          from hi[OF u] obtain w n where w: "sym_get_range_val calc hi ?b u = Some (n, w)"
              "calc_post u w" by (auto simp: returns_def)
          have tw: "calc_post t w" using calc_post_trans[OF u w(2)] .
          have "ends w (\<lambda>_. True) (Some (if strtoll x ?b \<le> n then w else sym_set_val y (VStr
              (if sym_type (symtab w y) = S_INT then show_lld n else show_llx n)) w))"
            using set[OF tw, of n] calc_post_refl[OF calc_postD(1)[OF tw]] by (simp add: ends_def)
          with True w show ?thesis by (simp add: ends_post[OF w(2)])
        next
          case False
          with set[OF u, of v] show ?thesis by simp
        qed
      qed
    qed
  qed
qed

subsection \<open>Visibility\<close>

lemma prompts_returns:
  "go s \<Longrightarrow> (\<And>p. p \<in> set ps \<Longrightarrow> expr_ok s (ev_expr (prop_visible (proptab s p)))) \<Longrightarrow>
   returns s (\<lambda>_ _. True) (calc_prompts calc ps tri s)"
proof (induction ps arbitrary: s tri)
  case (Cons p ps)
  show ?case unfolding calc_prompts.simps
  proof (rule returns_bind[OF prop_visible_returns[OF Cons.prems(1)]])
    fix v t assume t: "calc_post s t"
    note f = frame_eqD[OF calc_postD(2)[OF t]]
    show "returns t (\<lambda>_ _. True) (case (v, t) of (u, s) \<Rightarrow> calc_prompts calc ps (EXPR_OR tri u) s)"
      unfolding split by (rule Cons.IH) (use Cons.prems go_post t in \<open>simp_all add: f\<close>)
  qed (use Cons.prems in simp)
qed (auto intro!: returns_Some simp: go_ready)

lemma dep_set_ends: "go t \<Longrightarrow> quiet_upd upd \<Longrightarrow> ends t (\<lambda>_. True) (Some (dep_set upd get y v t))"
  by (auto intro!: ends_Some post_dep_set simp: go_ready)

lemma calc_visible_ends:
  assumes "go s" "sym_wf s y"
  shows "ends s (\<lambda>_. True) (calc_visible calc y s)"
  unfolding calc_visible_def Let_def
proof (rule ends_returns[OF prompts_returns[OF assms(1)]], unfold split, goal_cases)
  case (1 p)
  then show ?case by (intro sym_wfD(1)[OF assms(2)]) (simp add: prompts_def)
next
  case (2 v t)
  show ?case by (rule dep_set_ends[OF go_post[OF assms(1) 2(1)] quiet_upds(1)])
qed

lemma calc_dir_dep_ends:
  assumes "go s" "sym_wf s y"
  shows "ends s (\<lambda>_. True) (calc_dir_dep calc y s)"
  unfolding calc_dir_dep_def Let_def
  by (rule ends_returns[OF expr_value_returns[OF assms(1) sym_wfD(4)[OF assms(2)]]], unfold split)
    (rule dep_set_ends[OF go_post[OF assms(1)] quiet_upds(2)])

lemma calc_rev_dep_ends:
  assumes "go s" "sym_wf s y"
  shows "ends s (\<lambda>_. True) (calc_rev_dep calc y s)"
proof -
  have "returns s (\<lambda>_ _. True) (if ev_expr (rev_dep (symtab s y)) = None then Some (tno, s)
      else expr_calc_value calc (ev_expr (rev_dep (symtab s y))) s)"
    using expr_value_returns[OF assms(1) sym_wfD(5)[OF assms(2)]] assms(1)
    by (auto intro!: returns_Some simp: go_ready)
  then show ?thesis unfolding calc_rev_dep_def Let_def
    by (rule ends_returns, unfold split) (rule dep_set_ends[OF go_post[OF assms(1)] quiet_upds(3)])
qed

lemma val_dep_ends:
  assumes "go s" "sym_wf s y" "i < length (val_dep (symtab s y))"
  shows "ends s (\<lambda>_. True) (calc_val_dep calc y i s)"
proof -
  have "expr_ok s (esv_expr (val_dep (symtab s y) ! i))"
    using sym_wfD(6)[OF assms(2)] assms(3) by (auto simp: val_dep_ok_def)
  then show ?thesis unfolding calc_val_dep_def Let_def
    by (rule ends_returns[OF expr_value_returns[OF assms(1)]], unfold split)
      (rule dep_set_ends[OF go_post[OF assms(1)] quiet_upds(4)])
qed

text \<open>A loop over \<open>val_dep\<close>.\<close>

lemma val_dep_loop:
  assumes "\<And>i t. i < length (val_dep (symtab s y)) \<Longrightarrow> go t \<Longrightarrow> sym_wf t y \<Longrightarrow> frame t = frame s
      \<Longrightarrow> ends t (\<lambda>_. True) (f i t)"
    and "go s" "sym_wf s y"
  shows "ends s (\<lambda>_. True) (ofold f [0..<length (val_dep (symtab s y))] s)"
proof (rule ofold_ends[OF _ assms(2)])
  fix i t
  assume i: "i \<in> set [0..<length (val_dep (symtab s y))]" and t: "go t" "frame t = frame s"
  have "sym_wf t y" using frame_eqD(7)[OF t(2)] assms(3) by blast
  with i t show "ends t (\<lambda>_. True) (f i t)" by (intro assms(1)) simp_all
qed

lemma visibility_ends:
  assumes "go s" "sym_wf s y"
  shows "ends s (\<lambda>_. True) (sym_calc_visibility calc y s)"
  unfolding sym_calc_visibility_def
proof (rule ends_bind[OF calc_visible_ends[OF assms]])
  fix a assume a: "calc_post s a"
  then have a': "go a" "sym_wf a y" using go_post post_wf assms by auto
  show "ends a (\<lambda>_. True) (do { s \<leftarrow> calc_dir_dep calc y a; s \<leftarrow> calc_rev_dep calc y s;
      ofold (calc_val_dep calc y) [0..<length (val_dep (symtab s y))] s })"
  proof (rule ends_bind[OF calc_dir_dep_ends[OF a']])
    fix b assume b: "calc_post a b"
    then have b': "go b" "sym_wf b y" using go_post post_wf a' by auto
    show "ends b (\<lambda>_. True) (do { s \<leftarrow> calc_rev_dep calc y b;
        ofold (calc_val_dep calc y) [0..<length (val_dep (symtab s y))] s })"
    proof (rule ends_bind[OF calc_rev_dep_ends[OF b']])
      fix c assume c: "calc_post b c"
      then have c': "go c" "sym_wf c y" using go_post post_wf b' by auto
      show "ends c (\<lambda>_. True) (ofold (calc_val_dep calc y) [0..<length (val_dep (symtab c y))] c)"
      proof (rule val_dep_loop[OF _ c'])
        fix i t assume i: "i < length (val_dep (symtab c y))" "go t" "sym_wf t y"
          and f: "frame t = frame c"
        show "ends t (\<lambda>_. True) (calc_val_dep calc y i t)"
          by (rule val_dep_ends[OF i(2,3)]) (simp only: frame_eqD(12)[OF f] i(1))
      qed
    qed
  qed
qed

end

end
