(* ===== verification/Symbol_Calc.thy ===== *)
theory Symbol_Calc
  imports Symbol_Returns
begin

text \<open>
  The rest of the value computation returns: the choices, the two cases of the switch, and the
  body of \<open>sym_calc_value\<close>. The locale is interpreted on \<open>sym_calc_value\<close> with any fuel.
\<close>

context calc_total
begin

subsection \<open>Choices\<close>

lemma choice_selected_post:
  assumes "calc_ready s"
  shows "calc_post s (snd (choice_selected y vs s))"
proof -
  let ?f = "\<lambda>d (ret, s).
       if ev_tri (rev_dep (symtab s d)) \<noteq> tno then
         (if ret \<noteq> None
          then (ret, kwarn (''warning: conflicting selects on choice block: ''
                 @ or_null (sym_name (symtab s y))) s)
          else (Some d, s))
       else (ret, s)"
  have "calc_post s t \<Longrightarrow> calc_post s (snd (fold ?f vs (r, t)))" for r t
  proof (induction vs arbitrary: r t)
    case (Cons d vs)
    note w = calc_post_trans[OF Cons.prems post_write(4)[OF calc_postD(1)[OF Cons.prems]]]
    have "calc_post s (snd (?f d (r, t)))" using w Cons.prems by simp
    then have "calc_post s (snd (fold ?f vs (fst (?f d (r, t)), snd (?f d (r, t)))))"
      by (rule Cons.IH)
    then show ?case by (simp only: fold_simps(2) prod.collapse)
  qed simp
  then show ?thesis using assms by (simp add: choice_selected_def)
qed

lemma choice_defaults_returns:
  "go s \<Longrightarrow> (\<And>p. p \<in> set ps \<Longrightarrow> expr_ok s (ev_expr (prop_visible (proptab s p)))
       \<and> (\<exists>d. prop_get_symbol (proptab s p) = Some (Some d))) \<Longrightarrow>
   returns s (\<lambda>_ _. True) (choice_defaults calc ps s)"
proof (induction ps arbitrary: s)
  case (Cons p ps)
  show ?case unfolding choice_defaults.simps
  proof (rule returns_bind[OF prop_visible_returns[OF Cons.prems(1)]], unfold split, goal_cases)
    case 1
    then show ?case using Cons.prems(2) by simp
  next
    case (2 v t)
    note f = frame_eqD[OF calc_postD(2)[OF 2(1)]]
    have IH: "returns t (\<lambda>_ _. True) (choice_defaults calc ps t)"
      by (rule Cons.IH) (use Cons.prems go_post 2(1) in \<open>simp_all add: f\<close>)
    from Cons.prems(2)[of p] obtain d where "prop_get_symbol (proptab t p) = Some (Some d)"
      by (auto simp: f)
    with IH 2(1) show ?case by (auto intro!: returns_Some simp: calc_postD(1))
  qed
qed (auto intro!: returns_Some simp: go_ready)

lemma choice_default_returns:
  assumes "go s" "sym_wf s y" "sym_is_choice s y"
  shows "returns s (\<lambda>_ _. True) (sym_choice_default calc y s)"
proof -
  from sym_wfD(7)[OF assms(2)] assms(3) obtain vs where vs: "choice_values s y = Some vs"
    by (auto simp: choice_ok_def)
  obtain r t where r: "choice_selected y vs s = (r, t)" by fastforce
  have t: "calc_post s t" using choice_selected_post[OF go_ready[OF assms(1)], of y vs] r by simp
  note f = frame_eqD[OF calc_postD(2)[OF t]]
  have gt: "go t" using go_post assms(1) t by blast
  have d: "returns t (\<lambda>_ _. True) (choice_defaults calc (props_of_type t y P_DEFAULT) t)"
  proof (rule choice_defaults_returns[OF gt])
    fix p assume "p \<in> set (props_of_type t y P_DEFAULT)"
    then have p: "p \<in> set (props_of_type s y P_DEFAULT)" by (simp add: f)
    have "default_ok s y p" by (rule sym_wfD(2)[OF assms(2) p])
    then show "expr_ok t (ev_expr (prop_visible (proptab t p)))
        \<and> (\<exists>d. prop_get_symbol (proptab t p) = Some (Some d))"
      using sym_wfD(1)[OF assms(2) props_of_type_sub[OF p]] assms(3) by (auto simp: f default_ok_def)
  qed
  show ?thesis
  proof (cases "r = None")
    case True
    have "returns t (\<lambda>_ _. True) (do { (d, s) \<leftarrow> choice_defaults calc (props_of_type t y P_DEFAULT) t;
       if d \<noteq> None then Some (d, s)
       else do { vs \<leftarrow> choice_values s y; Some (first_visible_sym s vs, s) } })"
    proof (rule returns_bind[OF d], unfold split)
      fix d u assume u: "calc_post t u"
      have "choice_values u y = Some vs"
        using frame_eqD(13)[OF calc_postD(2)[OF u], of y] vs by (simp add: f)
      then show "returns u (\<lambda>_ _. True) (if d \<noteq> None then Some (d, u)
          else do { vs \<leftarrow> choice_values u y; Some (first_visible_sym u vs, u) })"
        using calc_postD(1)[OF u] by (auto intro!: returns_Some)
    qed
    then have "returns s (\<lambda>_ _. True) (do { (d, s) \<leftarrow> choice_defaults calc (props_of_type t y P_DEFAULT) t;
       if d \<noteq> None then Some (d, s)
       else do { vs \<leftarrow> choice_values s y; Some (first_visible_sym s vs, s) } })"
      by (rule returns_post[OF t])
    with True vs r show ?thesis by (simp add: sym_choice_default_def)
  next
    case False
    with vs r t show ?thesis by (auto simp: sym_choice_default_def intro!: returns_Some)
  qed
qed

lemma choice_user_post:
  assumes "calc_ready s" "sym_is_choice s y"
  shows "calc_post s (clear_flag SYMBOL_DEF_USER y s)" "calc_post s (set_flag SYMBOL_DEF_USER y s)"
  using assms by (auto intro!: calc_post_same frame_choice_user view_flag)

lemma curr_tri_post:
  assumes "calc_ready s" "y \<in> sym_univ s" "logic_sym s y"
  shows "calc_post s (upd_sym y (\<lambda>x. x\<lparr>sym_curr := (sym_curr x)\<lparr>sv_tri := tno\<rparr>\<rparr>) s)"
proof (rule post_set_value[OF assms(1)])
  show "symtab (upd_sym y (\<lambda>x. x\<lparr>sym_curr := (sym_curr x)\<lparr>sv_tri := tno\<rparr>\<rparr>) s) x
      = (if x = y then (symtab s y)\<lparr>sym_curr := (sym_curr (symtab s y))\<lparr>sv_tri := tno\<rparr>\<rparr>
         else symtab s x)" for x by simp
qed (use assms in \<open>auto simp: frame_simps calc_ready_def vals_ok_def\<close>)

lemma wf_all: "go s \<Longrightarrow> y \<in> sym_univ s \<Longrightarrow> sym_wf s y"
  using readyD(1) go_ready by blast

lemma choice_visibilities:
  assumes "go s" "set vs \<subseteq> sym_univ s"
  shows "returns s (\<lambda>_ _. True) (ofold (\<lambda>d (flags, s). do {
         s \<leftarrow> sym_calc_visibility calc d s;
         Some (if sym_visible (symtab s d) \<noteq> tno then flags \<inter> sym_flags (symtab s d) else flags, s) })
       vs (flags, s))"
proof -
  have "\<exists>r. ofold (\<lambda>d (flags, s). do {
         s \<leftarrow> sym_calc_visibility calc d s;
         Some (if sym_visible (symtab s d) \<noteq> tno then flags \<inter> sym_flags (symtab s d) else flags, s) })
       vs (flags, s) = Some r \<and> calc_post s (snd r)"
  proof (rule ofold_returns)
    fix d and x :: "symflag set \<times> kconf"
    assume d: "d \<in> set vs" "calc_post s (snd x)"
    obtain fl t where x: "x = (fl, t)" by fastforce
    have t: "go t" "sym_wf t d"
      using d x assms go_post post_wf wf_all[OF assms(1)] by auto
    from visibility_ends[OF t] obtain u where "sym_calc_visibility calc d t = Some u" "calc_post t u"
      by (auto simp: ends_def)
    with d x show "\<exists>y. (case x of (flags, s) \<Rightarrow> do {
         s \<leftarrow> sym_calc_visibility calc d s;
         Some (if sym_visible (symtab s d) \<noteq> tno then flags \<inter> sym_flags (symtab s d) else flags, s) })
        = Some y \<and> calc_post s (snd y)"
      using calc_post_trans by fastforce
  qed (use assms go_ready in simp)
  then show ?thesis by (auto simp: returns_def)
qed

lemma calc_choice_returns:
  assumes "go s" "y \<in> sym_univ s" "sym_is_choice s y"
  shows "returns s (\<lambda>_ _. True) (sym_calc_choice calc y s)"
proof -
  from sym_wfD(7)[OF wf_all[OF assms(1,2)]] assms(3) obtain vs where
    vs: "choice_values s y = Some vs" "set vs \<subseteq> sym_univ s"
    and user: "sym_of (sv_val (sym_def (symtab s y) S_DEF_USER)) \<noteq> None"
    by (auto simp: choice_ok_def)
  show ?thesis unfolding sym_calc_choice_def Let_def vs(1) bind.bind_lunit
  proof (rule returns_bind[OF choice_visibilities[OF assms(1) vs(2)]], unfold split, goal_cases)
    case (1 fl t)
    let ?t = "if SYMBOL_DEF_USER \<in> fl then t else clear_flag SYMBOL_DEF_USER y t"
    have ct: "sym_is_choice t y" using frame_eqD(8)[OF calc_postD(2)[OF 1(1)]] assms(3) by simp
    then have p: "calc_post t ?t" using choice_user_post calc_postD(1)[OF 1(1)] by simp
    then have st: "calc_post s ?t" using calc_post_trans 1(1) by blast
    note f = frame_eqD[OF calc_postD(2)[OF st]]
    have gt: "go ?t" using go_post assms(1) st by blast
    have wf: "sym_wf ?t y" "sym_is_choice ?t y"
      using wf_all[OF gt] f(2) assms(2) ct f(8) assms(3) by simp_all
    obtain d where d: "sym_of (sv_val (sym_def (symtab ?t y) S_DEF_USER)) = Some d"
      using user f(17) by auto
    have dflt: "returns ?t (\<lambda>_ _. True) (do {
       (d, s) \<leftarrow> sym_choice_default calc y ?t;
       Some (d, if d = None
         then upd_sym y (\<lambda>x. x\<lparr>sym_curr := (sym_curr x)\<lparr>sv_tri := tno\<rparr>\<rparr>) s else s) })"
    proof (rule returns_bind[OF choice_default_returns[OF gt wf]], unfold split)
      fix d u assume u: "calc_post ?t u"
      have "y \<in> sym_univ u" using post_univ[OF u] f(2) assms(2) by simp
      moreover have "sym_wf u y" "sym_is_choice u y"
        using frame_eqD(7,8)[OF calc_postD(2)[OF u]] wf by simp_all
      then have "logic_sym u y" using sym_wfD(7) choice_ok_def by blast
      ultimately show "returns u (\<lambda>_ _. True) (Some (d, if d = None
         then upd_sym y (\<lambda>x. x\<lparr>sym_curr := (sym_curr x)\<lparr>sv_tri := tno\<rparr>\<rparr>) u else u))"
        using curr_tri_post calc_postD(1)[OF u] by (auto intro!: returns_Some)
    qed
    show ?case
      by (rule returns_post[OF p]) (use d dflt gt go_ready in \<open>auto intro!: returns_Some\<close>)
  qed
qed

subsection \<open>Boolean and tristate symbols\<close>

lemma ret_write: "go s \<Longrightarrow> returns (set_flag SYMBOL_WRITE y s) P r \<Longrightarrow> returns s P r"
  by (rule returns_post[OF post_write(1)]) (simp_all add: go_ready)

lemma val_dep_value_ok:
  assumes "sym_wf s y" "i < length (val_dep (symtab s y))"
  shows "logic_sym s y \<Longrightarrow> expr_ok s (esv_value (val_dep (symtab s y) ! i))"
    and "stringy_sym s y \<Longrightarrow> \<exists>d. left_sym (esv_value (val_dep (symtab s y) ! i)) = Some d \<and> str_sym s d"
  using sym_wfD(6)[OF assms(1)] assms(2) by (auto simp: val_dep_ok_def)

lemma unmet_message_ok:
  assumes "sym_wf s y" "logic_sym s y" "i < length (val_dep (symtab s y))"
  shows "\<exists>msg. unmet_message s y (val_dep (symtab s y) ! i) = Some msg"
proof -
  have "val_dep (symtab s y) ! i \<in> set (val_dep (symtab s y))" using assms(3) by simp
  then have "printable s (ev_expr (dir_dep (symtab s y)))"
    "printable s (esv_expr (val_dep (symtab s y) ! i))" "printable s (esv_value (val_dep (symtab s y) ! i))"
    using sym_wfD(6)[OF assms(1)] assms(2) unfolding val_dep_ok_def by auto
  then show ?thesis by (auto simp: printable_def unmet_message_def)
qed

lemma user_or_default_returns:
  assumes "go s" "y \<in> sym_univ s" "logic_sym s y"
  shows "returns s (\<lambda>_ _. True) (calc_user_or_default calc y s)"
proof -
  let ?s1 = "if sym_visible (symtab s y) \<noteq> tno then set_flag SYMBOL_WRITE y s else s"
  have p1: "calc_post s ?s1" using go_ready[OF assms(1)] by simp
  let ?s2 = "if ev_tri (rev_dep (symtab ?s1 y)) \<noteq> tno then set_flag SYMBOL_WRITE y ?s1 else ?s1"
  have p2: "calc_post ?s1 ?s2" using calc_postD(1)[OF p1] by simp
  let ?s3 = "if val_deps_set ?s2 y then set_flag SYMBOL_WRITE y ?s2 else ?s2"
  have p3: "calc_post ?s2 ?s3" using calc_postD(1)[OF p2] by simp
  have p: "calc_post s ?s3" using calc_post_trans[OF calc_post_trans[OF p1 p2] p3] .
  note f = frame_eqD[OF calc_postD(2)[OF p]]
  have g: "go ?s3" using go_post assms(1) p by blast
  have wf: "sym_wf ?s3 y" using wf_all[OF g] f(2) assms(2) by simp
  have "returns ?s3 (\<lambda>_ _. True) (if sym_is_choice ?s3 y then Some (tno, ?s3)
       else do {
         (p, s) \<leftarrow> sym_get_default_prop calc y ?s3;
         case p of
           None \<Rightarrow> Some (tno, s)
         | Some p \<Rightarrow> do {
             (t, s) \<leftarrow> expr_calc_value calc (prop_expr (proptab (set_flag SYMBOL_WRITE y s) p))
               (set_flag SYMBOL_WRITE y s);
             Some (EXPR_AND t (ev_tri (prop_visible (proptab s p))), s) }})"
  proof (cases "sym_is_choice ?s3 y")
    case True
    then show ?thesis using g by (auto intro!: returns_Some simp: go_ready)
  next
    case False
    show ?thesis unfolding if_not_P[OF False]
    proof (rule returns_bind[OF default_prop_returns[OF g wf]], unfold split, goal_cases)
      case (1 pp u)
      show ?case
      proof (cases pp)
        case None
        then show ?thesis using 1(1) by (auto intro!: returns_Some simp: calc_postD(1))
      next
        case (Some q)
        have w: "calc_post u (set_flag SYMBOL_WRITE y u)" using calc_postD(1)[OF 1(1)] by simp
        have uw: "calc_post ?s3 (set_flag SYMBOL_WRITE y u)" using calc_post_trans[OF 1(1) w] .
        note fu = frame_eqD[OF calc_postD(2)[OF uw]]
        have "expr_ok ?s3 (prop_expr (proptab ?s3 q))"
          using 1(2) Some False f assms(3) by (auto simp: default_ok_def)
        then have ok: "expr_ok (set_flag SYMBOL_WRITE y u)
            (prop_expr (proptab (set_flag SYMBOL_WRITE y u) q))" by (simp only: fu(4,21))
        have gu: "go (set_flag SYMBOL_WRITE y u)" using go_post g uw by blast
        show ?thesis unfolding Some option.case
          by (rule returns_post[OF w], rule returns_bind[OF expr_value_returns[OF gu ok]])
            (auto intro!: returns_Some simp: calc_postD(1))
      qed
    qed
  qed
  from returns_post[OF p this] p1 show ?thesis
    unfolding calc_user_or_default_def Let_def by (auto intro!: returns_Some)
qed

lemma newval_returns:
  assumes "go s" "y \<in> sym_univ s" "logic_sym s y"
  shows "returns s (\<lambda>_ _. True) (calc_newval calc y t s)"
proof -
  have um: "ends u (\<lambda>_. True) (unmet_val_dep calc y i u)"
    if i: "i < length (val_dep (symtab s y))" and u: "go u" "sym_wf u y" and f: "frame u = frame s" for i u
  proof -
    have "expr_ok u (esv_value (val_dep (symtab u y) ! i))"
      by (rule val_dep_value_ok[OF u(2)]) (use i assms(3) frame_eqD(3,12)[OF f, of y] in auto)
    from expr_value_returns[OF u(1) this] obtain v w where w:
      "expr_calc_value calc (esv_value (val_dep (symtab u y) ! i)) u = Some (v, w)" "calc_post u w"
      by (auto simp: returns_def)
    have sw: "frame w = frame s" using calc_postD(2)[OF w(2)] f by simp
    obtain msg where "unmet_message w y (val_dep (symtab w y) ! i) = Some msg"
      using unmet_message_ok[of w y i] post_wf[OF w(2)] u(2) frame_eqD(3,12)[OF sw, of y] assms(3) i
      by auto
    with w show ?thesis
      using calc_post_trans[OF w(2) post_write(4)[OF calc_postD(1)[OF w(2)]]] go_ready[OF u(1)]
      by (simp add: unmet_val_dep_def ends_def)
  qed
  have loop: "ends s (\<lambda>_. True) (ofold (unmet_val_dep calc y) [0..<length (val_dep (symtab s y))] s)"
    by (rule val_dep_loop[OF um assms(1) wf_all[OF assms(1,2)]])
  have "ends s (\<lambda>_. True) (if ev_tri (dir_dep (symtab s y)) = tno
        then ofold (unmet_val_dep calc y) [0..<length (val_dep (symtab s y))] s else Some s)"
    using loop ends_Some[OF calc_post_refl[OF go_ready[OF assms(1)]], of "\<lambda>_. True"]
    by (simp only: if_split) blast
  then show ?thesis unfolding calc_newval_def
  proof (rule returns_ends)
    fix u assume u: "calc_post s u"
    let ?P = "\<lambda>r :: tristate \<times> kconf. calc_post u (snd r)"
    have "\<exists>r. ofold (or_val_dep calc y) [0..<length (val_dep (symtab u y))]
       (EXPR_OR t (ev_tri (rev_dep (symtab u y))), u) = Some r \<and> ?P r"
    proof (rule ofold_returns)
      fix i r assume i: "i \<in> set [0..<length (val_dep (symtab u y))]" and r: "?P r"
      have sr: "calc_post s (snd r)" using calc_post_trans[OF u r] .
      have g: "go (snd r)" using go_post assms(1) sr by blast
      note f = frame_eqD[OF calc_postD(2)[OF sr]]
      have "expr_ok (snd r) (esv_value (val_dep (symtab (snd r) y) ! i))"
        by (rule val_dep_value_ok[OF wf_all[OF g]])
          (use i assms(2,3) f(2,3) frame_eqD(12)[OF calc_postD(2)[OF r], of y] in auto)
      from expr_value_returns[OF g this] obtain v w where
        "expr_calc_value calc (esv_value (val_dep (symtab (snd r) y) ! i)) (snd r) = Some (v, w)"
        "calc_post (snd r) w" by (auto simp: returns_def)
      then show "\<exists>r'. or_val_dep calc y i r = Some r' \<and> ?P r'"
        using r calc_post_trans[OF r] by (cases r) (auto simp: or_val_dep_def)
    qed (use u calc_postD(1) in simp)
    then show "returns u (\<lambda>_ _. True) (ofold (or_val_dep calc y) [0..<length (val_dep (symtab u y))]
       (EXPR_OR t (ev_tri (rev_dep (symtab u y))), u))" by (auto simp: returns_def)
  qed
qed

lemma tristate_returns:
  assumes "go s" "y \<in> sym_univ s" "logic_sym s y"
  shows "returns s (\<lambda>v t. sym_type (symtab s y) = S_BOOLEAN \<longrightarrow> v \<noteq> tmod) (calc_tristate calc y s)"
proof -
  have ud: "returns s (\<lambda>_ _. True) (do { (t, s) \<leftarrow> calc_user_or_default calc y s; calc_newval calc y t s })"
  proof (rule returns_bind[OF user_or_default_returns[OF assms]], unfold split)
    fix t u assume u: "calc_post s u"
    note f = frame_eqD[OF calc_postD(2)[OF u]]
    show "returns u (\<lambda>_ _. True) (calc_newval calc y t u)"
      by (rule newval_returns) (use go_post assms u f in simp_all)
  qed
  have "returns s (\<lambda>_ _. True) (if sym_is_choice_value s y \<and> sym_visible (symtab s y) = tyes then do {
          c \<leftarrow> choice_of s y;
          Some (if sv_val (sym_curr (symtab s c)) = VSym y then tyes else tno, s) }
        else do { (t, s) \<leftarrow> calc_user_or_default calc y s; calc_newval calc y t s })"
    using ud sym_wfD(7)[OF wf_all[OF assms(1,2)]] go_ready[OF assms(1)]
    by (auto simp: choice_ok_def intro!: returns_Some)
  then show ?thesis unfolding calc_tristate_def
  proof (rule returns_bind, unfold split)
    fix v t assume t: "calc_post s t"
    have "sym_type (symtab s y) = S_BOOLEAN \<Longrightarrow> sym_get_type t y = S_BOOLEAN"
      using frame_eqD(3)[OF calc_postD(2)[OF t], of y] by (simp add: sym_get_type_def Let_def)
    then show "returns t (\<lambda>v t. sym_type (symtab s y) = S_BOOLEAN \<longrightarrow> v \<noteq> tmod)
        (Some (if v = tmod \<and> sym_get_type t y = S_BOOLEAN then tyes else v, t))"
      by (intro returns_Some) (auto simp: calc_postD(1)[OF t])
  qed
qed

subsection \<open>Strings and numbers\<close>

lemma default_string_returns:
  assumes "go s" "y \<in> sym_univ s" "stringy_sym s y" "\<not> sym_is_choice s y" "is_str v"
  shows "returns s (\<lambda>v _. is_str v) (calc_default_string calc y v s)"
  unfolding calc_default_string_def
proof (rule returns_bind[OF default_prop_returns[OF assms(1) wf_all[OF assms(1,2)]]], unfold split, goal_cases)
  case (1 pp u)
  note f = frame_eqD[OF calc_postD(2)[OF 1(1)]]
  have cu: "calc_ready u" using calc_postD(1)[OF 1(1)] .
  show ?case
  proof (cases pp)
    case None
    then show ?thesis using cu assms(5) by (auto intro!: returns_Some)
  next
    case (Some q)
    from 1(2) Some have "default_ok s y q" by simp
    with assms(3,4) have "prop_get_symbol (proptab u q) = Some None
        \<or> (\<exists>d. str_sym u d \<and> prop_get_symbol (proptab u q) = Some (Some d))"
      by (auto simp: default_ok_def f)
    then show ?thesis
    proof
      assume "prop_get_symbol (proptab u q) = Some None"
      then show ?thesis using cu Some assms(5) by (auto intro!: returns_Some)
    next
      assume "\<exists>d. str_sym u d \<and> prop_get_symbol (proptab u q) = Some (Some d)"
      then obtain d where d: "str_sym u d" "prop_get_symbol (proptab u q) = Some (Some d)" by blast
      have w: "calc_post u (set_flag SYMBOL_WRITE y u)" using cu by simp
      have gw: "go (set_flag SYMBOL_WRITE y u)" using go_post[OF go_post[OF assms(1) 1(1)] w] .
      have sd: "str_sym (set_flag SYMBOL_WRITE y u) d"
        using frame_eqD(6)[OF calc_postD(2)[OF w], of d] d(1) by blast
      show ?thesis unfolding Some option.case d(2) bind.bind_lunit
        by (rule returns_post[OF w], rule returns_ends[OF str_sym_calc[OF gw sd]])
          (auto intro!: returns_Some simp: calc_postD(1))
    qed
  qed
qed

lemma sel_val_dep_loop:
  assumes "go s" "y \<in> sym_univ s" "stringy_sym s y" "is_str v"
  shows "\<exists>w b u. ofold (sel_val_dep calc y) [0..<length (val_dep (symtab s y))] ((v, False), s)
    = Some ((w, b), u) \<and> is_str w \<and> calc_post s u"
proof -
  let ?P = "\<lambda>r :: (symval \<times> bool) \<times> kconf. is_str (fst (fst r)) \<and> calc_post s (snd r)"
  have "\<exists>r. ofold (sel_val_dep calc y) [0..<length (val_dep (symtab s y))] ((v, False), s) = Some r \<and> ?P r"
  proof (rule ofold_returns)
    fix i and r :: "(symval \<times> bool) \<times> kconf"
    assume i: "i \<in> set [0..<length (val_dep (symtab s y))]" and P: "?P r"
    obtain w b u where r: "r = ((w, b), u)" by (metis surj_pair)
    have su: "calc_post s u" using P r by simp
    note f = frame_eqD[OF calc_postD(2)[OF su]]
    have g: "go u" using go_post assms(1) su by blast
    obtain d where d: "left_sym (esv_value (val_dep (symtab u y) ! i)) = Some d" "str_sym u d"
      using val_dep_value_ok(2)[OF wf_all[OF g], of y i] i assms(2,3) f(2,3,12) by auto
    have wr: "calc_post u (set_flag SYMBOL_WRITE y u)" using go_ready[OF g] by simp
    have sd: "str_sym (set_flag SYMBOL_WRITE y u) d"
      using frame_eqD(6)[OF calc_postD(2)[OF wr], of d] d(2) by blast
    from str_sym_calc[OF go_post[OF g wr] sd] obtain x where x:
      "calc d (set_flag SYMBOL_WRITE y u) = Some x" "calc_post (set_flag SYMBOL_WRITE y u) x"
      "is_str (sv_val (sym_curr (symtab x d)))" by (auto simp: ends_def)
    have "calc_post s x" using calc_post_trans[OF su calc_post_trans[OF wr x(2)]] .
    with P r d x show "\<exists>r'. sel_val_dep calc y i r = Some r' \<and> ?P r'"
      by (auto simp: sel_val_dep_def)
  qed (use assms go_ready in simp)
  then show ?thesis by auto
qed

lemma string_returns:
  assumes "go s" "y \<in> sym_univ s" "stringy_sym s y" "\<not> sym_is_choice s y" "is_str v"
  shows "returns s (\<lambda>v _. is_str v) (calc_string calc y v s)"
proof -
  let ?s = "if sym_visible (symtab s y) \<noteq> tno then set_flag SYMBOL_WRITE y s else s"
  have p: "calc_post s ?s" using go_ready[OF assms(1)] by simp
  note f = frame_eqD[OF calc_postD(2)[OF p]]
  have g: "go ?s" using go_post assms(1) p by blast
  have a: "y \<in> sym_univ ?s" "stringy_sym ?s y" "\<not> sym_is_choice ?s y"
    using assms(2-4) by (simp_all only: f not_False_eq_True)
  show ?thesis unfolding calc_string_def Let_def
  proof (rule returns_post[OF p], cases "sym_visible (symtab ?s y) \<noteq> tno \<and> sym_has_value ?s y")
    case True
    have "is_str (sv_val (sym_def (symtab ?s y) S_DEF_USER))"
      using sym_wfD(8)[OF wf_all[OF g a(1)] a(2,3)] True by blast
    with True show "returns ?s (\<lambda>v _. is_str v) (if sym_visible (symtab ?s y) \<noteq> tno \<and> sym_has_value ?s y
      then Some (sv_val (sym_def (symtab ?s y) S_DEF_USER), ?s)
      else do {
       ((v, got_sel_val), s) \<leftarrow>
         ofold (sel_val_dep calc y) [0..<length (val_dep (symtab ?s y))] ((v, False), ?s);
       if got_sel_val then Some (v, s) else calc_default_string calc y v s })"
      using calc_postD(1)[OF p] by (auto intro!: returns_Some)
  next
    case False
    from sel_val_dep_loop[OF g a(1,2) assms(5)] obtain w b u where u:
      "ofold (sel_val_dep calc y) [0..<length (val_dep (symtab ?s y))] ((v, False), ?s) = Some ((w, b), u)"
      "is_str w" "calc_post ?s u" by blast
    note fu = frame_eqD[OF calc_postD(2)[OF u(3)]]
    have "returns u (\<lambda>v _. is_str v) (calc_default_string calc y w u)"
      by (rule default_string_returns[OF go_post[OF g u(3)]]) (use a u(2) in \<open>simp_all only: fu not_False_eq_True\<close>)
    with u show "returns ?s (\<lambda>v _. is_str v) (if sym_visible (symtab ?s y) \<noteq> tno \<and> sym_has_value ?s y
      then Some (sv_val (sym_def (symtab ?s y) S_DEF_USER), ?s)
      else do {
       ((v, got_sel_val), s) \<leftarrow>
         ofold (sel_val_dep calc y) [0..<length (val_dep (symtab ?s y))] ((v, False), ?s);
       if got_sel_val then Some (v, s) else calc_default_string calc y v s })"
      unfolding if_not_P[OF False]
      by (auto intro!: returns_Some intro: returns_post)
  qed
qed

end

end
