(* ===== verification/Symbol_Knot.thy ===== *)
theory Symbol_Knot
  imports Symbol_Calc
begin

text \<open>
  The body of \<open>sym_calc_value\<close> returns if the recursive call does, with one more unit of fuel;
  the interpretation of the locale on \<open>sym_calc_value\<close>, for every fuel, follows by induction.
\<close>

subsection \<open>Flags that steer the recursion\<close>

lemma univ_not_const:
  assumes "calc_ready s" "logic_sym s y \<or> stringy_sym s y"
  shows "y \<notin> {symbol_yes, symbol_mod, symbol_no, symbol_empty}"
  using assms by (auto simp: calc_ready_def conf_wf_def)

lemma card_remove:
  assumes "finite A" "y \<in> A"
  shows "card (A - {y}) = card A - 1" "0 < card A"
  using assms by (auto simp: card_gt_0_iff)

text \<open>Marking the symbol valid, for a symbol whose value can be read already.\<close>

lemma set_valid_post:
  assumes "calc_ready s" "y \<in> sym_univ s" "\<not> has_flag SYMBOL_VALID y s"
    and "logic_sym s y \<or> stringy_sym s y"
  shows "calc_post s (set_flag SYMBOL_VALID y s)"
    "calc_work (set_flag SYMBOL_VALID y s) < calc_work s"
proof -
  let ?s = "set_flag SYMBOL_VALID y s"
  have fr: "frame ?s = frame s" by (simp add: frame_set_flag)
  note f = frame_eqD[OF fr]
  have fl: "has_flag b x ?s = (has_flag b x s \<or> b = SYMBOL_VALID \<and> x = y)" for b x
    by (auto simp: has_flag_def set_flag_def)
  have cu: "sym_curr (symtab ?s x) = sym_curr (symtab s x)" for x
    by (simp add: set_flag_def)
  have inv: "invalid_syms ?s = invalid_syms s - {y}" and need: "need_syms ?s = need_syms s"
    by (auto simp: invalid_syms_def need_syms_def f fl)
  have "y \<in> invalid_syms s" using assms by (simp add: invalid_syms_def)
  from card_remove[OF finite_univ(2) this] show w: "calc_work ?s < calc_work s"
    by (simp add: calc_work_def inv need)
  have "vals_ok ?s" using assms(1,4) unfolding vals_ok_def f fl cu
    by (auto simp: calc_ready_def vals_ok_def)
  then show "calc_post s ?s" using assms(1) w fr f(1) need fl
    by (simp add: calc_post_def calc_ready_def)
qed

text \<open>Dropping the request to set the values of a choice.\<close>

lemma clear_need_post:
  assumes "calc_ready s" "y \<in> sym_univ s" "has_flag SYMBOL_NEED_SET_CHOICE_VALUES y s"
  shows "calc_post s (clear_flag SYMBOL_NEED_SET_CHOICE_VALUES y s)"
    "calc_work (clear_flag SYMBOL_NEED_SET_CHOICE_VALUES y s) + 2 = calc_work s"
proof -
  let ?s = "clear_flag SYMBOL_NEED_SET_CHOICE_VALUES y s"
  have fr: "frame ?s = frame s" by (simp add: frame_set_flag)
  note f = frame_eqD[OF fr]
  have fl: "has_flag b x ?s = (has_flag b x s \<and> \<not> (b = SYMBOL_NEED_SET_CHOICE_VALUES \<and> x = y))" for b x
    by (auto simp: has_flag_def clear_flag_def)
  have cu: "sym_curr (symtab ?s x) = sym_curr (symtab s x)" for x
    by (simp add: clear_flag_def)
  have inv: "invalid_syms ?s = invalid_syms s" and need: "need_syms ?s = need_syms s - {y}"
    by (auto simp: invalid_syms_def need_syms_def f fl)
  have "y \<in> need_syms s" using assms by (simp add: need_syms_def)
  from card_remove[OF finite_univ(3) this] show w: "calc_work ?s + 2 = calc_work s"
    by (simp add: calc_work_def inv need)
  have "vals_ok ?s" using assms(1) unfolding vals_ok_def f fl cu
    by (auto simp: calc_ready_def vals_ok_def)
  then show "calc_post s ?s" using assms(1) w fr f(1) need fl
    by (auto simp: calc_post_def calc_ready_def)
qed

text \<open>Dropping the request and the valid mark of a choice at once.\<close>

lemma reset_choice_post:
  assumes "calc_ready s" "y \<in> sym_univ s" "has_flag SYMBOL_NEED_SET_CHOICE_VALUES y s" "logic_sym s y"
  shows "calc_post s (clear_flag SYMBOL_VALID y (clear_flag SYMBOL_NEED_SET_CHOICE_VALUES y s))"
proof -
  let ?t = "clear_flag SYMBOL_NEED_SET_CHOICE_VALUES y s"
  let ?s = "clear_flag SYMBOL_VALID y ?t"
  note t = clear_need_post[OF assms(1-3)]
  have fr: "frame ?s = frame s" by (simp add: frame_set_flag)
  note f = frame_eqD[OF fr]
  have fl: "has_flag b x ?s = (has_flag b x ?t \<and> \<not> (b = SYMBOL_VALID \<and> x = y))" for b x
    by (auto simp: has_flag_def clear_flag_def)
  have cu: "sym_curr (symtab ?s x) = sym_curr (symtab ?t x)" for x
    by (simp add: clear_flag_def)
  note ft = frame_eqD[OF calc_postD(2)[OF t(1)]]
  have "invalid_syms ?s \<subseteq> insert y (invalid_syms ?t)" and need: "need_syms ?s = need_syms ?t"
    by (auto simp: invalid_syms_def need_syms_def f ft fl)
  then have "card (invalid_syms ?s) \<le> Suc (card (invalid_syms ?t))"
    using card_mono[of "insert y (invalid_syms ?t)" "invalid_syms ?s"]
      card_insert_if[of "invalid_syms ?t" y] by (auto split: if_splits)
  then have w: "calc_work ?s \<le> calc_work s" using t(2) by (simp add: calc_work_def need)
  have "y \<notin> {symbol_yes, symbol_mod, symbol_no, symbol_empty}"
    using univ_not_const[OF assms(1)] assms(4) by blast
  then have "vals_ok ?s" using calc_postD(1)[OF t(1)] assms(4) unfolding vals_ok_def f fl cu
    by (auto simp: calc_ready_def vals_ok_def ft)
  moreover have "need_syms ?s \<subseteq> need_syms s" using need t(1) by (simp add: calc_post_def)
  moreover have "\<not> logic_sym s x \<Longrightarrow> x \<in> sym_univ s \<Longrightarrow> has_flag SYMBOL_VALID x s
      \<Longrightarrow> has_flag SYMBOL_VALID x ?s" for x
    using t(1) assms(4) unfolding fl calc_post_def by blast
  moreover have "has_flag SYMBOL_VALID x ?s \<or> x \<in> need_syms s - need_syms ?s"
    if "x \<in> sym_univ s" "has_flag SYMBOL_VALID x s" for x
    using that assms(2,3) t(1) unfolding fl calc_post_def need
    by (auto simp: need_syms_def has_flag_def clear_flag_def)
  ultimately show ?thesis using assms(1) w fr f(1) by (simp add: calc_post_def calc_ready_def)
qed

lemma set_all_values_ends:
  assumes "calc_ready s" "y \<in> sym_univ s" "has_flag SYMBOL_NEED_SET_CHOICE_VALUES y s" "sym_is_choice s y"
  shows "\<exists>s'. set_all_choice_values y s = Some s' \<and> calc_post s s'"
proof -
  from sym_wfD(7)[OF readyD(1)[OF assms(1,2)]] assms(4) obtain vs where
    vs: "choice_values s y = Some vs" and l: "logic_sym s y" by (auto simp: choice_ok_def)
  define t where "t = fold (\<lambda>d s. if sym_has_value s d then s else set_def_tri S_DEF_USER d tno s) vs s"
  have fl: "has_flag b y (fold (\<lambda>d s. if sym_has_value s d then s else set_def_tri S_DEF_USER d tno s) vs s)
      = has_flag b y s" for b
    by (induction vs arbitrary: s) (simp_all add: has_flag_def set_def_tri_def)
  have "frame t = frame s" "view t = view s"
    unfolding t_def by (rule frame_fold view_fold; simp add: frame_simps)+
  then have t: "calc_post s t" by (rule calc_post_same[OF assms(1)])
  let ?u = "set_flag SYMBOL_DEF_USER y t"
  have "sym_is_choice t y" using frame_eqD(8)[OF calc_postD(2)[OF t]] assms(4) by simp
  then have u: "calc_post t ?u"
    by (intro calc_post_same[OF calc_postD(1)[OF t]] frame_choice_user view_flag) simp_all
  have su: "calc_post s ?u" using calc_post_trans[OF t u] .
  note f = frame_eqD[OF calc_postD(2)[OF su]]
  have n: "has_flag SYMBOL_NEED_SET_CHOICE_VALUES y ?u"
    using assms(3) fl by (auto simp: t_def has_flag_def set_flag_def)
  have yu: "y \<in> sym_univ ?u" "logic_sym ?u y"
    using assms(2) l by (simp_all only: f(2,3))
  have "calc_post ?u (clear_flag SYMBOL_VALID y (clear_flag SYMBOL_NEED_SET_CHOICE_VALUES y ?u))"
    by (rule reset_choice_post[OF calc_postD(1)[OF u] yu(1) n yu(2)])
  then have "calc_post s (clear_flag SYMBOL_VALID y (clear_flag SYMBOL_NEED_SET_CHOICE_VALUES y ?u))"
    by (rule calc_post_trans[OF su])
  then show ?thesis using vs by (simp add: set_all_choice_values_def t_def Let_def)
qed

subsection \<open>After the new value\<close>

lemma notify_post: "calc_ready s \<Longrightarrow> calc_post s (calc_notify y oldval s)"
  by (rule calc_post_same) (simp_all add: calc_notify_def Let_def frame_simps)

lemma choice_flags_ends:
  assumes "calc_ready s" "y \<in> sym_univ s"
  shows "\<exists>s'. calc_choice_flags y s = Some s' \<and> calc_post s s'"
proof (cases "sym_is_choice s y")
  case True
  from sym_wfD(7)[OF readyD(1)[OF assms]] True obtain vs where vs: "choice_values s y = Some vs"
    by (auto simp: choice_ok_def)
  let ?f = "\<lambda>d s. let s = (if has_flag SYMBOL_WRITE y s \<and> sym_visible (symtab s d) \<noteq> tno
                   then set_flag SYMBOL_WRITE d s else s)
          in if has_flag SYMBOL_CHANGED y s then sym_set_changed d s else s"
  have "frame (fold ?f vs s) = frame s" "view (fold ?f vs s) = view s"
    by (rule frame_fold view_fold; simp add: quiet_simps Let_def)+
  then show ?thesis using True vs calc_post_same[OF assms(1)] by (simp add: calc_choice_flags_def)
qed (use assms in \<open>simp add: calc_choice_flags_def\<close>)

lemma finish_ends:
  assumes "calc_ready s" "y \<in> sym_univ s"
    and "has_flag SYMBOL_NEED_SET_CHOICE_VALUES y s \<Longrightarrow> sym_is_choice s y"
  shows "\<exists>s'. calc_finish y s = Some s' \<and> calc_post s s'"
proof -
  obtain t where t: "calc_choice_flags y s = Some t" "calc_post s t"
    using choice_flags_ends[OF assms(1,2)] by blast
  let ?u = "if has_flag SYMBOL_AUTO y t then clear_flag SYMBOL_WRITE y t else t"
  have su: "calc_post s ?u" using calc_post_trans[OF t(2)] calc_postD(1)[OF t(2)] by simp
  note f = frame_eqD[OF calc_postD(2)[OF su]]
  have y: "y \<in> sym_univ ?u" using assms(2) by (simp only: f(2))
  show ?thesis
  proof (cases "has_flag SYMBOL_NEED_SET_CHOICE_VALUES y ?u")
    case True
    then have "has_flag SYMBOL_NEED_SET_CHOICE_VALUES y s"
      using su y assms(2) unfolding calc_post_def need_syms_def by blast
    then have "sym_is_choice ?u y" using assms(3) f(8) by simp
    from set_all_values_ends[OF calc_postD(1)[OF su] y True this] calc_post_trans[OF su] t(1) True
    show ?thesis by (auto simp: calc_finish_def Let_def)
  next
    case False
    then show ?thesis using t(1) su by (auto simp: calc_finish_def Let_def)
  qed
qed

context calc_total
begin

lemma by_type_returns:
  assumes "go s" "y \<in> sym_univ s" "logic_sym s y \<or> stringy_sym s y"
    and "stringy_sym s y \<longrightarrow> is_str (sv_val newval)" "sv_tri newval = tno"
  shows "returns s (\<lambda>v t. (stringy_sym s y \<longrightarrow> is_str (sv_val v)) \<and> (sym_type (symtab s y) = S_BOOLEAN \<longrightarrow> sv_tri v \<noteq> tmod) \<and> (stringy_sym s y \<longrightarrow> sv_tri v = tno)) (calc_newval_by_type calc y newval s)"
proof (cases "logic_sym s y")
  case True
  then have "sym_get_type s y = S_BOOLEAN \<or> sym_get_type s y = S_TRISTATE"
    by (auto simp: sym_get_type_def Let_def)
  moreover have "returns s (\<lambda>v t. (stringy_sym s y \<longrightarrow> is_str (sv_val v)) \<and> (sym_type (symtab s y) = S_BOOLEAN \<longrightarrow> sv_tri v \<noteq> tmod) \<and> (stringy_sym s y \<longrightarrow> sv_tri v = tno)) (do {
        (t, s) \<leftarrow> calc_tristate calc y s; Some (newval\<lparr>sv_tri := t\<rparr>, s) })"
    by (rule returns_bind[OF tristate_returns[OF assms(1,2) True]])
      (use True in \<open>auto intro!: returns_Some simp: calc_postD(1)\<close>)
  ultimately show ?thesis by (simp add: calc_newval_by_type_def Let_def)
next
  case False
  then have st: "stringy_sym s y" using assms(3) by simp
  then have ty: "sym_get_type s y = sym_type (symtab s y)" by (auto simp: sym_get_type_def Let_def)
  have nc: "\<not> sym_is_choice s y"
    using sym_wfD(7)[OF wf_all[OF assms(1,2)]] False by (auto simp: choice_ok_def)
  have "returns s (\<lambda>v t. (stringy_sym s y \<longrightarrow> is_str (sv_val v)) \<and> (sym_type (symtab s y) = S_BOOLEAN \<longrightarrow> sv_tri v \<noteq> tmod) \<and> (stringy_sym s y \<longrightarrow> sv_tri v = tno)) (do {
        (v, s) \<leftarrow> calc_string calc y (sv_val newval) s; Some (newval\<lparr>sv_val := v\<rparr>, s) })"
    by (rule returns_bind[OF string_returns[OF assms(1,2) st nc]])
      (use st assms(4,5) in \<open>auto intro!: returns_Some simp: calc_postD(1)\<close>)
  with st ty show ?thesis by (auto simp: calc_newval_by_type_def Let_def)
qed

lemma set_newval_ends:
  assumes "go s" "y \<in> sym_univ s" "logic_sym s y \<or> stringy_sym s y"
    and "stringy_sym s y \<longrightarrow> is_str (sv_val newval)" "sv_tri newval = tno"
  shows "ends s (\<lambda>_. True) (calc_set_newval calc y newval s)"
proof -
  let ?s = "sym_set_curr y newval s"
  have p: "calc_post s ?s"
    by (rule post_set_curr[OF go_ready[OF assms(1)] assms(3,4)]) (simp_all add: assms(5))
  note f = frame_eqD[OF calc_postD(2)[OF p]]
  have g: "go ?s" using go_post assms(1) p by blast
  show ?thesis unfolding calc_set_newval_def Let_def
  proof (rule ends_post[OF p], rule ends_returns[OF by_type_returns[OF g]], unfold split, goal_cases)
    case (5 v t)
    let ?t = "sym_set_curr y v t"
    note ft = frame_eqD[OF calc_postD(2)[OF 5(1)]]
    have pt: "calc_post t ?t"
      by (rule post_set_curr[OF calc_postD(1)[OF 5(1)]])
        (use assms(3) 5(2) in \<open>simp_all only: f ft simp_thms, simp_all\<close>)
    have gt: "go ?t" using go_post[OF go_post[OF g 5(1)] pt] .
    note fu = frame_eqD[OF calc_postD(2)[OF pt]]
    have yu: "y \<in> sym_univ ?t" using assms(2) by (simp only: f ft fu)
    show ?case
    proof (rule ends_post[OF pt], cases "sym_is_choice ?t y \<and> sv_tri v = tyes")
      case True
      then have ch: "sym_is_choice ?t y" by simp
      have lg: "logic_sym ?t y" using sym_wfD(7)[OF wf_all[OF gt yu]] ch by (simp add: choice_ok_def)
      have "ends ?t (\<lambda>_. True) (do { (d, s) \<leftarrow> sym_calc_choice calc y ?t;
          Some (sym_set_val y (symval_of d) s) })"
      proof (rule ends_returns[OF calc_choice_returns[OF gt yu ch]], unfold split)
        fix d w assume w: "calc_post ?t w"
        have "logic_sym w y" using lg by (simp only: frame_eqD(3)[OF calc_postD(2)[OF w]])
        then have "calc_post w (sym_set_val y (symval_of d) w)"
          by (intro post_set_val[OF calc_postD(1)[OF w]]) (use yu post_univ[OF w] in auto)
        then show "ends w (\<lambda>_. True) (Some (sym_set_val y (symval_of d) w))"
          by (rule ends_Some) simp
      qed
      with True show "ends ?t (\<lambda>_. True) (if sym_is_choice ?t y \<and> sv_tri v = tyes
          then do { (d, s) \<leftarrow> sym_calc_choice calc y ?t; Some (sym_set_val y (symval_of d) s) }
          else Some ?t)" by simp
    next
      case False
      show "ends ?t (\<lambda>_. True) (if sym_is_choice ?t y \<and> sv_tri v = tyes
          then do { (d, s) \<leftarrow> sym_calc_choice calc y ?t; Some (sym_set_val y (symval_of d) s) }
          else Some ?t)"
        unfolding if_not_P[OF False] by (rule ends_Some[OF calc_post_refl[OF go_ready[OF gt]]]) simp
    qed
  qed (use assms in \<open>simp_all only: f simp_thms\<close>)
qed

lemma typed_ends:
  assumes "go s" "y \<in> sym_univ s" "logic_sym s y \<or> stringy_sym s y"
    and "stringy_sym s y \<longrightarrow> is_str (sv_val newval)" "sv_tri newval = tno"
    and "has_flag SYMBOL_NEED_SET_CHOICE_VALUES y s \<Longrightarrow> sym_is_choice s y"
  shows "ends s (\<lambda>_. True) (sym_calc_typed calc y oldval newval s)"
proof -
  let ?s = "if sym_is_choice_value s y then s else clear_flag SYMBOL_WRITE y s"
  have p: "calc_post s ?s" using go_ready[OF assms(1)] by simp
  have gs: "go ?s" using go_post[OF assms(1) p] .
  note f = frame_eqD[OF calc_postD(2)[OF p]]
  have ys: "y \<in> sym_univ ?s" using assms(2) by (simp only: f)
  show ?thesis unfolding sym_calc_typed_def Let_def
  proof (rule ends_post[OF p], rule ends_bind[OF visibility_ends[OF gs wf_all[OF gs ys]]], goal_cases)
    case (1 t)
    note ft = frame_eqD[OF calc_postD(2)[OF 1(1)]]
    have gt: "go t" using go_post[OF gs 1(1)] .
    show ?case
    proof (rule ends_bind[OF set_newval_ends[OF gt]], goal_cases)
      case (5 u)
      note fu = frame_eqD[OF calc_postD(2)[OF 5(1)]]
      have gu: "go u" using go_post[OF gt 5(1)] .
      have yu: "y \<in> sym_univ u" using assms(2) by (simp only: f ft fu)
      show ?case
      proof (rule ends_bind[OF validate_range_ends[OF gu yu]], goal_cases)
        case (1 w)
        let ?w = "calc_notify y oldval w"
        have n: "calc_post w ?w" using notify_post[OF calc_postD(1)[OF 1(1)]] .
        have sw: "calc_post s ?w"
          using calc_post_trans[OF calc_post_trans[OF calc_post_trans[OF calc_post_trans[OF p \<open>calc_post ?s t\<close>]
            \<open>calc_post t u\<close>] 1(1)] n] .
        note fw = frame_eqD[OF calc_postD(2)[OF sw]]
        have yw: "y \<in> sym_univ ?w" using assms(2) by (simp only: fw)
        have "has_flag SYMBOL_NEED_SET_CHOICE_VALUES y ?w \<Longrightarrow> sym_is_choice ?w y"
          using sw assms(2,6) yw fw(8) unfolding calc_post_def need_syms_def by blast
        from finish_ends[OF calc_postD(1)[OF sw] yw this] calc_post_trans[OF n] show ?case
          by (auto simp: ends_def)
      qed
    qed (use assms in \<open>simp_all only: f ft simp_thms\<close>)
  qed
qed

subsection \<open>The body\<close>

lemma choice_first_ends:
  assumes "calc_ready s" "y \<in> sym_univ s" "calc_work s < Suc fuel"
  obtains t where "calc_choice_first calc y s = Some t" "calc_post s t"
    "has_flag SYMBOL_NEED_SET_CHOICE_VALUES y t \<Longrightarrow> sym_is_choice t y" "calc_work t < fuel \<or> t = s"
proof (cases "sym_is_choice_value s y \<and> has_flag SYMBOL_NEED_SET_CHOICE_VALUES y s")
  case True
  let ?s = "clear_flag SYMBOL_NEED_SET_CHOICE_VALUES y s"
  have n: "has_flag SYMBOL_NEED_SET_CHOICE_VALUES y s" using True by simp
  note c = clear_need_post[OF assms(1,2) n]
  note f = frame_eqD[OF calc_postD(2)[OF c(1)]]
  have g: "go ?s" using c(2) assms(3) calc_postD(1)[OF c(1)] by (simp add: go_def)
  obtain d where d: "choice_of s y = Some d" "d \<in> sym_univ s"
    using sym_wfD(7)[OF readyD(1)[OF assms(1,2)]] True by (auto simp: choice_ok_def)
  then have "choice_of ?s y = Some d" by (simp only: f)
  then obtain p where p: "sym_get_choice_prop ?s y = Some p" "prop_get_symbol (proptab ?s p) = Some (Some d)"
    by (auto simp: choice_of_def bind_eq_Some_conv)
  have du: "d \<in> sym_univ ?s" using d(2) by (simp only: f)
  from calc_ends[OF g du] obtain t where t: "calc d ?s = Some t" "calc_post ?s t"
    by (auto simp: ends_def)
  have nt: "\<not> has_flag SYMBOL_NEED_SET_CHOICE_VALUES y t"
  proof
    assume "has_flag SYMBOL_NEED_SET_CHOICE_VALUES y t"
    then have "y \<in> need_syms t" using assms(2) post_univ[OF t(2)] f(2) by (simp add: need_syms_def)
    then have "y \<in> need_syms ?s" using t(2) unfolding calc_post_def by blast
    then show False by (simp add: need_syms_def has_flag_def clear_flag_def)
  qed
  have "calc_choice_first calc y s = Some t"
    using True p t(1) by (simp add: calc_choice_first_def calc_opt_def)
  then show ?thesis
    by (rule that[OF _ calc_post_trans[OF c(1) t(2)]]) (use nt calc_postD(3)[OF t(2)] c(2) assms(3) in simp_all)
next
  case False
  have "has_flag SYMBOL_NEED_SET_CHOICE_VALUES y s \<Longrightarrow> sym_is_choice s y"
    using assms(1,2) False unfolding calc_ready_def vals_ok_def by blast
  moreover have "calc_choice_first calc y s = Some s" using False by (auto simp: calc_choice_first_def)
  ultimately show ?thesis using that assms(1) by simp
qed

lemma named_post:
  assumes "calc_ready s" "y \<in> sym_univ s" "\<not> logic_sym s y" "\<not> stringy_sym s y"
    and "y \<notin> {symbol_yes, symbol_mod, symbol_no, symbol_empty}"
    and "sym_name (symtab s y) = Some n"
  shows "calc_done s y (sym_set_curr y \<lparr>sv_val = VStr n, sv_tri = tno\<rparr> (set_flag SYMBOL_VALID y s))"
proof -
  let ?s = "sym_set_curr y \<lparr>sv_val = VStr n, sv_tri = tno\<rparr> (set_flag SYMBOL_VALID y s)"
  have fr: "frame ?s = frame s" by (simp add: frame_simps frame_set_flag)
  note f = frame_eqD[OF fr]
  have fl: "has_flag b x ?s = (has_flag b x s \<or> b = SYMBOL_VALID \<and> x = y)" for b x
    by (auto simp: has_flag_def set_flag_def sym_set_curr_def)
  have cu: "sym_curr (symtab ?s x) = (if x = y then \<lparr>sv_val = VStr n, sv_tri = tno\<rparr> else sym_curr (symtab s x))" for x
    by (simp add: set_flag_def sym_set_curr_def)
  have "invalid_syms ?s \<subseteq> invalid_syms s" and need: "need_syms ?s = need_syms s"
    by (auto simp: invalid_syms_def need_syms_def f fl)
  then have "calc_work ?s \<le> calc_work s" by (simp add: calc_work_def card_mono)
  moreover have "vals_ok ?s" using assms const_tri_heap[OF assms(5)] unfolding vals_ok_def f fl cu
    by (auto simp: calc_ready_def vals_ok_def is_str_def)
  ultimately show ?thesis using assms(1) fr f(1) need fl
    by (simp add: calc_done_def calc_post_def calc_ready_def)
qed

lemma set_valid_go:
  assumes "calc_ready t" "y \<in> sym_univ t" "logic_sym t y \<or> stringy_sym t y"
    and "calc_work t < fuel \<or> \<not> has_flag SYMBOL_VALID y t \<and> calc_work t < Suc fuel"
  shows "calc_post t (set_flag SYMBOL_VALID y t) \<and> go (set_flag SYMBOL_VALID y t)"
proof (cases "has_flag SYMBOL_VALID y t")
  case True
  then have "set_flag SYMBOL_VALID y t = t"
    by (auto simp: set_flag_def upd_sym_def has_flag_def insert_absorb intro!: kconf.equality)
  then show ?thesis using assms True by (simp add: go_def)
next
  case False
  from set_valid_post[OF assms(1,2) False assms(3)] assms(4) show ?thesis
    by (auto simp: go_def dest: calc_postD(1))
qed

lemma body_done:
  assumes "calc_ready s" "y \<in> sym_univ s" "calc_work s < Suc fuel"
  shows "\<exists>s'. sym_calc_body calc y s = Some s' \<and> calc_done s y s'"
proof (cases "has_flag SYMBOL_VALID y s")
  case True
  then show ?thesis using assms(1) by (simp add: sym_calc_body_def calc_done_def)
next
  case False
  obtain t where t: "calc_choice_first calc y s = Some t" "calc_post s t"
    "has_flag SYMBOL_NEED_SET_CHOICE_VALUES y t \<Longrightarrow> sym_is_choice t y" "calc_work t < fuel \<or> t = s"
    by (rule choice_first_ends[OF assms]) blast+
  note f = frame_eqD[OF calc_postD(2)[OF t(2)]]
  have rt: "calc_ready t" "y \<in> sym_univ t" using calc_postD(1)[OF t(2)] assms(2) by (simp_all only: f)
  show ?thesis
  proof (cases "logic_sym t y \<or> stringy_sym t y")
    case True
    let ?t = "set_flag SYMBOL_VALID y t"
    have w: "calc_work t < fuel \<or> \<not> has_flag SYMBOL_VALID y t \<and> calc_work t < Suc fuel"
      using t(4) False assms(3) by auto
    have v: "calc_post t ?t" "go ?t" using set_valid_go[OF rt True w] by auto
    note fv = frame_eqD[OF calc_postD(2)[OF v(1)]]
    have yv: "y \<in> sym_univ ?t" "logic_sym ?t y \<or> stringy_sym ?t y" using rt(2) True by (simp_all only: fv)
    have "symbol_empty \<in> sym_univ ?t" "\<not> logic_sym ?t symbol_empty" "has_flag SYMBOL_VALID symbol_empty ?t"
      using go_ready[OF v(2)] by (auto simp: calc_ready_def conf_wf_def vals_ok_def sym_univ_def)
    then have e: "is_str (sv_val (sym_curr (symtab ?t symbol_empty)))"
      using readyD(3) go_ready[OF v(2)] by blast
    have n: "has_flag SYMBOL_NEED_SET_CHOICE_VALUES y ?t \<Longrightarrow> sym_is_choice ?t y"
      using t(3) by (simp add: has_flag_def set_flag_def sym_is_choice_def split: if_splits)
    let ?new = "if stringy_sym ?t y then sym_curr (symtab ?t symbol_empty) else sym_curr (symtab ?t symbol_no)"
    have c: "sv_tri ?new = tno" using go_ready[OF v(2)] by (auto simp: calc_ready_def vals_ok_def)
    obtain u where u: "sym_calc_typed calc y (sym_curr (symtab ?t y)) ?new ?t = Some u" "calc_post ?t u"
      using typed_ends[OF v(2) yv _ c n, of "sym_curr (symtab ?t y)"] e by (auto simp: ends_def)
    have su: "calc_post s u" using calc_post_trans[OF calc_post_trans[OF t(2) v(1)] u(2)] .
    have "has_flag SYMBOL_VALID y ?t" by (simp add: has_flag_def set_flag_def)
    then have "has_flag SYMBOL_VALID y u \<or> y \<in> need_syms ?t - need_syms u"
      using u(2) yv(1) unfolding calc_post_def by blast
    moreover have "need_syms ?t \<subseteq> need_syms s"
      using calc_post_trans[OF t(2) v(1)] unfolding calc_post_def by blast
    ultimately have vn: "has_flag SYMBOL_VALID y u \<or> y \<in> need_syms s - need_syms u" by blast
    have "\<not> logic_sym s y \<longrightarrow> has_flag SYMBOL_VALID y u"
    proof
      assume "\<not> logic_sym s y"
      then have "\<not> logic_sym ?t y" by (simp only: f fv not_False_eq_True)
      moreover have "has_flag SYMBOL_VALID y ?t" by (simp add: has_flag_def set_flag_def)
      ultimately show "has_flag SYMBOL_VALID y u" using u(2) yv(1) unfolding calc_post_def by blast
    qed
    moreover have "sym_calc_body calc y s = Some u"
      using False t(1) u(1) yv(2) by (auto simp: sym_calc_body_def Let_def)
    ultimately show ?thesis using su vn by (simp add: calc_done_def)
  next
    case other: False
    then obtain n where n: "sym_name (symtab t y) = Some n"
      using sym_wfD(9)[OF readyD(1)[OF rt]] by auto
    let ?u = "sym_set_curr y \<lparr>sv_val = VStr n, sv_tri = tno\<rparr> (set_flag SYMBOL_VALID y t)"
    have "y \<notin> {symbol_yes, symbol_mod, symbol_no, symbol_empty}"
      using False assms(1) unfolding calc_ready_def vals_ok_def by blast
    then have d: "calc_done t y ?u" using named_post[OF rt _ _ _ n] other by blast
    have "sym_calc_body calc y s = Some ?u"
      using False t(1) n other by (simp add: sym_calc_body_def Let_def set_flag_def)
    moreover have "need_syms t \<subseteq> need_syms s" using t(2) unfolding calc_post_def by blast
    then have "calc_done s y ?u"
      using d calc_post_trans[OF t(2)] by (simp only: calc_done_def f) blast
    ultimately show ?thesis by blast
  qed
qed

end

lemma calc_total_sym_calc_value: "calc_total (sym_calc_value n) n"
proof (induction n)
  case 0
  then show ?case by unfold_locales simp
next
  case (Suc n)
  then show ?case using calc_total.body_done[OF Suc.IH] by unfold_locales simp
qed

end
