(* ===== verification/Symbol_Set.thy ===== *)
theory Symbol_Set
  imports Symbol_Tab
begin

text \<open>
  Setting values (\<open>adk/config/symbol.c\<close>): the ranges of tristate, integer and string symbols,
  the setters that guard them, the defaults, and the change counter of \<open>confdata.c\<close>. The
  functions take the value computation as the argument \<open>calc\<close>, as in \<open>Symbol_Value\<close>.
\<close>

subsection \<open>The change counter\<close>

text \<open>\<open>sym_change_count\<close> is an \<open>int\<close>; \<open>kcallbacks\<close> counts the calls of the callback.\<close>

definition sym_set_change_count :: "int \<Rightarrow> kconf \<Rightarrow> kconf" where
  "sym_set_change_count count s =
     (let old = sym_change_count s;
          s = s\<lparr>sym_change_count := count\<rparr>
      in if (old \<noteq> 0) \<noteq> (count \<noteq> 0) then s\<lparr>kcallbacks := Suc (kcallbacks s)\<rparr> else s)"

definition sym_add_change_count :: "int \<Rightarrow> kconf \<Rightarrow> kconf" where
  "sym_add_change_count count s = sym_set_change_count (count + sym_change_count s) s"

definition conf_get_changed :: "kconf \<Rightarrow> bool" where
  "conf_get_changed s \<longleftrightarrow> sym_change_count s \<noteq> 0"

definition sym_clear_all_valid :: "calc_fun \<Rightarrow> kconf \<Rightarrow> kconf option" where
  "sym_clear_all_valid calc s =
     (let s = fold (clear_flag SYMBOL_VALID) (all_symbols s) s;
          s = sym_add_change_count 1 s
      in calc_opt calc (modules_sym s) s)"

subsection \<open>Tristate values\<close>

text \<open>The lower bound a symbol's selects put on it.\<close>

definition sel_tri :: "kconf \<Rightarrow> symref \<Rightarrow> tristate" where
  "sel_tri s y = fold (\<lambda>v tri. EXPR_OR tri (esv_tri v)) (val_dep (symtab s y))
     (ev_tri (rev_dep (symtab s y)))"

definition sym_tristate_within_range :: "kconf \<Rightarrow> symref \<Rightarrow> tristate \<Rightarrow> bool" where
  "sym_tristate_within_range s y val =
     (let ty = sym_get_type s y; visible = sym_visible (symtab s y); tri = sel_tri s y in
      if visible = tno then False
      else if ty \<noteq> S_BOOLEAN \<and> ty \<noteq> S_TRISTATE then False
      else if ty = S_BOOLEAN \<and> val = tmod then False
      else if visible \<le> tri then False
      else if sym_is_choice_value s y \<and> visible = tyes then val = tyes
      else val \<ge> tri \<and> val \<le> visible)"

text \<open>Choosing a value of a choice: the choice's user value, and the flags of its values.\<close>

definition set_choice_user :: "symref \<Rightarrow> kconf \<Rightarrow> kconf option" where
  "set_choice_user y s = do {
     cs \<leftarrow> choice_of s y;
     let s = set_flag SYMBOL_DEF_USER cs (set_def_val S_DEF_USER cs (VSym y) s);
     vs \<leftarrow> choice_values s cs;
     Some (fold (\<lambda>d s. if sym_visible (symtab s d) \<noteq> tno then set_flag SYMBOL_DEF_USER d s else s)
       vs s) }"

definition set_user_flag :: "symref \<Rightarrow> kconf \<Rightarrow> kconf" where
  "set_user_flag y s =
     (if has_flag SYMBOL_DEF_USER y s then s
      else sym_set_changed y (set_flag SYMBOL_DEF_USER y s))"

definition sym_set_tristate_value ::
  "calc_fun \<Rightarrow> symref \<Rightarrow> tristate \<Rightarrow> kconf \<Rightarrow> (bool \<times> kconf) option" where
  "sym_set_tristate_value calc y val s =
     (let oldval = sym_get_tristate_value s y in
      if oldval \<noteq> val \<and> \<not> sym_tristate_within_range s y val then Some (False, s)
      else do {
        let s = set_user_flag y s;
        s \<leftarrow> (if sym_is_choice_value s y \<and> val = tyes then set_choice_user y s else Some s);
        let s = set_def_tri S_DEF_USER y val s;
        s \<leftarrow> (if oldval \<noteq> val then sym_clear_all_valid calc s else Some s);
        Some (True, s) })"

primrec toggle_next :: "tristate \<Rightarrow> tristate" where
  "toggle_next tno = tmod"
| "toggle_next tmod = tyes"
| "toggle_next tyes = tno"

text \<open>The \<open>do ... while\<close> of \<open>sym_toggle_tristate_value\<close>: at most three rounds.\<close>

fun toggle_loop ::
  "calc_fun \<Rightarrow> nat \<Rightarrow> symref \<Rightarrow> tristate \<Rightarrow> tristate \<Rightarrow> kconf \<Rightarrow> (tristate \<times> kconf) option" where
  "toggle_loop calc 0 y oldval newval s = None"
| "toggle_loop calc (Suc n) y oldval newval s = do {
     let newval = toggle_next newval;
     (ok, s) \<leftarrow> sym_set_tristate_value calc y newval s;
     if ok \<or> oldval = newval then Some (newval, s)
     else toggle_loop calc n y oldval newval s }"

definition sym_toggle_tristate_value ::
  "calc_fun \<Rightarrow> symref \<Rightarrow> kconf \<Rightarrow> (tristate \<times> kconf) option" where
  "sym_toggle_tristate_value calc y s =
     toggle_loop calc 3 y (sym_get_tristate_value s y) (sym_get_tristate_value s y) s"

subsection \<open>String values\<close>

definition int_string_valid :: "string \<Rightarrow> bool" where
  "int_string_valid str =
     (let t = (if char_at str 0 = CHR ''-'' then drop 1 str else str) in
      case t of [] \<Rightarrow> False
      | ch # rest \<Rightarrow> isdigit ch \<and> \<not> (ch = CHR ''0'' \<and> rest \<noteq> []) \<and> (\<forall>c \<in> set rest. isdigit c))"

definition hex_string_valid :: "string \<Rightarrow> bool" where
  "hex_string_valid str =
     (let t = (if char_at str 0 = CHR ''0'' \<and> (char_at str 1 = CHR ''x'' \<or> char_at str 1 = CHR ''X'')
               then drop 2 str else str) in
      case t of [] \<Rightarrow> False | ch # rest \<Rightarrow> isxdigit ch \<and> (\<forall>c \<in> set rest. isxdigit c))"

text \<open>The answer letters, either case.\<close>

definition tri_of_char :: "char \<Rightarrow> tristate option" where
  "tri_of_char c =
     (if c = CHR ''y'' \<or> c = CHR ''Y'' then Some tyes
      else if c = CHR ''m'' \<or> c = CHR ''M'' then Some tmod
      else if c = CHR ''n'' \<or> c = CHR ''N'' then Some tno else None)"

definition sym_string_valid :: "kconf \<Rightarrow> symref \<Rightarrow> string \<Rightarrow> bool" where
  "sym_string_valid s y str = (case sym_type (symtab s y) of
     S_STRING \<Rightarrow> True
   | S_INT \<Rightarrow> int_string_valid str
   | S_HEX \<Rightarrow> hex_string_valid str
   | S_BOOLEAN \<Rightarrow> tri_of_char (char_at str 0) \<noteq> None
   | S_TRISTATE \<Rightarrow> tri_of_char (char_at str 0) \<noteq> None
   | _ \<Rightarrow> False)"

text \<open>The numeric cases of \<open>sym_string_within_range\<close>, with the base they parse in.\<close>

definition num_within_range ::
  "calc_fun \<Rightarrow> symref \<Rightarrow> nat \<Rightarrow> string \<Rightarrow> kconf \<Rightarrow> (bool \<times> kconf) option" where
  "num_within_range calc y base str s =
     (if \<not> sym_string_valid s y str then Some (False, s)
      else do {
        (p, s) \<leftarrow> sym_get_range_prop calc y s;
        case p of
          None \<Rightarrow> Some (True, s)
        | Some p \<Rightarrow> do {
            let val = strtoll str base;
            (lo, hi) \<leftarrow> range_syms s p;
            (v, s) \<leftarrow> sym_get_range_val calc lo base s;
            if \<not> val \<ge> v then Some (False, s)
            else do {
              (v, s) \<leftarrow> sym_get_range_val calc hi base s;
              Some (val \<le> v, s) }}})"

definition sym_string_within_range ::
  "calc_fun \<Rightarrow> symref \<Rightarrow> string \<Rightarrow> kconf \<Rightarrow> (bool \<times> kconf) option" where
  "sym_string_within_range calc y str s = (case sym_type (symtab s y) of
     S_STRING \<Rightarrow> Some (sym_string_valid s y str, s)
   | S_INT \<Rightarrow> num_within_range calc y 10 str s
   | S_HEX \<Rightarrow> num_within_range calc y 16 str s
   | S_BOOLEAN \<Rightarrow> Some (case tri_of_char (char_at str 0) of
       Some t \<Rightarrow> sym_tristate_within_range s y t | None \<Rightarrow> False, s)
   | S_TRISTATE \<Rightarrow> Some (case tri_of_char (char_at str 0) of
       Some t \<Rightarrow> sym_tristate_within_range s y t | None \<Rightarrow> False, s)
   | _ \<Rightarrow> Some (False, s))"

text \<open>Whether a hexadecimal string lacks its prefix.\<close>

definition lacks_hex_prefix :: "string \<Rightarrow> bool" where
  "lacks_hex_prefix str \<longleftrightarrow> char_at str 0 \<noteq> CHR ''0''
     \<or> (char_at str 1 \<noteq> CHR ''x'' \<and> char_at str 1 \<noteq> CHR ''X'')"

definition sym_set_string_value ::
  "calc_fun \<Rightarrow> symref \<Rightarrow> string \<Rightarrow> kconf \<Rightarrow> (bool \<times> kconf) option" where
  "sym_set_string_value calc y newval s =
     (if sym_type (symtab s y) = S_BOOLEAN \<or> sym_type (symtab s y) = S_TRISTATE then
        (case tri_of_char (char_at newval 0) of
           Some t \<Rightarrow> sym_set_tristate_value calc y t s
         | None \<Rightarrow> Some (False, s))
      else do {
        (ok, s) \<leftarrow> sym_string_within_range calc y newval s;
        if \<not> ok then Some (False, s)
        else do {
          let s = set_user_flag y s;
          let oldval = sv_val (sym_def (symtab s y) S_DEF_USER);
          if sym_type (symtab s y) = S_HEX \<and> lacks_hex_prefix newval then do {
            s \<leftarrow> sym_clear_all_valid calc (set_def_val S_DEF_USER y (VStr (''0x'' @ newval)) s);
            Some (True, s) }
          else if oldval \<noteq> VStr newval then do {
            s \<leftarrow> sym_clear_all_valid calc (set_def_val S_DEF_USER y (VStr newval) s);
            Some (True, s) }
          else Some (True, s) }})"

subsection \<open>Defaults and changeability\<close>

definition sym_default_parts ::
  "calc_fun \<Rightarrow> symref \<Rightarrow> kconf \<Rightarrow> ((tristate \<times> symval) \<times> kconf) option" where
  "sym_default_parts calc y s = do {
     let val = sym_get_tristate_value s symbol_no;
     let str = sv_val (sym_curr (symtab s symbol_empty));
     (p, s) \<leftarrow> sym_get_default_prop calc y s;
     case p of
       None \<Rightarrow> Some ((val, str), s)
     | Some p \<Rightarrow>
        if sym_type (symtab s y) = S_BOOLEAN \<or> sym_type (symtab s y) = S_TRISTATE then do {
          (t, s) \<leftarrow> expr_calc_value calc (prop_expr (proptab s p)) s;
          Some ((EXPR_AND t (ev_tri (prop_visible (proptab s p))), str), s) }
        else do {
          ds \<leftarrow> prop_get_symbol (proptab s p);
          case ds of
            None \<Rightarrow> Some ((val, str), s)
          | Some ds \<Rightarrow> do {
              s \<leftarrow> calc ds s;
              Some ((val, sv_val (sym_curr (symtab s ds))), s) }}}"

definition sym_get_string_default ::
  "calc_fun \<Rightarrow> symref \<Rightarrow> kconf \<Rightarrow> (symval \<times> kconf) option" where
  "sym_get_string_default calc y s = do {
     s \<leftarrow> sym_calc_visibility calc y s;
     s \<leftarrow> calc_opt calc (modules_sym s) s;
     ((val, str), s) \<leftarrow> sym_default_parts calc y s;
     let val = EXPR_OR val (ev_tri (rev_dep (symtab s y)));
     val \<leftarrow> (if val = tmod \<and> \<not> sym_is_choice_value s y then do {
               m \<leftarrow> modules_sym s;
               Some (if sym_get_tristate_value s m = tno then tyes else val) }
             else Some val);
     let val = (if sym_type (symtab s y) = S_BOOLEAN \<and> val = tmod then tyes else val);
     Some (case sym_type (symtab s y) of
         S_BOOLEAN \<Rightarrow> VStr (tri_string val) | S_TRISTATE \<Rightarrow> VStr (tri_string val)
       | S_INT \<Rightarrow> str | S_HEX \<Rightarrow> str | S_STRING \<Rightarrow> str
       | _ \<Rightarrow> VStr [], s) }"

definition sym_is_changable :: "kconf \<Rightarrow> symref \<Rightarrow> bool" where
  "sym_is_changable s y \<longleftrightarrow> sym_visible (symtab s y) > sel_tri s y"

end
