(* ===== verification/Symbol_Numbers.thy ===== *)
theory Symbol_Numbers
  imports Symbol_Set
begin

text \<open>
  Numbers as strings: what \<open>strtoll\<close> reads back from the formats \<open>%lld\<close> and \<open>0x%llx\<close>, and what
  the validity test of integer strings guarantees.
\<close>

subsection \<open>Digits\<close>

lemma digit_chars:
  "map digit_char [0, 1, 2, 3, 4, 5, 6, 7, 8, 9, 10, 11, 12, 13, 14, 15] = ''0123456789abcdef''"
  by (simp add: digit_char_def char_of_def bit_0)

lemma digit_char_nth: "d < 16 \<Longrightarrow> digit_char d = ''0123456789abcdef'' ! d"
  unfolding digit_chars[symmetric]
  by (subst nth_map) (auto simp: less_Suc_eq eval_nat_numeral)

lemma digit_char:
  assumes "d < 16"
  shows "digit_val (digit_char d) = d" "\<not> isspace (digit_char d)" "digit_char d \<noteq> CHR ''-''"
    "digit_char d \<noteq> CHR ''+''" "isxdigit (digit_char d)" "digit_char d \<noteq> CHR ''x''" "digit_char d \<noteq> CHR ''X''"
    "isdigit (digit_char d) = (d < 10)" "digit_char d = CHR ''0'' \<longleftrightarrow> d = 0"
proof -
  have "d \<in> {0, 1, 2, 3, 4, 5, 6, 7, 8, 9, 10, 11, 12, 13, 14, 15}"
    using assms unfolding insert_iff empty_iff by presburger
  then show "digit_val (digit_char d) = d" "\<not> isspace (digit_char d)" "digit_char d \<noteq> CHR ''-''"
    "digit_char d \<noteq> CHR ''+''" "isxdigit (digit_char d)" "digit_char d \<noteq> CHR ''x''" "digit_char d \<noteq> CHR ''X''"
    "isdigit (digit_char d) = (d < 10)" "digit_char d = CHR ''0'' \<longleftrightarrow> d = 0"
    unfolding digit_char_nth[OF assms]
    by (elim insertE emptyE;
      simp add: digit_val_def isdigit_def isxdigit_def isspace_def in_range_def eval_nat_numeral)+
qed

lemma show_nat_digits:
  assumes "2 \<le> base" "base \<le> 16"
  shows "\<forall>c \<in> set (show_nat base n). \<exists>d < base. c = digit_char d"
proof (induction n rule: less_induct)
  case (less n)
  show ?case
  proof (cases "n < base")
    case True
    then show ?thesis by (auto simp: show_nat.simps[of base n])
  next
    case False
    have lt: "n div base < n" using False assms by (intro div_less_dividend) auto
    have m: "n mod base < base" using assms by simp
    have "show_nat base n = show_nat base (n div base) @ [digit_char (n mod base)]"
      using False assms by (simp add: show_nat.simps[of base n])
    then show ?thesis using less[OF lt] m by auto
  qed
qed

lemma show_nat_nonempty [simp]: "show_nat base n \<noteq> []"
  by (simp add: show_nat.simps[of base n])

subsection \<open>Parsing\<close>

lemma parse_append:
  "\<forall>c \<in> set xs. digit_val c < base \<Longrightarrow>
   parse_digits base acc (xs @ ys) = parse_digits base (parse_digits base acc xs) ys"
  by (induction xs arbitrary: acc) auto

lemma parse_show:
  assumes "2 \<le> base" "base \<le> 16"
  shows "parse_digits base 0 (show_nat base n) = int n"
proof (induction n rule: less_induct)
  case (less n)
  show ?case
  proof (cases "n < base")
    case True
    then show ?thesis using assms digit_char(1)[of n] by (simp add: show_nat.simps[of base n])
  next
    case False
    have "n div base < n" using False assms by (intro div_less_dividend) auto
    have v: "\<forall>c \<in> set (show_nat base (n div base)). digit_val c < base"
      using show_nat_digits[OF assms, of "n div base"] digit_char(1) assms by fastforce
    have m: "n mod base < base" using assms by simp
    have "parse_digits base 0 (show_nat base n)
        = int (n div base) * int base + int (digit_val (digit_char (n mod base)))"
      using False assms less[OF \<open>n div base < n\<close>] digit_char(1)[of "n mod base"] m
      by (simp add: show_nat.simps[of base n] parse_append[OF v])
    also have "\<dots> = int (n div base * base + (n mod base))"
      using digit_char(1)[of "n mod base"] m assms by (simp only: of_nat_add of_nat_mult)
    also have "\<dots> = int n" by (simp only: div_mult_mod_eq)
    finally show ?thesis .
  qed
qed

lemma show_nat_Cons:
  assumes "2 \<le> base" "base \<le> 16"
  obtains d cs where "show_nat base n = digit_char d # cs" "d < base"
  using show_nat_digits[OF assms, of n] by (cases "show_nat base n") auto

lemma strtoll_show_nat:
  assumes "int n \<le> LLONG_MAX"
  shows "strtoll (show_nat 10 n) 10 = int n"
proof -
  obtain d cs where d: "show_nat 10 n = digit_char d # cs" "d < 10" by (rule show_nat_Cons[of 10]) auto
  have "strtoll (show_nat 10 n) 10 = max LLONG_MIN (min LLONG_MAX (parse_digits 10 0 (show_nat 10 n)))"
    using digit_char[of d] d by (simp add: strtoll_def Let_def char_at_def)
  then show ?thesis using assms by (simp add: parse_show LLONG_MIN_def)
qed

lemma strtoll_show_lld:
  assumes "LLONG_MIN \<le> v" "v \<le> LLONG_MAX"
  shows "strtoll (show_lld v) 10 = v"
proof (cases "v < 0")
  case True
  have "strtoll (show_lld v) 10 = max LLONG_MIN (min LLONG_MAX (- parse_digits 10 0 (show_nat 10 (nat (- v)))))"
    using True by (simp add: strtoll_def show_lld_def Let_def char_at_def isspace_def in_range_def)
  then show ?thesis using True assms by (simp add: parse_show)
next
  case False
  then show ?thesis using strtoll_show_nat[of "nat v"] assms by (simp add: show_lld_def)
qed

lemma strtoll_show_llx:
  assumes "0 \<le> v" "v \<le> LLONG_MAX"
  shows "strtoll (show_llx v) 16 = v"
proof -
  have m: "v mod 2 ^ 64 = v" using assms by (simp add: LLONG_MAX_def)
  obtain d cs where d: "show_nat 16 (nat v) = digit_char d # cs" "d < 16" by (rule show_nat_Cons[of 16]) auto
  have "strtoll (show_llx v) 16 = max LLONG_MIN (min LLONG_MAX (parse_digits 16 0 (show_nat 16 (nat v))))"
    using digit_char[of d] d m
    by (simp add: strtoll_def show_llx_def Let_def char_at_def isspace_def in_range_def skip_hex_prefix_def)
  then show ?thesis using assms by (simp add: parse_show LLONG_MIN_def)
qed

text \<open>A string that the test of integers accepts is a canonical decimal numeral.\<close>

lemma show_nat_valid: "int_string_valid (show_lld v)"
proof -
  have isd: "\<forall>c \<in> set (show_nat 10 n). isdigit c" for n
    using show_nat_digits[of 10 n] digit_char(8) by fastforce
  have lead: "\<not> (hd (show_nat 10 n) = CHR ''0'' \<and> tl (show_nat 10 n) \<noteq> [])" for n
  proof (induction n rule: less_induct)
    case (less n)
    show ?case
    proof (cases "n < 10")
      case True
      then show ?thesis by (simp add: show_nat.simps[of 10 n])
    next
      case False
      obtain c cs where c: "show_nat 10 (n div 10) = c # cs" by (meson neq_Nil_conv show_nat_nonempty)
      have "c \<noteq> CHR ''0''"
      proof
        assume z: "c = CHR ''0''"
        then have "cs = []" using less[of "n div 10"] False c by auto
        then have "parse_digits 10 0 (show_nat 10 (n div 10)) = 0" using c z
          by (simp add: digit_val_def isdigit_def in_range_def)
        then show False using parse_show[of 10 "n div 10"] False by simp
      qed
      then show ?thesis using False c by (simp add: show_nat.simps[of 10 n])
    qed
  qed
  have nat: "int_string_valid (show_nat 10 n)" for n
  proof -
    obtain d cs where d: "show_nat 10 n = digit_char d # cs" "d < 10" by (rule show_nat_Cons[of 10]) auto
    then show ?thesis using isd[of n] lead[of n] digit_char(3)[of d]
      by (auto simp: int_string_valid_def Let_def char_at_def)
  qed
  show ?thesis
  proof (cases "v < 0")
    case True
    obtain d cs where d: "show_nat 10 (nat (- v)) = digit_char d # cs" "d < 10" by (rule show_nat_Cons[of 10]) auto
    then show ?thesis using True isd[of "nat (- v)"] lead[of "nat (- v)"]
      by (auto simp: int_string_valid_def Let_def char_at_def show_lld_def)
  qed (simp add: show_lld_def nat)
qed

end
