(* ===== verification/Symbol_Deps.thy ===== *)
theory Symbol_Deps
  imports Symbol_Tab
begin

text \<open>
  The check for recursive dependencies (\<open>sym_check_deps\<close> and the functions it calls in
  \<open>adk/config/symbol.c\<close>). The stack of checks that are under way (\<open>check_top\<close>) is a list, its
  top first; a call pushes an entry, fills it in, and pops it, so the functions get the stack
  with their own entry on top. The recursion through \<open>sym_check_deps\<close> is the argument
  \<open>check\<close>, and runs on fuel.
\<close>

record dep_stack =
  ds_sym :: symref
  ds_prop :: "propref option"
  ds_expr :: "expr option"

type_synonym check_fun =
  "symref \<Rightarrow> dep_stack list \<Rightarrow> kconf \<Rightarrow> (symref option \<times> kconf) option"

definition dep_stack_insert :: "dep_stack list \<Rightarrow> symref \<Rightarrow> dep_stack list" where
  "dep_stack_insert st y = \<lparr>ds_sym = y, ds_prop = None, ds_expr = None\<rparr> # st"

subsection \<open>The report of a recursion\<close>

definition sym_label :: "kconf \<Rightarrow> symref \<Rightarrow> string" where
  "sym_label s y = (case sym_name (symtab s y) of None \<Rightarrow> ''<choice>'' | Some n \<Rightarrow> n)"

definition prop_place :: "kconf \<Rightarrow> propref \<Rightarrow> string option" where
  "prop_place s p = do {
     file \<leftarrow> prop_file (proptab s p);
     Some (file @ '':'' @ show_nat 10 (prop_lineno (proptab s p)) @ '':'') }"

definition menu_place :: "kconf \<Rightarrow> menuref option \<Rightarrow> string option" where
  "menu_place s m = do {
     k \<leftarrow> m;
     file \<leftarrow> menu_file (menutab s k);
     Some (file @ '':'' @ show_nat 10 (menu_lineno (menutab s k)) @ '':'') }"

text \<open>The first property of a symbol that has a menu, and the menu pointer after the search.\<close>

definition menu_prop :: "kconf \<Rightarrow> symref \<Rightarrow> propref option" where
  "menu_prop s y = List.find (\<lambda>p. prop_menu (proptab s p) \<noteq> None) (sym_prop (symtab s y))"

definition last_menu :: "kconf \<Rightarrow> symref \<Rightarrow> menuref option \<Rightarrow> menuref option" where
  "last_menu s y menu = (case menu_prop s y of
     Some p \<Rightarrow> prop_menu (proptab s p)
   | None \<Rightarrow> if sym_prop (symtab s y) = [] then menu else None)"

text \<open>
  The lines for one entry of the stack: \<open>menu\<close> is the variable that lives across the rounds,
  \<open>next_sym\<close> the symbol of the entry above.
\<close>

definition print_entry :: "symref \<Rightarrow> dep_stack \<Rightarrow> symref \<Rightarrow> menuref option \<times> kconf
    \<Rightarrow> (menuref option \<times> kconf) option" where
  "print_entry last_sym d next_sym ms = do {
     let (menu, s) = ms;
     let y = ds_sym d;
     let prop = (case ds_prop d of None \<Rightarrow> first_prop (sym_prop (symtab s y)) | p \<Rightarrow> p);
     let in_choice = (sym_is_choice s y \<or> sym_is_choice_value s y);
     let prop = (if in_choice then menu_prop s y else prop);
     let menu = (if in_choice then last_menu s y menu else menu);
     s \<leftarrow> (if y = last_sym then do {
            p \<leftarrow> prop;
            place \<leftarrow> prop_place s p;
            Some (kwarn (place @ ''error: recursive dependency detected!'') s) }
          else Some s);
     let names = (\<lambda>verb. '' '' @ sym_label s y @ verb @ sym_label s next_sym);
     msg \<leftarrow> (if ds_expr d \<noteq> None then do {
              p \<leftarrow> prop;
              place \<leftarrow> prop_place s p;
              Some (place @ CHR 0x09 # ''symbol'' @ names ('' '' @ prop_get_type_name (prop_type (proptab s p))
                      @ '' value contains '')) }
            else if ds_prop d \<noteq> None then do {
              p \<leftarrow> prop;
              place \<leftarrow> prop_place s p;
              Some (place @ CHR 0x09 # ''symbol'' @ names '' depends on '') }
            else if sym_is_choice s y then do {
              place \<leftarrow> menu_place s menu;
              Some (place @ CHR 0x09 # ''choice'' @ names '' contains symbol '') }
            else if sym_is_choice_value s y then do {
              place \<leftarrow> menu_place s menu;
              Some (place @ CHR 0x09 # ''symbol'' @ names '' is part of choice '') }
            else do {
              p \<leftarrow> prop;
              place \<leftarrow> prop_place s p;
              Some (place @ CHR 0x09 # ''symbol'' @ names '' is selected by '') });
     Some (menu, kwarn msg s) }"

text \<open>The entries from the one of \<open>last_sym\<close> up to the top.\<close>

fun print_entries :: "symref \<Rightarrow> dep_stack list \<Rightarrow> menuref option \<times> kconf
    \<Rightarrow> (menuref option \<times> kconf) option" where
  "print_entries last_sym [] ms = Some ms"
| "print_entries last_sym (d # ds) ms = do {
     ms \<leftarrow> print_entry last_sym d (case ds of [] \<Rightarrow> last_sym | e # _ \<Rightarrow> ds_sym e) ms;
     print_entries last_sym ds ms }"

definition sym_check_print_recursive :: "symref \<Rightarrow> dep_stack list \<Rightarrow> kconf \<Rightarrow> kconf option" where
  "sym_check_print_recursive last_sym st s = do {
     (last_sym, st) \<leftarrow> (if sym_is_choice_value s last_sym then do {
         c \<leftarrow> choice_of s last_sym;
         Some (c, dep_stack_insert st last_sym) }
       else Some (last_sym, st));
     if last_sym \<notin> ds_sym ` set st
     then Some (kwarn ''unexpected recursive dependency error'' s)
     else do {
       let upper = takeWhile (\<lambda>d. ds_sym d \<noteq> last_sym) st;
       let entries = rev (take (Suc (length upper)) st);
       (menu, s) \<leftarrow> print_entries last_sym entries (None, s);
       Some s }}"

subsection \<open>The walk over the dependencies\<close>

text \<open>The report (on standard output) of an expression that is no condition, by its type number.\<close>

definition oops_message :: "nat \<Rightarrow> string" where
  "oops_message n = ''Oops! How to check '' @ show_nat 10 n @ ''?''"

primrec sym_check_node ::
  "check_fun \<Rightarrow> dep_stack list \<Rightarrow> expr \<Rightarrow> kconf \<Rightarrow> (symref option \<times> kconf) option" where
  "sym_check_node check st (EOr l r) s = do {
     (y, s) \<leftarrow> sym_check_node check st l s;
     if y \<noteq> None then Some (y, s) else sym_check_node check st r s }"
| "sym_check_node check st (EAnd l r) s = do {
     (y, s) \<leftarrow> sym_check_node check st l s;
     if y \<noteq> None then Some (y, s) else sym_check_node check st r s }"
| "sym_check_node check st (ENot l) s = sym_check_node check st l s"
| "sym_check_node check st (EEqual a b) s = do {
     (y, s) \<leftarrow> check a st s;
     if y \<noteq> None then Some (y, s) else check b st s }"
| "sym_check_node check st (EUnequal a b) s = do {
     (y, s) \<leftarrow> check a st s;
     if y \<noteq> None then Some (y, s) else check b st s }"
| "sym_check_node check st (ESymbol a) s = check a st s"
| "sym_check_node check st (EList l y) s = Some (None, kwarn (oops_message 6) s)"
| "sym_check_node check st (ERange a b) s = Some (None, kwarn (oops_message 8) s)"
| "sym_check_node check st ENone s = Some (None, kwarn (oops_message 0) s)"

definition sym_check_expr_deps ::
  "check_fun \<Rightarrow> dep_stack list \<Rightarrow> expr option \<Rightarrow> kconf \<Rightarrow> (symref option \<times> kconf) option" where
  "sym_check_expr_deps check st e s =
     (case e of None \<Rightarrow> Some (None, s) | Some x \<Rightarrow> sym_check_node check st x s)"

text \<open>The loop over the properties of a symbol, with its entry \<open>d\<close> on the stack.\<close>

fun check_props :: "check_fun \<Rightarrow> dep_stack \<Rightarrow> dep_stack list \<Rightarrow> propref list \<Rightarrow> kconf
    \<Rightarrow> (symref option \<times> kconf) option" where
  "check_props check d st [] s = Some (None, s)"
| "check_props check d st (p # ps) s =
     (if prop_type (proptab s p) = P_CHOICE \<or> prop_type (proptab s p) = P_SELECT
      then check_props check d st ps s
      else do {
        let d = d\<lparr>ds_prop := Some p\<rparr>;
        (y, s) \<leftarrow> sym_check_expr_deps check (d # st) (ev_expr (prop_visible (proptab s p))) s;
        if y \<noteq> None then Some (y, s)
        else if prop_type (proptab s p) \<noteq> P_DEFAULT \<or> sym_is_choice s (ds_sym d)
        then check_props check d st ps s
        else do {
          (y, s) \<leftarrow> sym_check_expr_deps check (d\<lparr>ds_expr := prop_expr (proptab s p)\<rparr> # st)
            (prop_expr (proptab s p)) s;
          if y \<noteq> None then Some (y, s) else check_props check (d\<lparr>ds_expr := None\<rparr>) st ps s }})"

definition sym_check_sym_deps ::
  "check_fun \<Rightarrow> symref \<Rightarrow> dep_stack list \<Rightarrow> kconf \<Rightarrow> (symref option \<times> kconf) option" where
  "sym_check_sym_deps check y st s = do {
     let d = \<lparr>ds_sym = y, ds_prop = None, ds_expr = None\<rparr>;
     (sym2, s) \<leftarrow> sym_check_expr_deps check (d # st) (ev_expr (rev_dep (symtab s y))) s;
     if sym2 \<noteq> None then Some (sym2, s)
     else check_props check d st (sym_prop (symtab s y)) s }"

fun check_values :: "check_fun \<Rightarrow> dep_stack list \<Rightarrow> symref list \<Rightarrow> kconf
    \<Rightarrow> (symref option \<times> kconf) option" where
  "check_values check st [] s = Some (None, s)"
| "check_values check st (v # vs) s = do {
     (sym2, s) \<leftarrow> sym_check_sym_deps check v st s;
     if sym2 \<noteq> None then Some (sym2, s) else check_values check st vs s }"

definition mark_check :: "symref \<Rightarrow> kconf \<Rightarrow> kconf" where
  "mark_check y s = set_flag SYMBOL_CHECK y (set_flag SYMBOL_CHECKED y s)"

text \<open>A recursion that comes back to a value of the choice is one of the choice.\<close>

definition choice_result :: "kconf \<Rightarrow> symref \<Rightarrow> symref option \<Rightarrow> symref option option" where
  "choice_result s choice sym2 = (case sym2 of
     None \<Rightarrow> Some None
   | Some z \<Rightarrow>
      if sym_is_choice_value s z then do {
        p \<leftarrow> sym_get_choice_prop s z;
        c \<leftarrow> prop_get_symbol (proptab s p);
        Some (if c = Some choice then Some choice else sym2) }
      else Some sym2)"

definition sym_check_choice_deps ::
  "check_fun \<Rightarrow> symref \<Rightarrow> dep_stack list \<Rightarrow> kconf \<Rightarrow> (symref option \<times> kconf) option" where
  "sym_check_choice_deps check choice st s = do {
     let st = dep_stack_insert st choice;
     vs \<leftarrow> choice_values s choice;
     let s = fold mark_check vs s;
     let s = mark_check choice s;
     (sym2, s) \<leftarrow> sym_check_sym_deps check choice st s;
     let s = clear_flag SYMBOL_CHECK choice s;
     (sym2, s) \<leftarrow> (if sym2 \<noteq> None then Some (sym2, s) else check_values check st vs s);
     let s = fold (clear_flag SYMBOL_CHECK) vs s;
     sym2 \<leftarrow> choice_result s choice sym2;
     Some (sym2, s) }"

definition sym_check_body :: "check_fun \<Rightarrow> check_fun" where
  "sym_check_body check y st s =
     (if has_flag SYMBOL_CHECK y s then do {
        s \<leftarrow> sym_check_print_recursive y st s;
        Some (Some y, s) }
      else if has_flag SYMBOL_CHECKED y s then Some (None, s)
      else do {
        (sym2, s) \<leftarrow>
          (if sym_is_choice_value s y then do {
             c \<leftarrow> choice_of s y;
             check c (dep_stack_insert st y) s }
           else if sym_is_choice s y then sym_check_choice_deps check y st s
           else do {
             (sym2, s) \<leftarrow> sym_check_sym_deps check y st (mark_check y s);
             Some (sym2, clear_flag SYMBOL_CHECK y s) });
        Some (if sym2 = Some y then None else sym2, s) })"

primrec sym_check_deps :: "nat \<Rightarrow> check_fun" where
  "sym_check_deps 0 = (\<lambda>y st s. None)"
| "sym_check_deps (Suc n) = sym_check_body (sym_check_deps n)"

text \<open>
  Fuel: a call either stops at once, marks a symbol that was not marked, or goes from a value
  to its choice, which marks both.
\<close>

definition check_fuel :: "kconf \<Rightarrow> nat" where
  "check_fuel s = 2 * (nsyms s + 4) + 2"

end
