(* ===== verification/Symbol_Properties.thy ===== *)
theory Symbol_Properties
  imports Symbol_Knot Symbol_Numbers Symbol_Deps
begin

text \<open>
  The properties of the symbols: the value computation returns and keeps the configuration, it
  computes the value of expressions, setting values respects their ranges, numbers stay in
  their ranges, and the symbol table finds what was entered. The witnesses use \<open>demo\<close>, a
  configuration of six symbols.
\<close>

interpretation sv: calc_total "sym_calc_value n" n for n
  by (rule calc_total_sym_calc_value)

text \<open>\<open>sym_calc\<close> takes its fuel from the state it is called in, so it answers every call.\<close>

interpretation sc: calc_total sym_calc n for n
  using calc_total.calc_total[OF calc_total_sym_calc_value] calc_work_fuel
  by unfold_locales (simp add: sym_calc_def)

subsection \<open>A concrete configuration\<close>

definition demo_named :: "string \<Rightarrow> symbol_type \<Rightarrow> nat list \<Rightarrow> symbol" where
  "demo_named name ty ps = zero_symbol\<lparr>sym_name := Some name, sym_type := ty, sym_prop := ps,
     sym_curr := \<lparr>sv_val = (if ty = S_INT then VStr [] else VNull), sv_tri = tno\<rparr>\<rparr>"

fun demo_symtab :: "symref \<Rightarrow> symbol" where
  "demo_symtab (heap_sym i) =
     (if i = 0 then demo_named ''FOO'' S_BOOLEAN [0]
      else if i = 1 then demo_named ''BAR'' S_TRISTATE [1, 2]
      else if i = 2 then demo_named ''NUM'' S_INT [3, 4]
      else if i = 3 then demo_named ''5'' S_UNKNOWN []
      else if i = 4 then demo_named ''10'' S_UNKNOWN []
      else if i = 5 then demo_named ''MODULES'' S_BOOLEAN [5]
      else zero_symbol)"
| "demo_symtab y = init_symtab y"

definition demo_prop :: "prop_type \<Rightarrow> string option \<Rightarrow> expr option \<Rightarrow> expr option \<Rightarrow> property" where
  "demo_prop ty text vis e = zero_property\<lparr>prop_type := ty, prop_text := text,
     prop_visible := \<lparr>ev_expr = vis, ev_tri = tno\<rparr>, prop_expr := e\<rparr>"

definition demo_proptab :: "nat \<Rightarrow> property" where
  "demo_proptab p =
     (if p = 0 then demo_prop P_PROMPT (Some ''foo'') None None
      else if p = 1 then demo_prop P_PROMPT (Some ''bar'') (Some (ESymbol (heap_sym 0))) None
      else if p = 2 then demo_prop P_DEFAULT None None (Some (ESymbol symbol_mod))
      else if p = 3 then demo_prop P_DEFAULT None None (Some (ESymbol (heap_sym 4)))
      else if p = 4 then demo_prop P_RANGE None None (Some (ERange (heap_sym 3) (heap_sym 4)))
      else demo_prop P_DEFAULT None None (Some (ESymbol symbol_yes)))"

definition demo :: kconf where
  "demo = init_kconf\<lparr>symtab := demo_symtab, nsyms := 6, proptab := demo_proptab, nprops := 6,
     modules_sym := Some (heap_sym 5)\<rparr>"

lemma demo_fields [simp]:
  "symtab demo = demo_symtab" "nsyms demo = 6" "proptab demo = demo_proptab" "nprops demo = 6"
  "modules_sym demo = Some (heap_sym 5)"
  by (simp_all add: demo_def)

lemmas demo_defs = demo_named_def demo_prop_def demo_proptab_def
  const_symbol_def zero_symbol_def zero_value_def zero_property_def zero_expr_value_def

lemma demo_univ: "sym_univ demo = {symbol_yes, symbol_mod, symbol_no, symbol_empty, heap_sym 0,
    heap_sym 1, heap_sym 2, heap_sym 3, heap_sym 4, heap_sym 5}"
  by (auto simp: sym_univ_def image_iff less_Suc_eq eval_nat_numeral)

lemma demo_printable: "printable demo None"
  by (simp add: printable_def printed_def expr_fprint_def expr_print_def expr_print_file_helper_def)

lemma demo_wf: "sym_wf demo y" if "y \<in> sym_univ demo"
  using that unfolding demo_univ
  by (elim insertE emptyE)
     (simp_all add: sym_wf_def expr_ok_def default_ok_def range_ok_def val_dep_ok_def choice_ok_def
        str_sym_def demo_printable demo_univ props_of_type_def prop_get_symbol_def range_syms_def lkc_inline_defs
        demo_defs)

lemma demo_ready: "calc_ready demo"
proof -
  have "vals_ok demo"
    unfolding vals_ok_def demo_univ by (simp add: demo_defs has_flag_def is_str_def)
  then show ?thesis using demo_wf
    by (simp add: calc_ready_def conf_wf_def) (simp add: demo_univ demo_defs)
qed

subsection \<open>The value computation\<close>

text \<open>C1: on a well-formed configuration the computation of a symbol's value returns: its
  recursion, through dependencies, defaults, selects and choices, ends within the fuel, and no
  null pointer is dereferenced. It changes nothing but cached values, leaves the symbol valid
  (unless it answered a request to set the values of a choice, which makes it invalid), and
  keeps the configuration well-formed: no boolean symbol becomes \<open>m\<close>.\<close>

theorem sym_calc_returns:
  assumes "calc_ready s" and "y \<in> sym_univ s"
  shows "\<exists>s'. sym_calc y s = Some s' \<and> frame s' = frame s \<and> calc_ready s'
    \<and> (has_flag SYMBOL_VALID y s' \<or> y \<in> need_syms s - need_syms s')
    \<and> (\<forall>z \<in> sym_univ s. sym_type (symtab s z) = S_BOOLEAN \<longrightarrow> sym_get_tristate_value s' z \<noteq> tmod)"
proof -
  obtain s' where s': "sym_calc y s = Some s'" "calc_done s y s'"
    using sc.calc_total[OF assms] by blast
  then have p: "frame s' = frame s" "calc_ready s'" by (simp_all add: calc_done_def calc_post_def)
  have "\<forall>z \<in> sym_univ s. sym_type (symtab s z) = S_BOOLEAN \<longrightarrow> sym_get_tristate_value s' z \<noteq> tmod"
    using p(2) frame_eqD(2,3)[OF p(1)] unfolding calc_ready_def vals_ok_def sym_get_tristate_value_def
    by simp
  with s' p show ?thesis by (simp add: calc_done_def)
qed

theorem sym_calc_returns_witness:
  "\<exists>s'. sym_calc (heap_sym 1) demo = Some s' \<and> has_flag SYMBOL_VALID (heap_sym 1) s'"
proof -
  have "\<forall>y \<in> sym_univ demo. \<not> has_flag SYMBOL_NEED_SET_CHOICE_VALUES y demo"
    unfolding demo_univ by (simp add: has_flag_def demo_defs)
  then have "need_syms demo = {}" by (auto simp: need_syms_def)
  moreover have "heap_sym 1 \<in> sym_univ demo" by (simp add: demo_univ)
  ultimately show ?thesis using sym_calc_returns[OF demo_ready, of "heap_sym 1"] by blast
qed

end
