(* ===== verification/Symbol_User.thy ===== *)
theory Symbol_User
  imports Symbol_Knot Symbol_Set
begin

text \<open>
  Changing user values: what the operations that set values, clear the valid marks or load a
  configuration file keep of \<open>calc_ready\<close>. The static part of a configuration (\<open>same_conf\<close>)
  does not change, and the user values stay of the kind the computation expects (\<open>user_ok\<close>).
\<close>

subsection \<open>The static part of a configuration\<close>

definition same_conf :: "kconf \<Rightarrow> kconf \<Rightarrow> bool" where
  "same_conf s s' \<longleftrightarrow> nsyms s' = nsyms s \<and> proptab s' = proptab s \<and> modules_sym s' = modules_sym s
     \<and> (\<forall>y. sym_type (symtab s' y) = sym_type (symtab s y)
          \<and> sym_name (symtab s' y) = sym_name (symtab s y)
          \<and> sym_prop (symtab s' y) = sym_prop (symtab s y)
          \<and> dir_dep (symtab s' y) = dir_dep (symtab s y)
          \<and> rev_dep (symtab s' y) = rev_dep (symtab s y)
          \<and> val_dep (symtab s' y) = val_dep (symtab s y)
          \<and> sym_is_choice s' y = sym_is_choice s y
          \<and> sym_is_choice_value s' y = sym_is_choice_value s y)"

lemma same_conf_refl [simp]: "same_conf s s"
  by (simp add: same_conf_def)

lemma same_conf_trans: "same_conf s t \<Longrightarrow> same_conf t u \<Longrightarrow> same_conf s u"
  by (simp add: same_conf_def)

lemma same_confD:
  assumes "same_conf s s'"
  shows "sym_univ s' = sym_univ s" "sym_type (symtab s' y) = sym_type (symtab s y)"
    "sym_is_choice s' y = sym_is_choice s y" "sym_is_choice_value s' y = sym_is_choice_value s y"
    "choice_values s' y = choice_values s y" "choice_of s' y = choice_of s y"
    "expr_ok s' e = expr_ok s e" "str_sym s' y = str_sym s y" "modules_sym s' = modules_sym s"
    "props_of_type s' y ty = props_of_type s y ty" "sym_name (symtab s' y) = sym_name (symtab s y)"
    "sym_prop (symtab s' y) = sym_prop (symtab s y)" "nsyms s' = nsyms s"
proof -
  note a = assms[unfolded same_conf_def]
  show u: "sym_univ s' = sym_univ s" using a by (simp add: sym_univ_def)
  show p: "props_of_type s' y ty = props_of_type s y ty" for y ty using a by (simp add: props_of_type_def)
  then have c: "sym_get_choice_prop s' y = sym_get_choice_prop s y" for y
    by (simp add: sym_get_choice_prop_def)
  show "choice_values s' y = choice_values s y" "choice_of s' y = choice_of s y"
    using a c by (simp_all add: choice_values_def choice_of_def)
  show "expr_ok s' e = expr_ok s e" using u by (simp add: expr_ok_def split: option.split)
  show "str_sym s' y = str_sym s y" using u a by (simp add: str_sym_def)
qed (use assms in \<open>simp_all add: same_conf_def\<close>)

definition user_ok :: "kconf \<Rightarrow> symref \<Rightarrow> bool" where
  "user_ok s y \<longleftrightarrow>
     (sym_is_choice s y \<longrightarrow> sym_of (sv_val (sym_def (symtab s y) S_DEF_USER)) \<noteq> None)
     \<and> (stringy_sym s y \<longrightarrow> \<not> sym_is_choice s y \<longrightarrow> sym_has_value s y
          \<longrightarrow> (\<exists>x. sv_val (sym_def (symtab s y) S_DEF_USER) = VStr x))"

lemma sym_wf_user: "sym_wf s y \<Longrightarrow> user_ok s y"
  by (auto simp: sym_wf_def user_ok_def choice_ok_def)

lemma printed_same: "same_conf s s' \<Longrightarrow> printed s' e = printed s e"
  by (simp add: printed_def same_confD)

lemma sym_wf_same:
  assumes "same_conf s s'" "sym_wf s y" "user_ok s' y"
  shows "sym_wf s' y"
proof -
  note f = same_confD[OF assms(1)]
  have p: "proptab s' = proptab s" using assms(1) by (simp add: same_conf_def)
  have "default_ok s' y q = default_ok s y q" for q by (simp add: default_ok_def f p)
  moreover have "range_ok s' q = range_ok s q" for q by (simp add: range_ok_def range_syms_def f p)
  moreover have "val_dep_ok s' y = val_dep_ok s y"
    using assms(1) printed_same[OF assms(1)] f(7,8)
    by (simp only: val_dep_ok_def printable_def same_conf_def)
  moreover have "dir_dep (symtab s' y) = dir_dep (symtab s y)" "rev_dep (symtab s' y) = rev_dep (symtab s y)"
    using assms(1) by (simp_all add: same_conf_def)
  moreover have "choice_ok s' y" using assms(2,3)
    unfolding sym_wf_def choice_ok_def user_ok_def f by blast
  ultimately show ?thesis using assms(2,3) unfolding sym_wf_def user_ok_def f p by simp
qed

lemma conf_wf_same:
  assumes "same_conf s s'" "conf_wf s" "\<forall>y \<in> sym_univ s. user_ok s' y"
  shows "conf_wf s'"
  using assms sym_wf_same[OF assms(1)] unfolding conf_wf_def same_confD[OF assms(1)] by blast

lemma const_valid:
  "calc_ready s \<Longrightarrow> y \<in> {symbol_yes, symbol_mod, symbol_no, symbol_empty} \<Longrightarrow> has_flag SYMBOL_VALID y s"
  unfolding calc_ready_def vals_ok_def by blast

text \<open>The values that were computed stay; valid marks may have been dropped.\<close>

lemma vals_ok_same:
  assumes "same_conf s s'" "vals_ok s" "\<And>y. sym_curr (symtab s' y) = sym_curr (symtab s y)"
    and "\<And>y. has_flag SYMBOL_VALID y s' \<Longrightarrow> has_flag SYMBOL_VALID y s"
    and "\<And>y. has_flag SYMBOL_NEED_SET_CHOICE_VALUES y s' \<Longrightarrow> has_flag SYMBOL_NEED_SET_CHOICE_VALUES y s"
    and "\<And>y. y \<in> {symbol_yes, symbol_mod, symbol_no, symbol_empty} \<Longrightarrow> has_flag SYMBOL_VALID y s'"
  shows "vals_ok s'"
  using assms(2,4,5,6) unfolding vals_ok_def same_confD[OF assms(1)] assms(3) by blast

lemma ready_same:
  assumes "calc_ready s" "same_conf s s'" "\<And>y. sym_curr (symtab s' y) = sym_curr (symtab s y)"
    and "\<And>y. has_flag SYMBOL_VALID y s' \<Longrightarrow> has_flag SYMBOL_VALID y s"
    and "\<And>y. has_flag SYMBOL_NEED_SET_CHOICE_VALUES y s' \<Longrightarrow> has_flag SYMBOL_NEED_SET_CHOICE_VALUES y s"
    and "\<And>y. y \<in> {symbol_yes, symbol_mod, symbol_no, symbol_empty} \<Longrightarrow> has_flag SYMBOL_VALID y s'"
    and "\<And>y. y \<in> sym_univ s \<Longrightarrow> user_ok s' y"
  shows "calc_ready s'"
  using assms(1) conf_wf_same[OF assms(2)] vals_ok_same[OF assms(2) _ assms(3-6)] assms(7)
  by (simp add: calc_ready_def)

subsection \<open>The skeleton\<close>

text \<open>What no operation of the front ends changes: all but values, flags, caches and counters.\<close>

definition skel_sym :: "symbol \<Rightarrow> symbol" where
  "skel_sym x = (frame_sym x)\<lparr>sym_flags := sym_flags x \<inter> {SYMBOL_CHOICE, SYMBOL_CHOICEVAL},
     sym_def := (\<lambda>_. zero_value)\<rparr>"

definition skeleton :: "kconf \<Rightarrow> kconf" where
  "skeleton s = s\<lparr>symtab := skel_sym \<circ> symtab s, proptab := frame_prop \<circ> proptab s,
     menutab := frame_menu \<circ> menutab s, modules_val := tno, kmsgs := [], sym_change_count := 0,
     conf_filename := None, conf_lineno := 0, conf_warnings := 0, conf_unsaved := 0, kcallbacks := 0\<rparr>"

lemma skel_frame [simp]: "skeleton (frame s) = skeleton s"
proof -
  have "skel_sym (frame_sym x) = skel_sym x" for x
    by (auto simp: skel_sym_def frame_sym_def cached_flags_def intro!: symbol.equality)
  moreover have "frame_prop (frame_prop p) = frame_prop p" "frame_menu (frame_menu m) = frame_menu m" for p m
    by (simp_all add: frame_prop_def frame_menu_def)
  ultimately show ?thesis by (simp add: skeleton_def frame_def comp_def)
qed

lemma frame_skeleton: "frame t = frame s \<Longrightarrow> skeleton t = skeleton s"
  using skel_frame[of s] skel_frame[of t] by simp

lemma skel_upd_sym: "skel_sym (f (symtab s y)) = skel_sym (symtab s y) \<Longrightarrow> skeleton (upd_sym y f s) = skeleton s"
  by (auto simp: skeleton_def upd_sym_def fun_eq_iff intro!: kconf.equality)

lemma skel_counts [simp]:
  "skeleton (s\<lparr>sym_change_count := c\<rparr>) = skeleton s" "skeleton (s\<lparr>kcallbacks := k\<rparr>) = skeleton s"
  "skeleton (s\<lparr>conf_lineno := n\<rparr>) = skeleton s" "skeleton (s\<lparr>conf_warnings := n\<rparr>) = skeleton s"
  "skeleton (s\<lparr>conf_unsaved := n\<rparr>) = skeleton s" "skeleton (s\<lparr>conf_filename := g\<rparr>) = skeleton s"
  "skeleton (s\<lparr>kmsgs := ms\<rparr>) = skeleton s" "skeleton (kwarn msg s) = skeleton s" "skeleton (sym_set_change_count c s) = skeleton s"
  "skeleton (sym_add_change_count c s) = skeleton s"
  by (simp_all add: skeleton_def kwarn_def sym_add_change_count_def sym_set_change_count_def Let_def)

text \<open>What the skeleton determines.\<close>

lemma skel_fields [simp]:
  "sym_type (symtab (skeleton s) y) = sym_type (symtab s y)"
  "sym_name (symtab (skeleton s) y) = sym_name (symtab s y)"
  "sym_prop (symtab (skeleton s) y) = sym_prop (symtab s y)"
  "sym_is_choice (skeleton s) y = sym_is_choice s y"
  "sym_is_choice_value (skeleton s) y = sym_is_choice_value s y"
  "prop_type (proptab (skeleton s) p) = prop_type (proptab s p)"
  "prop_expr (proptab (skeleton s) p) = prop_expr (proptab s p)"
  "prop_text (proptab (skeleton s) p) = prop_text (proptab s p)"
  "prop_menu (proptab (skeleton s) p) = prop_menu (proptab s p)"
  "ev_expr (prop_visible (proptab (skeleton s) p)) = ev_expr (prop_visible (proptab s p))"
  "menu_sym (menutab (skeleton s) m) = menu_sym (menutab s m)"
  "menu_prompt (menutab (skeleton s) m) = menu_prompt (menutab s m)"
  "menu_visibility (menutab (skeleton s) m) = menu_visibility (menutab s m)"
  "menu_list (menutab (skeleton s) m) = menu_list (menutab s m)"
  "menu_next (menutab (skeleton s) m) = menu_next (menutab s m)"
  "menu_parent (menutab (skeleton s) m) = menu_parent (menutab s m)"
  "nsyms (skeleton s) = nsyms s" "nmenus (skeleton s) = nmenus s"
  "modules_sym (skeleton s) = modules_sym s" "symbol_hash (skeleton s) = symbol_hash s"
  by (auto simp: skeleton_def skel_sym_def frame_sym_def frame_prop_def frame_menu_def lkc_inline_defs)

lemma skel_derived [simp]:
  "sym_univ (skeleton s) = sym_univ s" "expr_ok (skeleton s) e = expr_ok s e"
  "props_of_type (skeleton s) y ty = props_of_type s y ty"
  "all_symbols (skeleton s) = all_symbols s" "choice_of (skeleton s) y = choice_of s y"
  "choice_values (skeleton s) y = choice_values s y"
proof -
  show u: "sym_univ (skeleton s) = sym_univ s" by (simp add: sym_univ_def)
  then show "expr_ok (skeleton s) e = expr_ok s e" by (simp add: expr_ok_def split: option.split)
  show p: "props_of_type (skeleton s) y ty = props_of_type s y ty" for ty by (simp add: props_of_type_def)
  show "all_symbols (skeleton s) = all_symbols s" by (simp add: all_symbols_def hash_symbols_def)
  have "prop_get_symbol (proptab (skeleton s) q) = prop_get_symbol (proptab s q)" for q
    by (simp add: prop_get_symbol_def)
  then show "choice_of (skeleton s) y = choice_of s y" "choice_values (skeleton s) y = choice_values s y"
    by (simp_all add: choice_of_def choice_values_def sym_get_choice_prop_def p)
qed

lemma skelD:
  assumes "skeleton t = skeleton s"
  shows "sym_univ t = sym_univ s" "sym_type (symtab t y) = sym_type (symtab s y)"
    "sym_is_choice t y = sym_is_choice s y" "sym_is_choice_value t y = sym_is_choice_value s y"
    "all_symbols t = all_symbols s" "expr_ok t e = expr_ok s e"
    "menu_sym (menutab t m) = menu_sym (menutab s m)" "menu_prompt (menutab t m) = menu_prompt (menutab s m)"
    "menu_visibility (menutab t m) = menu_visibility (menutab s m)"
    "ev_expr (prop_visible (proptab t p)) = ev_expr (prop_visible (proptab s p))"
    "menu_list (menutab t m) = menu_list (menutab s m)" "menu_next (menutab t m) = menu_next (menutab s m)"
    "menu_parent (menutab t m) = menu_parent (menutab s m)" "nmenus t = nmenus s"
    "modules_sym t = modules_sym s" "nsyms t = nsyms s" "symbol_hash t = symbol_hash s"
    "choice_of t y = choice_of s y" "choice_values t y = choice_values s y"
    "sym_name (symtab t y) = sym_name (symtab s y)" "prop_text (proptab t p) = prop_text (proptab s p)"
    "prop_type (proptab t p) = prop_type (proptab s p)"
  using skel_derived[of t] skel_derived[of s] skel_fields[of t] skel_fields[of s] assms by metis+

subsection \<open>Changing one symbol\<close>

text \<open>Updates of a symbol that touch its user value and the flag for it only.\<close>

definition user_upd :: "(symbol \<Rightarrow> symbol) \<Rightarrow> bool" where
  "user_upd f \<longleftrightarrow> (\<forall>x. (f x)\<lparr>sym_flags := sym_flags x, sym_def := sym_def x\<rparr> = x
     \<and> sym_flags (f x) - {SYMBOL_DEF_USER} = sym_flags x - {SYMBOL_DEF_USER})"

lemma user_updD:
  assumes "user_upd f"
  shows "sym_type (f x) = sym_type x" "sym_name (f x) = sym_name x" "sym_prop (f x) = sym_prop x"
    "dir_dep (f x) = dir_dep x" "rev_dep (f x) = rev_dep x" "val_dep (f x) = val_dep x"
    "sym_curr (f x) = sym_curr x" "sym_visible (f x) = sym_visible x"
    "b \<noteq> SYMBOL_DEF_USER \<Longrightarrow> b \<in> sym_flags (f x) \<longleftrightarrow> b \<in> sym_flags x"
proof -
  have e: "(f x)\<lparr>sym_flags := sym_flags x, sym_def := sym_def x\<rparr> = x"
    and fl: "sym_flags (f x) - {SYMBOL_DEF_USER} = sym_flags x - {SYMBOL_DEF_USER}"
    using assms by (simp_all add: user_upd_def)
  show "sym_type (f x) = sym_type x" using arg_cong[OF e, of sym_type] by simp
  show "sym_name (f x) = sym_name x" using arg_cong[OF e, of sym_name] by simp
  show "sym_prop (f x) = sym_prop x" using arg_cong[OF e, of sym_prop] by simp
  show "dir_dep (f x) = dir_dep x" using arg_cong[OF e, of dir_dep] by simp
  show "rev_dep (f x) = rev_dep x" using arg_cong[OF e, of rev_dep] by simp
  show "val_dep (f x) = val_dep x" using arg_cong[OF e, of val_dep] by simp
  show "sym_curr (f x) = sym_curr x" using arg_cong[OF e, of sym_curr] by simp
  show "sym_visible (f x) = sym_visible x" using arg_cong[OF e, of sym_visible] by simp
  show "b \<in> sym_flags (f x) \<longleftrightarrow> b \<in> sym_flags x" if "b \<noteq> SYMBOL_DEF_USER" using fl that by blast
qed

lemma skel_user_upd:
  assumes "user_upd f"
  shows "skel_sym (f x) = skel_sym x"
proof -
  have "skel_sym ((f x)\<lparr>sym_flags := sym_flags x, sym_def := sym_def x\<rparr>) = skel_sym (f x)"
    using user_updD(9)[OF assms] by (auto simp: skel_sym_def frame_sym_def intro!: symbol.equality)
  then show ?thesis using assms by (simp add: user_upd_def)
qed

lemma user_upds [simp]:
  "user_upd (\<lambda>x. x\<lparr>sym_flags := insert SYMBOL_DEF_USER (sym_flags x)\<rparr>)"
  "user_upd (\<lambda>x. x\<lparr>sym_flags := sym_flags x - {SYMBOL_DEF_USER}\<rparr>)"
  "user_upd (\<lambda>x. x\<lparr>sym_def := D x\<rparr>)"
  by (auto simp: user_upd_def)


lemma same_conf_user: "user_upd f \<Longrightarrow> same_conf s (upd_sym y f s)"
  using user_updD[of f] by (auto simp: same_conf_def lkc_inline_defs upd_sym_def)

lemma ready_user_upd:
  assumes "calc_ready s" "user_upd f" "y \<in> sym_univ s \<Longrightarrow> user_ok (upd_sym y f s) y"
  shows "calc_ready (upd_sym y f s)"
proof (rule ready_same[OF assms(1) same_conf_user[OF assms(2)]])
  note u = user_updD[OF assms(2)]
  show "sym_curr (symtab (upd_sym y f s) z) = sym_curr (symtab s z)" for z by (simp add: u)
  have fl: "has_flag b z (upd_sym y f s) = has_flag b z s" if "b \<noteq> SYMBOL_DEF_USER" for b z
    using u(9)[OF that] by (simp add: has_flag_def)
  show "has_flag SYMBOL_VALID z (upd_sym y f s) \<Longrightarrow> has_flag SYMBOL_VALID z s"
    "has_flag SYMBOL_NEED_SET_CHOICE_VALUES z (upd_sym y f s) \<Longrightarrow> has_flag SYMBOL_NEED_SET_CHOICE_VALUES z s"
    for z by (simp_all add: fl)
  show "has_flag SYMBOL_VALID z (upd_sym y f s)" if "z \<in> {symbol_yes, symbol_mod, symbol_no, symbol_empty}" for z
    using const_valid[OF assms(1) that] fl by simp
  show "user_ok (upd_sym y f s) z" if z: "z \<in> sym_univ s" for z
  proof (cases "z = y")
    case False
    have "user_ok s z" using sym_wf_user readyD(1)[OF assms(1) z] by blast
    then show ?thesis using False by (simp add: user_ok_def lkc_inline_defs)
  qed (use assms(3) z in simp)
qed

subsection \<open>Clearing the valid marks\<close>

definition hash_ok :: "kconf \<Rightarrow> bool" where
  "hash_ok s \<longleftrightarrow> set (hash_symbols s) \<subseteq> heap_sym ` {..<nsyms s}"

lemma clear_flags_fold:
  "fold (clear_flag b) ys s = s\<lparr>symtab := (\<lambda>z. if z \<in> set ys
     then (symtab s z)\<lparr>sym_flags := sym_flags (symtab s z) - {b}\<rparr> else symtab s z)\<rparr>"
proof (induction ys arbitrary: s)
  case (Cons y ys)
  show ?case unfolding fold_Cons comp_apply Cons.IH
    by (auto simp: clear_flag_def upd_sym_def fun_eq_iff intro!: kconf.equality symbol.equality)
qed simp

lemma add_count_fields [simp]:
  "symtab (sym_add_change_count n s) = symtab s" "proptab (sym_add_change_count n s) = proptab s"
  "nsyms (sym_add_change_count n s) = nsyms s" "modules_sym (sym_add_change_count n s) = modules_sym s"
  "symbol_hash (sym_add_change_count n s) = symbol_hash s"
  "menutab (sym_add_change_count n s) = menutab s"
  by (simp_all add: sym_add_change_count_def sym_set_change_count_def Let_def)

lemma skel_clear_flags [simp]:
  "b \<notin> {SYMBOL_CHOICE, SYMBOL_CHOICEVAL} \<Longrightarrow> skeleton (clear_flag b y s) = skeleton s"
  "b \<notin> {SYMBOL_CHOICE, SYMBOL_CHOICEVAL} \<Longrightarrow> skeleton (set_flag b y s) = skeleton s"
  unfolding clear_flag_def set_flag_def
  by (rule skel_upd_sym; auto simp: skel_sym_def frame_sym_def intro!: symbol.equality)+

lemma skel_fold: "(\<And>x s. skeleton (f x s) = skeleton s) \<Longrightarrow> skeleton (fold f xs s) = skeleton s"
  by (induction xs arbitrary: s) simp_all

definition cleared :: "kconf \<Rightarrow> kconf" where
  "cleared s = sym_add_change_count 1 (fold (clear_flag SYMBOL_VALID) (all_symbols s) s)"

lemma cleared_fields:
  "symtab (cleared s) z = (if z \<in> set (all_symbols s)
     then (symtab s z)\<lparr>sym_flags := sym_flags (symtab s z) - {SYMBOL_VALID}\<rparr> else symtab s z)"
  "proptab (cleared s) = proptab s" "nsyms (cleared s) = nsyms s"
  "modules_sym (cleared s) = modules_sym s" "symbol_hash (cleared s) = symbol_hash s"
  by (simp_all add: cleared_def clear_flags_fold)

lemma cleared_skel: "skeleton (cleared s) = skeleton s"
  by (simp add: cleared_def skel_fold)

lemma cleared_same: "same_conf s (cleared s)"
  by (simp add: same_conf_def cleared_fields lkc_inline_defs)

lemma hash_not_const:
  "hash_ok s \<Longrightarrow> y \<in> {symbol_yes, symbol_mod, symbol_no, symbol_empty} \<Longrightarrow> y \<notin> set (all_symbols s)"
  by (auto simp: hash_ok_def all_symbols_def)

lemma cleared_ready:
  assumes "calc_ready s" "hash_ok s"
  shows "calc_ready (cleared s)"
proof (rule ready_same[OF assms(1) cleared_same])
  show "has_flag SYMBOL_VALID y (cleared s)" if "y \<in> {symbol_yes, symbol_mod, symbol_no, symbol_empty}" for y
    using const_valid[OF assms(1) that] hash_not_const[OF assms(2) that]
    by (simp add: has_flag_def cleared_fields)
  show "user_ok (cleared s) y" if "y \<in> sym_univ s" for y
    using sym_wf_user[OF readyD(1)[OF assms(1) that]]
    by (simp add: user_ok_def lkc_inline_defs cleared_fields)
qed (simp_all add: cleared_fields has_flag_def split: if_splits)

end
