(* ===== verification/Symbol_Set_Properties.thy ===== *)
theory Symbol_Set_Properties
  imports Symbol_Properties Symbol_User
begin

text \<open>
  The properties of setting values: which values are accepted, what a setter leaves behind, and
  that the configuration stays well-formed, so that values can be computed again.
\<close>

subsection \<open>Clearing all values\<close>

lemma clear_all_eq: "sym_clear_all_valid calc s = calc_opt calc (modules_sym s) (cleared s)"
proof -
  have "modules_sym (cleared s) = modules_sym s" by (rule cleared_fields)
  then show ?thesis by (simp add: sym_clear_all_valid_def cleared_def Let_def)
qed

lemma clear_all_ends:
  assumes "calc_ready s" "hash_ok s"
  obtains s' where "sym_clear_all_valid sym_calc s = Some s'" "calc_ready s'" "frame s' = frame (cleared s)"
proof -
  obtain m where m: "m \<in> sym_univ s" "modules_sym s = Some m"
    using assms(1) by (auto simp: calc_ready_def conf_wf_def)
  have "m \<in> sym_univ (cleared s)" using m(1) same_confD(1)[OF cleared_same] by simp
  from sc.calc_total[OF cleared_ready[OF assms] this, of "Suc (calc_work (cleared s))"]
  obtain t where "sym_calc m (cleared s) = Some t" "calc_done (cleared s) m t" by auto
  then show ?thesis using that m(2) by (simp add: clear_all_eq calc_opt_def calc_done_def calc_post_def)
qed

subsection \<open>The steps of the setters\<close>

lemma symtab_set_changed:
  "symtab (sym_set_changed y s) = symtab (set_flag SYMBOL_CHANGED y s)"
  "proptab (sym_set_changed y s) = proptab s" "nsyms (sym_set_changed y s) = nsyms s"
  "modules_sym (sym_set_changed y s) = modules_sym s" "symbol_hash (sym_set_changed y s) = symbol_hash s"
proof -
  have "symtab (fold (\<lambda>p s. menu_set_changed (prop_menu (proptab s p)) s) ps t) = symtab t
    \<and> proptab (fold (\<lambda>p s. menu_set_changed (prop_menu (proptab s p)) s) ps t) = proptab t
    \<and> nsyms (fold (\<lambda>p s. menu_set_changed (prop_menu (proptab s p)) s) ps t) = nsyms t
    \<and> modules_sym (fold (\<lambda>p s. menu_set_changed (prop_menu (proptab s p)) s) ps t) = modules_sym t
    \<and> symbol_hash (fold (\<lambda>p s. menu_set_changed (prop_menu (proptab s p)) s) ps t) = symbol_hash t" for ps t
    by (induction ps arbitrary: t)
      (simp_all add: menu_set_changed_def upd_menu_def split: option.split)
  then show "symtab (sym_set_changed y s) = symtab (set_flag SYMBOL_CHANGED y s)"
    "proptab (sym_set_changed y s) = proptab s" "nsyms (sym_set_changed y s) = nsyms s"
    "modules_sym (sym_set_changed y s) = modules_sym s" "symbol_hash (sym_set_changed y s) = symbol_hash s"
    by (simp_all add: sym_set_changed_def set_flag_def upd_sym_def)
qed

text \<open>A step of a setter: it keeps the configuration ready, and what the later steps need.\<close>

definition set_step :: "kconf \<Rightarrow> kconf \<Rightarrow> bool" where
  "set_step s t \<longleftrightarrow> calc_ready t \<and> same_conf s t \<and> symbol_hash t = symbol_hash s"

lemma set_stepD:
  assumes "set_step s t"
  shows "calc_ready t" "same_conf s t" "symbol_hash t = symbol_hash s"
  using assms by (simp_all add: set_step_def)

lemma set_step_trans: "set_step s t \<Longrightarrow> set_step t u \<Longrightarrow> set_step s u"
  using same_conf_trans by (auto simp: set_step_def)

lemma set_step_upd:
  assumes "calc_ready s" "user_upd f" "y \<in> sym_univ s \<Longrightarrow> user_ok (upd_sym y f s) y"
  shows "set_step s (upd_sym y f s)"
  using ready_user_upd[OF assms] same_conf_user[OF assms(2)] by (simp add: set_step_def upd_sym_def)

lemma set_step_hash: "set_step s t \<Longrightarrow> hash_ok s \<Longrightarrow> hash_ok t"
  by (simp add: set_step_def same_conf_def hash_ok_def hash_symbols_def)

lemma user_flag_step:
  assumes "calc_ready s" "logic_sym s y"
  shows "set_step s (set_user_flag y s)" "sym_has_value (set_user_flag y s) y"
proof -
  let ?t = "set_flag SYMBOL_DEF_USER y s"
  have "user_ok ?t y" if "y \<in> sym_univ s"
    using sym_wf_user[OF readyD(1)[OF assms(1) that]] assms(2)
    by (auto simp: user_ok_def lkc_inline_defs set_flag_def)
  then have t: "set_step s ?t" using set_step_upd[OF assms(1) user_upds(1)] by (simp add: set_flag_def)
  have "same_conf ?t (sym_set_changed y ?t)"
    by (auto simp: same_conf_def symtab_set_changed lkc_inline_defs set_flag_def)
  moreover have "calc_ready (sym_set_changed y ?t)"
    using calc_postD(1)[OF post_write(3)[OF set_stepD(1)[OF t]]] .
  ultimately have "set_step ?t (sym_set_changed y ?t)" by (simp add: set_step_def symtab_set_changed)
  then show "set_step s (set_user_flag y s)" using set_step_trans[OF t] assms(1)
    by (auto simp: set_user_flag_def set_step_def)
  show "sym_has_value (set_user_flag y s) y"
    by (simp add: set_user_flag_def sym_has_value_def has_flag_def symtab_set_changed set_flag_def)
qed

text \<open>The choices of a configuration: the values of a choice are boolean or tristate, and the
  choice of a choice value is one.\<close>

definition choices_ok :: "kconf \<Rightarrow> bool" where
  "choices_ok s \<longleftrightarrow> (\<forall>y \<in> sym_univ s.
     (sym_is_choice s y \<longrightarrow> (\<forall>vs. choice_values s y = Some vs \<longrightarrow> (\<forall>v \<in> set vs. logic_sym s v)))
     \<and> (sym_is_choice_value s y \<longrightarrow> (\<forall>c. choice_of s y = Some c \<longrightarrow> sym_is_choice s c)))"

lemma choices_ok_same: "same_conf s t \<Longrightarrow> choices_ok t = choices_ok s"
  by (simp only: choices_ok_def same_confD)

lemma value_flags_step:
  assumes "calc_ready s" "\<forall>v \<in> set vs. logic_sym s v"
  shows "set_step s (fold (\<lambda>d s. if sym_visible (symtab s d) \<noteq> tno
      then set_flag SYMBOL_DEF_USER d s else s) vs s)
    \<and> (\<forall>z. sym_def (symtab (fold (\<lambda>d s. if sym_visible (symtab s d) \<noteq> tno
      then set_flag SYMBOL_DEF_USER d s else s) vs s) z) = sym_def (symtab s z))
    \<and> (\<forall>z. sym_has_value s z \<longrightarrow> sym_has_value (fold (\<lambda>d s. if sym_visible (symtab s d) \<noteq> tno
      then set_flag SYMBOL_DEF_USER d s else s) vs s) z)"
  using assms
proof (induction vs arbitrary: s)
  case (Cons d vs)
  let ?t = "if sym_visible (symtab s d) \<noteq> tno then set_flag SYMBOL_DEF_USER d s else s"
  have "user_ok (set_flag SYMBOL_DEF_USER d s) d" if "d \<in> sym_univ s"
    using sym_wf_user[OF readyD(1)[OF Cons.prems(1) that]] Cons.prems(2)
    by (auto simp: user_ok_def lkc_inline_defs set_flag_def)
  then have "set_step s (set_flag SYMBOL_DEF_USER d s)"
    using set_step_upd[OF Cons.prems(1) user_upds(1)] by (simp add: set_flag_def)
  then have t: "set_step s ?t" using Cons.prems(1) by (simp add: set_step_def)
  have d: "sym_def (symtab ?t z) = sym_def (symtab s z)"
    "sym_has_value s z \<longrightarrow> sym_has_value ?t z" for z
    by (simp_all add: set_flag_def lkc_inline_defs)
  have "\<forall>v \<in> set vs. logic_sym ?t v" using Cons.prems(2) same_confD(2)[OF set_stepD(2)[OF t]] by simp
  with t have "calc_ready ?t" "\<forall>v \<in> set vs. logic_sym ?t v" by (simp_all add: set_step_def)
  note ih = Cons.IH[OF this]
  show ?case unfolding fold_Cons comp_apply
    by (intro conjI allI impI set_step_trans[OF t conjunct1[OF ih]])
      (use ih d in \<open>simp_all only: simp_thms\<close>)
qed (simp add: set_step_def)

lemma choice_user_step:
  assumes "calc_ready s" "choices_ok s" "y \<in> sym_univ s" "sym_is_choice_value s y"
  obtains c t where "choice_of s y = Some c" "sym_is_choice s c" "set_choice_user y s = Some t"
    "set_step s t" "sv_val (sym_def (symtab t c) S_DEF_USER) = VSym y"
    "\<And>z. z \<noteq> c \<Longrightarrow> sym_def (symtab t z) = sym_def (symtab s z)"
    "\<And>z. sym_has_value s z \<Longrightarrow> sym_has_value t z"
proof -
  obtain c where c: "choice_of s y = Some c" "c \<in> sym_univ s"
    using sym_wfD(7)[OF readyD(1)[OF assms(1,3)]] assms(4) by (auto simp: choice_ok_def)
  then have cc: "sym_is_choice s c" using assms(2-4) by (auto simp: choices_ok_def)
  have wc: "logic_sym s c" "\<exists>vs. choice_values s c = Some vs"
    using sym_wfD(7)[OF readyD(1)[OF assms(1) c(2)]] cc by (auto simp: choice_ok_def)
  let ?u = "set_def_val S_DEF_USER c (VSym y) s"
  let ?t = "set_flag SYMBOL_DEF_USER c ?u"
  have "user_ok ?u c" using cc wc(1)
    by (auto simp: user_ok_def lkc_inline_defs set_def_val_def sym_of_def)
  then have u: "set_step s ?u" using set_step_upd[OF assms(1) user_upds(3)]
    by (simp add: set_def_val_def)
  have "user_ok ?t c" using cc wc(1)
    by (auto simp: user_ok_def lkc_inline_defs set_def_val_def set_flag_def sym_of_def)
  then have "set_step ?u ?t" using set_step_upd[OF _ user_upds(1), of ?u] u
    by (simp add: set_flag_def set_step_def)
  then have st: "set_step s ?t" using set_step_trans u by blast
  obtain vs where vs: "choice_values s c = Some vs" using wc(2) by blast
  then have vt: "choice_values ?t c = Some vs" using same_confD(5)[OF set_stepD(2)[OF st]] by simp
  have "\<forall>v \<in> set vs. logic_sym ?t v"
    using assms(2) c(2) cc vs same_confD(2)[OF set_stepD(2)[OF st]] by (simp add: choices_ok_def)
  then have f: "calc_ready ?t" "\<forall>v \<in> set vs. logic_sym ?t v" using st by (simp_all add: set_step_def)
  let ?w = "fold (\<lambda>d s. if sym_visible (symtab s d) \<noteq> tno then set_flag SYMBOL_DEF_USER d s else s) vs ?t"
  note w = value_flags_step[OF f]
  have "set_choice_user y s = Some ?w" using c(1) vt by (simp add: set_choice_user_def Let_def)
  moreover have "sv_val (sym_def (symtab ?w c) S_DEF_USER) = VSym y"
    using w by (simp add: set_flag_def set_def_val_def)
  moreover have "sym_def (symtab ?w z) = sym_def (symtab s z)" if "z \<noteq> c" for z
    using w that by (simp add: set_flag_def set_def_val_def)
  moreover have "sym_has_value ?w z" if "sym_has_value s z" for z
    using w that by (auto simp: set_flag_def set_def_val_def lkc_inline_defs)
  ultimately show ?thesis using that c(1) cc set_step_trans[OF st] w by blast
qed

subsection \<open>Tristate values\<close>


text \<open>C12: setting a boolean or tristate symbol returns. It refuses a new value outside the range
  and then changes nothing; otherwise the symbol has the user value, a chosen value of a choice is
  the choice's user value, and the configuration is well-formed, with the value of every symbol
  to be computed again if it changed.\<close>

theorem sym_set_tristate_value_spec:
  assumes "calc_ready s" and "hash_ok s" and "choices_ok s" and "y \<in> sym_univ s"
    and "logic_sym s y" and "\<not> sym_is_choice s y"
  shows "\<exists>b s'. sym_set_tristate_value sym_calc y v s = Some (b, s') \<and> calc_ready s'
    \<and> (b \<longleftrightarrow> v = sym_get_tristate_value s y \<or> sym_tristate_within_range s y v)
    \<and> (\<not> b \<longrightarrow> s' = s)
    \<and> (b \<longrightarrow> sym_has_value s' y \<and> sv_tri (sym_def (symtab s' y) S_DEF_USER) = v
        \<and> (sym_is_choice_value s y \<longrightarrow> v = tyes \<longrightarrow>
             (\<exists>c. choice_of s y = Some c \<and> sv_val (sym_def (symtab s' c) S_DEF_USER) = VSym y)))"
proof (cases "sym_get_tristate_value s y \<noteq> v \<and> \<not> sym_tristate_within_range s y v")
  case True
  then show ?thesis using assms(1) by (auto simp: sym_set_tristate_value_def Let_def)
next
  case False
  note u = user_flag_step[OF assms(1,5)]
  let ?u = "set_user_flag y s"
  note su = set_stepD[OF u(1)] and fu = same_confD[OF set_stepD(2)[OF u(1)]]
  have cu: "choices_ok ?u" using choices_ok_same[OF su(2)] assms(3) by simp
  obtain w where w: "(if sym_is_choice_value ?u y \<and> v = tyes then set_choice_user y ?u else Some ?u) = Some w"
    "set_step ?u w" "sym_has_value w y"
    "sym_is_choice_value s y \<longrightarrow> v = tyes \<longrightarrow> (\<exists>c. choice_of s y = Some c \<and> sym_is_choice s c
       \<and> sv_val (sym_def (symtab w c) S_DEF_USER) = VSym y)"
  proof (cases "sym_is_choice_value ?u y \<and> v = tyes")
    case True
    have "y \<in> sym_univ ?u" using assms(4) fu(1) by simp
    then obtain c t where t: "choice_of ?u y = Some c" "sym_is_choice ?u c" "set_choice_user y ?u = Some t"
      "set_step ?u t" "sv_val (sym_def (symtab t c) S_DEF_USER) = VSym y" "sym_has_value t y"
      using choice_user_step[OF su(1) cu] True u(2) by metis
    then show ?thesis using that[of t] True fu(3,6) by auto
  next
    case False
    then show ?thesis using that[of ?u] u(2) su(1) fu(4) by (auto simp: set_step_def)
  qed
  note sw = set_step_trans[OF u(1) w(2)] and fw = same_confD[OF set_stepD(2)[OF set_step_trans[OF u(1) w(2)]]]
  let ?x = "set_def_tri S_DEF_USER y v w"
  have "user_ok ?x y" using assms(5,6) fw(2,3)
    by (auto simp: user_ok_def lkc_inline_defs set_def_tri_def)
  then have x: "set_step w ?x" using set_step_upd[OF set_stepD(1)[OF w(2)] user_upds(3)]
    by (simp add: set_def_tri_def)
  have hx: "sym_has_value ?x y" "sv_tri (sym_def (symtab ?x y) S_DEF_USER) = v"
    "sv_val (sym_def (symtab ?x c) i) = sv_val (sym_def (symtab w c) i)" for c i
    using w(3) by (simp_all add: set_def_tri_def lkc_inline_defs)
  note sx = set_step_trans[OF sw x] and fx = same_confD[OF set_stepD(2)[OF set_step_trans[OF sw x]]]
  have ncx: "\<not> sym_is_choice ?x y" using fx(3) assms(6) by simp
  obtain r where r: "sym_clear_all_valid sym_calc ?x = Some r" "calc_ready r" "frame r = frame (cleared ?x)"
    by (rule clear_all_ends[OF set_stepD(1)[OF sx] set_step_hash[OF sx assms(2)]])
  obtain s' where s': "(if sym_get_tristate_value s y \<noteq> v then sym_clear_all_valid sym_calc ?x else Some ?x) = Some s'"
    "calc_ready s'" "frame s' = frame ?x \<or> frame s' = frame (cleared ?x)"
    by (rule that[of "if sym_get_tristate_value s y \<noteq> v then r else ?x"])
      (use r set_stepD(1)[OF sx] in simp_all)
  have d: "sym_has_value s' y \<and> sv_tri (sym_def (symtab s' y) S_DEF_USER) = v
    \<and> (\<forall>c. sv_val (sym_def (symtab s' c) S_DEF_USER) = sv_val (sym_def (symtab w c) S_DEF_USER))"
    using s'(3)
  proof
    assume f: "frame s' = frame ?x"
    show ?thesis using frame_user[OF f ncx hx(1)] hx frame_eqD(17)[OF f] by simp
  next
    assume f: "frame s' = frame (cleared ?x)"
    have "\<not> sym_is_choice (cleared ?x) y" "sym_has_value (cleared ?x) y"
      using ncx hx(1) by (simp_all add: cleared_fields lkc_inline_defs)
    note g = frame_user[OF f this]
    show ?thesis using g hx frame_eqD(17)[OF f] by (simp add: cleared_fields)
  qed
  have e: "sym_set_tristate_value sym_calc y v s = Some (True, s')"
    unfolding sym_set_tristate_value_def Let_def if_not_P[OF False] w(1) s'(1) bind.bind_lunit ..
  have c: "sym_is_choice_value s y \<longrightarrow> v = tyes \<longrightarrow>
      (\<exists>c. choice_of s y = Some c \<and> sv_val (sym_def (symtab s' c) S_DEF_USER) = VSym y)"
  proof (intro impI)
    assume "sym_is_choice_value s y" "v = tyes"
    with w(4) obtain c where "choice_of s y = Some c" "sv_val (sym_def (symtab w c) S_DEF_USER) = VSym y"
      by blast
    with d show "\<exists>c. choice_of s y = Some c \<and> sv_val (sym_def (symtab s' c) S_DEF_USER) = VSym y"
      by (intro exI[of _ c]) simp
  qed
  have d1: "sym_has_value s' y" and d2: "sv_tri (sym_def (symtab s' y) S_DEF_USER) = v" using d by simp_all
  have r: "v = sym_get_tristate_value s y \<or> sym_tristate_within_range s y v" using False by blast
  show ?thesis using c by (intro exI[of _ True] exI[of _ s']) (simp only: e s'(2) d1 d2 r simp_thms)
qed

lemma demo_set_ok: "hash_ok demo" "choices_ok demo"
proof -
  show "hash_ok demo"
    by (simp add: hash_ok_def hash_symbols_def demo_def init_kconf_def)
  show "choices_ok demo"
    unfolding choices_ok_def demo_univ by (simp add: lkc_inline_defs demo_defs)
qed

theorem sym_set_tristate_value_spec_witness:
  "\<exists>b s'. sym_set_tristate_value sym_calc (heap_sym 1) tmod demo = Some (b, s') \<and> (\<not> b \<longrightarrow> s' = demo)"
  using sym_set_tristate_value_spec[OF demo_ready demo_set_ok, of "heap_sym 1" tmod]
  by (auto simp: demo_univ lkc_inline_defs demo_defs)

end
