(* ===== verification/Strmap.thy ===== *)
theory Strmap
  imports Prelude "HOL-Library.Word"
begin

text \<open>
  The string map of \<open>adk/tools/strmap.c\<close> that the package tools keep their tables in: an array
  of buckets, each an array of key-value pairs. Allocation does not fail. \<open>None\<close> is undefined
  behaviour: a map without buckets (a division by zero), or the empty key, for which the hash
  loop runs past the end of the string.
\<close>

type_synonym strpair = "string \<times> string"

type_synonym bucket = "strpair list"

type_synonym strmap = "bucket list"

subsection \<open>The operations\<close>

definition strmap_new :: "nat \<Rightarrow> strmap" where
  "strmap_new capacity = replicate capacity []"

text \<open>
  \<open>while (c == *str++)\<close> compares: the loop ends at the first character that is not the
  terminator, without looking at any.
\<close>

definition strmap_hash :: "string \<Rightarrow> 64 word option" where
  "strmap_hash str = (case str of [] \<Rightarrow> None | _ # _ \<Rightarrow> Some 5381)"

definition strmap_index :: "strmap \<Rightarrow> string \<Rightarrow> nat option" where
  "strmap_index m key = do {
     h \<leftarrow> strmap_hash key;
     if length m = 0 then None else Some (unat h mod length m) }"

fun get_pair :: "bucket \<Rightarrow> string \<Rightarrow> strpair option" where
  "get_pair [] key = None"
| "get_pair (p # ps) key = (if fst p = key then Some p else get_pair ps key)"

text \<open>
  \<open>strmap_get\<close>: the result, and what was copied to the buffer. \<open>out_buf\<close> says whether there is
  a buffer, \<open>n_out_buf\<close> is its size; without one and with size 0 the call asks for the size.
\<close>

definition strmap_get ::
  "strmap option \<Rightarrow> string option \<Rightarrow> bool \<Rightarrow> nat \<Rightarrow> (nat \<times> string option) option" where
  "strmap_get mp key out_buf n_out_buf =
     (case mp of None \<Rightarrow> Some (0, None)
      | Some m \<Rightarrow>
     (case key of None \<Rightarrow> Some (0, None)
      | Some k \<Rightarrow> do {
          i \<leftarrow> strmap_index m k;
          Some (case get_pair (m ! i) k of
              None \<Rightarrow> (0, None)
            | Some (_, value) \<Rightarrow>
                if \<not> out_buf \<and> n_out_buf = 0 then (length value + 1, None)
                else if \<not> out_buf then (0, None)
                else if length value \<ge> n_out_buf then (0, None)
                else (1, Some value)) }))"

definition strmap_exists :: "strmap option \<Rightarrow> string option \<Rightarrow> nat option" where
  "strmap_exists mp key =
     (case mp of None \<Rightarrow> Some 0
      | Some m \<Rightarrow>
     (case key of None \<Rightarrow> Some 0
      | Some k \<Rightarrow> do {
          i \<leftarrow> strmap_index m k;
          Some (case get_pair (m ! i) k of None \<Rightarrow> 0 | Some _ \<Rightarrow> 1) }))"

text \<open>Replacing the value of the first pair with the key.\<close>

fun set_pair :: "bucket \<Rightarrow> string \<Rightarrow> string \<Rightarrow> bucket" where
  "set_pair [] key value = []"
| "set_pair (p # ps) key value =
     (if fst p = key then (fst p, value) # ps else p # set_pair ps key value)"

definition strmap_put ::
  "strmap option \<Rightarrow> string option \<Rightarrow> string option \<Rightarrow> (nat \<times> strmap option) option" where
  "strmap_put mp key value =
     (case (mp, key, value) of
        (Some m, Some k, Some v) \<Rightarrow> do {
          i \<leftarrow> strmap_index m k;
          let bucket = m ! i;
          Some (1, Some (m[i := (if get_pair bucket k \<noteq> None then set_pair bucket k v
                                 else bucket @ [(k, v)])])) }
      | _ \<Rightarrow> Some (0, mp))"

definition strmap_get_count :: "strmap option \<Rightarrow> nat" where
  "strmap_get_count mp = (case mp of None \<Rightarrow> 0 | Some m \<Rightarrow> sum_list (map length m))"

text \<open>\<open>strmap_enum\<close>: the pairs in the order the callback sees them.\<close>

definition strmap_enum :: "strmap option \<Rightarrow> nat \<times> strpair list" where
  "strmap_enum mp = (case mp of None \<Rightarrow> (0, []) | Some m \<Rightarrow> (1, concat m))"

subsection \<open>The map it represents\<close>

definition strmap_index_of :: "strmap \<Rightarrow> nat" where
  "strmap_index_of m = 5381 mod length m"

lemma strmap_index_Some: "k \<noteq> [] \<Longrightarrow> m \<noteq> [] \<Longrightarrow> strmap_index m k = Some (strmap_index_of m)"
  by (auto simp: strmap_index_def strmap_hash_def strmap_index_of_def split: list.split)

lemma strmap_index_lt: "m \<noteq> [] \<Longrightarrow> strmap_index_of m < length m"
  by (simp add: strmap_index_of_def)

definition strmap_find :: "strmap \<Rightarrow> string \<Rightarrow> string option" where
  "strmap_find m k = map_option snd (get_pair (m ! strmap_index_of m) k)"

lemma get_pair_map_of: "get_pair b k = map_option (\<lambda>v. (k, v)) (map_of b k)"
  by (induction b) auto

lemma strmap_find_map_of: "strmap_find m k = map_of (m ! strmap_index_of m) k"
  by (simp add: strmap_find_def get_pair_map_of option.map_comp comp_def option.map_ident)

lemma map_of_set_pair:
  "get_pair b k \<noteq> None \<Longrightarrow> map_of (set_pair b k v) = (map_of b)(k \<mapsto> v)"
  by (induction b) (auto simp: fun_eq_iff split: if_splits)

lemma map_of_snoc: "get_pair b k = None \<Longrightarrow> map_of (b @ [(k, v)]) = (map_of b)(k \<mapsto> v)"
  by (auto simp: get_pair_map_of map_add_def fun_eq_iff split: option.splits)

lemma keys_set_pair: "map fst (set_pair b k v) = map fst b"
  by (induction b) auto

text \<open>Every bucket has distinct keys, and only the bucket of the constant hash is used.\<close>

definition strmap_ok :: "strmap \<Rightarrow> bool" where
  "strmap_ok m \<longleftrightarrow> m \<noteq> [] \<and> distinct (map fst (m ! strmap_index_of m))
     \<and> (\<forall>i < length m. i \<noteq> strmap_index_of m \<longrightarrow> m ! i = [])"

definition strmap_update :: "strmap \<Rightarrow> string \<Rightarrow> string \<Rightarrow> strmap" where
  "strmap_update m k v = (case strmap_put (Some m) (Some k) (Some v) of
     Some (_, Some m') \<Rightarrow> m' | _ \<Rightarrow> m)"

lemma strmap_put_update:
  "k \<noteq> [] \<Longrightarrow> m \<noteq> [] \<Longrightarrow> strmap_put (Some m) (Some k) (Some v) = Some (1, Some (strmap_update m k v))"
  by (simp add: strmap_update_def strmap_put_def strmap_index_Some Let_def)

lemma strmap_update_eq:
  "k \<noteq> [] \<Longrightarrow> m \<noteq> [] \<Longrightarrow> strmap_update m k v = m[strmap_index_of m :=
     (if get_pair (m ! strmap_index_of m) k \<noteq> None then set_pair (m ! strmap_index_of m) k v
      else m ! strmap_index_of m @ [(k, v)])]"
  by (simp add: strmap_update_def strmap_put_def strmap_index_Some Let_def)

lemma strmap_index_of_update: "length m' = length m \<Longrightarrow> strmap_index_of m' = strmap_index_of m"
  by (simp add: strmap_index_of_def)

lemma strmap_find_update:
  assumes "k \<noteq> []" "m \<noteq> []"
  shows "strmap_find (strmap_update m k v) = (strmap_find m)(k \<mapsto> v)"
proof -
  let ?i = "strmap_index_of m"
  let ?b = "if get_pair (m ! ?i) k \<noteq> None then set_pair (m ! ?i) k v else m ! ?i @ [(k, v)]"
  have "map_of ?b = (map_of (m ! ?i))(k \<mapsto> v)"
    using map_of_set_pair[of "m ! ?i" k v] map_of_snoc[of "m ! ?i" k v] by presburger
  moreover have "strmap_update m k v ! strmap_index_of (strmap_update m k v) = ?b"
    using assms strmap_index_lt[OF assms(2)]
    by (simp add: strmap_update_eq strmap_index_of_def)
  ultimately show ?thesis by (simp add: strmap_find_map_of fun_eq_iff)
qed

lemma strmap_ok_update:
  assumes "k \<noteq> []" "strmap_ok m"
  shows "strmap_ok (strmap_update m k v)"
proof -
  have m: "m \<noteq> []" using assms(2) by (simp add: strmap_ok_def)
  then show ?thesis using assms strmap_index_lt[OF m]
    by (auto simp: strmap_ok_def strmap_update_eq strmap_index_of_def keys_set_pair get_pair_map_of
        map_of_eq_None_iff nth_list_update split: if_splits)
qed

lemma strmap_ok_new: "0 < n \<Longrightarrow> strmap_ok (strmap_new n)"
  by (auto simp: strmap_ok_def strmap_new_def strmap_index_of_def)

subsection \<open>The interface to the clients\<close>

text \<open>
  A map with keys of a given kind: what the package tools rely on when they load a table with
  a sequence of insertions and look entries up.
\<close>

locale string_map =
  fixes ok :: "'m \<Rightarrow> bool" and key_ok :: "string \<Rightarrow> bool"
    and find :: "'m \<Rightarrow> string \<Rightarrow> string option" and update :: "'m \<Rightarrow> string \<Rightarrow> string \<Rightarrow> 'm"
  assumes ok_update: "ok m \<Longrightarrow> key_ok k \<Longrightarrow> ok (update m k v)"
    and find_update: "ok m \<Longrightarrow> key_ok k \<Longrightarrow> find (update m k v) = (find m)(k \<mapsto> v)"
begin

definition load :: "(string \<times> string) list \<Rightarrow> 'm \<Rightarrow> 'm" where
  "load kvs m = fold (\<lambda>(k, v) m. update m k v) kvs m"

lemma ok_load: "ok m \<Longrightarrow> \<forall>(k, v) \<in> set kvs. key_ok k \<Longrightarrow> ok (load kvs m)"
  by (induction kvs arbitrary: m) (auto simp: load_def ok_update)

text \<open>The last insertion of a key wins.\<close>

lemma find_load:
  "ok m \<Longrightarrow> \<forall>(k, v) \<in> set kvs. key_ok k \<Longrightarrow> find (load kvs m) = find m ++ map_of (rev kvs)"
proof (induction kvs arbitrary: m)
  case (Cons kv kvs)
  obtain k v where kv: "kv = (k, v)" by fastforce
  with Cons.prems have k: "ok m" "key_ok k" by auto
  have "find (load (kv # kvs) m) = find (load kvs (update m k v))" by (simp add: load_def kv)
  also have "\<dots> = find (update m k v) ++ map_of (rev kvs)"
    using Cons.IH[of "update m k v"] Cons.prems ok_update[OF k] by simp
  finally show ?case by (simp add: find_update[OF k] kv map_add_def fun_eq_iff split: option.split)
qed (simp add: load_def)

end

interpretation sm: string_map strmap_ok "\<lambda>k. k \<noteq> []" strmap_find strmap_update
proof unfold_locales
  fix m and k v :: string assume "strmap_ok m" "k \<noteq> []"
  then show "strmap_ok (strmap_update m k v)" "strmap_find (strmap_update m k v) = (strmap_find m)(k \<mapsto> v)"
    using strmap_ok_update strmap_find_update by (auto simp: strmap_ok_def)
qed

lemma strmap_get_find:
  assumes "k \<noteq> []" "m \<noteq> []"
  shows "strmap_get (Some m) (Some k) True n = Some (case strmap_find m k of
      Some v \<Rightarrow> if length v < n then (1, Some v) else (0, None) | None \<Rightarrow> (0, None))"
  using assms by (auto simp: strmap_get_def strmap_index_Some strmap_find_def split: option.split)

lemma strmap_exists_find:
  assumes "k \<noteq> []" "m \<noteq> []"
  shows "strmap_exists (Some m) (Some k) = Some (if strmap_find m k = None then 0 else 1)"
  using assms by (auto simp: strmap_exists_def strmap_index_Some strmap_find_def split: option.split)

definition strmap_load :: "(string \<times> string) list \<Rightarrow> strmap \<Rightarrow> strmap" where
  "strmap_load kvs m = fold (\<lambda>(k, v) m. strmap_update m k v) kvs m"

lemma strmap_load_append: "strmap_load (xs @ ys) m = strmap_load ys (strmap_load xs m)"
  by (simp add: strmap_load_def)

lemma strmap_load_sm: "strmap_load = sm.load"
  by (simp add: fun_eq_iff strmap_load_def sm.load_def)

lemmas strmap_ok_load = sm.ok_load[folded strmap_load_sm]

lemmas strmap_find_load = sm.find_load[folded strmap_load_sm]

lemma strmap_find_new: "0 < n \<Longrightarrow> strmap_find (strmap_new n) = Map.empty"
  using strmap_index_lt[of "strmap_new n"] by (simp add: strmap_find_def strmap_new_def fun_eq_iff)

lemma strmap_count:
  assumes "strmap_ok m"
  shows "strmap_get_count (Some m) = card (dom (strmap_find m))"
proof -
  let ?i = "strmap_index_of m"
  have i: "?i < length m" using assms strmap_index_lt by (simp add: strmap_ok_def)
  have "sum_list (map length m) = (\<Sum>j<length m. length (m ! j))"
    by (simp add: sum_list_sum_nth atLeast0LessThan)
  also have "\<dots> = length (m ! ?i) + (\<Sum>j\<in>{..<length m} - {?i}. length (m ! j))"
    using i by (intro sum.remove) auto
  also have "(\<Sum>j\<in>{..<length m} - {?i}. length (m ! j)) = 0"
    using assms by (intro sum.neutral) (auto simp: strmap_ok_def)
  finally have "strmap_get_count (Some m) = length (m ! ?i)" by (simp add: strmap_get_count_def)
  moreover have "length (m ! ?i) = card (set (map fst (m ! ?i)))"
    using assms distinct_card[of "map fst (m ! ?i)"] by (simp add: strmap_ok_def)
  moreover have "strmap_find m = map_of (m ! ?i)" by (simp add: strmap_find_map_of fun_eq_iff)
  ultimately show ?thesis by (simp add: dom_map_of_conv_image_fst)
qed

lemma strmap_load_length:
  "m \<noteq> [] \<Longrightarrow> \<forall>(k, v) \<in> set kvs. k \<noteq> [] \<Longrightarrow> length (strmap_load kvs m) = length m"
proof (induction kvs arbitrary: m)
  case (Cons kv kvs)
  have "strmap_update m (fst kv) (snd kv) \<noteq> []" "length (strmap_update m (fst kv) (snd kv)) = length m"
    using Cons.prems by (auto simp: strmap_update_eq split: prod.splits)
  with Cons show ?case by (cases kv) (auto simp: strmap_load_def)
qed (simp add: strmap_load_def)

text \<open>The enumeration passes the pairs of the one bucket that is used.\<close>

lemma map_of_concat_one:
  "i < length m \<Longrightarrow> (\<And>j. j < length m \<Longrightarrow> j \<noteq> i \<Longrightarrow> m ! j = []) \<Longrightarrow> concat m = m ! i"
proof (induction m arbitrary: i)
  case (Cons b m)
  show ?case
  proof (cases i)
    case 0
    have "m ! j = []" if "j < length m" for j using Cons.prems(2)[of "Suc j"] that 0 by simp
    then have "\<forall>x \<in> set m. x = []" by (metis in_set_conv_nth)
    then have "concat m = []" by simp
    then show ?thesis using 0 by simp
  next
    case (Suc k)
    have "b = []" using Cons.prems(2)[of 0] Suc by simp
    moreover have "concat m = m ! k"
      using Cons.prems(1) Cons.prems(2)[of "Suc _"] Suc by (intro Cons.IH) auto
    ultimately show ?thesis using Suc by simp
  qed
qed simp

lemma strmap_enum_find: "strmap_ok m \<Longrightarrow> map_of (concat m) = strmap_find m"
  using map_of_concat_one[of "strmap_index_of m" m] strmap_index_lt[of m]
  by (simp add: strmap_ok_def strmap_find_map_of fun_eq_iff)

lemma strmap_enum_keys: "strmap_ok m \<Longrightarrow> fst ` set (concat m) = dom (strmap_find m)"
  using strmap_enum_find[of m] by (metis dom_map_of_conv_image_fst)

end
