(* ===== verification/Strmap_Properties.thy ===== *)
theory Strmap_Properties
  imports Strmap
begin

text \<open>
  The properties of the string map: it is a map from non-empty keys to values, whatever was
  loaded before, although every key hashes to the same bucket.
\<close>

text \<open>C26: after an insertion, a lookup with a buffer that has room gives the inserted value, the
  lookup of every other key is unchanged, and the insertion answers 1.\<close>

theorem strmap_get_put:
  assumes "m \<noteq> []" and "k \<noteq> []" and "k' \<noteq> []"
  shows "\<exists>m'. strmap_put (Some m) (Some k) (Some v) = Some (1, Some m')
    \<and> strmap_get (Some m') (Some k') True n =
        (if k' = k then Some (if length v < n then (1, Some v) else (0, None))
         else strmap_get (Some m) (Some k') True n)"
proof -
  let ?m = "strmap_update m k v"
  have m: "?m \<noteq> []" using assms by (simp add: strmap_update_eq)
  have "strmap_get (Some ?m) (Some k') True n =
      (if k' = k then Some (if length v < n then (1, Some v) else (0, None))
       else strmap_get (Some m) (Some k') True n)"
    by (simp add: strmap_get_find[OF assms(3)] m assms(1) strmap_find_update[OF assms(2,1)])
  then show ?thesis using strmap_put_update[OF assms(2,1)] by blast
qed

theorem strmap_get_put_witness:
  "\<exists>m'. strmap_put (Some (strmap_new 4)) (Some ''a'') (Some ''b'') = Some (1, Some m')
    \<and> strmap_get (Some m') (Some ''a'') True 2 = Some (1, Some ''b'')"
  using strmap_get_put[of "strmap_new 4" "''a''" "''a''" "''b''" 2] by (simp add: strmap_new_def)

text \<open>C27: a map that was created with room and loaded with a list of insertions represents that
  list, the last insertion of a key winning; its count is the number of different keys, and it
  enumerates each of them once.\<close>

theorem strmap_loaded:
  assumes "0 < n" and "\<forall>(k, v) \<in> set kvs. k \<noteq> []"
  shows "strmap_find (strmap_load kvs (strmap_new n)) = map_of (rev kvs)
    \<and> strmap_get_count (Some (strmap_load kvs (strmap_new n))) = card (fst ` set kvs)
    \<and> map_of (snd (strmap_enum (Some (strmap_load kvs (strmap_new n))))) = map_of (rev kvs)"
proof -
  let ?m = "strmap_load kvs (strmap_new n)"
  have ld: "?m = sm.load kvs (strmap_new n)" by (simp add: strmap_load_def sm.load_def)
  have ok: "strmap_ok ?m" unfolding ld by (rule sm.ok_load[OF strmap_ok_new[OF assms(1)] assms(2)])
  have "strmap_find (strmap_new n) = Map.empty"
    using strmap_index_lt[of "strmap_new n"] assms(1)
    by (simp add: strmap_find_def strmap_new_def fun_eq_iff)
  with sm.find_load[OF strmap_ok_new[OF assms(1)] assms(2)]
  have f: "strmap_find ?m = map_of (rev kvs)" by (simp add: ld)
  have "dom (map_of (rev kvs)) = fst ` set kvs" by (simp add: dom_map_of_conv_image_fst)
  then have "strmap_get_count (Some ?m) = card (fst ` set kvs)" using strmap_count[OF ok] f by simp
  moreover have "map_of (concat ?m) = strmap_find ?m" by (rule strmap_enum_find[OF ok])
  ultimately show ?thesis using f by (simp add: strmap_enum_def)
qed

theorem strmap_loaded_witness:
  "strmap_find (strmap_load [(''a'', ''1''), (''b'', ''2''), (''a'', ''3'')] (strmap_new 8)) ''a'' = Some ''3''"
  using strmap_loaded[of 8 "[(''a'', ''1''), (''b'', ''2''), (''a'', ''3'')]"] by simp

text \<open>C28: the hash does not look at the key: every non-empty key goes to one bucket, so all other
  buckets of a map stay empty, and the hash of the empty key is undefined.\<close>

theorem strmap_one_bucket:
  "strmap_hash [] = None \<and> strmap_hash (c # cs) = Some 5381
    \<and> (0 < n \<longrightarrow> (\<forall>(k, v) \<in> set kvs. k \<noteq> []) \<longrightarrow> (\<forall>i < n. i \<noteq> 5381 mod n \<longrightarrow>
         strmap_load kvs (strmap_new n) ! i = []))"
proof -
  have "strmap_load kvs (strmap_new n) ! i = []"
    if n: "0 < n" and k: "\<forall>(k, v) \<in> set kvs. k \<noteq> []" and i: "i < n" "i \<noteq> 5381 mod n" for i
  proof -
    have ld: "strmap_load kvs (strmap_new n) = sm.load kvs (strmap_new n)"
      by (simp add: strmap_load_def sm.load_def)
    have "strmap_ok (strmap_load kvs (strmap_new n))"
      unfolding ld by (rule sm.ok_load[OF strmap_ok_new[OF n] k])
    moreover have "length (strmap_load kvs (strmap_new n)) = n"
      using k strmap_load_length[of "strmap_new n" kvs] by (simp add: strmap_new_def n)
    ultimately show ?thesis using i by (simp add: strmap_ok_def strmap_index_of_def)
  qed
  then show ?thesis by (auto simp: strmap_hash_def)
qed

theorem strmap_one_bucket_witness:
  "strmap_load [(''a'', ''1''), (''b'', ''2'')] (strmap_new 4) ! 0 = []"
  using strmap_one_bucket[where n = 4 and kvs = "[(''a'', ''1''), (''b'', ''2'')]"] by simp

end
