(* ===== verification/Menu.thy ===== *)
theory Menu
  imports Symbol_Set Expr_Dups Expr_Print
begin

text \<open>
  The menu tree of \<open>adk/config/menu.c\<close>: the operations the parser calls while it reads the
  configuration files, and the queries of the front ends. Entries are linked by \<open>menu_next\<close>
  and \<open>menu_list\<close>; a walk along links runs on fuel, the number of entries.
\<close>

subsection \<open>Building the tree\<close>

definition menu_init :: "kconf \<Rightarrow> kconf" where
  "menu_init s = s\<lparr>current_entry := rootmenu, current_menu := rootmenu,
     last_entry_ptr := List_of rootmenu\<rparr>"

definition set_entry_ptr :: "entry_ptr \<Rightarrow> menuref \<Rightarrow> kconf \<Rightarrow> kconf" where
  "set_entry_ptr q m s = (case q of
     List_of k \<Rightarrow> upd_menu k (\<lambda>x. x\<lparr>menu_list := Some m\<rparr>) s
   | Next_of k \<Rightarrow> upd_menu k (\<lambda>x. x\<lparr>menu_next := Some m\<rparr>) s)"

text \<open>\<open>m\<close> becomes \<open>m && MODULES\<close>; without a modules symbol that would be a null symbol.\<close>

primrec menu_check_node :: "symref option \<Rightarrow> expr \<Rightarrow> expr option" where
  "menu_check_node ms (ENot l) = map_option ENot (menu_check_node ms l)"
| "menu_check_node ms (EOr l r) = do {
     l \<leftarrow> menu_check_node ms l; r \<leftarrow> menu_check_node ms r; Some (EOr l r) }"
| "menu_check_node ms (EAnd l r) = do {
     l \<leftarrow> menu_check_node ms l; r \<leftarrow> menu_check_node ms r; Some (EAnd l r) }"
| "menu_check_node ms (ESymbol y) =
     (if y = symbol_mod then do {
        m \<leftarrow> ms;
        expr_alloc_and (Some (ESymbol y)) (Some (expr_alloc_symbol m)) }
      else Some (ESymbol y))"
| "menu_check_node ms (EEqual a b) = Some (EEqual a b)"
| "menu_check_node ms (EUnequal a b) = Some (EUnequal a b)"
| "menu_check_node ms (EList l y) = Some (EList l y)"
| "menu_check_node ms (ERange a b) = Some (ERange a b)"
| "menu_check_node ms ENone = Some ENone"

text \<open>A function on expressions applied to a pointer that may be null.\<close>

definition on_expr :: "(expr \<Rightarrow> expr option) \<Rightarrow> expr option \<Rightarrow> expr option option" where
  "on_expr f e = (case e of None \<Rightarrow> Some None | Some x \<Rightarrow> map_option Some (f x))"

definition menu_check_dep :: "kconf \<Rightarrow> expr option \<Rightarrow> expr option option" where
  "menu_check_dep s e = on_expr (menu_check_node (modules_sym s)) e"

definition menu_add_dep :: "expr option \<Rightarrow> kconf \<Rightarrow> kconf option" where
  "menu_add_dep dep s = do {
     d \<leftarrow> menu_check_dep s dep;
     Some (upd_menu (current_entry s) (\<lambda>x. x\<lparr>menu_dep := expr_alloc_and (menu_dep x) d\<rparr>) s) }"

definition sym_label0 :: "kconf \<Rightarrow> symref \<Rightarrow> string" where
  "sym_label0 s y = (case sym_name (symtab s y) of None \<Rightarrow> ''<choice>'' | Some n \<Rightarrow> n)"

definition menu_set_type :: "symbol_type \<Rightarrow> kconf \<Rightarrow> kconf option" where
  "menu_set_type ty s = do {
     y \<leftarrow> menu_sym (menutab s (current_entry s));
     let old = sym_type (symtab s y);
     Some (if old = ty then s
       else if old = S_UNKNOWN then upd_sym y (\<lambda>x. x\<lparr>sym_type := ty\<rparr>) s
       else menu_warn (current_entry s) (''ignoring type redefinition of '' @ quoted (sym_label0 s y)
         @ '' from '' @ quoted (sym_type_name old) @ '' to '' @ quoted (sym_type_name ty)) s) }"

text \<open>The menus above an entry, innermost first.\<close>

fun menu_parents :: "nat \<Rightarrow> kconf \<Rightarrow> menuref \<Rightarrow> menuref list option" where
  "menu_parents 0 s m = None"
| "menu_parents (Suc n) s m = (case menu_parent (menutab s m) of
     None \<Rightarrow> Some []
   | Some k \<Rightarrow> map_option (\<lambda>ks. k # ks) (menu_parents n s k))"

definition apply_visibilities :: "propref \<Rightarrow> kconf \<Rightarrow> kconf option" where
  "apply_visibilities p s = do {
     ks \<leftarrow> menu_parents (Suc (nmenus s)) s (current_entry s);
     ofold (\<lambda>k s. case menu_visibility (menutab s k) of
         None \<Rightarrow> Some s
       | Some v \<Rightarrow> do {
           dup \<leftarrow> expr_copy v;
           Some (upd_prop p (\<lambda>x. x\<lparr>prop_visible := (prop_visible x)
             \<lparr>ev_expr := expr_alloc_and (ev_expr (prop_visible x)) (Some dup)\<rparr>\<rparr>) s) }) ks s }"

definition menu_add_prop ::
  "prop_type \<Rightarrow> string option \<Rightarrow> expr option \<Rightarrow> expr option \<Rightarrow> kconf \<Rightarrow> (propref \<times> kconf) option"
  where
  "menu_add_prop ty prompt e dep s = do {
     let cur = current_entry s;
     let (p, s) = prop_alloc ty (menu_sym (menutab s cur)) s;
     vis \<leftarrow> menu_check_dep s dep;
     let s = upd_prop p (\<lambda>x. x\<lparr>prop_menu := Some cur, prop_expr := e,
               prop_visible := (prop_visible x)\<lparr>ev_expr := vis\<rparr>\<rparr>) s;
     case prompt of
       None \<Rightarrow> Some (p, s)
     | Some text \<Rightarrow> do {
         let s = (if isspace (char_at text 0) then prop_warn p ''leading whitespace ignored'' s else s);
         let text = dropWhile isspace text;
         let s = (if menu_prompt (menutab s cur) \<noteq> None \<and> cur \<noteq> rootmenu
                  then prop_warn p ''prompt redefined'' s else s);
         s \<leftarrow> (if ty = P_PROMPT then apply_visibilities p s else Some s);
         let s = upd_menu cur (\<lambda>x. x\<lparr>menu_prompt := Some p\<rparr>) s;
         Some (p, upd_prop p (\<lambda>x. x\<lparr>prop_text := Some text\<rparr>) s) }}"

definition menu_add_prompt ::
  "prop_type \<Rightarrow> string \<Rightarrow> expr option \<Rightarrow> kconf \<Rightarrow> (propref \<times> kconf) option" where
  "menu_add_prompt ty prompt dep s = menu_add_prop ty (Some prompt) None dep s"

definition menu_add_visibility :: "expr option \<Rightarrow> kconf \<Rightarrow> kconf" where
  "menu_add_visibility e s = upd_menu (current_entry s)
     (\<lambda>x. x\<lparr>menu_visibility := expr_alloc_and (menu_visibility x) e\<rparr>) s"

definition menu_add_expr :: "prop_type \<Rightarrow> expr option \<Rightarrow> expr option \<Rightarrow> kconf \<Rightarrow> kconf option" where
  "menu_add_expr ty e dep s = map_option snd (menu_add_prop ty None e dep s)"

definition menu_add_symbol :: "prop_type \<Rightarrow> symref \<Rightarrow> expr option \<Rightarrow> kconf \<Rightarrow> kconf option" where
  "menu_add_symbol ty y dep s =
     map_option snd (menu_add_prop ty None (Some (expr_alloc_symbol y)) dep s)"

definition menu_add_select :: "symref \<Rightarrow> expr option \<Rightarrow> expr option \<Rightarrow> kconf \<Rightarrow> kconf option" where
  "menu_add_select y v dep s = do {
     (p, s) \<leftarrow> menu_add_prop P_SELECT None (Some (expr_alloc_symbol y)) dep s;
     Some (upd_prop p (\<lambda>x. x\<lparr>prop_value := v\<rparr>) s) }"

definition menu_add_entry :: "symref option \<Rightarrow> kconf \<Rightarrow> kconf option" where
  "menu_add_entry y s =
     (let m = nmenus s;
          s = s\<lparr>menutab := (menutab s)(m := zero_menu\<lparr>menu_sym := y,
                  menu_parent := Some (current_menu s), menu_file := current_file s,
                  menu_lineno := zconf_lineno s\<rparr>), nmenus := Suc m\<rparr>;
          s = set_entry_ptr (last_entry_ptr s) m s;
          s = s\<lparr>last_entry_ptr := Next_of m, current_entry := m\<rparr>
      in case y of None \<Rightarrow> Some s | Some z \<Rightarrow> menu_add_symbol P_SYMBOL z None s)"

definition menu_end_entry :: "kconf \<Rightarrow> kconf" where
  "menu_end_entry s = s"

definition menu_add_menu :: "kconf \<Rightarrow> kconf" where
  "menu_add_menu s = (let s = menu_end_entry s in
     s\<lparr>last_entry_ptr := List_of (current_entry s), current_menu := current_entry s\<rparr>)"

definition menu_end_menu :: "kconf \<Rightarrow> kconf option" where
  "menu_end_menu s = do {
     k \<leftarrow> menu_parent (menutab s (current_menu s));
     Some (s\<lparr>last_entry_ptr := Next_of (current_menu s), current_menu := k\<rparr>) }"

datatype option_token = T_OPT_MODULES | T_OPT_DEFCONFIG_LIST | T_OPT_ENV | T_OPT_ALLNOCONFIG_Y

definition zconf_error :: "string \<Rightarrow> kconf \<Rightarrow> kconf" where
  "zconf_error msg s = kwarn (or_null (current_file s) @ '':'' @ show_nat 10 (zconf_lineno s)
     @ '': '' @ msg) (s\<lparr>zconfnerrs := Suc (zconfnerrs s)\<rparr>)"

definition menu_add_option ::
  "(string \<Rightarrow> string option) \<Rightarrow> option_token \<Rightarrow> string \<Rightarrow> kconf \<Rightarrow> kconf option" where
  "menu_add_option getenv token arg s = (case token of
     T_OPT_MODULES \<Rightarrow> do {
       y \<leftarrow> menu_sym (menutab s (current_entry s));
       let s = (case modules_sym s of
           None \<Rightarrow> s
         | Some m \<Rightarrow> zconf_error (''symbol '' @ quoted (or_null (sym_name (symtab s y)))
             @ '' redefines option '' @ quoted ''modules'' @ '' already defined by symbol ''
             @ quoted (or_null (sym_name (symtab s m)))) s);
       Some (s\<lparr>modules_sym := Some y\<rparr>) }
   | T_OPT_DEFCONFIG_LIST \<Rightarrow>
       (let y = menu_sym (menutab s (current_entry s)) in
        Some (if sym_defconfig_list s = None then s\<lparr>sym_defconfig_list := y\<rparr>
              else if sym_defconfig_list s \<noteq> y
              then zconf_error ''trying to redefine defconfig symbol'' s else s))
   | T_OPT_ENV \<Rightarrow> prop_add_env getenv arg s
   | T_OPT_ALLNOCONFIG_Y \<Rightarrow> do {
       y \<leftarrow> menu_sym (menutab s (current_entry s));
       Some (set_flag SYMBOL_ALLNOCONFIG_Y y s) })"

subsection \<open>Checks of the properties\<close>

definition menu_validate_number :: "kconf \<Rightarrow> symref \<Rightarrow> symref \<Rightarrow> bool option" where
  "menu_validate_number s y sym2 =
     (let ty = sym_type (symtab s sym2) in
      if ty = S_INT \<or> ty = S_HEX then Some True
      else if ty = S_UNKNOWN then
        (case sym_name (symtab s sym2) of
           Some n \<Rightarrow> Some (sym_string_valid s y n)
         | None \<Rightarrow> if sym_type (symtab s y) = S_STRING then Some True
             else if sym_type (symtab s y) \<in> {S_UNKNOWN, S_OTHER} then Some False else None)
      else Some False)"

definition check_default_prop :: "symref \<Rightarrow> propref \<Rightarrow> kconf \<Rightarrow> kconf option" where
  "check_default_prop y p s = do {
     let ty = sym_type (symtab s y);
     let name = or_null (sym_name (symtab s y));
     e \<leftarrow> prop_expr (proptab s p);
     let s = (if ty \<in> {S_STRING, S_INT, S_HEX} \<and> etype e \<noteq> E_SYMBOL
              then prop_warn p (''default for config symbol '' @ quoted name
                     @ '' must be a single symbol'') s else s);
     if etype e \<noteq> E_SYMBOL then Some s
     else do {
       sym2 \<leftarrow> prop_get_symbol (proptab s p);
       if ty = S_HEX \<or> ty = S_INT then do {
         sym2 \<leftarrow> sym2;
         ok \<leftarrow> menu_validate_number s y sym2;
         Some (if ok then s else prop_warn p (quoted name @ '': number is invalid'') s) }
       else Some s }}"

definition check_select_prop :: "symref \<Rightarrow> propref \<Rightarrow> kconf \<Rightarrow> kconf option" where
  "check_select_prop y p s = do {
     sym2 \<leftarrow> prop_get_symbol (proptab s p);
     if sym_type (symtab s y) \<noteq> S_BOOLEAN \<and> sym_type (symtab s y) \<noteq> S_TRISTATE then
       Some (prop_warn p (''config symbol '' @ quoted (or_null (sym_name (symtab s y)))
         @ '' uses select, but is not boolean or tristate'') s)
     else do {
       sym2 \<leftarrow> sym2;
       let ty2 = sym_type (symtab s sym2);
       let name2 = or_null (sym_name (symtab s sym2));
       case prop_value (proptab s p) of
         None \<Rightarrow> Some (if ty2 \<notin> {S_UNKNOWN, S_BOOLEAN, S_TRISTATE}
           then prop_warn p (quoted name2 @ '' has wrong type. '' @ quoted ''select''
                  @ '' without a value only accepts arguments of boolean and tristate type'') s else s)
       | Some v \<Rightarrow> Some (if ty2 \<in> {S_INT, S_HEX, S_STRING} \<and> etype v \<noteq> E_SYMBOL
           then prop_warn p (''select value for config symbol '' @ quoted name2
                  @ '' must be a single symbol'') s else s) }}"

definition check_range_prop :: "symref \<Rightarrow> propref \<Rightarrow> kconf \<Rightarrow> kconf option" where
  "check_range_prop y p s = do {
     let ty = sym_type (symtab s y);
     let s = (if ty \<noteq> S_INT \<and> ty \<noteq> S_HEX
              then prop_warn p ''range is only allowed for int or hex symbols'' s else s);
     (lo, hi) \<leftarrow> range_syms s p;
     ok1 \<leftarrow> menu_validate_number s y lo;
     ok \<leftarrow> (if ok1 then menu_validate_number s y hi else Some False);
     Some (if ok then s else prop_warn p ''range is invalid'' s) }"

definition sym_check_prop :: "symref \<Rightarrow> kconf \<Rightarrow> kconf option" where
  "sym_check_prop y s = ofold (\<lambda>p s.
     (case prop_type (proptab s p) of
        P_DEFAULT \<Rightarrow> check_default_prop y p s
      | P_SELECT \<Rightarrow> check_select_prop y p s
      | P_RANGE \<Rightarrow> check_range_prop y p s
      | _ \<Rightarrow> Some s)) (sym_prop (symtab s y)) s"

end
