(* ===== verification/Menu_Finalize.thy ===== *)
theory Menu_Finalize
  imports Menu
begin

text \<open>
  \<open>menu_finalize\<close> of \<open>adk/config/menu.c\<close>, one definition per stage: the types of choice
  values, the propagation of dependencies to the entries and their properties, the adoption of
  following entries as an implicit submenu, the registration of choice values, the flattening
  of invisible menus, the checks, and the reverse dependency of the entry itself. The
  recursion is the argument \<open>fin\<close>, and walks along the links of the tree follow them as they
  are at that moment; both run on fuel. The queries of the front ends follow.
\<close>

type_synonym fin_fun = "menuref \<Rightarrow> kconf \<Rightarrow> kconf option"

text \<open>\<open>for (menu = m; menu; menu = menu->next)\<close> with a body that may relink entries.\<close>

fun menu_walk :: "nat \<Rightarrow> (menuref \<Rightarrow> kconf \<Rightarrow> kconf option) \<Rightarrow> menuref option \<Rightarrow> kconf \<Rightarrow> kconf option"
  where
  "menu_walk n f None s = Some s"
| "menu_walk 0 f (Some m) s = None"
| "menu_walk (Suc n) f (Some m) s = do {
     s \<leftarrow> f m s;
     menu_walk n f (menu_next (menutab s m)) s }"

text \<open>The entries of a list as they are linked now.\<close>

fun menu_chain :: "nat \<Rightarrow> kconf \<Rightarrow> menuref option \<Rightarrow> menuref list option" where
  "menu_chain n s None = Some []"
| "menu_chain 0 s (Some m) = None"
| "menu_chain (Suc n) s (Some m) =
     map_option (\<lambda>ms. m # ms) (menu_chain n s (menu_next (menutab s m)))"

definition menu_children :: "kconf \<Rightarrow> menuref \<Rightarrow> menuref list option" where
  "menu_children s m = menu_chain (nmenus s) s (menu_list (menutab s m))"

subsection \<open>Types of choices and their values\<close>

definition fin_choice_type :: "menuref \<Rightarrow> symref \<Rightarrow> kconf \<Rightarrow> kconf option" where
  "fin_choice_type parent y s = do {
     ms \<leftarrow> menu_children s parent;
     let typed = (\<lambda>m. case menu_sym (menutab s m) of None \<Rightarrow> False
       | Some z \<Rightarrow> sym_type (symtab s z) \<noteq> S_UNKNOWN);
     if sym_type (symtab s y) = S_UNKNOWN then
       (let s = s\<lparr>current_entry := parent\<rparr> in
        case List.find typed ms of
          None \<Rightarrow> Some s
        | Some m \<Rightarrow> do {
            z \<leftarrow> menu_sym (menutab s m);
            menu_set_type (sym_type (symtab s z)) s })
     else Some s }"

definition fin_value_types :: "menuref \<Rightarrow> symref \<Rightarrow> kconf \<Rightarrow> kconf option" where
  "fin_value_types parent y s = do {
     ms \<leftarrow> menu_children s parent;
     ofold (\<lambda>m s.
       let s = s\<lparr>current_entry := m\<rparr> in
       case menu_sym (menutab s m) of
         None \<Rightarrow> Some s
       | Some z \<Rightarrow> if sym_type (symtab s z) = S_UNKNOWN
           then menu_set_type (sym_type (symtab s y)) s else Some s) ms s }"

text \<open>The dependency the children inherit.\<close>

definition fin_parentdep :: "menuref \<Rightarrow> kconf \<Rightarrow> (expr option \<times> kconf) option" where
  "fin_parentdep parent s =
     (case menu_sym (menutab s parent) of
        Some y \<Rightarrow>
          if sym_is_choice s y then do {
            s \<leftarrow> fin_choice_type parent y s;
            s \<leftarrow> fin_value_types parent y s;
            Some (Some (expr_alloc_symbol y), s) }
          else Some (case menu_prompt (menutab s parent) of
              Some p \<Rightarrow> ev_expr (prop_visible (proptab s p))
            | None \<Rightarrow> menu_dep (menutab s parent), s)
      | None \<Rightarrow> Some (case menu_prompt (menutab s parent) of
              Some p \<Rightarrow> ev_expr (prop_visible (proptab s p))
            | None \<Rightarrow> menu_dep (menutab s parent), s))"

subsection \<open>Propagation of dependencies\<close>

text \<open>
  Prepending \<open>value\<close>-selects to \<open>val_dep\<close>. The new entry's \<open>tri\<close> is not initialised by the
  code; \<open>junk\<close> is what the allocator left there.
\<close>

definition finalize_select ::
  "tristate \<Rightarrow> symref \<Rightarrow> propref \<Rightarrow> expr option \<Rightarrow> kconf \<Rightarrow> kconf option" where
  "finalize_select junk y p dep s = do {
     es \<leftarrow> prop_get_symbol (proptab s p);
     es \<leftarrow> es;
     c \<leftarrow> on_expr expr_copy dep;
     let d = expr_alloc_and (Some (expr_alloc_symbol y)) c;
     Some (if prop_value (proptab s p) \<noteq> None
       then upd_sym es (\<lambda>x. x\<lparr>val_dep :=
         \<lparr>esv_expr = d, esv_tri = junk, esv_value = prop_value (proptab s p)\<rparr> # val_dep x\<rparr>) s
       else upd_sym es (\<lambda>x. x\<lparr>rev_dep := (rev_dep x)
         \<lparr>ev_expr := expr_alloc_or (ev_expr (rev_dep x)) d\<rparr>\<rparr>) s) }"

text \<open>\<open>expr_eliminate_dups(expr_alloc_and(expr_copy(base), expr_transform(e)))\<close>\<close>

definition propagate_dep :: "kconf \<Rightarrow> expr option \<Rightarrow> expr option \<Rightarrow> expr option option" where
  "propagate_dep s base e = do {
     b \<leftarrow> on_expr expr_copy base;
     on_expr (expr_eliminate_dups (symtab s))
       (expr_alloc_and b (map_option (expr_transform (symtab s)) e)) }"

definition fin_prop ::
  "tristate \<Rightarrow> menuref \<Rightarrow> expr option \<Rightarrow> propref \<Rightarrow> kconf \<Rightarrow> kconf option" where
  "fin_prop junk m basedep p s =
     (if prop_menu (proptab s p) \<noteq> Some m then Some s
      else do {
        dep \<leftarrow> propagate_dep s basedep (ev_expr (prop_visible (proptab s p)));
        let dep = (case menu_sym (menutab s m) of
            Some y \<Rightarrow> if sym_type (symtab s y) \<noteq> S_TRISTATE
              then map_option (expr_trans_bool (symtab s)) dep else dep
          | None \<Rightarrow> dep);
        let s = upd_prop p (\<lambda>x. x\<lparr>prop_visible := (prop_visible x)\<lparr>ev_expr := dep\<rparr>\<rparr>) s;
        if prop_type (proptab s p) = P_SELECT then do {
          y \<leftarrow> menu_sym (menutab s m);
          finalize_select junk y p dep s }
        else Some s })"

definition menu_props :: "kconf \<Rightarrow> menuref \<Rightarrow> propref list" where
  "menu_props s m = (case menu_sym (menutab s m) of
     Some y \<Rightarrow> sym_prop (symtab s y)
   | None \<Rightarrow> (case menu_prompt (menutab s m) of None \<Rightarrow> [] | Some p \<Rightarrow> [p]))"

definition fin_child :: "tristate \<Rightarrow> expr option \<Rightarrow> menuref \<Rightarrow> kconf \<Rightarrow> kconf option" where
  "fin_child junk parentdep m s = do {
     basedep \<leftarrow> propagate_dep s parentdep (menu_dep (menutab s m));
     let s = upd_menu m (\<lambda>x. x\<lparr>menu_dep := basedep\<rparr>) s;
     ofold (fin_prop junk m basedep) (menu_props s m) s }"

definition fin_children :: "fin_fun \<Rightarrow> tristate \<Rightarrow> menuref \<Rightarrow> kconf \<Rightarrow> kconf option" where
  "fin_children fin junk parent s = do {
     (parentdep, s) \<leftarrow> fin_parentdep parent s;
     s \<leftarrow> menu_walk (nmenus s) (fin_child junk parentdep) (menu_list (menutab s parent)) s;
     menu_walk (nmenus s) fin (menu_list (menutab s parent)) s }"

subsection \<open>Implicit submenus\<close>

text \<open>\<open>expr_eliminate_dups(expr_transform(expr_trans_compare(e, E_UNEQUAL, &symbol_no)))\<close>\<close>

definition not_no :: "kconf \<Rightarrow> expr option \<Rightarrow> expr option" where
  "not_no s e = do {
     d \<leftarrow> expr_trans_compare e E_UNEQUAL symbol_no;
     expr_eliminate_dups (symtab s) (expr_transform (symtab s) d) }"

definition entry_dep :: "kconf \<Rightarrow> menuref \<Rightarrow> expr option" where
  "entry_dep s m = (case menu_prompt (menutab s m) of
     Some p \<Rightarrow> ev_expr (prop_visible (proptab s p)) | None \<Rightarrow> menu_dep (menutab s m))"

text \<open>Whether the entry \<open>m\<close> belongs under the entry of the symbol \<open>y\<close>.\<close>

definition belongs_below :: "kconf \<Rightarrow> expr \<Rightarrow> symref \<Rightarrow> menuref \<Rightarrow> bool option" where
  "belongs_below s basedep y m = (case entry_dep s m of
     None \<Rightarrow> Some False
   | Some dep \<Rightarrow>
      if \<not> expr_contains_symbol dep y then Some False
      else if expr_depends_symbol dep y then Some True
      else do {
        d \<leftarrow> not_no s (Some dep);
        d2 \<leftarrow> expr_copy basedep;
        Some (case expr_eliminate_eq d d2 0 of (a, b, _) \<Rightarrow> expr_is_yes (Some b)) })"

fun adopt_loop :: "nat \<Rightarrow> fin_fun \<Rightarrow> expr \<Rightarrow> symref \<Rightarrow> menuref \<Rightarrow> menuref option
    \<Rightarrow> menuref option \<Rightarrow> kconf \<Rightarrow> (menuref option \<times> kconf) option" where
  "adopt_loop n fin basedep y parent None last_menu s = Some (last_menu, s)"
| "adopt_loop 0 fin basedep y parent (Some m) last_menu s = None"
| "adopt_loop (Suc n) fin basedep y parent (Some m) last_menu s = do {
     below \<leftarrow> belongs_below s basedep y m;
     if \<not> below then Some (last_menu, s)
     else do {
       s \<leftarrow> fin m s;
       let s = upd_menu m (\<lambda>x. x\<lparr>menu_parent := Some parent\<rparr>) s;
       adopt_loop n fin basedep y parent (menu_next (menutab s m)) (Some m) s }}"

definition fin_adopt :: "fin_fun \<Rightarrow> menuref \<Rightarrow> symref \<Rightarrow> kconf \<Rightarrow> kconf option" where
  "fin_adopt fin parent y s = do {
     basedep \<leftarrow> not_no s (case menu_prompt (menutab s parent) of
         Some p \<Rightarrow> ev_expr (prop_visible (proptab s p)) | None \<Rightarrow> None);
     (last_menu, s) \<leftarrow> adopt_loop (nmenus s) fin basedep y parent
       (menu_next (menutab s parent)) None s;
     let s = (case last_menu of
         None \<Rightarrow> s
       | Some k \<Rightarrow>
          (let s = upd_menu parent (\<lambda>x. x\<lparr>menu_list := menu_next x\<rparr>) s;
               s = upd_menu parent (\<lambda>x. x\<lparr>menu_next := menu_next (menutab s k)\<rparr>) s
           in upd_menu k (\<lambda>x. x\<lparr>menu_next := None\<rparr>) s));
     Some (upd_sym y (\<lambda>x. x\<lparr>dir_dep := (dir_dep x)
       \<lparr>ev_expr := expr_alloc_or (ev_expr (dir_dep x)) (menu_dep (menutab s parent))\<rparr>\<rparr>) s) }"

subsection \<open>Choice values and invisible menus\<close>

definition warn_value_prop :: "menuref \<Rightarrow> symref \<Rightarrow> propref \<Rightarrow> kconf \<Rightarrow> kconf option" where
  "warn_value_prop m y p s = do {
     let s = (if prop_type (proptab s p) = P_DEFAULT
              then prop_warn p ''defaults for choice values not supported'' s else s);
     if prop_menu (proptab s p) = Some m \<or> prop_type (proptab s p) \<noteq> P_PROMPT then Some s
     else do {
       k \<leftarrow> prop_menu (proptab s p);
       up \<leftarrow> menu_parent (menutab s k);
       Some (if menu_sym (menutab s up) \<noteq> Some y
         then prop_warn p ''choice value used outside its choice group'' s else s) }}"

text \<open>A value that is no tristate, in a tristate choice, depends on the choice being \<open>y\<close>.\<close>

definition require_choice_y :: "symref \<Rightarrow> symref \<Rightarrow> menuref \<Rightarrow> kconf \<Rightarrow> kconf" where
  "require_choice_y y z m s =
     (let basedep = expr_alloc_comp E_EQUAL y symbol_yes;
          s = upd_menu m (\<lambda>x. x\<lparr>menu_dep := expr_alloc_and (Some basedep) (menu_dep x)\<rparr>) s
      in fold (\<lambda>p s. if prop_menu (proptab s p) \<noteq> Some m then s
           else upd_prop p (\<lambda>x. x\<lparr>prop_visible := (prop_visible x)
             \<lparr>ev_expr := expr_alloc_and (expr_copy basedep) (ev_expr (prop_visible x))\<rparr>\<rparr>) s)
         (sym_prop (symtab s z)) s)"

fun list_append :: "expr option \<Rightarrow> symref \<Rightarrow> expr option" where
  "list_append None z = Some (EList None z)"
| "list_append (Some (EList l x)) z = map_option (\<lambda>l'. EList (Some l') x) (list_append l z)"
| "list_append (Some _) z = None"

definition fin_choice_value :: "menuref \<Rightarrow> symref \<Rightarrow> symref \<Rightarrow> kconf \<Rightarrow> kconf option" where
  "fin_choice_value m y z s = do {
     let s = set_flag SYMBOL_CHOICEVAL z (s\<lparr>current_entry := m\<rparr>);
     let s = (if menu_prompt (menutab s m) = None
              then menu_warn m ''choice value must have a prompt'' s else s);
     s \<leftarrow> ofold (warn_value_prop m y) (sym_prop (symtab s z)) s;
     let s = (if sym_type (symtab s y) = S_TRISTATE \<and> sym_type (symtab s z) \<noteq> S_TRISTATE
              then require_choice_y y z m s else s);
     s \<leftarrow> menu_add_symbol P_CHOICE y None s;
     p \<leftarrow> sym_get_choice_prop s y;
     l \<leftarrow> list_append (prop_expr (proptab s p)) z;
     Some (prop_set_expr p (Some l) s) }"

definition fin_flatten :: "menuref \<Rightarrow> menuref \<Rightarrow> kconf \<Rightarrow> kconf option" where
  "fin_flatten parent m s =
     (if menu_list (menutab s m) \<noteq> None
        \<and> (case menu_prompt (menutab s m) of None \<Rightarrow> True
           | Some p \<Rightarrow> prop_text (proptab s p) = None)
      then do {
        ks \<leftarrow> menu_children s m;
        let s = fold (\<lambda>k s. upd_menu k (\<lambda>x. x\<lparr>menu_parent := Some parent\<rparr>) s) ks s;
        let s = upd_menu (last ks) (\<lambda>x. x\<lparr>menu_next := menu_next (menutab s m)\<rparr>) s;
        Some (upd_menu m (\<lambda>x. x\<lparr>menu_next := menu_list x, menu_list := None\<rparr>) s) }
      else Some s)"

definition fin_entry :: "menuref \<Rightarrow> menuref \<Rightarrow> kconf \<Rightarrow> kconf option" where
  "fin_entry parent m s = do {
     s \<leftarrow> (case (menu_sym (menutab s parent), menu_sym (menutab s m)) of
         (Some y, Some z) \<Rightarrow>
           if sym_is_choice s y \<and> \<not> sym_is_choice_value s z then fin_choice_value m y z s
           else Some s
       | _ \<Rightarrow> Some s);
     fin_flatten parent m s }"

subsection \<open>Checks and the reverse dependency of an entry\<close>

definition fin_warn :: "menuref \<Rightarrow> symref \<Rightarrow> kconf \<Rightarrow> kconf option" where
  "fin_warn parent y s =
     (if has_flag SYMBOL_WARNED y s then Some s
      else do {
        let s = (if sym_type (symtab s y) = S_UNKNOWN
                 then menu_warn parent ''config symbol defined without type'' s else s);
        let s = (if sym_is_choice s y \<and> menu_prompt (menutab s parent) = None
                 then menu_warn parent ''choice must have a prompt'' s else s);
        s \<leftarrow> sym_check_prop y s;
        Some (set_flag SYMBOL_WARNED y s) })"

definition fin_rev_dep :: "menuref \<Rightarrow> symref \<Rightarrow> kconf \<Rightarrow> kconf" where
  "fin_rev_dep parent y s = (case menu_prompt (menutab s parent) of
     None \<Rightarrow> s
   | Some p \<Rightarrow>
      if sym_is_optional s y then s
      else
        (let m = expr_alloc_and (ev_expr (prop_visible (proptab s p)))
               (Some (expr_alloc_symbol symbol_mod))
         in upd_sym y (\<lambda>x. x\<lparr>rev_dep := (rev_dep x)\<lparr>ev_expr := expr_alloc_or (ev_expr (rev_dep x)) m\<rparr>,
              val_dep := map (\<lambda>v. v\<lparr>esv_expr := expr_alloc_or (esv_expr v) m\<rparr>) (val_dep x)\<rparr>) s))"

definition menu_finalize_body :: "tristate \<Rightarrow> fin_fun \<Rightarrow> fin_fun" where
  "menu_finalize_body junk fin parent s = do {
     s \<leftarrow> (if menu_list (menutab s parent) \<noteq> None then fin_children fin junk parent s
          else (case menu_sym (menutab s parent) of
              Some y \<Rightarrow> fin_adopt fin parent y s | None \<Rightarrow> Some s));
     s \<leftarrow> menu_walk (nmenus s) (fin_entry parent) (menu_list (menutab s parent)) s;
     case menu_sym (menutab s parent) of
       None \<Rightarrow> Some s
     | Some y \<Rightarrow> do {
         s \<leftarrow> fin_warn parent y s;
         Some (fin_rev_dep parent y s) }}"

primrec menu_finalize :: "nat \<Rightarrow> tristate \<Rightarrow> fin_fun" where
  "menu_finalize 0 junk = (\<lambda>m s. None)"
| "menu_finalize (Suc n) junk = menu_finalize_body junk (menu_finalize n junk)"

subsection \<open>Queries\<close>

definition menu_has_prompt :: "kconf \<Rightarrow> menuref \<Rightarrow> bool" where
  "menu_has_prompt s m \<longleftrightarrow> menu_prompt (menutab s m) \<noteq> None"

text \<open>
  \<open>menu_is_visible\<close>: \<open>vis\<close> is the recursive call, on the children of an entry whose prompt is
  not visible but whose symbol is set.
\<close>

fun any_visible ::
  "(menuref \<Rightarrow> kconf \<Rightarrow> (bool \<times> kconf) option) \<Rightarrow> menuref list \<Rightarrow> kconf \<Rightarrow> (bool \<times> kconf) option"
  where
  "any_visible vis [] s = Some (False, s)"
| "any_visible vis (m # ms) s = do {
     (v, s) \<leftarrow> vis m s;
     if v then Some (True, s) else any_visible vis ms s }"

definition menu_visible_body :: "calc_fun \<Rightarrow> (menuref \<Rightarrow> kconf \<Rightarrow> (bool \<times> kconf) option)
    \<Rightarrow> menuref \<Rightarrow> kconf \<Rightarrow> (bool \<times> kconf) option" where
  "menu_visible_body calc vis m s =
     (case menu_prompt (menutab s m) of
        None \<Rightarrow> Some (False, s)
      | Some p \<Rightarrow> do {
          (g, s) \<leftarrow> expr_calc_value calc (menu_visibility (menutab s m)) s;
          if g = tno then Some (False, s)
          else do {
            (visible, s) \<leftarrow> (case menu_sym (menutab s m) of
                Some y \<Rightarrow> do {
                  s \<leftarrow> calc y s;
                  Some (ev_tri (prop_visible (proptab s p)), s) }
              | None \<Rightarrow> prop_calc_visible calc p s);
            if visible \<noteq> tno then Some (True, s)
            else (case menu_sym (menutab s m) of
                None \<Rightarrow> Some (False, s)
              | Some y \<Rightarrow>
                 if sym_get_tristate_value s y = tno then Some (False, s)
                 else do {
                   ms \<leftarrow> menu_children s m;
                   (v, s) \<leftarrow> any_visible vis ms s;
                   Some (v, if v then set_flag SYMBOL_DEF_USER y s else s) }) }})"

primrec menu_is_visible :: "calc_fun \<Rightarrow> nat \<Rightarrow> menuref \<Rightarrow> kconf \<Rightarrow> (bool \<times> kconf) option" where
  "menu_is_visible calc 0 = (\<lambda>m s. None)"
| "menu_is_visible calc (Suc n) = menu_visible_body calc (menu_is_visible calc n)"

definition menu_is_empty :: "calc_fun \<Rightarrow> nat \<Rightarrow> menuref \<Rightarrow> kconf \<Rightarrow> (bool \<times> kconf) option" where
  "menu_is_empty calc n m s = do {
     ms \<leftarrow> menu_children s m;
     (v, s) \<leftarrow> any_visible (menu_is_visible calc n) ms s;
     Some (\<not> v, s) }"

definition menu_get_prompt :: "kconf \<Rightarrow> menuref \<Rightarrow> string option" where
  "menu_get_prompt s m = (case menu_prompt (menutab s m) of
     Some p \<Rightarrow> prop_text (proptab s p)
   | None \<Rightarrow> (case menu_sym (menutab s m) of Some y \<Rightarrow> sym_name (symtab s y) | None \<Rightarrow> None))"

definition menu_get_root_menu :: "menuref \<Rightarrow> menuref" where
  "menu_get_root_menu m = rootmenu"

text \<open>The innermost menu around an entry, itself included; the root at the latest.\<close>

fun menu_get_parent_menu :: "nat \<Rightarrow> kconf \<Rightarrow> menuref \<Rightarrow> menuref option" where
  "menu_get_parent_menu 0 s m = None"
| "menu_get_parent_menu (Suc n) s m =
     (if m = rootmenu then Some m
      else if (case menu_prompt (menutab s m) of None \<Rightarrow> False
               | Some p \<Rightarrow> prop_type (proptab s p) = P_MENU) then Some m
      else Option.bind (menu_parent (menutab s m)) (menu_get_parent_menu n s))"

definition menu_has_help :: "kconf \<Rightarrow> menuref \<Rightarrow> bool" where
  "menu_has_help s m \<longleftrightarrow> menu_help (menutab s m) \<noteq> None"

definition menu_get_help :: "kconf \<Rightarrow> menuref \<Rightarrow> string" where
  "menu_get_help s m = (case menu_help (menutab s m) of Some h \<Rightarrow> h | None \<Rightarrow> [])"

definition nohelp_text :: string where
  "nohelp_text = ''There is no help available for this option.''"

end
