(* ===== verification/World.thy ===== *)
theory World
  imports Prelude
begin

text \<open>
  The world outside the programs: environment, files, directories, the numbers of \<open>rand\<close>. The
  configuration system and the package tools share it.
\<close>

subsection \<open>The world\<close>

text \<open>
  \<open>w_denied\<close> are the paths that cannot be opened for writing or renamed to; \<open>w_rand\<close> are the
  answers of \<open>rand\<close>, of which \<open>w_rpos\<close> were asked.
\<close>

record world =
  w_env :: "string \<Rightarrow> string option"
  w_files :: "string \<Rightarrow> string option"
  w_dirs :: "string set"
  w_denied :: "string set"
  w_pid :: nat
  w_rand :: "nat \<Rightarrow> nat"
  w_rpos :: nat

definition w_exists :: "world \<Rightarrow> string \<Rightarrow> bool" where
  "w_exists w path \<longleftrightarrow> w_files w path \<noteq> None \<or> path \<in> w_dirs w"

definition w_put :: "string \<Rightarrow> string \<Rightarrow> world \<Rightarrow> world" where
  "w_put path text w = w\<lparr>w_files := (w_files w)(path \<mapsto> text)\<rparr>"

text \<open>\<open>rename\<close>: \<open>None\<close> is its failure.\<close>

definition w_rename :: "string \<Rightarrow> string \<Rightarrow> world \<Rightarrow> world option" where
  "w_rename old new w =
     (case w_files w old of
        None \<Rightarrow> None
      | Some text \<Rightarrow>
         if new \<in> w_denied w \<or> new \<in> w_dirs w then None
         else if old = new then Some w
         else Some (w\<lparr>w_files := (w_files w)(old := None, new := Some text)\<rparr>))"

definition w_next_rand :: "world \<Rightarrow> nat \<times> world" where
  "w_next_rand w = (w_rand w (w_rpos w), w\<lparr>w_rpos := Suc (w_rpos w)\<rparr>)"

text \<open>A failing \<open>rename\<close> whose result is not looked at.\<close>

definition w_try_rename :: "string \<Rightarrow> string \<Rightarrow> world \<Rightarrow> world" where
  "w_try_rename old new w = (case w_rename old new w of None \<Rightarrow> w | Some w \<Rightarrow> w)"

definition w_writable :: "world \<Rightarrow> string \<Rightarrow> bool" where
  "w_writable w path \<longleftrightarrow> path \<notin> w_denied w \<and> path \<notin> w_dirs w"

subsection \<open>Lines\<close>

definition tab :: char where "tab = CHR 0x09"

text \<open>\<open>compat_getline\<close> until the end of the file: every line with its newline, the last one
  perhaps without. A C string ends at a NUL in the line.\<close>

fun file_lines :: "string \<Rightarrow> string list" where
  "file_lines [] = []"
| "file_lines (c # cs) =
     (if c = newline then [newline] # file_lines cs
      else (case file_lines cs of [] \<Rightarrow> [[c]] | l # ls \<Rightarrow> (c # l) # ls))"

definition c_str :: "string \<Rightarrow> string" where
  "c_str = takeWhile (\<lambda>c. c \<noteq> CHR 0x00)"

lemma file_lines_line: "newline \<notin> set l \<Longrightarrow> file_lines (l @ newline # rest) = (l @ [newline]) # file_lines rest"
  by (induction l) auto

lemma file_lines_concat: "concat (file_lines str) = str"
  by (induction str) (auto split: list.splits)

lemma c_str_id: "CHR 0x00 \<notin> set l \<Longrightarrow> c_str l = l"
  unfolding c_str_def by (subst takeWhile_eq_all_conv) auto

lemma file_lines_last: "newline \<notin> set l \<Longrightarrow> l \<noteq> [] \<Longrightarrow> file_lines l = [l]"
proof (induction l)
  case (Cons c l)
  then show ?case by (cases l) auto
qed simp

lemma file_lines_nonempty: "l \<in> set (file_lines str) \<Longrightarrow> l \<noteq> []"
  by (induction str arbitrary: l) (auto split: list.splits if_splits)

end
