(* ===== verification/Confdata.thy ===== *)
theory Confdata
  imports Symbol_Set Menu_Finalize World
begin

text \<open>
  The configuration files (\<open>adk/config/confdata.c\<close>, \<open>zconf_fopen\<close> of the lexer): reading
  \<open>.config\<close>, checking what was read, and giving values to new symbols. \<open>Conf_Write\<close> holds the
  writers. Files and the environment are the record \<open>world\<close>. A result \<open>True\<close> of an \<open>int\<close> function is its failure code 1. Path names are
  taken to fit the buffers of \<open>PATH_MAX\<close> bytes.
\<close>

subsection \<open>Names\<close>

definition CONFIG_prefix :: "world \<Rightarrow> string" where
  "CONFIG_prefix w = (case w_env w ''CONFIG_'' of None \<Rightarrow> [] | Some p \<Rightarrow> p)"

definition conf_get_configname :: "world \<Rightarrow> string" where
  "conf_get_configname w = (case w_env w ''KCONFIG_CONFIG'' of Some n \<Rightarrow> n | None \<Rightarrow> ''.config'')"

definition conf_get_autoconfig_name :: "world \<Rightarrow> string" where
  "conf_get_autoconfig_name w =
     (case w_env w ''KCONFIG_AUTOCONFIG'' of Some n \<Rightarrow> n | None \<Rightarrow> ''include/config/auto.conf'')"

definition zconf_fopen :: "world \<Rightarrow> string \<Rightarrow> string option" where
  "zconf_fopen w name =
     (case w_files w name of
        Some text \<Rightarrow> Some text
      | None \<Rightarrow>
         if char_at name 0 \<noteq> CHR ''/'' then
           (case w_env w ''srctree'' of
              Some env \<Rightarrow> w_files w (env @ ''/'' @ name)
            | None \<Rightarrow> None)
         else None)"

definition conf_warning :: "string \<Rightarrow> kconf \<Rightarrow> kconf" where
  "conf_warning msg s =
     (kwarn (or_null (conf_filename s) @ '':'' @ show_nat 10 (conf_lineno s) @ '':warning: '' @ msg) s)
       \<lparr>conf_warnings := Suc (conf_warnings s)\<rparr>"

text \<open>\<open>conf_message\<close> with the default callback.\<close>

definition conf_message :: "string \<Rightarrow> kconf \<Rightarrow> kconf" where
  "conf_message msg = kwarn (''#'' @ newline # ''# '' @ msg @ newline # ''#'')"

text \<open>One \<open>$NAME\<close> of \<open>conf_expand_value\<close>: an unknown name is entered as a symbol.\<close>

definition conf_expand_name :: "calc_fun \<Rightarrow> string \<Rightarrow> kconf \<Rightarrow> (string \<times> kconf) option" where
  "conf_expand_name calc name s =
     (if length name \<ge> SYMBOL_MAXLENGTH then None
      else do {
        let (y, s) = sym_lookup (Some name) {} s;
        s \<leftarrow> calc y s;
        (v, s) \<leftarrow> sym_get_string_value calc y s;
        str \<leftarrow> str_of v;
        Some (str, s) })"

text \<open>The result is collected in a buffer of \<open>SYMBOL_MAXLENGTH\<close> bytes, which a longer one
  overruns.\<close>

definition fits_buffer :: "string \<Rightarrow> string option" where
  "fits_buffer res = (if length res < SYMBOL_MAXLENGTH then Some res else None)"

function conf_expand_loop ::
  "calc_fun \<Rightarrow> string \<Rightarrow> string \<Rightarrow> kconf \<Rightarrow> (string \<times> kconf) option" where
  "conf_expand_loop calc res str s =
     (case dropWhile (\<lambda>c. c \<noteq> CHR ''$'') str of
        [] \<Rightarrow> Option.bind (fits_buffer (res @ str)) (\<lambda>res. Some (res, s))
      | _ # src \<Rightarrow>
         (case Option.bind (fits_buffer (res @ takeWhile (\<lambda>c. c \<noteq> CHR ''$'') str)) (\<lambda>res. do {
              (symval, s) \<leftarrow> conf_expand_name calc (takeWhile is_ident_char src) s;
              res \<leftarrow> fits_buffer (res @ symval);
              Some (res, s) }) of
            None \<Rightarrow> None
          | Some (res, s) \<Rightarrow> conf_expand_loop calc res (dropWhile is_ident_char src) s))"
  by pat_completeness auto

termination
  by (relation "measure (\<lambda>(calc, res, str, s). length str)")
    (auto dest!: dropWhile_Cons_length intro: le_less_trans[OF length_dropWhile_le])

declare conf_expand_loop.simps [simp del]

definition conf_expand_value :: "calc_fun \<Rightarrow> string \<Rightarrow> kconf \<Rightarrow> (string \<times> kconf) option" where
  "conf_expand_value calc str s = conf_expand_loop calc [] str s"

definition conf_get_default_confname :: "calc_fun \<Rightarrow> world \<Rightarrow> kconf \<Rightarrow> (string \<times> kconf) option" where
  "conf_get_default_confname calc w s = do {
     (name, s) \<leftarrow> conf_expand_value calc ''arch/$ARCH/defconfig'' s;
     Some (case w_env w ''srctree'' of
         Some env \<Rightarrow> if w_exists w (env @ ''/'' @ name) then env @ ''/'' @ name else name
       | None \<Rightarrow> name, s) }"

subsection \<open>Values from a file\<close>

text \<open>The text of a quoted string after its opening quote; \<open>None\<close> if it does not end.\<close>

fun unquote :: "string \<Rightarrow> string option" where
  "unquote [] = None"
| "unquote (c # cs) =
     (if c = dquote then Some []
      else if c = backslash then
        (case cs of [] \<Rightarrow> None | d # ds \<Rightarrow> map_option ((#) d) (unquote ds))
      else map_option ((#) c) (unquote cs))"

text \<open>Failing with a warning, unless the file is \<open>auto.conf\<close>.\<close>

definition conf_reject :: "def_index \<Rightarrow> string \<Rightarrow> kconf \<Rightarrow> bool \<times> kconf" where
  "conf_reject i msg s = (True, if i \<noteq> S_DEF_AUTO then conf_warning msg s else s)"

definition invalid_value :: "kconf \<Rightarrow> symref \<Rightarrow> string \<Rightarrow> string" where
  "invalid_value s y p = ''symbol value '' @ quoted p @ '' invalid for '' @ or_null (sym_name (symtab s y))"

definition conf_store_tri :: "def_index \<Rightarrow> symref \<Rightarrow> tristate \<Rightarrow> kconf \<Rightarrow> bool \<times> kconf" where
  "conf_store_tri i y t s = (False, set_flag (SYMBOL_DEF i) y (set_def_tri i y t s))"

definition conf_store_str :: "def_index \<Rightarrow> symref \<Rightarrow> string \<Rightarrow> kconf \<Rightarrow> bool \<times> kconf" where
  "conf_store_str i y p s =
     (if sym_string_valid s y p then (False, set_flag (SYMBOL_DEF i) y (set_def_val i y (VStr p) s))
      else conf_reject i (invalid_value s y p) s)"

definition conf_store_quoted :: "def_index \<Rightarrow> symref \<Rightarrow> string \<Rightarrow> kconf \<Rightarrow> bool \<times> kconf" where
  "conf_store_quoted i y p s = (case unquote p of
     None \<Rightarrow> conf_reject i ''invalid string found'' s
   | Some p \<Rightarrow> conf_store_str i y p s)"

definition sym_set_type :: "symref \<Rightarrow> symbol_type \<Rightarrow> kconf \<Rightarrow> kconf" where
  "sym_set_type y ty = upd_sym y (\<lambda>x. x\<lparr>sym_type := ty\<rparr>)"

definition conf_set_sym_val :: "symref \<Rightarrow> def_index \<Rightarrow> string \<Rightarrow> kconf \<Rightarrow> bool \<times> kconf" where
  "conf_set_sym_val y i p s =
     (let c = char_at p 0; ty = sym_type (symtab s y) in
      if ty = S_TRISTATE \<or> ty = S_BOOLEAN then
        (if ty = S_TRISTATE \<and> c = CHR ''m'' then conf_store_tri i y tmod s
         else if c = CHR ''y'' then conf_store_tri i y tyes s
         else if c = CHR ''n'' then conf_store_tri i y tno s
         else conf_reject i (invalid_value s y p) s)
      else if ty = S_OTHER then
        (if c \<noteq> dquote then conf_store_str i y p (sym_set_type y S_STRING s)
         else conf_store_quoted i y (drop 1 p) s)
      else if ty = S_STRING then
        (if c \<noteq> dquote then (False, s) else conf_store_quoted i y (drop 1 p) s)
      else if ty = S_INT \<or> ty = S_HEX then conf_store_str i y p s
      else (False, s))"

subsection \<open>Reading the lines of a file\<close>

text \<open>The symbol a line is about. An unknown one in a user's file only counts as a change.\<close>

definition conf_line_sym ::
  "def_index \<Rightarrow> symbol_type \<Rightarrow> string \<Rightarrow> kconf \<Rightarrow> symref option \<times> kconf" where
  "conf_line_sym i ty name s =
     (if i = S_DEF_USER then
        (case sym_find s (Some name) of
           None \<Rightarrow> (None, sym_add_change_count 1 s)
         | Some y \<Rightarrow> (Some y, s))
      else
        (let (y, s) = sym_lookup (Some name) {} s in
         (Some y, if sym_type (symtab s y) = S_UNKNOWN then sym_set_type y ty s else s)))"

definition conf_reassign :: "def_index \<Rightarrow> symref \<Rightarrow> kconf \<Rightarrow> kconf" where
  "conf_reassign i y s =
     (if has_flag (SYMBOL_DEF i) y s
      then conf_warning (''override: reassigning to symbol '' @ or_null (sym_name (symtab s y))) s
      else s)"

text \<open>The label \<open>setsym\<close>: a value of a choice sets the choice.\<close>

definition conf_set_choice :: "def_index \<Rightarrow> symref \<Rightarrow> kconf \<Rightarrow> kconf option" where
  "conf_set_choice i y s =
     (if \<not> sym_is_choice_value s y then Some s
      else do {
        c \<leftarrow> choice_of s y;
        let t = sv_tri (sym_def (symtab s y) i);
        let ct = sv_tri (sym_def (symtab s c) i);
        let name = or_null (sym_name (symtab s y));
        let s = (case t of
            tno \<Rightarrow> s
          | tmod \<Rightarrow>
              if ct = tyes
              then clear_flag (SYMBOL_DEF i) c (conf_warning (name @ '' creates inconsistent choice state'') s)
              else s
          | tyes \<Rightarrow> set_def_val i c (VSym y)
              (if ct \<noteq> tno then conf_warning (''override: '' @ name @ '' changes choice state'') s else s));
        Some (set_def_tri i c (EXPR_OR ct t) s) })"

text \<open>A line that starts with \<open>#\<close>. For a line of one byte the code looks behind its end.\<close>

definition conf_read_unset :: "string \<Rightarrow> def_index \<Rightarrow> string \<Rightarrow> kconf \<Rightarrow> kconf option" where
  "conf_read_unset pre i line s =
     (let t = drop (length pre) (drop 2 line);
          name = takeWhile (\<lambda>c. c \<noteq> CHR '' '') t
      in if length line < 2 then None
         else if \<not> starts_with pre (drop 2 line) \<or> name = t
           \<or> \<not> starts_with ''is not set'' (drop (length name + 1) t) then Some s
         else (case conf_line_sym i S_BOOLEAN name s of
             (None, s) \<Rightarrow> Some s
           | (Some y, s) \<Rightarrow>
               (let s = conf_reassign i y s in
                conf_set_choice i y
                  (if sym_type (symtab s y) = S_BOOLEAN \<or> sym_type (symtab s y) = S_TRISTATE
                   then snd (conf_store_tri i y tno s) else s))))"

text \<open>The value of a line: without its newline, and without a carriage return before it.\<close>

definition chomp :: "string \<Rightarrow> string" where
  "chomp p =
     (let v = takeWhile (\<lambda>c. c \<noteq> newline) p in
      if v = p then p else if v \<noteq> [] \<and> last v = CHR 0x0D then butlast v else v)"

definition conf_read_set :: "string \<Rightarrow> def_index \<Rightarrow> string \<Rightarrow> kconf \<Rightarrow> kconf option" where
  "conf_read_set pre i line s =
     (let t = drop (length pre) line;
          name = takeWhile (\<lambda>c. c \<noteq> CHR ''='') t
      in if name = t then Some s
         else (case conf_line_sym i S_OTHER name s of
             (None, s) \<Rightarrow> Some s
           | (Some y, s) \<Rightarrow>
               (let (failed, s) = conf_set_sym_val y i (chomp (drop (length name + 1) t)) (conf_reassign i y s)
                in if failed then Some s else conf_set_choice i y s)))"

definition conf_read_line :: "string \<Rightarrow> def_index \<Rightarrow> string \<Rightarrow> kconf \<Rightarrow> kconf option" where
  "conf_read_line pre i l s =
     (let line = c_str l;
          s = s\<lparr>conf_lineno := Suc (conf_lineno s)\<rparr>
      in if char_at line 0 = CHR ''#'' then conf_read_unset pre i line s
         else if starts_with pre line then conf_read_set pre i line s
         else Some (if char_at line 0 \<noteq> CHR 0x0D \<and> char_at line 0 \<noteq> newline
                    then conf_warning ''unexpected data'' s else s))"

subsection \<open>Reading a file\<close>

text \<open>The files named by the defaults of \<open>sym_defconfig_list\<close>.\<close>

fun conf_open_defaults :: "calc_fun \<Rightarrow> world \<Rightarrow> propref list \<Rightarrow> kconf
    \<Rightarrow> ((string \<times> string) option \<times> kconf) option" where
  "conf_open_defaults calc w [] s = Some (None, s)"
| "conf_open_defaults calc w (p # ps) s = do {
     (t, s) \<leftarrow> expr_calc_value calc (ev_expr (prop_visible (proptab s p))) s;
     if t = tno then conf_open_defaults calc w ps s
     else do {
       e \<leftarrow> prop_expr (proptab s p);
       case e of
         ESymbol y \<Rightarrow> do {
           name \<leftarrow> sym_name (symtab s y);
           (name, s) \<leftarrow> conf_expand_value calc name s;
           case zconf_fopen w name of
             Some text \<Rightarrow> Some (Some (name, text), conf_message (''using defaults found in '' @ name) s)
           | None \<Rightarrow> conf_open_defaults calc w ps s }
       | _ \<Rightarrow> conf_open_defaults calc w ps s }}"

definition conf_read_open :: "calc_fun \<Rightarrow> world \<Rightarrow> string option \<Rightarrow> kconf
    \<Rightarrow> ((string \<times> string) option \<times> kconf) option" where
  "conf_read_open calc w name s =
     (case name of
        Some n \<Rightarrow> Some (map_option (Pair n) (zconf_fopen w n), s)
      | None \<Rightarrow>
         (case zconf_fopen w (conf_get_configname w) of
            Some text \<Rightarrow> Some (Some (conf_get_configname w, text), s)
          | None \<Rightarrow>
             (let s = sym_add_change_count 1 s in
              case sym_defconfig_list s of
                None \<Rightarrow> do { s \<leftarrow> calc_opt calc (modules_sym s) s; Some (None, s) }
              | Some y \<Rightarrow> conf_open_defaults calc w (props_of_type s y P_DEFAULT) s)))"

text \<open>What the reader does with every symbol before the first line.\<close>

definition conf_reset_sym :: "def_index \<Rightarrow> symref \<Rightarrow> kconf \<Rightarrow> kconf" where
  "conf_reset_sym i y = upd_sym y (\<lambda>x. x\<lparr>
     sym_flags := insert SYMBOL_CHANGED (sym_flags x) - {SYMBOL_DEF i, SYMBOL_VALID}
       \<union> (if SYMBOL_CHOICE \<in> sym_flags x then {SYMBOL_DEF i} else {}),
     sym_def := (sym_def x)(i := \<lparr>sv_val = VNull, sv_tri = tno\<rparr>)\<rparr>)"

definition conf_read_text :: "string \<Rightarrow> def_index \<Rightarrow> string \<Rightarrow> string \<Rightarrow> kconf \<Rightarrow> kconf option" where
  "conf_read_text pre i name text s =
     (let s = s\<lparr>conf_filename := Some name, conf_lineno := 0, conf_warnings := 0, conf_unsaved := 0\<rparr>
      in ofold (conf_read_line pre i) (file_lines text) (fold (conf_reset_sym i) (all_symbols s) s))"

definition conf_read_simple ::
  "calc_fun \<Rightarrow> world \<Rightarrow> string option \<Rightarrow> def_index \<Rightarrow> kconf \<Rightarrow> (bool \<times> kconf) option" where
  "conf_read_simple calc w name i s = do {
     (f, s) \<leftarrow> conf_read_open calc w name s;
     case f of
       None \<Rightarrow> Some (True, s)
     | Some (n, text) \<Rightarrow> do {
         s \<leftarrow> conf_read_text (CONFIG_prefix w) i n text s;
         s \<leftarrow> calc_opt calc (modules_sym s) s;
         Some (False, s) }}"

text \<open>Whether the computed value of a symbol is the one that was read.\<close>

definition conf_value_agrees :: "kconf \<Rightarrow> symref \<Rightarrow> bool option" where
  "conf_value_agrees s y =
     (let ty = sym_type (symtab s y); tri = (ty = S_BOOLEAN \<or> ty = S_TRISTATE) in
      if tri \<and> sv_tri (sym_def (symtab s y) S_DEF_USER) \<noteq> sym_get_tristate_value s y then Some False
      else if tri \<and> \<not> sym_is_choice s y then Some True
      else do {
        a \<leftarrow> str_of (sv_val (sym_curr (symtab s y)));
        b \<leftarrow> str_of (sv_val (sym_def (symtab s y) S_DEF_USER));
        Some (a = b) })"

definition conf_check_saved :: "calc_fun \<Rightarrow> symref \<Rightarrow> kconf \<Rightarrow> kconf option" where
  "conf_check_saved calc y s = do {
     s \<leftarrow> calc y s;
     if sym_is_choice s y \<or> has_flag SYMBOL_AUTO y s then Some s
     else do {
       saved \<leftarrow> (if sym_has_value s y \<and> has_flag SYMBOL_WRITE y s then conf_value_agrees s y
                else Some (\<not> sym_has_value s y \<and> \<not> has_flag SYMBOL_WRITE y s));
       Some (if saved then s else s\<lparr>conf_unsaved := Suc (conf_unsaved s)\<rparr>) }}"

text \<open>\<open>sym_string_within_range\<close> of the value that was read, which may be null.\<close>

definition conf_value_in_range :: "calc_fun \<Rightarrow> symref \<Rightarrow> kconf \<Rightarrow> (bool \<times> kconf) option" where
  "conf_value_in_range calc y s = (case sv_val (sym_def (symtab s y) S_DEF_USER) of
     VStr v \<Rightarrow> sym_string_within_range calc y v s
   | _ \<Rightarrow> if sym_type (symtab s y) = S_STRING then Some (True, s) else None)"

definition conf_drop_stale :: "calc_fun \<Rightarrow> symref \<Rightarrow> kconf \<Rightarrow> kconf option" where
  "conf_drop_stale calc y s =
     (if sym_has_value s y \<and> \<not> sym_is_choice_value s y then
        (let s = (if sym_visible (symtab s y) = tno \<and> conf_unsaved s = 0
                  then clear_flag SYMBOL_DEF_USER y s else s)
         in if sym_type (symtab s y) \<in> {S_STRING, S_INT, S_HEX} then do {
              (ok, s) \<leftarrow> conf_value_in_range calc y s;
              Some (if ok then s
                else (clear_flag SYMBOL_VALID y (clear_flag SYMBOL_DEF_USER y s))
                  \<lparr>conf_unsaved := Suc (conf_unsaved s)\<rparr>) }
            else Some s)
      else Some s)"

definition conf_read :: "calc_fun \<Rightarrow> world \<Rightarrow> string option \<Rightarrow> kconf \<Rightarrow> (bool \<times> kconf) option" where
  "conf_read calc w name s = do {
     (failed, s) \<leftarrow> conf_read_simple calc w name S_DEF_USER (sym_set_change_count 0 s);
     if failed then Some (True, s)
     else do {
       s \<leftarrow> ofold (conf_check_saved calc) (all_symbols s) s;
       s \<leftarrow> ofold (conf_drop_stale calc) (all_symbols s) s;
       Some (False, sym_add_change_count
         (if conf_warnings s \<noteq> 0 \<or> conf_unsaved s \<noteq> 0 then 1 else 0) s) }}"

end
