(* ===== verification/Conf_New.thy ===== *)
theory Conf_New
  imports Confdata
begin

text \<open>
  Giving values to all symbols that have none (\<open>conf_set_all_new_symbols\<close> of
  \<open>adk/config/confdata.c\<close>): yes, mod or no throughout, or random values with the probabilities
  of the environment. A result of \<open>None\<close> is \<open>exit(1)\<close> on a bad probability, or a division by
  the number of values of an empty choice.
\<close>

datatype conf_def_mode = def_default | def_yes | def_mod | def_no | def_random

subsection \<open>Probabilities\<close>

text \<open>
  \<open>strtol(env, &endp, 10)\<close>: the value, which is then cut to an \<open>int\<close>, and where it stopped; a
  text without a number is not consumed.
\<close>

definition strtol_end :: "string \<Rightarrow> string" where
  "strtol_end str =
     (let t = dropWhile isspace str;
          t = (if char_at t 0 = CHR ''-'' \<or> char_at t 0 = CHR ''+'' then drop 1 t else t)
      in if takeWhile isdigit t = [] then str else dropWhile isdigit t)"

definition to_int32 :: "int \<Rightarrow> int" where
  "to_int32 v = (v + 2 ^ 31) mod 2 ^ 32 - 2 ^ 31"

fun prob_values :: "nat \<Rightarrow> string \<Rightarrow> int list option" where
  "prob_values 0 env = Some []"
| "prob_values (Suc n) env =
     (if env = [] then Some []
      else
        (let tmp = to_int32 (strtoll env 10); endp = strtol_end env in
         if 0 \<le> tmp \<and> tmp \<le> 100
         then map_option ((#) tmp) (prob_values n (if char_at endp 0 = CHR '':'' then drop 1 endp else endp))
         else None))"

record probs =
  pby :: int
  pty :: int
  ptm :: int

definition choose_probs :: "int list \<Rightarrow> probs" where
  "choose_probs p = (case p of
     [a] \<Rightarrow> \<lparr>pby = a, pty = a - a div 2, ptm = a div 2\<rparr>
   | [a, b] \<Rightarrow> \<lparr>pby = a + b, pty = a, ptm = b\<rparr>
   | [a, b, c] \<Rightarrow> \<lparr>pby = a, pty = b, ptm = c\<rparr>
   | _ \<Rightarrow> \<lparr>pby = 50, pty = 33, ptm = 33\<rparr>)"

definition conf_probs :: "world \<Rightarrow> conf_def_mode \<Rightarrow> probs option" where
  "conf_probs w mode =
     (if mode = def_random then do {
        p \<leftarrow> prob_values 3 (case w_env w ''KCONFIG_PROBABILITY'' of None \<Rightarrow> [] | Some e \<Rightarrow> e);
        let pr = choose_probs p;
        if pty pr + ptm pr > 100 then None else Some pr }
      else Some (choose_probs []))"

subsection \<open>Values\<close>

text \<open>The random value of a symbol of type \<open>ty\<close>.\<close>

definition random_tri :: "probs \<Rightarrow> symbol_type \<Rightarrow> int \<Rightarrow> tristate" where
  "random_tri pr ty cnt =
     (if ty = S_TRISTATE then
        (if cnt < pty pr then tyes else if cnt < pty pr + ptm pr then tmod else tno)
      else if cnt < pby pr then tyes else tno)"

definition new_tri :: "probs \<Rightarrow> conf_def_mode \<Rightarrow> symref \<Rightarrow> kconf \<Rightarrow> world \<Rightarrow> tristate \<times> world" where
  "new_tri pr mode y s w = (case mode of
     def_yes \<Rightarrow> (tyes, w)
   | def_mod \<Rightarrow> (tmod, w)
   | def_no \<Rightarrow> (if has_flag SYMBOL_ALLNOCONFIG_Y y s then tyes else tno, w)
   | _ \<Rightarrow> (let (r, w) = w_next_rand w in (random_tri pr (sym_type (symtab s y)) (int (r mod 100)), w)))"

definition set_new_sym :: "probs \<Rightarrow> conf_def_mode \<Rightarrow> symref \<Rightarrow> bool \<times> kconf \<times> world
    \<Rightarrow> bool \<times> kconf \<times> world" where
  "set_new_sym pr mode y st = (case st of (changed, s, w) \<Rightarrow>
     if sym_has_value s y \<or> has_flag SYMBOL_VALID y s then st
     else if sym_get_type s y \<noteq> S_BOOLEAN \<and> sym_get_type s y \<noteq> S_TRISTATE then st
     else if mode = def_default then (True, s, w)
     else
       (let (t, w) = new_tri pr mode y s w;
            s = set_def_tri S_DEF_USER y t s
        in (True, if sym_is_choice s y \<and> mode = def_random then s else set_flag SYMBOL_DEF_USER y s, w)))"

subsection \<open>Choices\<close>

text \<open>One value of a choice, at position \<open>i\<close> of its list; \<open>pick\<close> is the position to choose.\<close>

definition randomize_value :: "symref \<Rightarrow> nat \<Rightarrow> nat \<times> symref \<Rightarrow> kconf \<Rightarrow> kconf" where
  "randomize_value c pick p s = (case p of (i, y) \<Rightarrow>
     (let s = (if pick = i then set_def_val S_DEF_USER c (VSym y) (set_def_tri S_DEF_USER y tyes s)
               else set_def_tri S_DEF_USER y tno s)
      in clear_flag SYMBOL_VALID y (set_flag SYMBOL_DEF_USER y s)))"

definition randomize_choice_values :: "symref \<Rightarrow> kconf \<Rightarrow> world \<Rightarrow> (bool \<times> kconf \<times> world) option" where
  "randomize_choice_values c s w =
     (if sym_get_tristate_value s c \<noteq> tyes then Some (False, s, w)
      else do {
        vs \<leftarrow> choice_values s c;
        if vs = [] then None
        else do {
          let (r, w) = w_next_rand w;
          let s = fold (randomize_value c (r mod length vs)) (enumerate 0 vs) s;
          Some (True, clear_flag SYMBOL_VALID c (set_flag SYMBOL_DEF_USER c s), w) }})"

definition set_new_choice :: "calc_fun \<Rightarrow> conf_def_mode \<Rightarrow> symref \<Rightarrow> bool \<times> kconf \<times> world
    \<Rightarrow> (bool \<times> kconf \<times> world) option" where
  "set_new_choice calc mode c st = (case st of (changed, s, w) \<Rightarrow>
     if sym_has_value s c \<or> \<not> sym_is_choice s c then Some st
     else do {
       s \<leftarrow> calc c s;
       if mode = def_random then randomize_choice_values c s w
       else do { s \<leftarrow> set_all_choice_values c s; Some (True, s, w) }})"

definition request_choice :: "symref \<Rightarrow> kconf \<Rightarrow> kconf" where
  "request_choice c s =
     (if sym_is_choice s c \<and> \<not> sym_has_value s c \<or> sym_is_choice_value s c
      then set_flag SYMBOL_NEED_SET_CHOICE_VALUES c s else s)"

definition conf_set_all_new_symbols :: "calc_fun \<Rightarrow> conf_def_mode \<Rightarrow> kconf \<Rightarrow> world
    \<Rightarrow> (bool \<times> kconf \<times> world) option" where
  "conf_set_all_new_symbols calc mode s w = do {
     pr \<leftarrow> conf_probs w mode;
     let (changed, s, w) = fold (set_new_sym pr mode) (all_symbols s) (False, s, w);
     s \<leftarrow> sym_clear_all_valid calc s;
     let s = (if mode \<noteq> def_random then fold request_choice (all_symbols s) s else s);
     ofold (set_new_choice calc mode) (all_symbols s) (changed, s, w) }"

end
