(* ===== verification/Conf_Write.thy ===== *)
theory Conf_Write
  imports Confdata
begin

text \<open>
  Writing configurations (\<open>adk/config/confdata.c\<close>, \<open>file_write_dep\<close> of \<open>util.c\<close>): the printers
  for \<open>.config\<close>, the C header and the tristate file, the walk along the menu tree, and the writers
  with the files they leave behind; and the values given to all new symbols at once.
\<close>

subsection \<open>Printers\<close>

text \<open>The argument of the printers is \<open>skip_unset\<close> for the first one, and not used by the others.\<close>

definition is_tri :: "symbol \<Rightarrow> bool" where
  "is_tri x \<longleftrightarrow> sym_type x = S_BOOLEAN \<or> sym_type x = S_TRISTATE"

definition kconfig_print_symbol :: "string \<Rightarrow> symbol \<Rightarrow> string \<Rightarrow> bool \<Rightarrow> string" where
  "kconfig_print_symbol pre x value skip_unset =
     (if is_tri x \<and> char_at value 0 = CHR ''n'' then
        (if skip_unset then [] else ''# '' @ pre @ or_null (sym_name x) @ '' is not set'' @ [newline])
      else pre @ or_null (sym_name x) @ ''='' @ value @ [newline])"

fun split_nl :: "string \<Rightarrow> string list" where
  "split_nl [] = [[]]"
| "split_nl (c # cs) =
     (if c = newline then [] # split_nl cs
      else (case split_nl cs of [] \<Rightarrow> [[c]] | l # ls \<Rightarrow> (c # l) # ls))"

definition comment_line :: "string \<Rightarrow> string \<Rightarrow> string" where
  "comment_line lead l = lead @ (if l = [] then [] else CHR '' '' # l) @ [newline]"

definition kconfig_print_comment :: "string \<Rightarrow> string" where
  "kconfig_print_comment value = concat (map (comment_line ''#'') (split_nl value))"

definition header_print_symbol :: "string \<Rightarrow> symbol \<Rightarrow> string \<Rightarrow> bool \<Rightarrow> string" where
  "header_print_symbol pre x value arg =
     (let def = ''#define '' @ pre @ or_null (sym_name x) in
      if is_tri x then
        (if char_at value 0 = CHR ''n'' then []
         else def @ (if char_at value 0 = CHR ''m'' then ''_MODULE'' else []) @ '' 1'' @ [newline])
      else if sym_type x = S_HEX then
        def @ '' '' @ (if lacks_hex_prefix value then ''0x'' else []) @ value @ [newline]
      else if sym_type x = S_STRING \<or> sym_type x = S_INT then def @ '' '' @ value @ [newline]
      else [])"

definition header_print_comment :: "string \<Rightarrow> string" where
  "header_print_comment value =
     ''/*'' @ newline # concat (map (comment_line '' *'') (split_nl value)) @ '' */'' @ [newline]"

definition tristate_print_symbol :: "string \<Rightarrow> symbol \<Rightarrow> string \<Rightarrow> bool \<Rightarrow> string" where
  "tristate_print_symbol pre x value arg =
     (if sym_type x = S_TRISTATE \<and> char_at value 0 \<noteq> CHR ''n''
      then pre @ or_null (sym_name x) @ ''='' @ toupper (char_at value 0) # [newline] else [])"

type_synonym print_symbol = "string \<Rightarrow> symbol \<Rightarrow> string \<Rightarrow> bool \<Rightarrow> string"

definition conf_write_symbol :: "calc_fun \<Rightarrow> string \<Rightarrow> print_symbol \<Rightarrow> bool \<Rightarrow> symref \<Rightarrow> kconf
    \<Rightarrow> (string \<times> kconf) option" where
  "conf_write_symbol calc pre printer arg y s =
     (let ty = sym_type (symtab s y) in
      if ty = S_OTHER \<or> ty = S_UNKNOWN then Some ([], s)
      else do {
        (v, s) \<leftarrow> sym_get_string_value calc y s;
        str \<leftarrow> str_of v;
        Some (printer pre (symtab s y)
          (if ty = S_STRING then sym_escape_string_value str else str) arg, s) })"

text \<open>The heading is put together in a buffer of 256 bytes and cut to it.\<close>

definition heading_text :: "string \<Rightarrow> string" where
  "heading_text title = take 255
     (newline # ''Automatically generated file; DO NOT EDIT.'' @ newline # title @ [newline])"

definition conf_write_heading :: "(string \<Rightarrow> string) \<Rightarrow> kconf \<Rightarrow> string option" where
  "conf_write_heading print_comment s = do {
     p \<leftarrow> menu_prompt (menutab s rootmenu);
     Some (print_comment (heading_text (or_null (prop_text (proptab s p))))) }"

subsection \<open>The walk along the menu tree\<close>

text \<open>The next entry above an entry that is the last one in its list; the inner \<open>None\<close> is the
  end of the tree, the outer one the end of the fuel.\<close>

fun menu_up :: "nat \<Rightarrow> kconf \<Rightarrow> menuref \<Rightarrow> menuref option option" where
  "menu_up 0 s m = None"
| "menu_up (Suc n) s m =
     (case menu_parent (menutab s m) of
        None \<Rightarrow> Some None
      | Some p \<Rightarrow>
         (case menu_next (menutab s p) of
            Some q \<Rightarrow> Some (Some q)
          | None \<Rightarrow> menu_up n s p))"

definition menu_advance :: "kconf \<Rightarrow> menuref \<Rightarrow> menuref option option" where
  "menu_advance s m =
     (case menu_list (menutab s m) of
        Some c \<Rightarrow> Some (Some c)
      | None \<Rightarrow>
         (case menu_next (menutab s m) of
            Some q \<Rightarrow> Some (Some q)
          | None \<Rightarrow> menu_up (nmenus s) s m))"

type_synonym out_state = "string \<times> kconf"

fun conf_walk :: "(menuref \<Rightarrow> out_state \<Rightarrow> out_state option) \<Rightarrow> nat \<Rightarrow> menuref option
    \<Rightarrow> out_state \<Rightarrow> out_state option" where
  "conf_walk f 0 m st = None"
| "conf_walk f (Suc n) None st = Some st"
| "conf_walk f (Suc n) (Some m) st = do {
     st \<leftarrow> f m st;
     next \<leftarrow> menu_advance (snd st) m;
     conf_walk f n next st }"

subsection \<open>Writing .config\<close>

definition last_slash :: "string \<Rightarrow> nat option" where
  "last_slash name =
     (case filter (\<lambda>i. name ! i = CHR ''/'') [0..<length name] of [] \<Rightarrow> None | is \<Rightarrow> Some (last is))"

text \<open>The directory part and the base name of the file to write.\<close>

definition conf_write_name :: "world \<Rightarrow> string option \<Rightarrow> string \<times> string" where
  "conf_write_name w name = (case name of
     None \<Rightarrow> ([], conf_get_configname w)
   | Some n \<Rightarrow>
      if n = [] then ([], conf_get_configname w)
      else if n \<in> w_dirs w then (n @ ''/'', conf_get_configname w)
      else (case last_slash n of
          Some i \<Rightarrow> (take (Suc i) n, if drop (Suc i) n \<noteq> [] then drop (Suc i) n else conf_get_configname w)
        | None \<Rightarrow> ([], n)))"

text \<open>One entry of the walk: a heading for a visible entry without a symbol, or the symbol.\<close>

definition conf_write_entry :: "calc_fun \<Rightarrow> string \<Rightarrow> menuref \<Rightarrow> out_state \<Rightarrow> out_state option" where
  "conf_write_entry calc pre m st = (case st of (out, s) \<Rightarrow>
     (case menu_sym (menutab s m) of
        None \<Rightarrow> do {
          (v, s) \<leftarrow> menu_is_visible calc (Suc (nmenus s)) m s;
          Some (if v then out @ newline # ''#'' @ newline # ''# '' @ or_null (menu_get_prompt s m)
                  @ newline # ''#'' @ [newline] else out, s) }
      | Some y \<Rightarrow>
         if sym_is_choice s y then Some (out, s)
         else do {
           s \<leftarrow> calc y s;
           if \<not> has_flag SYMBOL_WRITE y s then Some (out, s)
           else do {
             (text, s) \<leftarrow> conf_write_symbol calc pre kconfig_print_symbol False y (clear_flag SYMBOL_WRITE y s);
             Some (out @ text, s) }}))"

text \<open>The text of the file, from the heading on.\<close>

definition conf_write_text :: "calc_fun \<Rightarrow> string \<Rightarrow> kconf \<Rightarrow> (string \<times> kconf) option" where
  "conf_write_text calc pre s = do {
     h \<leftarrow> conf_write_heading kconfig_print_comment s;
     s \<leftarrow> (if conf_get_changed s then Some s else sym_clear_all_valid calc s);
     conf_walk (conf_write_entry calc pre) (Suc (nmenus s)) (menu_list (menutab s rootmenu)) (h, s) }"

definition conf_written :: "string \<Rightarrow> kconf \<Rightarrow> kconf" where
  "conf_written newname s =
     sym_set_change_count 0 (conf_message (''configuration written to '' @ newname) s)"

definition conf_write :: "calc_fun \<Rightarrow> world \<Rightarrow> string option \<Rightarrow> kconf \<Rightarrow> (bool \<times> kconf \<times> world) option"
  where
  "conf_write calc w name s =
     (let (dirname, basename) = conf_write_name w name;
          newname = dirname @ basename;
          overwrite = (case w_env w ''KCONFIG_OVERWRITECONFIG'' of None \<Rightarrow> False | Some e \<Rightarrow> e \<noteq> []);
          tmpname = dirname @ ''.tmpconfig.'' @ show_nat 10 (w_pid w);
          outname = (if overwrite then newname else tmpname)
      in if \<not> w_writable w outname then Some (True, s, w)
         else do {
           (text, s) \<leftarrow> conf_write_text calc (CONFIG_prefix w) s;
           let w = w_put outname text w;
           if overwrite then Some (False, conf_written newname s, w)
           else (let w = w_try_rename newname (newname @ ''.old'') w in
                 case w_rename tmpname newname w of
                   None \<Rightarrow> Some (True, s, w)
                 | Some w \<Rightarrow> Some (False, conf_written newname s, w)) })"

subsection \<open>Writing a minimal configuration\<close>

text \<open>
  Whether the value of a symbol goes without saying: it cannot be changed, is its default, or is
  the default of its choice. The arguments of \<open>strcmp\<close> are evaluated from left to right.
\<close>

definition conf_is_default :: "calc_fun \<Rightarrow> symref \<Rightarrow> kconf \<Rightarrow> (bool \<times> kconf) option" where
  "conf_is_default calc y s =
     (if \<not> sym_is_changable s y then Some (True, s)
      else do {
        (v, s) \<leftarrow> sym_get_string_value calc y s;
        (d, s) \<leftarrow> sym_get_string_default calc y s;
        v \<leftarrow> str_of v;
        d \<leftarrow> str_of d;
        if v = d then Some (True, s)
        else if \<not> sym_is_choice_value s y then Some (False, s)
        else do {
          cs \<leftarrow> choice_of s y;
          (ds, s) \<leftarrow> sym_choice_default calc cs s;
          Some (\<not> sym_is_optional s cs \<and> ds = Some y \<and> sym_type (symtab s y) = S_BOOLEAN
            \<and> sym_get_tristate_value s y = tyes, s) }})"

definition conf_defconfig_entry :: "calc_fun \<Rightarrow> string \<Rightarrow> menuref \<Rightarrow> out_state \<Rightarrow> out_state option" where
  "conf_defconfig_entry calc pre m st = (case st of (out, s) \<Rightarrow>
     (case menu_sym (menutab s m) of
        None \<Rightarrow> do { (v, s) \<leftarrow> menu_is_visible calc (Suc (nmenus s)) m s; Some (out, s) }
      | Some y \<Rightarrow>
         if sym_is_choice s y then Some (out, s)
         else do {
           s \<leftarrow> calc y s;
           if \<not> has_flag SYMBOL_WRITE y s then Some (out, s)
           else do {
             (skip, s) \<leftarrow> conf_is_default calc y (clear_flag SYMBOL_WRITE y s);
             if skip then Some (out, s)
             else do {
               (text, s) \<leftarrow> conf_write_symbol calc pre kconfig_print_symbol False y s;
               Some (out @ text, s) }}}))"

definition conf_write_defconfig ::
  "calc_fun \<Rightarrow> world \<Rightarrow> string \<Rightarrow> kconf \<Rightarrow> (bool \<times> kconf \<times> world) option" where
  "conf_write_defconfig calc w name s =
     (if \<not> w_writable w name then Some (True, s, w)
      else do {
        s \<leftarrow> sym_clear_all_valid calc s;
        (text, s) \<leftarrow> conf_walk (conf_defconfig_entry calc (CONFIG_prefix w)) (Suc (nmenus s))
          (menu_list (menutab s rootmenu)) ([], s);
        Some (False, s, w_put name text w) })"

subsection \<open>The files of kbuild\<close>

text \<open>The dependency file of \<open>util.c\<close>.\<close>

fun dep_file_lines :: "string list \<Rightarrow> string" where
  "dep_file_lines [] = []"
| "dep_file_lines [f] = tab # f @ [newline]"
| "dep_file_lines (f # fs) = tab # f @ '' '' @ backslash # newline # dep_file_lines fs"

fun env_check_lines :: "world \<Rightarrow> kconf \<Rightarrow> symref list \<Rightarrow> string option" where
  "env_check_lines w s [] = Some []"
| "env_check_lines w s (y # ys) = do {
     p \<leftarrow> sym_get_env_prop s y;
     e \<leftarrow> prop_get_symbol (proptab s p);
     text \<leftarrow> (case e of
         None \<Rightarrow> Some []
       | Some e \<Rightarrow> do {
           name \<leftarrow> sym_name (symtab s e);
           Some (''ifneq '' @ dquote # ''$('' @ name @ '')'' @ dquote # '' '' @ dquote
             # (case w_env w name of None \<Rightarrow> [] | Some v \<Rightarrow> v) @ dquote # newline
             # conf_get_autoconfig_name w @ '': FORCE'' @ newline # ''endif'' @ [newline]) });
     rest \<leftarrow> env_check_lines w s ys;
     Some (text @ rest) }"

definition file_write_dep :: "world \<Rightarrow> kconf \<Rightarrow> string option \<Rightarrow> (bool \<times> world) option" where
  "file_write_dep w s name =
     (if \<not> w_writable w ''..config.tmp'' then Some (True, w)
      else do {
        envs \<leftarrow> env_check_lines w s (expr_list_syms (sym_env_list s));
        let text = ''deps_config := '' @ backslash # newline # dep_file_lines (file_list s)
              @ newline # conf_get_autoconfig_name w @ '': '' @ backslash # newline
              # tab # ''$(deps_config)'' @ newline # newline # envs
              @ newline # ''$(deps_config): ;'' @ [newline];
        Some (False, w_try_rename ''..config.tmp'' (case name of None \<Rightarrow> ''.kconfig.d'' | Some n \<Rightarrow> n)
          (w_put ''..config.tmp'' text w)) })"

text \<open>
  The header of a symbol below \<open>include/config\<close>: its name in lower case with a directory for
  every underscore. The code has changed to that directory; a path that starts with a slash
  (from a name that starts with an underscore) is not below it.
\<close>

definition split_path :: "string \<Rightarrow> string" where
  "split_path name = map (\<lambda>c. if tolower c = CHR ''_'' then CHR ''/'' else tolower c) name @ ''.h''"

definition in_config_dir :: "string \<Rightarrow> string" where
  "in_config_dir path = (if char_at path 0 = CHR ''/'' then path else ''include/config/'' @ path)"

text \<open>Whether the directory of a path exists: \<open>open\<close> and \<open>mkdir\<close> answer \<open>ENOENT\<close> otherwise.\<close>

definition parent_exists :: "world \<Rightarrow> string \<Rightarrow> bool" where
  "parent_exists w path = (case last_slash path of
     None \<Rightarrow> True | Some i \<Rightarrow> i = 0 \<or> take i path \<in> w_dirs w)"

text \<open>The directories on the way, as they are cut out of the path.\<close>

definition path_dirs :: "string \<Rightarrow> string list" where
  "path_dirs path = map (\<lambda>i. take i path) (filter (\<lambda>i. path ! i = CHR ''/'') [0..<length path])"

text \<open>\<open>None\<close>: a directory could not be made; what was made before it stays.\<close>

fun make_dirs :: "string list \<Rightarrow> world \<Rightarrow> bool \<times> world" where
  "make_dirs [] w = (False, w)"
| "make_dirs (d # ds) w =
     (if d = [] then (True, w)
      else if w_exists w (in_config_dir d) then make_dirs ds w
      else if parent_exists w (in_config_dir d) \<and> in_config_dir d \<notin> w_denied w
      then make_dirs ds (w\<lparr>w_dirs := insert (in_config_dir d) (w_dirs w)\<rparr>)
      else (True, w))"

definition split_open :: "string \<Rightarrow> world \<Rightarrow> world option" where
  "split_open path w =
     (let p = in_config_dir path in
      if parent_exists w p \<and> w_writable w p then Some (w_put p [] w) else None)"

text \<open>Emptying the header of a symbol; \<open>True\<close> is the failure.\<close>

definition split_touch :: "string \<Rightarrow> world \<Rightarrow> bool \<times> world" where
  "split_touch path w =
     (case split_open path w of
        Some w \<Rightarrow> (False, w)
      | None \<Rightarrow>
         if parent_exists w (in_config_dir path) then (True, w)
         else (case make_dirs (path_dirs path) w of
             (True, w) \<Rightarrow> (True, w)
           | (False, w) \<Rightarrow>
               (case split_open path w of Some w \<Rightarrow> (False, w) | None \<Rightarrow> (True, w))))"

text \<open>Whether the value of a symbol differs from the one in the last \<open>auto.conf\<close>.\<close>

definition split_changed :: "calc_fun \<Rightarrow> symref \<Rightarrow> kconf \<Rightarrow> (bool \<times> kconf) option" where
  "split_changed calc y s =
     (let ty = sym_type (symtab s y); tri = (ty = S_BOOLEAN \<or> ty = S_TRISTATE); d = sym_def (symtab s y) S_DEF_AUTO
      in if has_flag SYMBOL_AUTO y s \<or> sym_name (symtab s y) = None then Some (False, s)
         else if has_flag SYMBOL_WRITE y s then
           (if has_flag SYMBOL_DEF_AUTO y s then
              (if tri then Some (sym_get_tristate_value s y \<noteq> sv_tri d, s)
               else if ty = S_STRING \<or> ty = S_HEX \<or> ty = S_INT then do {
                 (v, s) \<leftarrow> sym_get_string_value calc y s;
                 v \<leftarrow> str_of v;
                 old \<leftarrow> str_of (sv_val d);
                 Some (v \<noteq> old, s) }
               else Some (True, s))
            else Some (\<not> tri \<or> sym_get_tristate_value s y \<noteq> tno, s))
         else Some (has_flag SYMBOL_DEF_AUTO y s, s))"

fun split_loop :: "calc_fun \<Rightarrow> symref list \<Rightarrow> kconf \<Rightarrow> world \<Rightarrow> (bool \<times> kconf \<times> world) option" where
  "split_loop calc [] s w = Some (False, s, w)"
| "split_loop calc (y # ys) s w = do {
     s \<leftarrow> calc y s;
     (changed, s) \<leftarrow> split_changed calc y s;
     if \<not> changed then split_loop calc ys s w
     else (case split_touch (split_path (or_null (sym_name (symtab s y)))) w of
         (True, w) \<Rightarrow> Some (True, s, w)
       | (False, w) \<Rightarrow> split_loop calc ys s w) }"

definition conf_split_config :: "calc_fun \<Rightarrow> world \<Rightarrow> kconf \<Rightarrow> (bool \<times> kconf \<times> world) option" where
  "conf_split_config calc w s = do {
     (r, s) \<leftarrow> conf_read_simple calc w (Some (conf_get_autoconfig_name w)) S_DEF_AUTO s;
     if ''include/config'' \<notin> w_dirs w then Some (True, s, w)
     else split_loop calc (all_symbols s) s w }"

text \<open>The three outputs of \<open>conf_write_autoconf\<close>: \<open>auto.conf\<close>, \<open>tristate.conf\<close>, the header.\<close>

definition autoconf_symbol :: "calc_fun \<Rightarrow> string \<Rightarrow> symref \<Rightarrow> (string \<times> string \<times> string) \<times> kconf
    \<Rightarrow> ((string \<times> string \<times> string) \<times> kconf) option" where
  "autoconf_symbol calc pre y st = (case st of ((out, tri, hdr), s) \<Rightarrow> do {
     s \<leftarrow> calc y s;
     if \<not> has_flag SYMBOL_WRITE y s \<or> sym_name (symtab s y) = None then Some ((out, tri, hdr), s)
     else do {
       (a, s) \<leftarrow> conf_write_symbol calc pre kconfig_print_symbol True y s;
       (b, s) \<leftarrow> conf_write_symbol calc pre tristate_print_symbol True y s;
       (c, s) \<leftarrow> conf_write_symbol calc pre header_print_symbol False y s;
       Some ((out @ a, tri @ b, hdr @ c), s) }})"

fun rename_all :: "(string \<times> string) list \<Rightarrow> world \<Rightarrow> bool \<times> world" where
  "rename_all [] w = (False, w)"
| "rename_all ((old, new) # rs) w =
     (case w_rename old new w of None \<Rightarrow> (True, w) | Some w \<Rightarrow> rename_all rs w)"

definition env_or :: "world \<Rightarrow> string \<Rightarrow> string \<Rightarrow> string" where
  "env_or w var dflt = (case w_env w var of Some v \<Rightarrow> v | None \<Rightarrow> dflt)"

definition write_autoconf_files ::
  "calc_fun \<Rightarrow> world \<Rightarrow> kconf \<Rightarrow> (bool \<times> kconf \<times> world) option" where
  "write_autoconf_files calc w s =
     (let w1 = w_put ''.tmpconfig'' [] w; w2 = w_put ''.tmpconfig_tristate'' [] w1 in
      if \<not> w_writable w ''.tmpconfig'' then Some (True, s, w)
      else if \<not> w_writable w ''.tmpconfig_tristate'' then Some (True, s, w1)
      else if \<not> w_writable w ''.tmpconfig.h'' then Some (True, s, w2)
      else do {
        a \<leftarrow> conf_write_heading kconfig_print_comment s;
        h \<leftarrow> conf_write_heading header_print_comment s;
        ((out, tri, hdr), s) \<leftarrow>
          ofold (autoconf_symbol calc (CONFIG_prefix w)) (all_symbols s) ((a, a, h), s);
        let w = w_put ''.tmpconfig.h'' hdr (w_put ''.tmpconfig_tristate'' tri (w_put ''.tmpconfig'' out w));
        let (failed, w) = rename_all
          [(''.tmpconfig.h'', env_or w ''KCONFIG_AUTOHEADER'' ''include/generated/autoconf.h''),
           (''.tmpconfig_tristate'', env_or w ''KCONFIG_TRISTATE'' ''include/config/tristate.conf''),
           (''.tmpconfig'', conf_get_autoconfig_name w)] w;
        Some (failed, s, w) })"

definition conf_write_autoconf :: "calc_fun \<Rightarrow> world \<Rightarrow> kconf \<Rightarrow> (bool \<times> kconf \<times> world) option" where
  "conf_write_autoconf calc w s = do {
     s \<leftarrow> sym_clear_all_valid calc s;
     (r, w) \<leftarrow> file_write_dep w s (Some ''include/config/auto.conf.cmd'');
     (failed, s, w) \<leftarrow> conf_split_config calc w s;
     if failed then Some (True, s, w) else write_autoconf_files calc w s }"

end
