(* ===== verification/Conf_Lines.thy ===== *)
theory Conf_Lines
  imports Conf_Write Symbol_User
begin

text \<open>
  Lemmas on the lines of a configuration file: escaping and unquoting, splitting a text into
  lines, and what reading one printed line does.
\<close>

subsection \<open>Escaping\<close>

definition esc :: "char \<Rightarrow> string" where
  "esc c = (if escaped_char c then [backslash, c] else [c])"

lemma escape_plain: "\<forall>c \<in> set p. \<not> escaped_char c \<Longrightarrow> concat (map esc p) = p"
  by (induction p) (simp_all add: esc_def)

lemma escape_loop_concat: "escape_loop res p = res @ concat (map esc p)"
proof (induction res p rule: escape_loop.induct)
  case (1 res p)
  let ?Q = "\<lambda>c. \<not> escaped_char c"
  have t: "concat (map esc (takeWhile ?Q p)) = takeWhile ?Q p"
    by (rule escape_plain) (auto dest: set_takeWhileD)
  have p: "takeWhile ?Q p @ dropWhile ?Q p = p" by simp
  show ?case
  proof (cases "dropWhile ?Q p")
    case Nil
    then have "concat (map esc p) = p" using escape_plain by simp
    then show ?thesis unfolding escape_loop.simps[of res p] Nil by simp
  next
    case (Cons c cs)
    then have c: "escaped_char c" using hd_dropWhile[of ?Q p] by auto
    have "concat (map esc p) = takeWhile ?Q p @ [backslash, c] @ concat (map esc cs)"
      using t p Cons c by (metis append.assoc append_Cons append_Nil concat.simps(2) concat_append
        esc_def list.simps(9) map_append)
    then show ?thesis unfolding escape_loop.simps[of res p] Cons by (simp add: 1[OF Cons])
  qed
qed

lemma escape_eq: "sym_escape_string_value v = dquote # concat (map esc v) @ [dquote]"
  by (simp add: sym_escape_string_value_def escape_loop_concat)

lemma unquote_escaped: "unquote (concat (map esc v) @ dquote # rest) = Some v"
  by (induction v) (simp_all add: esc_def escaped_char_def)

lemma unquote_escape: "unquote (drop 1 (sym_escape_string_value v)) = Some v"
  by (simp add: escape_eq unquote_escaped)

lemma set_escape: "set (sym_escape_string_value v) \<subseteq> insert dquote (insert backslash (set v))"
  by (auto simp: escape_eq esc_def split: if_splits)

subsection \<open>Lines\<close>

lemma takeWhile_until: "c \<notin> set a \<Longrightarrow> takeWhile (\<lambda>x. x \<noteq> c) (a @ c # b) = a"
  by (induction a) auto

lemma chomp_line: "newline \<notin> set v \<Longrightarrow> v = [] \<or> last v \<noteq> CHR 0x0D \<Longrightarrow> chomp (v @ [newline]) = v"
  by (auto simp: chomp_def takeWhile_until)

end
