(* ===== verification/Conf_Demo.thy ===== *)
theory Conf_Demo
  imports Confdata Symbol_Set_Properties
begin

text \<open>The configuration of \<open>Symbol_Properties\<close> with its hash table, and a small world, for the
  witnesses of the configuration files.\<close>

definition demo_conf :: kconf where
  "demo_conf = demo\<lparr>symbol_hash :=
     (\<lambda>b. filter (\<lambda>y. sym_bucket (name_of (sym_name (demo_symtab y))) = b) (map heap_sym [0..<6]))\<rparr>"

lemma demo_conf_fields [simp]:
  "symtab demo_conf = demo_symtab" "nsyms demo_conf = 6" "proptab demo_conf = demo_proptab"
  "modules_sym demo_conf = Some (heap_sym 5)"
  by (simp_all add: demo_conf_def)

lemma demo_conf_same: "same_conf demo demo_conf"
  by (simp add: same_conf_def demo_conf_def lkc_inline_defs)

lemma demo_conf_univ: "sym_univ demo_conf = sym_univ demo"
  by (simp add: sym_univ_def)

lemma demo_conf_hash: "set (symbol_hash demo_conf b) \<subseteq> heap_sym ` {..<6}"
  by (auto simp: demo_conf_def)

lemma demo_conf_ready: "calc_ready demo_conf" "hash_ok demo_conf" "choices_ok demo_conf"
proof -
  show "calc_ready demo_conf"
  proof (rule ready_same[OF demo_ready demo_conf_same])
    show "has_flag SYMBOL_VALID y demo_conf" if "y \<in> {symbol_yes, symbol_mod, symbol_no, symbol_empty}" for y
      using const_valid[OF demo_ready that] by (simp add: has_flag_def)
    show "user_ok demo_conf y" if "y \<in> sym_univ demo" for y
      using sym_wf_user[OF demo_wf[OF that]] by (simp add: user_ok_def lkc_inline_defs)
  qed (simp_all add: has_flag_def)
  show "hash_ok demo_conf"
    using demo_conf_hash unfolding hash_ok_def hash_symbols_def by (auto simp: subset_iff)
  show "choices_ok demo_conf" using demo_set_ok(2) choices_ok_same[OF demo_conf_same] by simp
qed

lemma find_filter: "\<forall>x \<in> set xs. P x \<longrightarrow> Q x \<Longrightarrow> List.find P (filter Q xs) = List.find P xs"
  by (induction xs) auto

lemma demo_conf_find:
  assumes "const_name str = None"
  shows "sym_find demo_conf (Some str) = List.find (\<lambda>y. sym_name (demo_symtab y) = Some str) (map heap_sym [0..<6])"
proof -
  have "sym_find demo_conf (Some str) = List.find (\<lambda>y. sym_name (demo_symtab y) = Some str)
      (filter (\<lambda>y. sym_bucket (name_of (sym_name (demo_symtab y))) = sym_bucket str) (map heap_sym [0..<6]))"
    using assms by (simp add: sym_find_def has_flag_def demo_conf_def upt_rec demo_defs split: if_splits cong: find_cong)
  also have "\<dots> = List.find (\<lambda>y. sym_name (demo_symtab y) = Some str) (map heap_sym [0..<6])"
    by (rule find_filter) (auto simp: name_of_def)
  finally show ?thesis .
qed

definition demo_world :: world where
  "demo_world = \<lparr>w_env = (\<lambda>_. None),
     w_files = [''.config'' \<mapsto> ''FOO=y'' @ newline # ''NUM=7'' @ newline # ''# BAR is not set'' @ [newline]],
     w_dirs = {''include/config''}, w_denied = {}, w_pid = 1, w_rand = (\<lambda>n. n), w_rpos = 0\<rparr>"

end
