(* ===== verification/Conf_File_Properties.thy ===== *)
theory Conf_File_Properties
  imports Conf_Lines Conf_Demo
begin

text \<open>
  The properties of configuration files: what is written is read back, reading returns and keeps
  the configuration well-formed, and the writers leave the files they promise.
\<close>

subsection \<open>One line\<close>

text \<open>Names and prefixes that the reader finds again in a line.\<close>

definition good_name :: "string \<Rightarrow> string \<Rightarrow> bool" where
  "good_name pre name \<longleftrightarrow> name \<noteq> []
     \<and> set (pre @ name) \<inter> {CHR '' '', CHR ''='', newline, CHR 0x00} = {}
     \<and> hd (pre @ name) \<noteq> CHR ''#''"

lemma good_nameD:
  assumes "good_name pre name"
  shows "CHR ''='' \<notin> set name" "CHR '' '' \<notin> set name" "newline \<notin> set (pre @ name)"
    "CHR 0x00 \<notin> set (pre @ name)" "\<exists>c cs. pre @ name = c # cs \<and> c \<noteq> CHR ''#''"
proof -
  show "\<exists>c cs. pre @ name = c # cs \<and> c \<noteq> CHR ''#''"
    using assms by (cases "pre @ name") (auto simp: good_name_def)
qed (use assms in \<open>auto simp: good_name_def\<close>)

lemma read_set_line:
  assumes "good_name pre name" "newline \<notin> set v" "CHR 0x00 \<notin> set v" "v = [] \<or> last v \<noteq> CHR 0x0D"
    and "sym_find s (Some name) = Some y"
  shows "conf_read_line pre S_DEF_USER (pre @ name @ ''='' @ v @ [newline]) s =
    (let (failed, t) = conf_set_sym_val y S_DEF_USER v
       (conf_reassign S_DEF_USER y (s\<lparr>conf_lineno := Suc (conf_lineno s)\<rparr>))
     in if failed then Some t else conf_set_choice S_DEF_USER y t)"
proof -
  note g = good_nameD[OF assms(1)]
  let ?line = "pre @ name @ ''='' @ v @ [newline]"
  let ?s = "s\<lparr>conf_lineno := Suc (conf_lineno s)\<rparr>"
  have c: "c_str ?line = ?line" using g(4) assms(3) by (intro c_str_id) auto
  obtain d ds where d: "pre @ name = d # ds" "d \<noteq> CHR ''#''" using g(5) by blast
  then have l: "?line = d # ds @ ''='' @ v @ [newline]" by (metis append.assoc append_Cons)
  have h: "char_at ?line 0 \<noteq> CHR ''#''" unfolding l using d(2) by (simp add: char_at_def)
  have find: "sym_find ?s (Some name) = Some y"
    using assms(5) by (simp add: sym_find_def has_flag_def split: option.splits)
  have tw: "takeWhile (\<lambda>c. c \<noteq> CHR ''='') (name @ ''='' @ v @ [newline]) = name"
    using takeWhile_until[OF g(1)] by simp
  have "conf_read_line pre S_DEF_USER ?line s = conf_read_set pre S_DEF_USER ?line ?s"
    using h unfolding conf_read_line_def c Let_def by simp
  moreover have dl: "drop (length pre) ?line = name @ ''='' @ v @ [newline]" by simp
  have ls: "conf_line_sym S_DEF_USER S_OTHER name ?s = (Some y, ?s)" by (simp add: conf_line_sym_def find)
  have dn: "drop (length name + 1) (name @ ''='' @ v @ [newline]) = v @ [newline]" by simp
  have "conf_read_set pre S_DEF_USER ?line ?s =
    (let (failed, t) = conf_set_sym_val y S_DEF_USER v (conf_reassign S_DEF_USER y ?s)
     in if failed then Some t else conf_set_choice S_DEF_USER y t)"
    unfolding conf_read_set_def dl Let_def tw ls dn chomp_line[OF assms(2,4)] by simp
  ultimately show ?thesis by simp
qed

lemma read_unset_line:
  assumes "good_name pre name" "sym_find s (Some name) = Some y"
  shows "conf_read_line pre S_DEF_USER (''# '' @ pre @ name @ '' is not set'' @ [newline]) s =
    (let t = conf_reassign S_DEF_USER y (s\<lparr>conf_lineno := Suc (conf_lineno s)\<rparr>)
     in conf_set_choice S_DEF_USER y
       (if sym_type (symtab t y) = S_BOOLEAN \<or> sym_type (symtab t y) = S_TRISTATE
        then snd (conf_store_tri S_DEF_USER y tno t) else t))"
proof -
  note g = good_nameD[OF assms(1)]
  let ?line = "''# '' @ pre @ name @ '' is not set'' @ [newline]"
  let ?s = "s\<lparr>conf_lineno := Suc (conf_lineno s)\<rparr>"
  have c: "c_str ?line = ?line" using g(4) by (intro c_str_id) auto
  have find: "sym_find ?s (Some name) = Some y"
    using assms(2) by (simp add: sym_find_def has_flag_def split: option.splits)
  have tw: "takeWhile (\<lambda>c. c \<noteq> CHR '' '') (name @ '' is not set'' @ [newline]) = name"
    using takeWhile_until[OF g(2), of "''is not set'' @ [newline]"] by simp
  have "conf_read_line pre S_DEF_USER ?line s = conf_read_unset pre S_DEF_USER ?line ?s"
    unfolding conf_read_line_def c Let_def by (simp add: char_at_def)
  also have "drop (length pre) (drop 2 ?line) = name @ '' is not set'' @ [newline]" by simp
  then have "conf_read_unset pre S_DEF_USER ?line ?s = (let t = conf_reassign S_DEF_USER y ?s
     in conf_set_choice S_DEF_USER y
       (if sym_type (symtab t y) = S_BOOLEAN \<or> sym_type (symtab t y) = S_TRISTATE
        then snd (conf_store_tri S_DEF_USER y tno t) else t))"
    unfolding conf_read_unset_def Let_def
    using tw find by (simp add: conf_line_sym_def starts_with_def)
  finally show ?thesis .
qed


subsection \<open>Saving and loading\<close>

text \<open>What a load does not change: the declarations of the symbols.\<close>

definition load_same :: "kconf \<Rightarrow> kconf \<Rightarrow> bool" where
  "load_same t s \<longleftrightarrow> proptab s = proptab t \<and> symbol_hash s = symbol_hash t
     \<and> (\<forall>y. sym_type (symtab s y) = sym_type (symtab t y) \<and> sym_name (symtab s y) = sym_name (symtab t y)
          \<and> sym_prop (symtab s y) = sym_prop (symtab t y)
          \<and> sym_is_choice_value s y = sym_is_choice_value t y
          \<and> has_flag SYMBOL_CONST y s = has_flag SYMBOL_CONST y t)"

lemma load_sameD:
  assumes "load_same t s"
  shows "sym_type (symtab s y) = sym_type (symtab t y)" "sym_name (symtab s y) = sym_name (symtab t y)"
    "sym_is_choice_value s y = sym_is_choice_value t y" "choice_of s y = choice_of t y"
    "sym_find s n = sym_find t n" "sym_string_valid s y v = sym_string_valid t y v"
  using assms
  by (simp_all add: load_same_def choice_of_def sym_get_choice_prop_def props_of_type_def
      sym_find_def sym_string_valid_def split: option.split)

lemma load_same_upd:
  assumes "\<And>x. sym_type (f x) = sym_type x" "\<And>x. sym_name (f x) = sym_name x"
    "\<And>x. sym_prop (f x) = sym_prop x"
    "\<And>x. SYMBOL_CHOICEVAL \<in> sym_flags (f x) \<longleftrightarrow> SYMBOL_CHOICEVAL \<in> sym_flags x"
    "\<And>x. SYMBOL_CONST \<in> sym_flags (f x) \<longleftrightarrow> SYMBOL_CONST \<in> sym_flags x"
  shows "load_same t (upd_sym y f s) = load_same t s"
proof -
  let ?u = "upd_sym y f s"
  have "sym_type (symtab ?u z) = sym_type (symtab s z)" "sym_name (symtab ?u z) = sym_name (symtab s z)"
    "sym_prop (symtab ?u z) = sym_prop (symtab s z)" "sym_is_choice_value ?u z = sym_is_choice_value s z"
    "has_flag SYMBOL_CONST z ?u = has_flag SYMBOL_CONST z s" for z
    by (simp_all add: assms sym_is_choice_value_def has_flag_def)
  then show ?thesis by (simp add: load_same_def) (simp add: upd_sym_def)
qed

lemma load_same_steps [simp]:
  "load_same t (s\<lparr>conf_lineno := n\<rparr>) = load_same t s"
  "load_same t (s\<lparr>conf_filename := f, conf_lineno := n, conf_warnings := n, conf_unsaved := n\<rparr>) = load_same t s"
  "load_same t (conf_warning msg s) = load_same t s"
  "load_same t (conf_reassign i y s) = load_same t s"
  by (simp_all add: load_same_def conf_warning_def kwarn_def conf_reassign_def lkc_inline_defs)

lemma load_same_upds [simp]:
  "load_same t (set_flag (SYMBOL_DEF i) y s) = load_same t s"
  "load_same t (clear_flag (SYMBOL_DEF i) y s) = load_same t s"
  "load_same t (set_def_tri i y v s) = load_same t s"
  "load_same t (set_def_val i y x s) = load_same t s"
  "load_same t (conf_reset_sym i y s) = load_same t s"
  unfolding set_flag_def clear_flag_def set_def_tri_def set_def_val_def conf_reset_sym_def
  by (rule load_same_upd; cases i; simp)+

lemma symtab_set_flag [simp]:
  "symtab (set_flag b y s) z = (if z = y then (symtab s y)\<lparr>sym_flags := insert b (sym_flags (symtab s y))\<rparr> else symtab s z)"
  "symtab (clear_flag b y s) z = (if z = y then (symtab s y)\<lparr>sym_flags := sym_flags (symtab s y) - {b}\<rparr> else symtab s z)"
  "symtab (set_def_tri i y v s) z = (if z = y then (symtab s y)\<lparr>sym_def := (sym_def (symtab s y))(i := (sym_def (symtab s y) i)\<lparr>sv_tri := v\<rparr>)\<rparr> else symtab s z)"
  "symtab (set_def_val i y x s) z = (if z = y then (symtab s y)\<lparr>sym_def := (sym_def (symtab s y))(i := (sym_def (symtab s y) i)\<lparr>sv_val := x\<rparr>)\<rparr> else symtab s z)"
  by (simp_all add: set_flag_def clear_flag_def set_def_tri_def set_def_val_def)

lemma load_same_reset: "load_same t (fold (conf_reset_sym i) ys s) = load_same t s"
  by (induction ys arbitrary: s) simp_all

text \<open>The user value in \<open>s\<close> is the computed value in \<open>t\<close>.\<close>

definition restores :: "kconf \<Rightarrow> symref \<Rightarrow> kconf \<Rightarrow> bool" where
  "restores t y s \<longleftrightarrow> sym_has_value s y
     \<and> (if sym_type (symtab t y) = S_BOOLEAN \<or> sym_type (symtab t y) = S_TRISTATE
        then sv_tri (sym_def (symtab s y) S_DEF_USER) = sym_get_tristate_value t y
        else sv_val (sym_def (symtab s y) S_DEF_USER) = sv_val (sym_curr (symtab t y)))"

text \<open>The symbols whose values survive a file: their name leads back to them, and the value is
  one that the format can hold. The choices of choice values must not be among them.\<close>

definition savable :: "string \<Rightarrow> kconf \<Rightarrow> symref set \<Rightarrow> symref \<Rightarrow> bool" where
  "savable pre t ys y \<longleftrightarrow>
     (\<exists>name. sym_name (symtab t y) = Some name \<and> good_name pre name \<and> sym_find t (Some name) = Some y)
     \<and> (sym_is_choice_value t y \<longrightarrow> (\<exists>c. choice_of t y = Some c \<and> c \<notin> ys))
     \<and> (case sym_type (symtab t y) of
          S_BOOLEAN \<Rightarrow> sym_get_tristate_value t y \<noteq> tmod
        | S_TRISTATE \<Rightarrow> sym_get_tristate_value t y = tmod \<longrightarrow>
            (\<exists>m. modules_sym t = Some m \<and> sym_get_tristate_value t m \<noteq> tno)
        | S_STRING \<Rightarrow> (\<exists>v. sv_val (sym_curr (symtab t y)) = VStr v \<and> newline \<notin> set v \<and> CHR 0x00 \<notin> set v)
        | S_INT \<Rightarrow> (\<exists>v. sv_val (sym_curr (symtab t y)) = VStr v \<and> int_string_valid v)
        | S_HEX \<Rightarrow> (\<exists>v. sv_val (sym_curr (symtab t y)) = VStr v \<and> hex_string_valid v)
        | _ \<Rightarrow> False)"

definition settled :: "kconf \<Rightarrow> bool" where
  "settled t \<longleftrightarrow> (\<forall>m. modules_sym t = Some m \<longrightarrow> has_flag SYMBOL_VALID m t)"

lemma sym_calc_valid: "has_flag SYMBOL_VALID y s \<Longrightarrow> sym_calc y s = Some s"
proof -
  obtain n where "calc_fuel s = Suc n" by (cases "calc_fuel s") (simp_all add: calc_fuel_def)
  then show "has_flag SYMBOL_VALID y s \<Longrightarrow> sym_calc y s = Some s"
    by (simp add: sym_calc_def sym_calc_body_def)
qed

lemma settled_calc: "settled t \<Longrightarrow> calc_opt sym_calc (modules_sym t) t = Some t"
  by (auto simp: settled_def calc_opt_def sym_calc_valid split: option.split)

lemma int_chars: "int_string_valid v \<Longrightarrow> \<forall>c \<in> set v. isdigit c \<or> c = CHR ''-''"
  by (cases v) (auto simp: int_string_valid_def char_at_def split: list.splits if_splits)

lemma hex_chars:
  assumes "hex_string_valid v"
  shows "\<forall>c \<in> set v. isxdigit c \<or> c = CHR ''x'' \<or> c = CHR ''X''"
proof -
  consider "v = []" | a where "v = [a]" | a b w where "v = a # b # w"
    by (metis list.exhaust)
  then show ?thesis
  proof cases
    case (3 a b w)
    have "isxdigit CHR ''0''" by (simp add: isxdigit_def isdigit_def in_range_def)
    with 3 show ?thesis using assms
      by (cases w) (auto simp: hex_string_valid_def char_at_def split: if_splits)
  qed (use assms in \<open>auto simp: hex_string_valid_def char_at_def split: if_splits\<close>)
qed

lemma number_chars:
  assumes "int_string_valid v \<or> hex_string_valid v"
  shows "newline \<notin> set v" "CHR 0x00 \<notin> set v" "v = [] \<or> last v \<noteq> CHR 0x0D"
proof -
  have c: "\<forall>c \<in> set v. isxdigit c \<or> c \<in> {CHR ''-'', CHR ''x'', CHR ''X''}"
    using assms int_chars[of v] hex_chars[of v] by (auto simp: isxdigit_def)
  then show "newline \<notin> set v" "CHR 0x00 \<notin> set v"
    by (auto simp: isxdigit_def isdigit_def in_range_def)
  show "v = [] \<or> last v \<noteq> CHR 0x0D"
  proof (cases "v = []")
    case False
    then have "isxdigit (last v) \<or> last v \<in> {CHR ''-'', CHR ''x'', CHR ''X''}" using c by simp
    then show ?thesis by (auto simp: isxdigit_def isdigit_def in_range_def)
  qed simp
qed

text \<open>What is printed for a savable symbol, and what reading it stores.\<close>

lemma write_string_value:
  assumes "settled t" "savable pre t ys y"
  shows "sym_get_string_value sym_calc y t = Some
    (if sym_type (symtab t y) = S_BOOLEAN \<or> sym_type (symtab t y) = S_TRISTATE
     then VStr (tri_string (sym_get_tristate_value t y)) else sv_val (sym_curr (symtab t y)), t)"
  using assms(2) settled_calc[OF assms(1)]
  by (auto simp: sym_get_string_value_def savable_def split: tristate.split)

text \<open>The state after a line that sets \<open>y\<close>.\<close>

lemma symtab_warning [simp]: "symtab (conf_warning msg s) = symtab s"
  by (simp add: conf_warning_def kwarn_def)

lemma symtab_reassign [simp]: "symtab (conf_reassign i y s) = symtab s"
  by (simp add: conf_reassign_def)

lemma saved_tri:
  assumes "savable pre t ys y" "load_same t s" "tri = sym_get_tristate_value t y"
    "sym_type (symtab t y) = S_BOOLEAN \<or> sym_type (symtab t y) = S_TRISTATE"
  defines "r \<equiv> snd (conf_store_tri S_DEF_USER y tri (conf_reassign S_DEF_USER y (s\<lparr>conf_lineno := Suc (conf_lineno s)\<rparr>)))"
  shows "load_same t r \<and> restores t y r \<and> (\<forall>z. z \<noteq> y \<longrightarrow> symtab r z = symtab s z)"
  using assms(2-4) unfolding r_def
  using load_same_upds(1)[of t S_DEF_USER y]
  by (auto simp: conf_store_tri_def restores_def lkc_inline_defs)

lemma saved_str:
  assumes "savable pre t ys y" "load_same t s" "VStr v = sv_val (sym_curr (symtab t y))"
    "\<not> (sym_type (symtab t y) = S_BOOLEAN \<or> sym_type (symtab t y) = S_TRISTATE)" "sym_string_valid t y v"
  defines "u \<equiv> conf_reassign S_DEF_USER y (s\<lparr>conf_lineno := Suc (conf_lineno s)\<rparr>)"
  shows "\<exists>r. conf_store_str S_DEF_USER y v u = (False, r)
    \<and> load_same t r \<and> restores t y r \<and> (\<forall>z. z \<noteq> y \<longrightarrow> symtab r z = symtab s z)"
proof -
  have u: "load_same t u" "symtab u = symtab s" unfolding u_def using assms(2) by simp_all
  have "sym_string_valid u y v" using assms(5) load_sameD(6)[OF u(1)] by simp
  then show ?thesis using assms(3,4) u
    using load_same_upds(1)[of t S_DEF_USER y]
    by (auto simp: conf_store_str_def restores_def lkc_inline_defs)
qed

lemma saved_line:
  assumes "savable pre t ys y" "settled t" "load_same t s"
  obtains l where
    "conf_write_symbol sym_calc pre kconfig_print_symbol False y t = Some (l @ [newline], t)"
    "newline \<notin> set l"
    "\<exists>r. conf_read_line pre S_DEF_USER (l @ [newline]) s = conf_set_choice S_DEF_USER y r
      \<and> load_same t r \<and> restores t y r \<and> (\<forall>z. z \<noteq> y \<longrightarrow> symtab r z = symtab s z)"
proof -
  obtain name where name: "sym_name (symtab t y) = Some name" "good_name pre name" "sym_find t (Some name) = Some y"
    using assms(1) by (auto simp: savable_def)
  note g = good_nameD[OF name(2)]
  have find: "sym_find s (Some name) = Some y" using name(3) load_sameD(5)[OF assms(3)] by simp
  let ?u = "conf_reassign S_DEF_USER y (s\<lparr>conf_lineno := Suc (conf_lineno s)\<rparr>)"
  let ?ty = "sym_type (symtab t y)"
  have ty: "sym_type (symtab ?u y) = ?ty" using load_sameD(1)[OF assms(3)] by simp
  note w = write_string_value[OF assms(2,1)]
  consider (unset) "?ty = S_BOOLEAN \<or> ?ty = S_TRISTATE" "sym_get_tristate_value t y = tno"
    | (tri) "?ty = S_BOOLEAN \<or> ?ty = S_TRISTATE" "sym_get_tristate_value t y \<noteq> tno"
    | (str) v where "?ty = S_STRING" "sv_val (sym_curr (symtab t y)) = VStr v" "newline \<notin> set v" "CHR 0x00 \<notin> set v"
    | (num) v where "?ty = S_INT \<or> ?ty = S_HEX" "sv_val (sym_curr (symtab t y)) = VStr v" "sym_string_valid t y v"
    using assms(1) unfolding savable_def sym_string_valid_def by (cases ?ty) auto
  then show ?thesis
  proof cases
    case unset
    let ?l = "''# '' @ pre @ name @ '' is not set''"
    have "conf_write_symbol sym_calc pre kconfig_print_symbol False y t = Some (?l @ [newline], t)"
      using w unset name(1)
      by (auto simp: conf_write_symbol_def str_of_def kconfig_print_symbol_def is_tri_def char_at_def or_null_def)
    moreover have "conf_read_line pre S_DEF_USER (?l @ [newline]) s =
      conf_set_choice S_DEF_USER y (snd (conf_store_tri S_DEF_USER y tno ?u))"
      using read_unset_line[OF name(2) find] ty unset(1) by (auto simp: Let_def)
    ultimately show ?thesis using saved_tri[OF assms(1,3) unset(2)[symmetric] unset(1)] g(3) by (intro that) auto
  next
    case tri
    let ?v = "tri_string (sym_get_tristate_value t y)"
    let ?l = "pre @ name @ ''='' @ ?v"
    have v: "newline \<notin> set ?v" "CHR 0x00 \<notin> set ?v" "?v = [] \<or> last ?v \<noteq> CHR 0x0D" "char_at ?v 0 \<noteq> CHR ''n''"
      using tri(2) by (cases "sym_get_tristate_value t y"; simp add: char_at_def)+
    have "conf_write_symbol sym_calc pre kconfig_print_symbol False y t = Some (?l @ [newline], t)"
      using w tri name(1) v(4)
      by (auto simp: conf_write_symbol_def str_of_def kconfig_print_symbol_def or_null_def)
    moreover have "conf_set_sym_val y S_DEF_USER ?v ?u = conf_store_tri S_DEF_USER y (sym_get_tristate_value t y) ?u"
      using tri ty assms(1) by (cases "sym_get_tristate_value t y")
        (auto simp: conf_set_sym_val_def savable_def char_at_def)
    ultimately show ?thesis
      using saved_tri[OF assms(1,3) refl tri(1)] read_set_line[OF name(2) v(1-3) find] g(3) v(1)
      by (intro that[of ?l]) (auto simp: conf_store_tri_def)
  next
    case str
    let ?v = "sym_escape_string_value v"
    let ?l = "pre @ name @ ''='' @ ?v"
    have v: "newline \<notin> set ?v" "CHR 0x00 \<notin> set ?v" "?v = [] \<or> last ?v \<noteq> CHR 0x0D"
      using set_escape[of v] str(3,4) by (auto simp: escape_eq)
    have l: "conf_write_symbol sym_calc pre kconfig_print_symbol False y t = Some (?l @ [newline], t)"
      using w str name(1)
      by (auto simp: conf_write_symbol_def str_of_def kconfig_print_symbol_def is_tri_def or_null_def)
    moreover have "conf_set_sym_val y S_DEF_USER ?v ?u = conf_store_str S_DEF_USER y v ?u"
      using str(1) ty unquote_escape[of v]
      by (simp add: conf_set_sym_val_def conf_store_quoted_def char_at_def escape_eq)
    moreover obtain r where r: "conf_store_str S_DEF_USER y v ?u = (False, r)"
      "load_same t r \<and> restores t y r \<and> (\<forall>z. z \<noteq> y \<longrightarrow> symtab r z = symtab s z)"
      using saved_str[OF assms(1,3) str(2)[symmetric]] str(1) by (auto simp: sym_string_valid_def)
    ultimately have "conf_read_line pre S_DEF_USER (?l @ [newline]) s = conf_set_choice S_DEF_USER y r"
      using read_set_line[OF name(2) v(1-3) find] by simp
    then show ?thesis using l r(2) g(3) v(1) by (intro that[of ?l]) auto
  next
    case num
    let ?l = "pre @ name @ ''='' @ v"
    have v: "newline \<notin> set v" "CHR 0x00 \<notin> set v" "v = [] \<or> last v \<noteq> CHR 0x0D"
      using number_chars[of v] num(1,3) by (auto simp: sym_string_valid_def)
    have l: "conf_write_symbol sym_calc pre kconfig_print_symbol False y t = Some (?l @ [newline], t)"
      using w num name(1)
      by (auto simp: conf_write_symbol_def str_of_def kconfig_print_symbol_def is_tri_def or_null_def)
    moreover have "conf_set_sym_val y S_DEF_USER v ?u = conf_store_str S_DEF_USER y v ?u"
      using num(1) ty by (auto simp: conf_set_sym_val_def)
    moreover obtain r where r: "conf_store_str S_DEF_USER y v ?u = (False, r)"
      "load_same t r \<and> restores t y r \<and> (\<forall>z. z \<noteq> y \<longrightarrow> symtab r z = symtab s z)"
      using saved_str[OF assms(1,3) num(2)[symmetric] _ num(3)] num(1) by auto
    ultimately have "conf_read_line pre S_DEF_USER (?l @ [newline]) s = conf_set_choice S_DEF_USER y r"
      using read_set_line[OF name(2) v(1-3) find] by simp
    then show ?thesis using l r(2) g(3) v(1) by (intro that[of ?l]) auto
  qed
qed

lemma set_choice_other:
  assumes "savable pre t ys y" "load_same t r" "restores t y r" "y \<in> ys"
  obtains s where "conf_set_choice S_DEF_USER y r = Some s" "load_same t s" "restores t y s"
    "\<forall>z \<in> ys. symtab s z = symtab r z"
proof (cases "sym_is_choice_value r y")
  case False
  then show ?thesis using that[of r] assms(2,3) by (simp add: conf_set_choice_def)
next
  case True
  then obtain c where c: "choice_of r y = Some c" "c \<notin> ys"
    using assms(1) load_sameD(3,4)[OF assms(2)] by (auto simp: savable_def)
  obtain s where s: "conf_set_choice S_DEF_USER y r = Some s" "load_same t s"
    "\<forall>z. z \<noteq> c \<longrightarrow> symtab s z = symtab r z"
    using True c(1) assms(2)
    using load_same_upds(2)[of t S_DEF_USER c]
    by (auto simp: conf_set_choice_def Let_def split: tristate.split)
  then have "symtab s y = symtab r y" using c(2) assms(4) by (cases "y = c") simp_all
  then have "restores t y s" using assms(3) by (simp add: restores_def lkc_inline_defs)
  moreover have "symtab s z = symtab r z" if "z \<in> ys" for z
    using s(3) c(2) that by (cases "z = c") simp_all
  ultimately show ?thesis using that[of s] s(1,2) by simp
qed

text \<open>What is printed for one symbol after the other.\<close>

definition save_symbols :: "string \<Rightarrow> symref list \<Rightarrow> kconf \<Rightarrow> (string \<times> kconf) option" where
  "save_symbols pre ys t = ofold (\<lambda>y (out, t). do {
     (l, t) \<leftarrow> conf_write_symbol sym_calc pre kconfig_print_symbol False y t;
     Some (out @ l, t) }) ys ([], t)"

lemma save_lines:
  assumes "\<forall>y \<in> set ys. savable pre t zs y" "settled t"
  shows "\<exists>ls. ofold (\<lambda>y (out, t). do {
     (l, t) \<leftarrow> conf_write_symbol sym_calc pre kconfig_print_symbol False y t;
     Some (out @ l, t) }) ys (out, t) = Some (out @ concat ls, t)
   \<and> list_all2 (\<lambda>y l. conf_write_symbol sym_calc pre kconfig_print_symbol False y t = Some (l, t)) ys ls"
  using assms(1)
proof (induction ys arbitrary: out)
  case (Cons y ys)
  have "load_same t t" by (simp add: load_same_def)
  then obtain k where "conf_write_symbol sym_calc pre kconfig_print_symbol False y t = Some (k @ [newline], t)"
    using saved_line[OF _ assms(2), of pre zs y t] Cons.prems by (metis list.set_intros(1))
  then obtain l where l: "conf_write_symbol sym_calc pre kconfig_print_symbol False y t = Some (l, t)" by blast
  obtain ls where ls: "ofold (\<lambda>y (out, t). do {
     (l, t) \<leftarrow> conf_write_symbol sym_calc pre kconfig_print_symbol False y t;
     Some (out @ l, t) }) ys (out @ l, t) = Some ((out @ l) @ concat ls, t)"
    "list_all2 (\<lambda>y l. conf_write_symbol sym_calc pre kconfig_print_symbol False y t = Some (l, t)) ys ls"
    using Cons.IH[of "out @ l"] Cons.prems by auto
  then show ?case using l by (intro exI[of _ "l # ls"]) simp
qed simp

lemma load_lines:
  assumes "\<forall>y \<in> set ys. savable pre t zs y" "settled t" "distinct ys" "set ys \<subseteq> zs"
    and "list_all2 (\<lambda>y l. conf_write_symbol sym_calc pre kconfig_print_symbol False y t = Some (l, t)) ys ls"
    and "load_same t s"
  shows "\<exists>s'. ofold (conf_read_line pre S_DEF_USER) (file_lines (concat ls)) s = Some s'
    \<and> (\<forall>y \<in> set ys. restores t y s') \<and> (\<forall>y \<in> zs - set ys. symtab s' y = symtab s y)"
  using assms(1,3-6)
proof (induction ys arbitrary: ls s)
  case (Cons y ys)
  from Cons.prems(4) obtain k ls' where ls: "ls = k # ls'"
    "conf_write_symbol sym_calc pre kconfig_print_symbol False y t = Some (k, t)"
    "list_all2 (\<lambda>y l. conf_write_symbol sym_calc pre kconfig_print_symbol False y t = Some (l, t)) ys ls'"
    by (auto simp: list_all2_Cons1)
  have y: "savable pre t zs y" "y \<in> zs" using Cons.prems(1,3) by simp_all
  from saved_line[OF y(1) assms(2) Cons.prems(5)] ls(2) obtain l r where l: "k = l @ [newline]" "newline \<notin> set l"
    "conf_read_line pre S_DEF_USER k s = conf_set_choice S_DEF_USER y r"
    "load_same t r" "restores t y r" "\<forall>z. z \<noteq> y \<longrightarrow> symtab r z = symtab s z" by (metis option.inject prod.inject)
  from set_choice_other[OF y(1) l(4,5) y(2)] obtain u where u: "conf_set_choice S_DEF_USER y r = Some u"
    "load_same t u" "restores t y u" "\<forall>z \<in> zs. symtab u z = symtab r z" by blast
  from Cons.IH[OF _ _ _ ls(3) u(2)] Cons.prems(1-3) obtain s' where
    s': "ofold (conf_read_line pre S_DEF_USER) (file_lines (concat ls')) u = Some s'"
    "\<forall>y \<in> set ys. restores t y s'" "\<forall>z \<in> zs - set ys. symtab s' z = symtab u z" by auto
  have "restores t y s'" using u(3) s'(3) y(2) Cons.prems(2) by (simp add: restores_def lkc_inline_defs)
  moreover have "\<forall>z \<in> zs - set (y # ys). symtab s' z = symtab s z" using s'(3) u(4) l(6) by auto
  moreover have "file_lines (concat ls) = k # file_lines (concat ls')"
    using file_lines_line[OF l(2)] by (simp add: ls(1) l(1))
  ultimately show ?case using s'(1,2) l(3) u(1) by simp
qed simp

text \<open>C2: saving and loading: the lines that are printed for symbols with a value, one after the
  other, are read back into user values that are these values. This holds for every value of a
  boolean, tristate, integer or hexadecimal symbol and for every string without a newline or
  NUL (other characters are escaped), and whatever the state was before the load.\<close>

theorem conf_save_load:
  assumes "\<forall>y \<in> set ys. savable pre t (set ys) y" and "distinct ys" and "settled t" and "load_same t s"
  shows "\<exists>out s'. save_symbols pre ys t = Some (out, t)
    \<and> conf_read_text pre S_DEF_USER n out s = Some s' \<and> (\<forall>y \<in> set ys. restores t y s')"
proof -
  obtain ls where ls: "save_symbols pre ys t = Some (concat ls, t)"
    "list_all2 (\<lambda>y l. conf_write_symbol sym_calc pre kconfig_print_symbol False y t = Some (l, t)) ys ls"
    using save_lines[OF assms(1,3), of "[]"] by (auto simp: save_symbols_def)
  let ?s = "s\<lparr>conf_filename := Some n, conf_lineno := 0, conf_warnings := 0, conf_unsaved := 0\<rparr>"
  have "load_same t (fold (conf_reset_sym S_DEF_USER) (all_symbols ?s) ?s)"
    using assms(4) by (simp add: load_same_reset)
  from load_lines[OF assms(1,3,2) subset_refl ls(2) this] ls(1)
  show ?thesis by (auto simp: conf_read_text_def Let_def)
qed

definition demo_saved :: kconf where
  "demo_saved = demo_conf\<lparr>symtab := demo_symtab(
     heap_sym 0 := (demo_symtab (heap_sym 0))\<lparr>sym_curr := \<lparr>sv_val = VNull, sv_tri = tyes\<rparr>\<rparr>,
     heap_sym 2 := (demo_symtab (heap_sym 2))\<lparr>sym_curr := \<lparr>sv_val = VStr ''7'', sv_tri = tno\<rparr>\<rparr>,
     heap_sym 5 := (demo_symtab (heap_sym 5))\<lparr>sym_flags := {SYMBOL_VALID}\<rparr>)\<rparr>"

lemma demo_load_same: "load_same demo_saved demo_conf"
  by (simp add: load_same_def demo_saved_def demo_conf_def lkc_inline_defs demo_defs)

lemma demo_savable: "savable [] demo_saved ys (heap_sym i)" if "i = 0 \<or> i = 2"
proof -
  have n: "sym_name (symtab demo_saved (heap_sym i)) = Some (if i = 0 then ''FOO'' else ''NUM'')"
    using that by (auto simp: demo_saved_def demo_defs)
  have "sym_find demo_saved (Some (if i = 0 then ''FOO'' else ''NUM'')) = Some (heap_sym i)"
    unfolding load_sameD(5)[OF demo_load_same, symmetric] using that
    by (auto simp: demo_conf_find const_name_def upt_rec demo_defs)
  moreover have "good_name [] (if i = 0 then ''FOO'' else ''NUM'')" by (simp add: good_name_def)
  moreover have "int_string_valid ''7''" by (simp add: int_string_valid_def char_at_def isdigit_def in_range_def)
  ultimately show ?thesis using that n
    by (auto simp: savable_def lkc_inline_defs demo_saved_def demo_defs)
qed

theorem conf_save_load_witness:
  "\<exists>out s'. save_symbols [] [heap_sym 0, heap_sym 2] demo_saved = Some (out, demo_saved)
     \<and> conf_read_text [] S_DEF_USER ''.config'' out demo_conf = Some s'
     \<and> sv_val (sym_def (symtab s' (heap_sym 2)) S_DEF_USER) = VStr ''7''"
proof -
  have y: "\<forall>y \<in> set [heap_sym 0, heap_sym 2]. savable [] demo_saved (set [heap_sym 0, heap_sym 2]) y"
    using demo_savable by simp
  have d: "distinct [heap_sym 0, heap_sym 2]" by simp
  have st: "settled demo_saved" by (simp add: settled_def demo_saved_def has_flag_def)
  from conf_save_load[OF y d st demo_load_same, of "''.config''"] show ?thesis
    by (auto simp: restores_def demo_saved_def demo_defs)
qed

end
