(* ===== verification/Conf_Read.thy ===== *)
theory Conf_Read
  imports Confdata Symbol_Set_Properties
begin

text \<open>
  Reading a configuration file keeps the configuration well-formed: the relation \<open>load_rel\<close>
  between the states of a load, the condition \<open>users_ok\<close> on the user values, and that every step
  of \<open>conf_read\<close> returns.
\<close>

subsection \<open>The steps of a load\<close>

abbreviation const_syms :: "symref set" where
  "const_syms \<equiv> {symbol_yes, symbol_mod, symbol_no, symbol_empty}"

definition load_rel :: "kconf \<Rightarrow> kconf \<Rightarrow> bool" where
  "load_rel s t \<longleftrightarrow> same_conf s t \<and> symbol_hash t = symbol_hash s \<and> skeleton t = skeleton s
     \<and> sym_change_count s \<le> sym_change_count t
     \<and> (\<forall>y. sym_curr (symtab t y) = sym_curr (symtab s y)
          \<and> (has_flag SYMBOL_VALID y t \<longrightarrow> has_flag SYMBOL_VALID y s)
          \<and> (has_flag SYMBOL_NEED_SET_CHOICE_VALUES y t \<longrightarrow> has_flag SYMBOL_NEED_SET_CHOICE_VALUES y s))
     \<and> (\<forall>y \<in> const_syms. has_flag SYMBOL_VALID y s \<longrightarrow> has_flag SYMBOL_VALID y t)"

lemma load_rel_refl [simp]: "load_rel s s"
  by (simp add: load_rel_def)

lemma load_rel_trans: "load_rel s t \<Longrightarrow> load_rel t u \<Longrightarrow> load_rel s u"
  unfolding load_rel_def
  by (elim conjE, intro conjI, erule (1) same_conf_trans, simp, simp, erule (1) order_trans, simp, blast)

lemma load_rel_same: "load_rel s t \<Longrightarrow> same_conf s t"
  by (simp add: load_rel_def)

lemma load_rel_ready:
  assumes "load_rel s t" "calc_ready s" "\<And>y. y \<in> sym_univ s \<Longrightarrow> user_ok t y"
  shows "calc_ready t"
proof (rule ready_same[OF assms(2) load_rel_same[OF assms(1)]])
  show "has_flag SYMBOL_VALID y t" if "y \<in> const_syms" for y
    using const_valid[OF assms(2) that] assms(1) that by (auto simp: load_rel_def)
qed (use assms(1,3) in \<open>auto simp: load_rel_def\<close>)

text \<open>The user values that the reader leaves: of the kind that the computation expects, and only
  for symbols of a type that has values.\<close>

definition users_ok :: "kconf \<Rightarrow> bool" where
  "users_ok s \<longleftrightarrow> (\<forall>y \<in> sym_univ s. user_ok s y)
     \<and> (\<forall>y \<in> set (all_symbols s). sym_has_value s y \<longrightarrow> sym_is_choice s y \<or> logic_sym s y \<or> stringy_sym s y)"

lemma users_okD:
  assumes "users_ok s"
  shows "y \<in> sym_univ s \<Longrightarrow> user_ok s y"
    "y \<in> set (all_symbols s) \<Longrightarrow> sym_has_value s y \<Longrightarrow> sym_is_choice s y \<or> logic_sym s y \<or> stringy_sym s y"
  using assms by (auto simp: users_ok_def)

lemma all_symbols_same: "same_conf s t \<Longrightarrow> symbol_hash t = symbol_hash s \<Longrightarrow> all_symbols t = all_symbols s"
  by (simp add: all_symbols_def hash_symbols_def same_confD)

lemma hash_ok_all: "hash_ok s \<Longrightarrow> y \<in> set (all_symbols s) \<Longrightarrow> y \<in> sym_univ s"
  by (auto simp: hash_ok_def all_symbols_def sym_univ_def)

lemma hash_ok_load: "load_rel s t \<Longrightarrow> hash_ok t = hash_ok s"
  by (simp add: load_rel_def same_conf_def hash_ok_def hash_symbols_def)

text \<open>Everything a step needs, and what it gives.\<close>

definition loadable :: "kconf \<Rightarrow> bool" where
  "loadable s \<longleftrightarrow> calc_ready s \<and> hash_ok s \<and> choices_ok s \<and> users_ok s
     \<and> (\<forall>y \<in> sym_univ s. sym_type (symtab s y) \<noteq> S_OTHER)"

definition load_to :: "kconf \<Rightarrow> kconf \<Rightarrow> bool" where
  "load_to s t \<longleftrightarrow> load_rel s t \<and> users_ok t"

lemma load_to_loadable: "load_to s t \<Longrightarrow> loadable s \<Longrightarrow> loadable t"
  unfolding loadable_def load_to_def
  using load_rel_ready[of s t] users_okD(1)[of t] same_confD(1)[OF load_rel_same, of s t]
    hash_ok_load[of s t] choices_ok_same[OF load_rel_same, of s t]
    same_confD(2)[OF load_rel_same, of s t] by auto

lemma load_toD:
  assumes "load_to s t"
  shows "sym_univ t = sym_univ s" "sym_type (symtab t y) = sym_type (symtab s y)"
    "sym_is_choice t y = sym_is_choice s y" "all_symbols t = all_symbols s"
proof -
  have c: "same_conf s t" "symbol_hash t = symbol_hash s" using assms by (simp_all add: load_to_def load_rel_def)
  show "sym_univ t = sym_univ s" "sym_type (symtab t y) = sym_type (symtab s y)"
    "sym_is_choice t y = sym_is_choice s y" "all_symbols t = all_symbols s"
    using same_confD(1-3)[OF c(1)] all_symbols_same[OF c] by simp_all
qed

lemma load_to_trans: "load_to s t \<Longrightarrow> load_to t u \<Longrightarrow> load_to s u"
  using load_rel_trans by (auto simp: load_to_def)

lemma load_to_refl: "loadable s \<Longrightarrow> load_to s s"
  by (simp add: load_to_def loadable_def)

text \<open>A change of the user value of one symbol, and changes of nothing but counters and
  messages.\<close>

lemma load_to_user:
  assumes "loadable s" "user_upd f" "y \<in> sym_univ s \<Longrightarrow> user_ok (upd_sym y f s) y"
    and "sym_has_value (upd_sym y f s) y \<Longrightarrow>
      sym_has_value s y \<or> sym_is_choice s y \<or> logic_sym s y \<or> stringy_sym s y"
  shows "load_to s (upd_sym y f s)"
proof -
  note u = user_updD[OF assms(2)]
  have same: "same_conf s (upd_sym y f s)" by (rule same_conf_user[OF assms(2)])
  have "load_rel s (upd_sym y f s)"
    unfolding load_rel_def using same u skel_upd_sym[of f s y, OF skel_user_upd[OF assms(2)]]
    by (auto simp: has_flag_def upd_sym_def)
  moreover have "user_ok (upd_sym y f s) z" if "z \<in> sym_univ s" for z
  proof (cases "z = y")
    case False
    have "user_ok s z" using assms(1) that by (auto simp: loadable_def users_ok_def)
    then show ?thesis using False by (simp add: user_ok_def lkc_inline_defs)
  qed (use assms(3) that in simp)
  moreover have "all_symbols (upd_sym y f s) = all_symbols s"
    using all_symbols_same[OF same] by (simp add: upd_sym_def)
  moreover have "sym_is_choice s z \<or> logic_sym s z \<or> stringy_sym s z"
    if "z \<in> set (all_symbols s)" "sym_has_value (upd_sym y f s) z" for z
  proof (cases "z = y")
    case True
    then show ?thesis using assms(1,4) that users_okD(2)[of s z] by (auto simp: loadable_def)
  next
    case False
    then have "sym_has_value s z" using that(2) by (simp add: lkc_inline_defs)
    then show ?thesis using assms(1) that(1) users_okD(2)[of s z] by (auto simp: loadable_def)
  qed
  ultimately show ?thesis
    unfolding load_to_def users_ok_def by (simp only: same_confD[OF same]) blast
qed

definition same_tabs :: "kconf \<Rightarrow> kconf \<Rightarrow> bool" where
  "same_tabs s t \<longleftrightarrow> symtab t = symtab s \<and> proptab t = proptab s \<and> nsyms t = nsyms s
     \<and> modules_sym t = modules_sym s \<and> symbol_hash t = symbol_hash s \<and> skeleton t = skeleton s"

definition same_store :: "kconf \<Rightarrow> kconf \<Rightarrow> bool" where
  "same_store s t \<longleftrightarrow> same_tabs s t \<and> sym_change_count s \<le> sym_change_count t"

lemma same_store_load:
  assumes "same_store s t" "loadable s"
  shows "load_to s t"
proof -
  have e: "user_ok t y = user_ok s y" "sym_univ t = sym_univ s" "all_symbols t = all_symbols s"
    "sym_has_value t y = sym_has_value s y" "sym_is_choice t y = sym_is_choice s y" for y
    using assms(1) by (simp_all add: same_store_def same_tabs_def user_ok_def lkc_inline_defs sym_univ_def
        all_symbols_def hash_symbols_def)
  have "same_conf s t" using assms(1) by (simp add: same_store_def same_tabs_def same_conf_def lkc_inline_defs)
  then show ?thesis using assms e
    by (auto simp: load_to_def load_rel_def same_store_def same_tabs_def has_flag_def loadable_def users_ok_def)
qed

lemma same_stores [simp]:
  "same_store s s" "same_store s (kwarn msg s)" "same_store s (conf_warning msg s)"
  "same_store s (s\<lparr>conf_lineno := n\<rparr>)" "same_store s (s\<lparr>conf_unsaved := n\<rparr>)"
  "same_store s (s\<lparr>conf_filename := f, conf_lineno := n, conf_warnings := n, conf_unsaved := n\<rparr>)"
  "same_store s (conf_reassign i y s)"
  "same_store s (sym_add_change_count 1 s)"
  by (simp_all add: same_store_def same_tabs_def kwarn_def conf_warning_def conf_reassign_def
      sym_add_change_count_def sym_set_change_count_def Let_def)

lemma store_step: "loadable s \<Longrightarrow> same_store s t \<Longrightarrow> load_to s t"
  using same_store_load .

lemma step_after: "load_to s t \<Longrightarrow> loadable s \<Longrightarrow> (loadable t \<Longrightarrow> load_to t u) \<Longrightarrow> load_to s u"
  using load_to_trans load_to_loadable by blast

subsection \<open>Storing values\<close>

lemma user_tri_step:
  assumes "loadable s" "y \<in> sym_univ s"
  shows "load_to s (set_def_tri S_DEF_USER y t s)"
proof -
  have "user_ok s y" using assms by (auto simp: loadable_def users_ok_def)
  then show ?thesis unfolding set_def_tri_def
    by (intro load_to_user[OF assms(1) user_upds(3)]) (auto simp: user_ok_def lkc_inline_defs)
qed

lemma user_val_step:
  assumes "loadable s" "y \<in> sym_univ s"
    and "sym_is_choice s y \<and> (\<exists>c. v = VSym c) \<or> \<not> sym_is_choice s y \<and> (\<exists>x. v = VStr x)"
  shows "load_to s (set_def_val S_DEF_USER y v s)"
  unfolding set_def_val_def
  by (intro load_to_user[OF assms(1) user_upds(3)])
    (use assms(3) in \<open>auto simp: user_ok_def lkc_inline_defs sym_of_def\<close>)

lemma user_flag_on_step:
  assumes "loadable s" "y \<in> sym_univ s" "logic_sym s y \<or> stringy_sym s y"
    and "stringy_sym s y \<longrightarrow> \<not> sym_is_choice s y \<longrightarrow> (\<exists>x. sv_val (sym_def (symtab s y) S_DEF_USER) = VStr x)"
  shows "load_to s (set_flag SYMBOL_DEF_USER y s)"
proof -
  have "user_ok s y" using assms by (auto simp: loadable_def users_ok_def)
  then show ?thesis unfolding set_flag_def using assms(3,4)
    by (intro load_to_user[OF assms(1) user_upds(1)]) (auto simp: user_ok_def lkc_inline_defs)
qed

lemma user_flag_off_step:
  assumes "loadable s" "y \<in> sym_univ s"
  shows "load_to s (clear_flag SYMBOL_DEF_USER y s)"
proof -
  have "user_ok s y" using assms by (auto simp: loadable_def users_ok_def)
  then show ?thesis unfolding clear_flag_def
    by (intro load_to_user[OF assms(1) user_upds(2)]) (auto simp: user_ok_def lkc_inline_defs)
qed

lemma store_tri_step:
  assumes "loadable s" "y \<in> sym_univ s" "logic_sym s y"
  shows "load_to s (snd (conf_store_tri S_DEF_USER y t s))"
proof -
  note a = user_tri_step[OF assms(1,2), of t]
  have "load_to (set_def_tri S_DEF_USER y t s) (set_flag SYMBOL_DEF_USER y (set_def_tri S_DEF_USER y t s))"
    using assms(2,3)
    by (intro user_flag_on_step[OF load_to_loadable[OF a assms(1)]]) (auto simp: set_def_tri_def sym_univ_def upd_sym_def)
  then show ?thesis using load_to_trans[OF a] by (simp add: conf_store_tri_def)
qed

lemma store_str_step:
  assumes "loadable s" "y \<in> sym_univ s" "stringy_sym s y" "\<not> sym_is_choice s y"
  shows "load_to s (snd (conf_store_str S_DEF_USER y p s))"
proof -
  have a: "load_to s (set_def_val S_DEF_USER y (VStr p) s)"
    using user_val_step[OF assms(1,2)] assms(4) by blast
  have "load_to (set_def_val S_DEF_USER y (VStr p) s)
      (set_flag SYMBOL_DEF_USER y (set_def_val S_DEF_USER y (VStr p) s))"
    using assms(2,3)
    by (intro user_flag_on_step[OF load_to_loadable[OF a assms(1)]])
      (auto simp: set_def_val_def sym_univ_def upd_sym_def)
  then show ?thesis using load_to_trans[OF a] store_step[OF assms(1)]
    by (simp add: conf_store_str_def conf_reject_def)
qed

text \<open>A choice is a boolean or tristate symbol, so a string is never stored for one.\<close>

lemma choice_logic: "loadable s \<Longrightarrow> y \<in> sym_univ s \<Longrightarrow> sym_is_choice s y \<Longrightarrow> logic_sym s y"
  using sym_wfD(7)[OF readyD(1)] by (auto simp: loadable_def choice_ok_def)

lemma set_sym_val_step:
  assumes "loadable s" "y \<in> sym_univ s" "sym_type (symtab s y) \<noteq> S_OTHER"
  shows "load_to s (snd (conf_set_sym_val y S_DEF_USER p s))"
proof -
  have s: "load_to s (snd (conf_store_str S_DEF_USER y q s))" if "stringy_sym s y" for q
  proof -
    have "\<not> sym_is_choice s y" using choice_logic[OF assms(1,2)] that by auto
    then show ?thesis by (rule store_str_step[OF assms(1,2) that])
  qed
  have t: "load_to s (snd (conf_store_tri S_DEF_USER y v s))" if "logic_sym s y" for v
    using store_tri_step[OF assms(1,2) that] .
  have q: "load_to s (snd (conf_store_quoted S_DEF_USER y q s))" if "stringy_sym s y" for q
    using s[OF that] store_step[OF assms(1)]
    by (auto simp: conf_store_quoted_def conf_reject_def split: option.split)
  have r: "load_to s (snd (conf_reject S_DEF_USER m s))" for m
    using store_step[OF assms(1)] by (simp add: conf_reject_def)
  show ?thesis using s t q r load_to_refl[OF assms(1)] assms(3)
    by (simp add: conf_set_sym_val_def Let_def)
qed


subsection \<open>Lines\<close>

lemma hash_bucket:
  assumes "hash_ok s" "y \<in> set (symbol_hash s (sym_bucket name))"
  shows "y \<in> sym_univ s"
proof -
  have "sym_bucket name < SYMBOL_HASHSIZE" by (simp add: sym_bucket_def SYMBOL_HASHSIZE_def)
  then have "y \<in> set (hash_symbols s)" using assms(2) by (auto simp: hash_symbols_def)
  then show ?thesis using assms(1) by (auto simp: hash_ok_def sym_univ_def)
qed

lemma find_in_set: "List.find P xs = Some y \<Longrightarrow> y \<in> set xs \<and> P y"
  by (induction xs) (auto split: if_splits)

lemma const_name_univ: "const_name n = Some y \<Longrightarrow> y \<in> sym_univ s"
  by (auto simp: const_name_def sym_univ_def split: if_splits)

lemma find_univ:
  assumes "hash_ok s" "sym_find s n = Some y"
  shows "y \<in> sym_univ s"
proof -
  obtain str where n: "n = Some str" using assms(2) by (cases n) (simp_all add: sym_find_def)
  show ?thesis
  proof (cases "const_name str")
    case None
    then have "y \<in> set (symbol_hash s (sym_bucket str))"
      using assms(2) find_in_set unfolding n sym_find_def by fastforce
    then show ?thesis by (rule hash_bucket[OF assms(1)])
  next
    case (Some z)
    then show ?thesis using assms(2) const_name_univ[OF Some] by (simp add: n sym_find_def)
  qed
qed

lemma set_choice_step:
  assumes "loadable s" "y \<in> sym_univ s"
  shows "\<exists>t. conf_set_choice S_DEF_USER y s = Some t \<and> load_to s t"
proof (cases "sym_is_choice_value s y")
  case False
  then show ?thesis using load_to_refl[OF assms(1)] by (simp add: conf_set_choice_def)
next
  case True
  obtain c where c: "choice_of s y = Some c" "c \<in> sym_univ s" "sym_is_choice s c"
  proof -
    have r: "calc_ready s" "choices_ok s" using assms(1) by (simp_all add: loadable_def)
    from sym_wfD(7)[OF readyD(1)[OF r(1) assms(2)]] True
    obtain c where "choice_of s y = Some c" "c \<in> sym_univ s" by (auto simp: choice_ok_def)
    with that True r(2) assms(2) show ?thesis unfolding choices_ok_def by blast
  qed
  have tri: "load_to s (set_def_tri S_DEF_USER c v u)" if u: "load_to s u" for u v
  proof (rule step_after[OF u assms(1) user_tri_step])
    show "c \<in> sym_univ u" using c(2) load_toD(1)[OF u] by simp
  qed
  have val: "load_to s (set_def_val S_DEF_USER c (VSym y) u)" if u: "load_to s u" for u
  proof (rule step_after[OF u assms(1) user_val_step])
    show "c \<in> sym_univ u" using c(2) load_toD(1)[OF u] by simp
    have "sym_is_choice u c" using c(3) load_toD(3)[OF u] by simp
    then show "sym_is_choice u c \<and> (\<exists>d. VSym y = VSym d) \<or> \<not> sym_is_choice u c \<and> (\<exists>x. VSym y = VStr x)"
      by simp
  qed
  have off: "load_to s (clear_flag SYMBOL_DEF_USER c u)" if u: "load_to s u" for u
  proof (rule step_after[OF u assms(1) user_flag_off_step])
    show "c \<in> sym_univ u" using c(2) load_toD(1)[OF u] by simp
  qed
  have w: "load_to s (conf_warning m s)" for m using store_step[OF assms(1)] by simp
  note r = load_to_refl[OF assms(1)]
  show ?thesis using True c(1) tri val off w r
    by (simp add: conf_set_choice_def Let_def split: tristate.split)
qed

lemma set_choice_after:
  assumes "loadable s" "load_to s t" "y \<in> sym_univ s"
  shows "\<exists>u. conf_set_choice S_DEF_USER y t = Some u \<and> load_to s u"
proof -
  have "y \<in> sym_univ t" using assms(3) load_toD(1)[OF assms(2)] by simp
  then show ?thesis
    using set_choice_step[OF load_to_loadable[OF assms(2,1)]] load_to_trans[OF assms(2)] by blast
qed

lemma read_set_step:
  assumes "loadable s"
  shows "\<exists>t. conf_read_set pre S_DEF_USER line s = Some t \<and> load_to s t"
proof -
  let ?name = "takeWhile (\<lambda>c. c \<noteq> CHR ''='') (drop (length pre) line)"
  show ?thesis
  proof (cases "sym_find s (Some ?name)")
    case None
    then show ?thesis using load_to_refl[OF assms] store_step[OF assms same_stores(8)]
      by (simp add: conf_read_set_def Let_def conf_line_sym_def)
  next
    case (Some y)
    have y: "y \<in> sym_univ s" using find_univ[OF _ Some] assms by (simp add: loadable_def)
    let ?u = "conf_reassign S_DEF_USER y s"
    have u: "load_to s ?u" using store_step[OF assms] by simp
    have yu: "y \<in> sym_univ ?u" "sym_type (symtab ?u y) \<noteq> S_OTHER"
      using y assms load_toD(1,2)[OF u] by (auto simp: loadable_def)
    have l: "load_to s (snd (conf_set_sym_val y S_DEF_USER p ?u))" for p
      using load_to_trans[OF u set_sym_val_step[OF load_to_loadable[OF u assms] yu]] .
    show ?thesis
      using Some l set_choice_after[OF assms l y] load_to_refl[OF assms]
      by (simp add: conf_read_set_def Let_def conf_line_sym_def split_beta)
  qed
qed

lemma read_unset_step:
  assumes "loadable s" "2 \<le> length line"
  shows "\<exists>t. conf_read_unset pre S_DEF_USER line s = Some t \<and> load_to s t"
proof -
  let ?name = "takeWhile (\<lambda>c. c \<noteq> CHR '' '') (drop (length pre) (drop 2 line))"
  show ?thesis
  proof (cases "sym_find s (Some ?name)")
    case None
    then show ?thesis using load_to_refl[OF assms(1)] store_step[OF assms(1) same_stores(8)] assms(2)
      by (simp add: conf_read_unset_def Let_def conf_line_sym_def)
  next
    case (Some y)
    have y: "y \<in> sym_univ s" using find_univ[OF _ Some] assms by (simp add: loadable_def)
    let ?u = "conf_reassign S_DEF_USER y s"
    have u: "load_to s ?u" using store_step[OF assms(1)] by simp
    have yu: "y \<in> sym_univ ?u" using y load_toD(1)[OF u] by simp
    have l: "load_to s (if logic_sym ?u y then snd (conf_store_tri S_DEF_USER y tno ?u) else ?u)"
      using load_to_trans[OF u store_tri_step[OF load_to_loadable[OF u assms(1)] yu]] u by simp
    show ?thesis
      using Some set_choice_after[OF assms(1) l y] load_to_refl[OF assms(1)] assms(2)
      by (simp add: conf_read_unset_def Let_def conf_line_sym_def)
  qed
qed

text \<open>A line that consists of a lone \<open>#\<close> at the end of the file is the one case that is not
  defined.\<close>

lemma read_line_step:
  assumes "loadable s" "c_str l \<noteq> ''#''"
  shows "\<exists>t. conf_read_line pre S_DEF_USER l s = Some t \<and> load_to s t"
proof -
  let ?s = "s\<lparr>conf_lineno := Suc (conf_lineno s)\<rparr>"
  have a: "load_to s ?s" using store_step[OF assms(1)] by simp
  note la = load_to_loadable[OF a assms(1)]
  have "2 \<le> length (c_str l)" if "char_at (c_str l) 0 = CHR ''#''"
    using that assms(2) by (cases "c_str l"; cases "tl (c_str l)") (auto simp: char_at_def)
  then show ?thesis
    using read_unset_step[OF la] read_set_step[OF la] load_to_trans[OF a] store_step[OF la same_stores(3)] a
    unfolding conf_read_line_def Let_def by (simp split: if_splits) blast
qed

subsection \<open>A whole file\<close>

definition reset_record :: "def_index \<Rightarrow> symbol \<Rightarrow> symbol" where
  "reset_record i x = x\<lparr>
     sym_flags := insert SYMBOL_CHANGED (sym_flags x) - {SYMBOL_DEF i, SYMBOL_VALID}
       \<union> (if SYMBOL_CHOICE \<in> sym_flags x then {SYMBOL_DEF i} else {}),
     sym_def := (sym_def x)(i := \<lparr>sv_val = VNull, sv_tri = tno\<rparr>)\<rparr>"

lemma reset_record_idem: "reset_record i (reset_record i x) = reset_record i x"
  by (cases i) (auto simp: reset_record_def intro!: symbol.equality)

lemma reset_fold: "fold (conf_reset_sym i) ys s = s\<lparr>symtab := (\<lambda>z. if z \<in> set ys
    then reset_record i (symtab s z) else symtab s z)\<rparr>"
proof (induction ys arbitrary: s)
  case (Cons y ys)
  have r: "conf_reset_sym i y s = upd_sym y (reset_record i) s" for s
    by (simp add: conf_reset_sym_def reset_record_def[abs_def])
  show ?case unfolding fold_Cons comp_apply Cons.IH r
    by (auto simp: upd_sym_def reset_record_idem fun_eq_iff intro!: kconf.equality)
qed simp

text \<open>The state a file is loaded into.\<close>

definition conf_base :: "kconf \<Rightarrow> bool" where
  "conf_base s \<longleftrightarrow> calc_ready s \<and> hash_ok s \<and> choices_ok s
     \<and> (\<forall>y \<in> sym_univ s. sym_type (symtab s y) \<noteq> S_OTHER)"

lemma loadable_base: "loadable s \<longleftrightarrow> conf_base s \<and> users_ok s"
  by (auto simp: loadable_def conf_base_def)

lemma reset_flags:
  "b \<notin> {SYMBOL_CHANGED, SYMBOL_DEF_USER, SYMBOL_VALID} \<Longrightarrow>
     b \<in> sym_flags (reset_record S_DEF_USER x) \<longleftrightarrow> b \<in> sym_flags x"
  "SYMBOL_VALID \<notin> sym_flags (reset_record S_DEF_USER x)"
  "SYMBOL_DEF_USER \<in> sym_flags (reset_record S_DEF_USER x) \<longleftrightarrow> SYMBOL_CHOICE \<in> sym_flags x"
  by (auto simp: reset_record_def)

lemma reset_fields [simp]:
  "sym_type (reset_record i x) = sym_type x" "sym_name (reset_record i x) = sym_name x"
  "sym_prop (reset_record i x) = sym_prop x" "dir_dep (reset_record i x) = dir_dep x"
  "rev_dep (reset_record i x) = rev_dep x" "val_dep (reset_record i x) = val_dep x"
  "sym_curr (reset_record i x) = sym_curr x"
  "sym_def (reset_record i x) i = \<lparr>sv_val = VNull, sv_tri = tno\<rparr>"
  by (simp_all add: reset_record_def)

lemma reset_loadable:
  assumes "conf_base s"
  shows "load_to s (fold (conf_reset_sym S_DEF_USER) (all_symbols s) s)"
proof -
  let ?t = "fold (conf_reset_sym S_DEF_USER) (all_symbols s) s"
  have t: "symtab ?t z = (if z \<in> set (all_symbols s) then reset_record S_DEF_USER (symtab s z) else symtab s z)"
    "proptab ?t = proptab s" "nsyms ?t = nsyms s" "modules_sym ?t = modules_sym s"
    "symbol_hash ?t = symbol_hash s" "sym_change_count ?t = sym_change_count s" for z
    by (simp_all add: reset_fold)
  have c: "same_conf s ?t" by (simp add: same_conf_def t lkc_inline_defs reset_flags)
  have nc: "y \<notin> set (all_symbols s)" if "y \<in> const_syms" for y
    using hash_not_const that assms by (simp add: conf_base_def)
  have "skel_sym (reset_record S_DEF_USER x) = skel_sym x" for x
    by (auto simp: skel_sym_def frame_sym_def reset_record_def intro!: symbol.equality)
  then have "skeleton ?t = skeleton s"
    by (auto simp: reset_fold skeleton_def fun_eq_iff intro!: kconf.equality)
  then have "load_rel s ?t" unfolding load_rel_def using c nc
    by (simp add: t has_flag_def reset_flags)
  moreover have "user_ok ?t y" if "y \<in> sym_univ s" for y
  proof -
    have "user_ok s y" using sym_wf_user readyD(1) that assms by (simp add: conf_base_def)
    then show ?thesis by (simp add: user_ok_def t lkc_inline_defs reset_flags sym_of_def)
  qed
  moreover have "sym_is_choice ?t y" if "y \<in> set (all_symbols ?t)" "sym_has_value ?t y" for y
    using that all_symbols_same[OF c t(5)] by (simp add: t lkc_inline_defs reset_flags)
  ultimately show ?thesis using same_confD(1)[OF c] by (simp add: load_to_def users_ok_def)
qed

lemma load_base: "conf_base s \<Longrightarrow> load_to s t \<Longrightarrow> loadable t"
  unfolding loadable_base conf_base_def load_to_def
  using load_rel_ready[of s t] users_okD(1)[of t] same_confD(1)[OF load_rel_same, of s t]
    hash_ok_load[of s t] choices_ok_same[OF load_rel_same, of s t]
    same_confD(2)[OF load_rel_same, of s t] by auto

lemma lines_step:
  assumes "loadable s" "\<forall>l \<in> set ls. c_str l \<noteq> ''#''"
  shows "\<exists>t. ofold (conf_read_line pre S_DEF_USER) ls s = Some t \<and> load_to s t"
  using ofold_returns[of ls "load_to s" "conf_read_line pre S_DEF_USER" s]
    read_line_step load_to_loadable[OF _ assms(1)] load_to_trans load_to_refl[OF assms(1)] assms(2)
  by blast

lemma store_base:
  assumes "same_tabs s t" "conf_base s"
  shows "conf_base t" "all_symbols t = all_symbols s"
proof -
  have e: "user_ok t y = user_ok s y" "sym_univ t = sym_univ s" for y
    using assms(1) by (simp_all add: same_tabs_def user_ok_def lkc_inline_defs sym_univ_def)
  have c: "same_conf s t" using assms(1) by (simp add: same_tabs_def same_conf_def lkc_inline_defs)
  have "calc_ready t"
    using assms e sym_wf_user readyD(1)
    by (intro ready_same[OF _ c]) (auto simp: same_tabs_def has_flag_def conf_base_def const_valid[unfolded has_flag_def])
  moreover have h: "symbol_hash t = symbol_hash s" using assms(1) by (simp add: same_tabs_def)
  ultimately show "conf_base t"
    using assms(2) choices_ok_same[OF c] same_confD(1,2)[OF c] same_confD(13)[OF c]
    by (simp add: conf_base_def hash_ok_def hash_symbols_def)
  show "all_symbols t = all_symbols s" by (rule all_symbols_same[OF c h])
qed

lemma read_text_step:
  assumes "conf_base s" "\<forall>l \<in> set (file_lines text). c_str l \<noteq> ''#''"
  shows "\<exists>t. conf_read_text pre S_DEF_USER name text s = Some t \<and> loadable t
    \<and> sym_change_count s \<le> sym_change_count t \<and> skeleton t = skeleton s"
proof -
  let ?s = "s\<lparr>conf_filename := Some name, conf_lineno := 0, conf_warnings := 0, conf_unsaved := 0\<rparr>"
  have b: "conf_base ?s" "all_symbols ?s = all_symbols s" by (rule store_base[OF _ assms(1)], simp add: same_tabs_def)+
  note r = reset_loadable[OF b(1)]
  obtain t where t: "conf_read_text pre S_DEF_USER name text s = Some t" "load_to ?s t"
    using lines_step[OF load_base[OF b(1) r] assms(2), of pre] load_to_trans[OF r]
    by (auto simp: conf_read_text_def Let_def)
  moreover have "sym_univ ?s = sym_univ s" by (simp add: sym_univ_def)
  ultimately show ?thesis using load_base[OF b(1) t(2)] load_toD(1,4)[OF t(2)] b(2)
    by (auto simp: load_to_def load_rel_def)
qed

subsection \<open>Ranges\<close>

context calc_total
begin

lemma num_within_range_returns:
  assumes "go s" "y \<in> sym_univ s"
  shows "returns s (\<lambda>_ _. True) (num_within_range calc y base str s)"
proof (cases "sym_string_valid s y str")
  case False
  then show ?thesis using go_ready[OF assms(1)] by (auto simp: num_within_range_def intro!: returns_Some)
next
  case True
  have w: "sym_wf s y" using readyD(1)[OF go_ready[OF assms(1)] assms(2)] .
  show ?thesis unfolding num_within_range_def Let_def if_not_P[OF not_not[THEN iffD2, OF True]]
  proof (rule returns_bind[OF range_prop_returns[OF assms(1) w]], unfold split)
    fix v t assume t: "calc_post s t" "\<forall>p. v = Some p \<longrightarrow> range_ok s p"
    have gt: "go t" by (rule go_post[OF assms(1) t(1)])
    show "returns t (\<lambda>_ _. True) (case v of None \<Rightarrow> Some (True, t) | Some p \<Rightarrow> do {
        (lo, hi) \<leftarrow> range_syms t p;
        (v, s) \<leftarrow> sym_get_range_val calc lo base t;
        if \<not> v \<le> strtoll str base then Some (False, s)
        else do { (v, s) \<leftarrow> sym_get_range_val calc hi base s; Some (strtoll str base \<le> v, s) } })"
    proof (cases v)
      case None
      then show ?thesis using go_ready[OF gt] by (auto intro!: returns_Some)
    next
      case (Some p)
      have "range_ok t p" using t(2) Some frame_eqD[OF calc_postD(2)[OF t(1)]]
        arg_cong[OF calc_postD(2)[OF t(1)], of "\<lambda>s. range_syms s p"] by (simp add: range_ok_def)
      then obtain lo hi where r: "range_syms t p = Some (lo, hi)" "str_sym t lo" "str_sym t hi"
        by (auto simp: range_ok_def)
      have "returns t (\<lambda>_ _. True) (do {
        (v, s) \<leftarrow> sym_get_range_val calc lo base t;
        if \<not> v \<le> strtoll str base then Some (False, s)
        else do { (v, s) \<leftarrow> sym_get_range_val calc hi base s; Some (strtoll str base \<le> v, s) } })"
      proof (rule returns_bind[OF range_val_returns[OF gt r(2)]], unfold split)
        fix a u assume u: "calc_post t u"
        have gu: "go u" by (rule go_post[OF gt u])
        have hu: "str_sym u hi" using r(3) frame_eqD(6)[OF calc_postD(2)[OF u]] by simp
        have "returns u (\<lambda>_ _. True)
          (do { (v, s) \<leftarrow> sym_get_range_val calc hi base u; Some (strtoll str base \<le> v, s) })"
          by (rule returns_bind[OF range_val_returns[OF gu hu]]) (auto intro!: returns_Some simp: calc_postD(1))
        then show "returns u (\<lambda>_ _. True) (if \<not> a \<le> strtoll str base then Some (False, u)
          else do { (v, s) \<leftarrow> sym_get_range_val calc hi base u; Some (strtoll str base \<le> v, s) })"
          using go_ready[OF gu] by (auto intro!: returns_Some)
      qed
      then show ?thesis using Some r(1) by simp
    qed
  qed
qed

lemma within_range_returns:
  assumes "go s" "y \<in> sym_univ s"
  shows "returns s (\<lambda>_ _. True) (sym_string_within_range calc y str s)"
  using num_within_range_returns[OF assms] go_ready[OF assms(1)]
  by (auto simp: sym_string_within_range_def intro!: returns_Some split: symbol_type.split)

end

text \<open>The interpretation on \<open>sym_calc\<close> gives every call enough fuel, so that no trace of it is
  left.\<close>

lemma sym_calc_ends:
  assumes "calc_ready s" "y \<in> sym_univ s"
  obtains t where "sym_calc y s = Some t" "calc_post s t"
proof -
  have "calc_total.go (Suc (calc_work s)) s" using assms(1) by (simp add: sc.go_def)
  from sc.calc_ends[OF this assms(2)] that show ?thesis by (auto simp: sc.ends_def)
qed

lemma sym_range_ends:
  assumes "calc_ready s" "y \<in> sym_univ s"
  obtains b t where "sym_string_within_range sym_calc y str s = Some (b, t)" "calc_post s t"
proof -
  have "calc_total.go (Suc (calc_work s)) s" using assms(1) by (simp add: sc.go_def)
  from sc.within_range_returns[OF this assms(2), of str] that show ?thesis by (auto simp: sc.returns_def)
qed

subsection \<open>The checks after a load\<close>

text \<open>What the loops over the symbols keep.\<close>

definition keeps :: "kconf \<Rightarrow> kconf \<Rightarrow> bool" where
  "keeps s t \<longleftrightarrow> loadable t \<and> all_symbols t = all_symbols s \<and> sym_univ t = sym_univ s
     \<and> sym_change_count s \<le> sym_change_count t \<and> skeleton t = skeleton s"

lemma keeps_trans: "keeps s t \<Longrightarrow> keeps t u \<Longrightarrow> keeps s u"
  by (simp add: keeps_def)

lemma load_keeps:
  assumes "load_to s t" "loadable s"
  shows "keeps s t"
  using load_to_loadable[OF assms] load_toD(1,4)[OF assms(1)] assms(1)
  by (simp add: keeps_def load_to_def load_rel_def)

lemma post_keeps:
  assumes "loadable s" "calc_post s t"
  shows "keeps s t"
proof -
  have f: "frame t = frame s" and r: "calc_ready t" using calc_postD[OF assms(2)] by simp_all
  note fD = frame_eqD[OF f]
  have e: "symbol_hash t = symbol_hash s" "nsyms t = nsyms s" "choice_values t y = choice_values s y"
    "choice_of t y = choice_of s y" for y
    using arg_cong[OF f, of symbol_hash] arg_cong[OF f, of nsyms] arg_cong[OF f, of "\<lambda>s. choice_values s y"]
      arg_cong[OF f, of "\<lambda>s. choice_of s y"] by simp_all
  have hv: "sym_has_value t y = sym_has_value s y" if "\<not> sym_is_choice s y" for y
    using arg_cong[OF f, of "\<lambda>s. sym_has_value s y"] frame_flags(3)[of s y] frame_flags(3)[of t y] fD(8)[of y] that
    by simp
  have a: "all_symbols t = all_symbols s" by (simp add: all_symbols_def hash_symbols_def e fD(3))
  have "sym_change_count t = sym_change_count s" using arg_cong[OF f, of sym_change_count] by (simp add: frame_def)
  moreover have "hash_ok t" "choices_ok t" "\<forall>y \<in> sym_univ t. sym_type (symtab t y) \<noteq> S_OTHER"
    using assms(1) by (simp_all add: loadable_def hash_ok_def hash_symbols_def choices_ok_def e fD(2,3,8,9))
  moreover have "users_ok t"
    using assms(1) sym_wf_user readyD(1)[OF r] hv by (auto simp: users_ok_def loadable_def a fD(2,3,8))
  ultimately show ?thesis using r a fD(2) frame_skeleton[OF f] by (simp add: keeps_def loadable_def)
qed

lemma calc_keeps:
  assumes "loadable s" "y \<in> sym_univ s"
  obtains t where "sym_calc y s = Some t" "keeps s t"
  using sym_calc_ends[of s y] assms post_keeps[OF assms(1)] by (metis loadable_def)

lemma modules_keeps:
  assumes "loadable s"
  obtains t where "calc_opt sym_calc (modules_sym s) s = Some t" "keeps s t"
proof -
  obtain m where "m \<in> sym_univ s" "modules_sym s = Some m"
    using assms by (auto simp: loadable_def calc_ready_def conf_wf_def)
  then show ?thesis using calc_keeps[OF assms] that by (metis calc_opt_def option.simps(5))
qed

lemma check_saved_step:
  assumes "loadable s" "y \<in> set (all_symbols s)"
  shows "\<exists>t. conf_check_saved sym_calc y s = Some t \<and> keeps s t"
proof -
  have y: "y \<in> sym_univ s" using hash_ok_all assms by (simp add: loadable_def)
  obtain t where t: "sym_calc y s = Some t" "keeps s t" using calc_keeps[OF assms(1) y] .
  then have l: "loadable t" "y \<in> set (all_symbols t)" "y \<in> sym_univ t" using assms(2) y by (simp_all add: keeps_def)
  have u: "keeps s (t\<lparr>conf_unsaved := n\<rparr>)" for n
    using keeps_trans[OF t(2) load_keeps[OF store_step[OF l(1)] l(1)]] by simp
  have "conf_value_agrees t y \<noteq> None" if h: "sym_has_value t y" "\<not> sym_is_choice t y"
  proof -
    have "logic_sym t y \<or> stringy_sym t y" "user_ok t y"
      using users_okD[of t y] l h by (auto simp: loadable_def)
    moreover have "stringy_sym t y \<longrightarrow> is_str (sv_val (sym_curr (symtab t y)))"
      using readyD(2)[of t y] l(1,3) by (simp add: loadable_def)
    ultimately consider "logic_sym t y" | a b where "stringy_sym t y"
        "sv_val (sym_curr (symtab t y)) = VStr a" "sv_val (sym_def (symtab t y) S_DEF_USER) = VStr b"
      using h by (auto simp: user_ok_def is_str_def)
    then show ?thesis
    proof cases
      case 1
      then have "(sym_type (symtab t y) = S_BOOLEAN \<or> sym_type (symtab t y) = S_TRISTATE) = True" by simp
      then show ?thesis using h(2) unfolding conf_value_agrees_def Let_def by simp blast
    next
      case 2
      then show ?thesis unfolding conf_value_agrees_def Let_def by (simp add: str_of_def) blast
    qed
  qed
  then show ?thesis using t(1) t(2) u by (auto simp: conf_check_saved_def)
qed

lemma valid_off_keeps:
  assumes "loadable s" "y \<in> set (all_symbols s)"
  shows "keeps s (clear_flag SYMBOL_VALID y s)"
proof -
  let ?t = "clear_flag SYMBOL_VALID y s"
  have nc: "y \<notin> const_syms" using hash_not_const[of s y] assms by (auto simp: loadable_def)
  have c: "same_conf s ?t" by (auto simp: same_conf_def clear_flag_def lkc_inline_defs upd_sym_def)
  have "skeleton ?t = skeleton s" by simp
  then have "load_rel s ?t" unfolding load_rel_def using c nc
    by (auto simp: clear_flag_def has_flag_def upd_sym_def simp del: skel_clear_flags)
  moreover have "user_ok ?t z = user_ok s z" "sym_has_value ?t z = sym_has_value s z"
    "sym_is_choice ?t z = sym_is_choice s z" "sym_type (symtab ?t z) = sym_type (symtab s z)" for z
    by (auto simp: user_ok_def clear_flag_def lkc_inline_defs)
  moreover have "all_symbols ?t = all_symbols s"
    by (rule all_symbols_same[OF c]) (simp add: clear_flag_def upd_sym_def)
  ultimately have "load_to s ?t"
    using assms(1) same_confD(1)[OF c] by (simp add: load_to_def users_ok_def loadable_def)
  then show ?thesis by (rule load_keeps[OF _ assms(1)])
qed

lemma value_in_range_step:
  assumes "loadable s" "y \<in> sym_univ s" "stringy_sym s y"
    and "\<exists>x. sv_val (sym_def (symtab s y) S_DEF_USER) = VStr x"
  obtains b t where "conf_value_in_range sym_calc y s = Some (b, t)" "keeps s t"
proof -
  have r: "calc_ready s" using assms(1) by (simp add: loadable_def)
  obtain x where x: "sv_val (sym_def (symtab s y) S_DEF_USER) = VStr x" using assms(4) by blast
  obtain b t where "sym_string_within_range sym_calc y x s = Some (b, t)" "calc_post s t"
    by (rule sym_range_ends[OF r assms(2)])
  then show ?thesis using that post_keeps[OF assms(1)] by (simp add: conf_value_in_range_def x)
qed

lemma drop_stale_step:
  assumes "loadable s" "y \<in> set (all_symbols s)"
  shows "\<exists>t. conf_drop_stale sym_calc y s = Some t \<and> keeps s t"
proof (cases "sym_has_value s y \<and> \<not> sym_is_choice_value s y")
  case False
  then show ?thesis using load_keeps[OF load_to_refl[OF assms(1)] assms(1)] by (auto simp: conf_drop_stale_def)
next
  case True
  have y: "y \<in> sym_univ s" using hash_ok_all assms by (simp add: loadable_def)
  let ?s = "if sym_visible (symtab s y) = tno \<and> conf_unsaved s = 0 then clear_flag SYMBOL_DEF_USER y s else s"
  have k: "keeps s ?s"
    using load_keeps[OF user_flag_off_step[OF assms(1) y] assms(1)]
      load_keeps[OF load_to_refl[OF assms(1)] assms(1)] by simp
  have ty: "sym_type (symtab ?s y) = sym_type (symtab s y)"
    "sym_def (symtab ?s y) = sym_def (symtab s y)" by (simp_all add: clear_flag_def)
  show ?thesis
  proof (cases "stringy_sym s y")
    case False
    then have "sym_type (symtab ?s y) \<notin> {S_STRING, S_INT, S_HEX}" using ty(1) by auto
    then show ?thesis using True k unfolding conf_drop_stale_def Let_def by simp
  next
    case str: True
    have ls: "loadable ?s" "y \<in> sym_univ ?s" "y \<in> set (all_symbols ?s)" using k y assms(2) by (simp_all add: keeps_def)
    have "\<not> sym_is_choice s y" using choice_logic[OF assms(1) y] str by auto
    then have "\<exists>x. sv_val (sym_def (symtab s y) S_DEF_USER) = VStr x"
      using users_okD(1)[of s y] assms(1) y str True by (auto simp: loadable_def user_ok_def)
    then obtain b t where t: "conf_value_in_range sym_calc y ?s = Some (b, t)" "keeps ?s t"
      using value_in_range_step[OF ls(1,2)] str ty by auto
    have lt: "loadable t" "y \<in> set (all_symbols t)" "y \<in> sym_univ t" using t(2) ls by (simp_all add: keeps_def)
    let ?u = "clear_flag SYMBOL_DEF_USER y t"
    have u: "keeps t ?u" by (rule load_keeps[OF user_flag_off_step[OF lt(1,3)] lt(1)])
    then have lu: "loadable ?u" "y \<in> set (all_symbols ?u)" using lt(2) by (simp_all add: keeps_def)
    let ?v = "clear_flag SYMBOL_VALID y ?u"
    have v: "keeps ?u ?v" by (rule valid_off_keeps[OF lu])
    then have lv: "loadable ?v" by (simp add: keeps_def)
    have "keeps ?v (?v\<lparr>conf_unsaved := n\<rparr>)" for n by (rule load_keeps[OF store_step[OF lv] lv]) simp
    then have e: "keeps s (?v\<lparr>conf_unsaved := n\<rparr>)" "keeps s t" for n
      using keeps_trans[OF keeps_trans[OF keeps_trans[OF k t(2)] keeps_trans[OF u v]]] keeps_trans[OF k t(2)] by blast+
    have "sym_type (symtab ?s y) \<in> {S_STRING, S_INT, S_HEX}" using str ty(1) by auto
    then show ?thesis using True t(1) e unfolding conf_drop_stale_def Let_def by simp
  qed
qed

lemma checks_step:
  assumes "loadable s" "ys = all_symbols s"
    and "\<And>t y. loadable t \<Longrightarrow> y \<in> set (all_symbols t) \<Longrightarrow> \<exists>u. f y t = Some u \<and> keeps t u"
  obtains t where "ofold f ys s = Some t" "keeps s t"
proof -
  have "\<exists>t. ofold f ys s = Some t \<and> keeps s t"
  proof (rule ofold_returns)
    fix y t assume y: "y \<in> set ys" and t: "keeps s t"
    have l: "loadable t" "y \<in> set (all_symbols t)" using t y assms(2) by (simp_all add: keeps_def)
    show "\<exists>u. f y t = Some u \<and> keeps s u"
      using assms(3)[OF l] keeps_trans[OF t] by blast
  qed (use load_keeps[OF load_to_refl[OF assms(1)] assms(1)] in simp)
  then show ?thesis using that by blast
qed

lemma change_count_keeps:
  assumes "loadable s" "0 \<le> n"
  shows "keeps s (sym_add_change_count n s)"
proof -
  have "same_store s (sym_add_change_count n s)"
    using assms(2) by (simp add: same_store_def same_tabs_def sym_add_change_count_def sym_set_change_count_def Let_def)
  then show ?thesis using load_keeps[OF store_step[OF assms(1)] assms(1)] by blast
qed

end
