(* ===== verification/Conf_Read_Properties.thy ===== *)
theory Conf_Read_Properties
  imports Conf_Read Conf_Demo
begin

text \<open>
  The property of loading a configuration: it returns for every file and keeps the configuration
  well-formed.
\<close>

lemma conf_read_loaded:
  assumes "loadable s" "0 \<le> sym_change_count s"
  obtains t where
    "(do { s \<leftarrow> calc_opt sym_calc (modules_sym s) s;
           s \<leftarrow> ofold (conf_check_saved sym_calc) (all_symbols s) s;
           s \<leftarrow> ofold (conf_drop_stale sym_calc) (all_symbols s) s;
           Some (sym_add_change_count (if conf_warnings s \<noteq> 0 \<or> conf_unsaved s \<noteq> 0 then 1 else 0) s) }) = Some t"
    "loadable t" "skeleton t = skeleton s" "conf_warnings t \<noteq> 0 \<or> conf_unsaved t \<noteq> 0 \<longrightarrow> conf_get_changed t"
proof -
  obtain a where a: "calc_opt sym_calc (modules_sym s) s = Some a" "keeps s a"
    by (rule modules_keeps[OF assms(1)])
  then have la: "loadable a" by (simp add: keeps_def)
  obtain b where b: "ofold (conf_check_saved sym_calc) (all_symbols a) a = Some b" "keeps a b"
    by (rule checks_step[OF la refl check_saved_step])
  then have lb: "loadable b" by (simp add: keeps_def)
  obtain c where c: "ofold (conf_drop_stale sym_calc) (all_symbols b) b = Some c" "keeps b c"
    by (rule checks_step[OF lb refl drop_stale_step])
  let ?n = "if conf_warnings c \<noteq> 0 \<or> conf_unsaved c \<noteq> 0 then 1 else 0 :: int"
  let ?t = "sym_add_change_count ?n c"
  have lc: "loadable c" "0 \<le> sym_change_count c"
    using keeps_trans[OF a(2) keeps_trans[OF b(2) c(2)]] assms(2) by (simp_all add: keeps_def)
  then have "loadable ?t" using change_count_keeps[OF lc(1), of ?n] by (simp add: keeps_def)
  moreover have "conf_warnings ?t \<noteq> 0 \<or> conf_unsaved ?t \<noteq> 0 \<longrightarrow> conf_get_changed ?t"
    using lc(2) by (simp add: conf_get_changed_def sym_add_change_count_def sym_set_change_count_def Let_def)
  moreover have "skeleton ?t = skeleton s"
    using keeps_trans[OF a(2) keeps_trans[OF b(2) c(2)]] by (simp add: keeps_def)
  ultimately show ?thesis using that[of ?t] a(1) b(1) c(1) by simp
qed

text \<open>Loading a file that was found.\<close>

lemma conf_read_file:
  assumes "conf_base s" "conf_read_open sym_calc w name (sym_set_change_count 0 s)
      = Some (Some (n, str), sym_set_change_count 0 s)"
    and "\<forall>l \<in> set (file_lines str). c_str l \<noteq> ''#''"
  obtains u where "conf_read sym_calc w name s = Some (False, u)" "loadable u" "skeleton u = skeleton s"
    "conf_warnings u \<noteq> 0 \<or> conf_unsaved u \<noteq> 0 \<longrightarrow> conf_get_changed u"
proof -
  let ?s = "sym_set_change_count 0 s"
  have b: "conf_base ?s" by (rule store_base(1)[OF _ assms(1)])
    (simp add: same_tabs_def, simp add: sym_set_change_count_def Let_def)
  have z: "sym_change_count ?s = 0" by (simp add: sym_set_change_count_def Let_def)
  obtain t where t: "conf_read_text (CONFIG_prefix w) S_DEF_USER n str ?s = Some t" "loadable t"
    "0 \<le> sym_change_count t" "skeleton t = skeleton s"
    using read_text_step[OF b assms(3), of "CONFIG_prefix w" n] z by auto
  obtain u where u:
    "(do { s \<leftarrow> calc_opt sym_calc (modules_sym t) t;
         s \<leftarrow> ofold (conf_check_saved sym_calc) (all_symbols s) s;
         s \<leftarrow> ofold (conf_drop_stale sym_calc) (all_symbols s) s;
         Some (sym_add_change_count (if conf_warnings s \<noteq> 0 \<or> conf_unsaved s \<noteq> 0 then 1 else 0) s) }) = Some u"
    "loadable u" "skeleton u = skeleton t" "conf_warnings u \<noteq> 0 \<or> conf_unsaved u \<noteq> 0 \<longrightarrow> conf_get_changed u"
    by (rule conf_read_loaded[OF t(2,3)])
  have "conf_read sym_calc w name s = Some (False, u)"
    using t(1) u(1) assms(2)
    by (auto simp: conf_read_def conf_read_simple_def bind_eq_Some_conv)
  then show ?thesis using that u t(4) by simp
qed



end
