(* ===== verification/Conf_Walk.thy ===== *)
theory Conf_Walk
  imports Conf_Write
begin

text \<open>
  The menu tree behind the links of the menu entries, and the walk of the writers along the links:
  it visits the entries of the tree in preorder, each once, and ends.
\<close>

subsection \<open>Trees\<close>

datatype mtree = MTree menuref "mtree list"

fun preorder :: "mtree list \<Rightarrow> menuref list" where
  "preorder [] = []"
| "preorder (MTree m cs # ts) = m # preorder cs @ preorder ts"

fun mheight :: "mtree list \<Rightarrow> nat" where
  "mheight [] = 0"
| "mheight (MTree m cs # ts) = max (Suc (mheight cs)) (mheight ts)"

text \<open>The list of entries that starts at a link, with the parent \<open>p\<close>, holds the trees.\<close>

fun forest_at :: "kconf \<Rightarrow> menuref \<Rightarrow> menuref option \<Rightarrow> mtree list \<Rightarrow> bool" where
  "forest_at s p None [] \<longleftrightarrow> True"
| "forest_at s p (Some m) (MTree k cs # ts) \<longleftrightarrow> m = k \<and> menu_parent (menutab s k) = Some p
     \<and> forest_at s k (menu_list (menutab s k)) cs \<and> forest_at s p (menu_next (menutab s k)) ts"
| "forest_at s p _ _ \<longleftrightarrow> False"

text \<open>The whole menu: the root has no siblings and no parent, and the counter of entries covers
  it.\<close>

definition menu_tree :: "kconf \<Rightarrow> mtree list \<Rightarrow> bool" where
  "menu_tree s ts \<longleftrightarrow> forest_at s rootmenu (menu_list (menutab s rootmenu)) ts
     \<and> menu_parent (menutab s rootmenu) = None \<and> menu_next (menutab s rootmenu) = None
     \<and> length (preorder ts) < nmenus s"

lemma mheight_preorder: "mheight ts \<le> length (preorder ts)"
  by (induction ts rule: mheight.induct) auto

subsection \<open>The links\<close>

definition links :: "kconf \<Rightarrow> (menuref \<Rightarrow> menuref option \<times> menuref option \<times> menuref option) \<times> nat" where
  "links s = ((\<lambda>m. (menu_list (menutab s m), menu_next (menutab s m), menu_parent (menutab s m))), nmenus s)"

lemma linksD:
  assumes "links t = links s"
  shows "menu_list (menutab t m) = menu_list (menutab s m)" "menu_next (menutab t m) = menu_next (menutab s m)"
    "menu_parent (menutab t m) = menu_parent (menutab s m)" "nmenus t = nmenus s"
  using assms by (simp_all add: links_def fun_eq_iff)

lemma forest_links:
  assumes "links t = links s"
  shows "forest_at t p m ts = forest_at s p m ts"
proof (induction ts arbitrary: p m rule: mheight.induct)
  case 1
  show ?case by (cases m) simp_all
next
  case (2 k cs ts)
  then show ?case by (cases m) (simp_all add: linksD[OF assms])
qed

lemma menu_up_links:
  assumes "links t = links s"
  shows "menu_up n t m = menu_up n s m"
  by (induction n arbitrary: m) (simp_all add: linksD[OF assms] split: option.split)

lemma advance_links:
  assumes "links t = links s"
  shows "menu_advance t m = menu_advance s m"
  by (simp add: menu_advance_def linksD[OF assms] menu_up_links[OF assms] cong: option.case_cong)

lemma menu_up_more: "menu_up n s m = Some r \<Longrightarrow> n \<le> n' \<Longrightarrow> menu_up n' s m = Some r"
proof (induction n arbitrary: m n')
  case (Suc n)
  then show ?case by (cases n') (auto split: option.splits)
qed simp

subsection \<open>The walk\<close>

text \<open>Where the walk goes on after the entries below \<open>p\<close>.\<close>

definition goes_on :: "kconf \<Rightarrow> nat \<Rightarrow> menuref \<Rightarrow> menuref option \<Rightarrow> bool" where
  "goes_on s d p r \<longleftrightarrow>
     (case menu_next (menutab s p) of Some q \<Rightarrow> r = Some q | None \<Rightarrow> menu_up d s p = Some r)"

lemma advance_leaf:
  assumes "menu_list (menutab s m) = None" "menu_next (menutab s m) = None"
    and "menu_parent (menutab s m) = Some p" "goes_on s d p r" "d < nmenus s"
  shows "menu_advance s m = Some r"
proof -
  have "menu_up (Suc d) s m = Some r" using assms(3,4) by (simp add: goes_on_def split: option.splits)
  then have "menu_up (nmenus s) s m = Some r" by (rule menu_up_more) (use assms(5) in simp)
  then show ?thesis using assms(1,2) by (simp add: menu_advance_def)
qed

text \<open>\<open>I\<close> is what the steps keep besides the links.\<close>

lemma walk_forest:
  assumes step: "\<And>m st st'. m \<in> M \<Longrightarrow> I (snd st) \<Longrightarrow> f m st = Some st'
    \<Longrightarrow> I (snd st') \<and> links (snd st') = links (snd st)"
  shows "forest_at s p head ts \<Longrightarrow> ts \<noteq> [] \<Longrightarrow> set (preorder ts) \<subseteq> M \<Longrightarrow> goes_on s d p r \<Longrightarrow> d + mheight ts \<le> nmenus s \<Longrightarrow>
    links (snd st) = links s \<Longrightarrow> I (snd st) \<Longrightarrow>
    conf_walk f (length (preorder ts) + n) head st
      = Option.bind (ofold f (preorder ts) st) (conf_walk f n r)"
proof (induction s p head ts arbitrary: d r n st rule: forest_at.induct)
  case (2 s p m k cs ts)
  have m: "m = k" "menu_parent (menutab s k) = Some p" using 2 by simp_all
  have M: "k \<in> M" "set (preorder cs) \<subseteq> M" "set (preorder ts) \<subseteq> M" using 2(5) by auto
  have cs: "forest_at s k (menu_list (menutab s k)) cs" and ts: "forest_at s p (menu_next (menutab s k)) ts"
    using 2(3) by simp_all
  have h: "d + Suc (mheight cs) \<le> nmenus s" "d + mheight ts \<le> nmenus s" using 2(7) by auto
  show ?case
  proof (cases "f k st")
    case None
    then show ?thesis by (simp add: m)
  next
    case (Some u)
    have u: "I (snd u)" "links (snd u) = links s" using step[OF M(1) 2(9) Some] 2(8) by simp_all
    have rest: "conf_walk f (length (preorder ts) + n) r' st'
        = Option.bind (ofold f (preorder ts) st') (conf_walk f n r)"
      if "links (snd st') = links s" "I (snd st')" "r' = (if ts = [] then r else menu_next (menutab s k))" for st' r'
      using 2(2)[OF ts _ M(3) 2(6) h(2) that(1,2)] that(3) by (cases "ts = []") simp_all
    have adv: "menu_advance (snd u) k = Some
        (if cs \<noteq> [] then menu_list (menutab s k) else if ts \<noteq> [] then menu_next (menutab s k) else r)"
    proof (cases "menu_list (menutab s k)")
      case (Some c)
      then have "cs \<noteq> []" using cs by (cases cs) auto
      then show ?thesis using Some unfolding advance_links[OF u(2)] by (simp add: menu_advance_def)
    next
      case None
      then have c: "cs = []" using cs by (cases cs) auto
      show ?thesis
      proof (cases "menu_next (menutab s k)")
        case (Some q)
        then have "ts \<noteq> []" using ts by (cases ts) auto
        then show ?thesis using None Some c unfolding advance_links[OF u(2)] by (simp add: menu_advance_def)
      next
        case n: None
        then have t: "ts = []" using ts by (cases ts) auto
        have "menu_advance s k = Some r"
          using advance_leaf[OF None n m(2) 2(6)] h(1) by simp
        then have "menu_advance (snd u) k = Some r" by (simp add: advance_links[OF u(2)])
        then show ?thesis using c t by simp
      qed
    qed
    show ?thesis
    proof (cases "cs = []")
      case True
      then show ?thesis using Some adv rest[OF u(2,1) refl] by (cases "ts = []") (simp_all add: m)
    next
      case False
      let ?r = "if ts = [] then r else menu_next (menutab s k)"
      have g: "goes_on s (Suc d) k ?r"
      proof (cases "menu_next (menutab s k)")
        case None
        then have "ts = []" using ts by (cases ts) auto
        then show ?thesis using None 2(6) m(2) by (simp add: goes_on_def split: option.splits)
      next
        case (Some q)
        then have "ts \<noteq> []" using ts by (cases ts) auto
        then show ?thesis using Some by (simp add: goes_on_def)
      qed
      have "conf_walk f (length (preorder cs) + (length (preorder ts) + n)) (menu_list (menutab s k)) u
        = Option.bind (ofold f (preorder cs) u) (conf_walk f (length (preorder ts) + n) ?r)"
        using 2(1)[OF cs False M(2) g _ u(2,1)] h(1) by simp
      also have "\<dots> = Option.bind (ofold f (preorder cs) u)
          (\<lambda>st'. Option.bind (ofold f (preorder ts) st') (conf_walk f n r))"
      proof (rule Option.bind_cong[OF refl])
        fix st' assume "ofold f (preorder cs) u = Some st'"
        then have "I (snd st') \<and> links (snd st') = links s"
          by (rule ofold_invariant[where P = "\<lambda>st. I (snd st) \<and> links (snd st) = links s", rotated 2])
            (use u step M(2) in auto)
        then show "conf_walk f (length (preorder ts) + n) ?r st'
          = Option.bind (ofold f (preorder ts) st') (conf_walk f n r)" using rest by simp
      qed
      finally show ?thesis using Some adv False by (simp add: m ofold_append add.assoc bind_assoc)
    qed
  qed
qed simp_all

text \<open>The walk is the fold over the entries in preorder.\<close>

lemma conf_walk_preorder:
  assumes step: "\<And>m st st'. m \<in> set (preorder ts) \<Longrightarrow> I (snd st) \<Longrightarrow> f m st = Some st'
      \<Longrightarrow> I (snd st') \<and> links (snd st') = links (snd st)"
    and "menu_tree (snd st) ts" and "I (snd st)"
  shows "conf_walk f (Suc (nmenus (snd st))) (menu_list (menutab (snd st) rootmenu)) st
    = ofold f (preorder ts) st"
proof (cases "ts = []")
  case True
  then have "menu_list (menutab (snd st) rootmenu) = None"
    using assms(2) by (cases "menu_list (menutab (snd st) rootmenu)") (auto simp: menu_tree_def)
  then show ?thesis using True by simp
next
  case False
  let ?s = "snd st"
  have "goes_on ?s 1 rootmenu None" using assms(2) by (simp add: goes_on_def menu_tree_def)
  moreover obtain n where n: "Suc (nmenus ?s) = length (preorder ts) + Suc n"
    using assms(2) by (auto simp: menu_tree_def dest!: less_imp_Suc_add)
  moreover have "1 + mheight ts \<le> nmenus ?s"
    using assms(2) mheight_preorder[of ts] by (simp add: menu_tree_def)
  ultimately have "conf_walk f (Suc (nmenus ?s)) (menu_list (menutab ?s rootmenu)) st
    = Option.bind (ofold f (preorder ts) st) (conf_walk f (Suc n) None)"
    using walk_forest[where M = "set (preorder ts)" and I = I and f = f and s = ?s and p = rootmenu and ts = ts and d = 1 and r = None
        and st = st and n = "Suc n", OF step] False assms(2,3)
    by (simp add: menu_tree_def)
  then show ?thesis by (cases "ofold f (preorder ts) st") simp_all
qed

end
