(* ===== verification/Conf_Write_Properties.thy ===== *)
theory Conf_Write_Properties
  imports Conf_Walk Conf_New Conf_Demo
begin

text \<open>
  The properties of the writers: the walk visits the menu tree in preorder, writing a
  configuration returns and never loses the old file, and the probabilities for random
  configurations are probabilities.
\<close>

subsection \<open>Writing one entry\<close>

text \<open>An entry whose symbol exists, and whose conditions are over symbols that do.\<close>

definition entry_ok :: "kconf \<Rightarrow> menuref \<Rightarrow> bool" where
  "entry_ok s m \<longleftrightarrow> (\<forall>y. menu_sym (menutab s m) = Some y \<longrightarrow> y \<in> sym_univ s)
     \<and> expr_ok s (menu_visibility (menutab s m))
     \<and> (\<forall>p. menu_prompt (menutab s m) = Some p \<longrightarrow> expr_ok s (ev_expr (prop_visible (proptab s p))))"

lemma frame_menu_fields:
  assumes "frame t = frame s"
  shows "menu_sym (menutab t m) = menu_sym (menutab s m)" "menu_prompt (menutab t m) = menu_prompt (menutab s m)"
    "menu_visibility (menutab t m) = menu_visibility (menutab s m)" "links t = links s"
    "entry_ok t m = entry_ok s m" "prop_text (proptab t p) = prop_text (proptab s p)"
proof -
  have m: "frame_menu (menutab t k) = frame_menu (menutab s k)" for k
    using arg_cong[OF assms, of "\<lambda>s. menutab s k"] by (simp add: frame_def)
  have f: "menu_sym (menutab t k) = menu_sym (menutab s k)" "menu_prompt (menutab t k) = menu_prompt (menutab s k)"
    "menu_visibility (menutab t k) = menu_visibility (menutab s k)" "menu_list (menutab t k) = menu_list (menutab s k)"
    "menu_next (menutab t k) = menu_next (menutab s k)" "menu_parent (menutab t k) = menu_parent (menutab s k)" for k
    using arg_cong[OF m, of menu_sym k] arg_cong[OF m, of menu_prompt k] arg_cong[OF m, of menu_visibility k]
      arg_cong[OF m, of menu_list k] arg_cong[OF m, of menu_next k] arg_cong[OF m, of menu_parent k]
    by (simp_all add: frame_menu_def)
  show "menu_sym (menutab t m) = menu_sym (menutab s m)" "menu_prompt (menutab t m) = menu_prompt (menutab s m)"
    "menu_visibility (menutab t m) = menu_visibility (menutab s m)" by (fact f)+
  show "links t = links s" using arg_cong[OF assms, of nmenus] by (simp add: links_def f frame_def)
  have "ev_expr (prop_visible (proptab t p)) = ev_expr (prop_visible (proptab s p))" for p
    using arg_cong[OF assms, of "\<lambda>s. ev_expr (prop_visible (proptab s p))"] by simp
  then show "entry_ok t m = entry_ok s m" by (simp add: entry_ok_def f frame_eqD(2,4)[OF assms])
  show "prop_text (proptab t p) = prop_text (proptab s p)"
    using arg_cong[OF assms, of "\<lambda>s. prop_text (proptab s p)"] by simp
qed

context calc_total
begin

lemma write_symbol_returns:
  assumes "go s" "y \<in> sym_univ s" "\<not> logic_sym s y \<longrightarrow> has_flag SYMBOL_VALID y s"
  shows "returns s (\<lambda>_ _. True) (conf_write_symbol calc pre printer arg y s)"
proof -
  have "returns s (\<lambda>_ _. True) (do { (v, s) \<leftarrow> sym_get_string_value calc y s; str \<leftarrow> str_of v;
        Some (printer pre (symtab s y)
          (if sym_type (symtab s0 y) = S_STRING then sym_escape_string_value str else str) arg, s) })" for s0
    by (rule returns_bind[OF string_value_returns[OF assms]])
      (auto simp: is_str_def str_of_def calc_postD(1) intro!: returns_Some)
  then show ?thesis using go_ready[OF assms(1)]
    by (auto simp: conf_write_symbol_def Let_def intro!: returns_Some)
qed

text \<open>An entry without a symbol is shown or not by its own conditions.\<close>

lemma visible_returns:
  assumes "go s" "entry_ok s m" "menu_sym (menutab s m) = None"
  shows "returns s (\<lambda>_ _. True) (menu_visible_body calc vis m s)"
proof (cases "menu_prompt (menutab s m)")
  case None
  then show ?thesis using go_ready[OF assms(1)] by (auto simp: menu_visible_body_def intro!: returns_Some)
next
  case (Some p)
  have e: "expr_ok s (menu_visibility (menutab s m))" "expr_ok s (ev_expr (prop_visible (proptab s p)))"
    using assms(2) Some by (auto simp: entry_ok_def)
  show ?thesis unfolding menu_visible_body_def Some option.case
  proof (rule returns_bind[OF expr_value_returns[OF assms(1) e(1)]], unfold split)
    fix g t assume t: "calc_post s t"
    note f = frame_menu_fields[OF calc_postD(2)[OF t]]
    have gt: "go t" by (rule go_post[OF assms(1) t])
    have "ev_expr (prop_visible (proptab t p)) = ev_expr (prop_visible (proptab s p))"
      using arg_cong[OF calc_postD(2)[OF t], of "\<lambda>s. ev_expr (prop_visible (proptab s p))"] by simp
    then have v: "expr_ok t (ev_expr (prop_visible (proptab t p)))"
      using e(2) frame_eqD(4)[OF calc_postD(2)[OF t]] by simp
    have n: "menu_sym (menutab t m) = None" using f(1)[of m] assms(3) by simp
    have q: "returns u (\<lambda>_ _. True) (if a \<noteq> tno then Some (True, u)
        else case menu_sym (menutab u m) of None \<Rightarrow> Some (False, u) | Some y \<Rightarrow> h u y)"
      if "calc_post t u" for a u and h :: "kconf \<Rightarrow> symref \<Rightarrow> (bool \<times> kconf) option"
      using that n frame_menu_fields(1)[OF calc_postD(2)[OF that], of m] calc_postD(1)[OF that]
      by (auto intro!: returns_Some)
    show "returns t (\<lambda>_ _. True)
       (if g = tno then Some (False, t)
          else do {
            (visible, s) \<leftarrow> (case menu_sym (menutab t m) of
                Some y \<Rightarrow> do {
                  s \<leftarrow> calc y t;
                  Some (ev_tri (prop_visible (proptab s p)), s) }
              | None \<Rightarrow> prop_calc_visible calc p t);
            if visible \<noteq> tno then Some (True, s)
            else (case menu_sym (menutab s m) of
                None \<Rightarrow> Some (False, s)
              | Some y \<Rightarrow>
                 if sym_get_tristate_value s y = tno then Some (False, s)
                 else do {
                   ms \<leftarrow> menu_children s m;
                   (v, s) \<leftarrow> any_visible vis ms s;
                   Some (v, if v then set_flag SYMBOL_DEF_USER y s else s) }) })"
    proof (cases "g = tno")
      case True
      then show ?thesis using go_ready[OF gt] by (auto intro!: returns_Some)
    next
      case False
      show ?thesis unfolding if_not_P[OF False] n option.case
        by (rule returns_bind[OF prop_visible_returns[OF gt v]], unfold split) (rule q)
    qed
  qed
qed

lemma write_entry_returns:
  assumes "go s" "entry_ok s m"
  shows "returns s (\<lambda>o' _. \<exists>txt. o' = out @ txt) (conf_write_entry calc pre m (out, s))"
proof (cases "menu_sym (menutab s m)")
  case None
  have "returns s (\<lambda>_ _. True) (menu_is_visible calc (Suc (nmenus s)) m s)"
    using visible_returns[OF assms None] by simp
  then show ?thesis unfolding conf_write_entry_def split None option.case
    by (rule returns_bind) (auto intro!: returns_Some simp: calc_postD(1))
next
  case (Some y)
  have y: "y \<in> sym_univ s" using assms(2) Some by (simp add: entry_ok_def)
  have t: "returns t (\<lambda>o' _. \<exists>txt. o' = out @ txt)
      (if \<not> has_flag SYMBOL_WRITE y t then Some (out, t)
       else do {
         (text, s) \<leftarrow> conf_write_symbol calc pre kconfig_print_symbol False y (clear_flag SYMBOL_WRITE y t);
         Some (out @ text, s) })"
    if t: "calc_post s t" "\<not> logic_sym t y \<longrightarrow> has_flag SYMBOL_VALID y t" for t
  proof -
    have gt: "go t" by (rule go_post[OF assms(1) t(1)])
    let ?u = "clear_flag SYMBOL_WRITE y t"
    have u: "calc_post t ?u" using go_ready[OF gt] by simp
    have "y \<in> sym_univ ?u" using y post_univ[OF t(1)] post_univ[OF u] by simp
    moreover have "\<not> logic_sym ?u y \<longrightarrow> has_flag SYMBOL_VALID y ?u"
      using t(2) by (simp add: clear_flag_def has_flag_def)
    ultimately have "returns ?u (\<lambda>_ _. True) (conf_write_symbol calc pre kconfig_print_symbol False y ?u)"
      using write_symbol_returns[OF go_post[OF gt u]] by blast
    then have "returns t (\<lambda>_ _. True) (conf_write_symbol calc pre kconfig_print_symbol False y ?u)"
      by (rule returns_post[OF u])
    then have "returns t (\<lambda>o' _. \<exists>txt. o' = out @ txt) (do {
         (text, s) \<leftarrow> conf_write_symbol calc pre kconfig_print_symbol False y ?u;
         Some (out @ text, s) })"
      by (rule returns_bind) (auto intro!: returns_Some simp: calc_postD(1))
    then show ?thesis using go_ready[OF gt] by (auto intro!: returns_Some)
  qed
  show ?thesis
  proof (cases "sym_is_choice s y")
    case True
    then show ?thesis using Some go_ready[OF assms(1)] by (auto simp: conf_write_entry_def intro!: returns_Some)
  next
    case False
    have "returns s (\<lambda>o' _. \<exists>txt. o' = out @ txt) (do { t \<leftarrow> calc y s;
       if \<not> has_flag SYMBOL_WRITE y t then Some (out, t)
       else do {
         (text, s) \<leftarrow> conf_write_symbol calc pre kconfig_print_symbol False y (clear_flag SYMBOL_WRITE y t);
         Some (out @ text, s) } })"
      by (rule returns_ends[OF calc_ends[OF assms(1) y]]) (rule t)
    then show ?thesis using Some False by (simp add: conf_write_entry_def)
  qed
qed

end

lemma write_entry_ends:
  assumes "calc_ready s" "entry_ok s m"
  obtains a t where "conf_write_entry sym_calc pre m (out, s) = Some (out @ a, t)" "calc_post s t"
proof -
  have "calc_total.go (Suc (calc_work s)) s" using assms(1) by (simp add: sc.go_def)
  from sc.write_entry_returns[OF this assms(2), of out pre] that show ?thesis by (auto simp: sc.returns_def)
qed

subsection \<open>Writing a configuration\<close>

lemma cleared_menus: "menutab (cleared s) = menutab s" "nmenus (cleared s) = nmenus s"
  by (simp_all add: cleared_def clear_flags_fold sym_add_change_count_def sym_set_change_count_def Let_def)

lemma cleared_entry: "entry_ok (cleared s) m = entry_ok s m" "links (cleared s) = links s"
  by (simp_all add: entry_ok_def links_def cleared_menus cleared_fields same_confD(1,7)[OF cleared_same])

lemma write_entries:
  assumes "\<forall>m \<in> set ms. entry_ok u m" "calc_ready v" "frame v = frame u"
  obtains body t where "ofold (conf_write_entry sym_calc pre) ms (out, v) = Some (out @ body, t)"
    "calc_ready t" "frame t = frame u"
  using assms
proof (induction ms arbitrary: out v thesis)
  case (Cons m ms)
  have "entry_ok v m" using Cons.prems(2) frame_menu_fields(5)[OF Cons.prems(4)] by simp
  then obtain a w where w: "conf_write_entry sym_calc pre m (out, v) = Some (out @ a, w)" "calc_post v w"
    by (rule write_entry_ends[OF Cons.prems(3)])
  have w2: "calc_ready w" "frame w = frame u" using calc_postD(1,2)[OF w(2)] Cons.prems(4) by simp_all
  have "\<forall>m \<in> set ms. entry_ok u m" using Cons.prems(2) by simp
  then obtain b t where t: "ofold (conf_write_entry sym_calc pre) ms (out @ a, w) = Some ((out @ a) @ b, t)"
    "calc_ready t" "frame t = frame u"
    using Cons.IH[of "out @ a" w] w2 by blast
  then show ?case using w(1) by (intro Cons.prems(1)[of "a @ b" t]) simp_all
qed simp

text \<open>What the writers of the menu tree need of a configuration.\<close>

definition writable_conf :: "kconf \<Rightarrow> mtree list \<Rightarrow> bool" where
  "writable_conf s ts \<longleftrightarrow> calc_ready s \<and> hash_ok s \<and> menu_tree s ts
     \<and> (\<forall>m \<in> set (preorder ts). entry_ok s m) \<and> menu_prompt (menutab s rootmenu) \<noteq> None"

lemma conf_walk_entries:
  assumes "calc_ready u" "menu_tree u ts" "\<forall>m \<in> set (preorder ts). entry_ok u m"
  shows "conf_walk (conf_write_entry sym_calc pre) (Suc (nmenus u)) (menu_list (menutab u rootmenu)) (h, u)
    = ofold (conf_write_entry sym_calc pre) (preorder ts) (h, u)"
proof -
  let ?I = "\<lambda>t. calc_ready t \<and> frame t = frame u"
  have "?I (snd st') \<and> links (snd st') = links (snd st)"
    if m: "m \<in> set (preorder ts)" "?I (snd st)" "conf_write_entry sym_calc pre m st = Some st'" for m st st'
  proof -
    have "entry_ok (snd st) m" using assms(3) m(1,2) frame_menu_fields(5) by blast
    then obtain a t where t: "conf_write_entry sym_calc pre m (fst st, snd st) = Some (fst st @ a, t)"
      "calc_post (snd st) t"
      using write_entry_ends[of "snd st" m] m(2) by blast
    then have "snd st' = t" using m(3) by simp
    then show ?thesis using calc_postD(1,2)[OF t(2)] frame_menu_fields(4)[OF calc_postD(2)[OF t(2)]] m(2) by simp
  qed
  from conf_walk_preorder[where I = ?I and f = "conf_write_entry sym_calc pre" and st = "(h, u)" and ts = ts, OF this]
  show ?thesis using assms by simp
qed

lemma write_text_returns:
  assumes "writable_conf s ts"
  obtains h u body t where "conf_write_heading kconfig_print_comment s = Some h"
    "(if conf_get_changed s then Some s else sym_clear_all_valid sym_calc s) = Some u"
    "ofold (conf_write_entry sym_calc pre) (preorder ts) (h, u) = Some (h @ body, t)"
    "conf_write_text sym_calc pre s = Some (h @ body, t)" "calc_ready t"
proof -
  have s: "calc_ready s" "hash_ok s" "menu_tree s ts" "\<forall>m \<in> set (preorder ts). entry_ok s m"
    using assms by (simp_all add: writable_conf_def)
  obtain h where h: "conf_write_heading kconfig_print_comment s = Some h"
    using assms by (auto simp: writable_conf_def conf_write_heading_def)
  obtain u where u: "(if conf_get_changed s then Some s else sym_clear_all_valid sym_calc s) = Some u"
    "calc_ready u" "links u = links s" "\<forall>m \<in> set (preorder ts). entry_ok u m"
  proof (cases "conf_get_changed s")
    case True
    then show ?thesis using that[of s] s by simp
  next
    case False
    obtain r where "sym_clear_all_valid sym_calc s = Some r" "calc_ready r" "frame r = frame (cleared s)"
      by (rule clear_all_ends[OF s(1,2)])
    then show ?thesis using that[of r] False frame_menu_fields(4,5)[of r "cleared s"] cleared_entry s(4) by simp
  qed
  have m: "menu_tree u ts"
    using s(3) linksD[OF u(3)] forest_links[OF u(3)] by (simp add: menu_tree_def)
  from write_entries[OF u(4) u(2) refl, of pre h] obtain body t where
    t: "ofold (conf_write_entry sym_calc pre) (preorder ts) (h, u) = Some (h @ body, t)" "calc_ready t" by blast
  have "conf_write_text sym_calc pre s = Some (h @ body, t)"
    using h u(1) conf_walk_entries[OF u(2) m u(4), of pre h] t(1) by (simp add: conf_write_text_def)
  then show ?thesis using that h u(1) t by blast
qed

text \<open>The name of the file, and the temporary file beside it.\<close>

definition config_path :: "world \<Rightarrow> string option \<Rightarrow> string" where
  "config_path w name = fst (conf_write_name w name) @ snd (conf_write_name w name)"

definition temp_path :: "world \<Rightarrow> string option \<Rightarrow> string" where
  "temp_path w name = fst (conf_write_name w name) @ ''.tmpconfig.'' @ show_nat 10 (w_pid w)"

lemma rename_keeps:
  assumes "v = w_try_rename new old w" "new \<noteq> old" "tmp \<notin> {new, old}"
  shows "w_files v tmp = w_files w tmp" "w_denied v = w_denied w" "w_dirs v = w_dirs w"
    "w_files v new = w_files w new \<or> w_files v old = w_files w new"
  using assms by (auto simp: w_try_rename_def w_rename_def split: option.splits)

text \<open>How writing ends.\<close>

lemma conf_write_ends:
  assumes "writable_conf s ts"
    and "temp_path w name \<notin> {config_path w name, config_path w name @ ''.old''}"
  shows "\<exists>failed s' w' h u body t.
    conf_write sym_calc w name s = Some (failed, s', w')
    \<and> conf_write_heading kconfig_print_comment s = Some h
    \<and> (if conf_get_changed s then Some s else sym_clear_all_valid sym_calc s) = Some u
    \<and> ofold (conf_write_entry sym_calc (CONFIG_prefix w)) (preorder ts) (h, u) = Some (h @ body, t)
    \<and> (\<not> failed \<longrightarrow> w_files w' (config_path w name) = Some (h @ body) \<and> \<not> conf_get_changed s')
    \<and> (failed \<longrightarrow> w_files w' (config_path w name) = w_files w (config_path w name)
         \<or> w_files w' (config_path w name @ ''.old'') = w_files w (config_path w name))"
proof -
  obtain h u body t where b: "conf_write_heading kconfig_print_comment s = Some h"
    "(if conf_get_changed s then Some s else sym_clear_all_valid sym_calc s) = Some u"
    "ofold (conf_write_entry sym_calc (CONFIG_prefix w)) (preorder ts) (h, u) = Some (h @ body, t)"
    "conf_write_text sym_calc (CONFIG_prefix w) s = Some (h @ body, t)"
    by (rule write_text_returns[OF assms(1)])
  let ?new = "config_path w name" and ?tmp = "temp_path w name"
  let ?ow = "case w_env w ''KCONFIG_OVERWRITECONFIG'' of None \<Rightarrow> False | Some e \<Rightarrow> e \<noteq> []"
  let ?out = "if ?ow then ?new else ?tmp"
  let ?v = "w_try_rename ?new (?new @ ''.old'') (w_put ?tmp (h @ body) w)"
  obtain d bn where n: "conf_write_name w name = (d, bn)" by fastforce
  have e: "conf_write sym_calc w name s =
    (if \<not> w_writable w ?out then Some (True, s, w)
     else if ?ow then Some (False, conf_written ?new t, w_put ?new (h @ body) w)
     else case w_rename ?tmp ?new ?v of None \<Rightarrow> Some (True, t, ?v) | Some w \<Rightarrow> Some (False, conf_written ?new t, w))"
    unfolding conf_write_def config_path_def temp_path_def n Let_def split fst_conv snd_conv b(4)
    by simp
  have ch: "\<not> conf_get_changed (conf_written n t)" for n
    by (simp add: conf_written_def conf_get_changed_def sym_set_change_count_def Let_def)
  have k: "w_files ?v ?tmp = Some (h @ body)"
    "w_files ?v ?new = w_files w ?new \<or> w_files ?v (?new @ ''.old'') = w_files w ?new"
    using rename_keeps(1,4)[OF refl, of ?new "?new @ ''.old''" ?tmp "w_put ?tmp (h @ body) w"] assms(2)
    by (auto simp: w_put_def)
  show ?thesis
  proof (cases "w_writable w ?out \<and> \<not> ?ow")
    case False
    then show ?thesis using e ch b(1-3) by (auto simp: w_put_def split: if_splits)
  next
    case True
    show ?thesis
    proof (cases "w_rename ?tmp ?new ?v")
      case None
      then show ?thesis using e True b(1-3) k(2) by auto
    next
      case (Some x)
      then have "w_files x ?new = Some (h @ body)"
        using k(1) by (auto simp: w_rename_def split: option.splits if_splits)
      then show ?thesis using e True Some b(1-3) ch by auto
    qed
  qed
qed


text \<open>A menu of two entries below the root.\<close>

definition demo_menutab :: "nat \<Rightarrow> menu" where
  "demo_menutab m =
     (if m = 0 then zero_menu\<lparr>menu_list := Some 1, menu_prompt := Some 0\<rparr>
      else if m = 1 then zero_menu\<lparr>menu_next := Some 2, menu_parent := Some 0, menu_sym := Some (heap_sym 0),
        menu_prompt := Some 0\<rparr>
      else if m = 2 then zero_menu\<lparr>menu_parent := Some 0, menu_sym := Some (heap_sym 2)\<rparr>
      else zero_menu)"

definition demo_menu :: kconf where
  "demo_menu = demo_conf\<lparr>menutab := demo_menutab, nmenus := 3\<rparr>"

lemma demo_writable: "writable_conf demo_menu [MTree 1 [], MTree 2 []]"
proof -
  have c: "same_conf demo_conf demo_menu" by (simp add: same_conf_def demo_menu_def lkc_inline_defs)
  have u: "sym_univ demo_menu = sym_univ demo" by (simp add: sym_univ_def demo_menu_def)
  have "calc_ready demo_menu"
  proof (rule ready_same[OF demo_conf_ready(1) c])
    show "has_flag SYMBOL_VALID y demo_menu" if "y \<in> {symbol_yes, symbol_mod, symbol_no, symbol_empty}" for y
      using const_valid[OF demo_conf_ready(1) that] by (simp add: has_flag_def demo_menu_def)
    show "user_ok demo_menu y" if "y \<in> sym_univ demo_conf" for y
      using sym_wf_user[OF readyD(1)[OF demo_conf_ready(1) that]] by (simp add: user_ok_def lkc_inline_defs demo_menu_def)
  qed (simp_all add: has_flag_def demo_menu_def)
  moreover have "hash_ok demo_menu"
    using demo_conf_ready(2) by (simp add: hash_ok_def hash_symbols_def demo_menu_def)
  moreover have "menu_tree demo_menu [MTree 1 [], MTree 2 []]"
    by (simp add: menu_tree_def demo_menu_def demo_menutab_def zero_menu_def rootmenu_def)
  ultimately show ?thesis
    by (simp add: writable_conf_def entry_ok_def u demo_univ)
      (simp add: demo_menu_def demo_menutab_def zero_menu_def rootmenu_def expr_ok_def demo_defs)
qed


subsection \<open>Probabilities\<close>

lemma prob_values_bounds:
  "prob_values n env = Some p \<Longrightarrow> length p \<le> n \<and> (\<forall>x \<in> set p. 0 \<le> x \<and> x \<le> 100)"
proof (induction n arbitrary: env p)
  case (Suc n)
  then show ?case by (fastforce simp: Let_def split: if_splits)
qed simp

text \<open>The probabilities of a random configuration are between 0 and 100, whatever the
  environment says; a text that gives others, or a tristate more than 100 in all, is refused.\<close>

theorem conf_probs_bounds:
  assumes "conf_probs w mode = Some pr"
  shows "0 \<le> pby pr \<and> pby pr \<le> 100 \<and> 0 \<le> pty pr \<and> 0 \<le> ptm pr \<and> pty pr + ptm pr \<le> 100"
proof -
  have d: "choose_probs [] = \<lparr>pby = 50, pty = 33, ptm = 33\<rparr>" by (simp add: choose_probs_def)
  show ?thesis
  proof (cases "mode = def_random")
    case False
    then show ?thesis using assms by (auto simp: conf_probs_def d)
  next
    case True
    obtain env p where p: "prob_values 3 env = Some p" "pr = choose_probs p" "pty pr + ptm pr \<le> 100"
      using assms True by (auto simp: conf_probs_def bind_eq_Some_conv Let_def split: if_splits)
    note b = prob_values_bounds[OF p(1)]
    consider "p = []" | a where "p = [a]" | a c where "p = [a, c]" | a c e where "p = [a, c, e]"
      using b by (cases p; cases "tl p"; cases "tl (tl p)") auto
    then show ?thesis using b p(2,3) by cases (auto simp: choose_probs_def)
  qed
qed

theorem conf_probs_bounds_witness:
  "\<exists>pr. conf_probs (demo_world\<lparr>w_env := [''KCONFIG_PROBABILITY'' \<mapsto> ''10:20'']\<rparr>) def_random = Some pr
     \<and> pty pr = 10 \<and> ptm pr = 20 \<and> pby pr = 30 \<and> pty pr + ptm pr \<le> 100"
proof -
  have "conf_probs (demo_world\<lparr>w_env := [''KCONFIG_PROBABILITY'' \<mapsto> ''10:20'']\<rparr>) def_random
      = Some \<lparr>pby = 30, pty = 10, ptm = 20\<rparr>"
    by code_simp
  from this conf_probs_bounds[OF this] show ?thesis by simp
qed

end
