(* ===== verification/Sortfile.thy ===== *)
theory Sortfile
  imports World "HOL-Library.Word" "HOL-Library.Multiset" "HOL-Library.Char_ord"
    "HOL-Library.List_Lexorder"
begin

text \<open>
  \<open>adk/tools/sortfile.c\<close>: the lines of a file sorted into another file. \<open>None\<close> is a call of
  \<open>err\<close> (the program ends), or undefined behaviour.
\<close>

subsection \<open>The array of lines\<close>

text \<open>The size of an array, with the overflow check of \<open>xrecalloc\<close>; the allocation itself
  succeeds.\<close>

definition MUL_NO_OVERFLOW :: "64 word" where
  "MUL_NO_OVERFLOW = push_bit 32 1"

definition xrecalloc :: "64 word \<Rightarrow> 64 word \<Rightarrow> 64 word option" where
  "xrecalloc nmemb sz =
     (if (MUL_NO_OVERFLOW \<le> nmemb \<or> MUL_NO_OVERFLOW \<le> sz) \<and> 0 < nmemb \<and> (- 1) div nmemb < sz
      then None else Some (sz * nmemb))"

lemma drop_line_less:
  assumes "newline \<in> set (butlast text)"
  shows "length (drop 1 (dropWhile (\<lambda>c. c \<noteq> newline) text)) < length text"
proof -
  have "text \<noteq> []" using assms by auto
  moreover have "length (dropWhile (\<lambda>c. c \<noteq> newline) text) \<le> length text" by (rule length_dropWhile_le)
  ultimately show ?thesis by (cases "text") (auto simp: less_Suc_eq_le)
qed

text \<open>
  A loop that finds the newlines before the last byte (\<open>memchr\<close> over \<open>endfile - cp\<close> bytes). \<open>n\<close>
  entries of the array are filled, it has room for \<open>asz\<close>; writing behind that is \<open>None\<close>. An
  entry has 16 bytes.
\<close>

function sort_entries :: "nat \<Rightarrow> nat \<Rightarrow> string \<Rightarrow> string list option" where
  "sort_entries n asz text =
     (if asz \<le> n then None
      else if newline \<in> set (butlast text) then
        (let line = takeWhile (\<lambda>c. c \<noteq> newline) text @ [newline];
             rest = drop 1 (dropWhile (\<lambda>c. c \<noteq> newline) text)
         in if Suc n = asz then
              (case xrecalloc (of_nat (2 * asz)) 16 of
                 None \<Rightarrow> None
               | Some _ \<Rightarrow> map_option ((#) line) (sort_entries (Suc n) (2 * asz) rest))
            else map_option ((#) line) (sort_entries (Suc n) asz rest))
      else Some [text])"
  by pat_completeness auto

termination
  by (relation "measure (\<lambda>(n, asz, text). length text)") (auto dest: drop_line_less)

declare sort_entries.simps [simp del]

subsection \<open>Sorting\<close>

text \<open>\<open>memcmp\<close> of two blocks of the same length: the first difference.\<close>

fun memcmp :: "string \<Rightarrow> string \<Rightarrow> int" where
  "memcmp (x # xs) (y # ys) = (if x = y then memcmp xs ys else of_char x - of_char y)"
| "memcmp _ _ = 0"

definition cmpfn :: "string \<Rightarrow> string \<Rightarrow> int" where
  "cmpfn a b =
     (let n = (if length a > length b then length b else length a) - 1;
          rv = memcmp (take n a) (take n b)
      in if rv \<noteq> 0 then rv
         else if length a > length b then 1 else if length a = length b then 0 else - 1)"

fun qsort_insert :: "('a \<Rightarrow> 'a \<Rightarrow> int) \<Rightarrow> 'a \<Rightarrow> 'a list \<Rightarrow> 'a list" where
  "qsort_insert cmp x [] = [x]"
| "qsort_insert cmp x (y # ys) = (if cmp x y \<le> 0 then x # y # ys else y # qsort_insert cmp x ys)"

text \<open>\<open>qsort\<close> of the C library; \<open>sortfile_unique\<close> shows that any other sorting function gives the
  same file.\<close>

definition qsort :: "('a \<Rightarrow> 'a \<Rightarrow> int) \<Rightarrow> 'a list \<Rightarrow> 'a list" where
  "qsort cmp xs = foldr (qsort_insert cmp) xs []"

subsection \<open>The files\<close>

text \<open>Writing to a file that is opened without \<open>O_TRUNC\<close>: what is longer in the old one stays.\<close>

definition w_overwrite :: "string \<Rightarrow> string \<Rightarrow> world \<Rightarrow> world" where
  "w_overwrite path text w = w_put path
     (text @ (case w_files w path of None \<Rightarrow> [] | Some old \<Rightarrow> drop (length text) old)) w"

text \<open>
  An empty file cannot be mapped. It is unspecified whether the mapping sees what is written to
  the same file. The maximum size is three quarters of the address space.
\<close>

definition sortfile :: "string \<Rightarrow> string \<Rightarrow> world \<Rightarrow> world option" where
  "sortfile infile outfile w =
     (case w_files w infile of
        None \<Rightarrow> None
      | Some text \<Rightarrow>
         if length text > 2 ^ 63 - 1 + (2 ^ 62 - 1) then None
         else if text = [] then None
         else if infile = outfile then None
         else do {
           _ \<leftarrow> xrecalloc 8 16;
           thearray \<leftarrow> sort_entries 0 8 text;
           (if w_writable w outfile then Some (w_overwrite outfile (concat (qsort cmpfn thearray)) w)
            else None) })"

subsection \<open>The overflow check\<close>

lemma xrecalloc_exact:
  "xrecalloc nmemb sz = (if unat nmemb * unat sz < 2 ^ 64 then Some (sz * nmemb) else None)"
proof -
  have small: "unat nmemb * unat sz < 2 ^ 64" if "unat nmemb < 2 ^ 32" "unat sz < 2 ^ 32"
  proof -
    have "unat nmemb * unat sz \<le> (2 ^ 32 - 1) * (2 ^ 32 - 1)"
      using that by (intro mult_le_mono) auto
    then show ?thesis by simp
  qed
  have max: "unat (- 1 :: 64 word) = 2 ^ 64 - 1" by (simp add: unsigned_minus_1_eq_mask mask_eq_exp_minus_1)
  have div: "(- 1) div nmemb < sz \<longleftrightarrow> 2 ^ 64 \<le> unat nmemb * unat sz" if "0 < nmemb"
  proof -
    have n: "0 < unat nmemb" using that by (simp add: unat_gt_0 word_neq_0_conv)
    have "(- 1) div nmemb < sz \<longleftrightarrow> (2 ^ 64 - 1) div unat nmemb < unat sz"
      by (simp only: word_less_nat_alt unat_div max)
    also have "\<dots> \<longleftrightarrow> 2 ^ 64 - 1 < unat sz * unat nmemb" using n by (simp add: div_less_iff_less_mult)
    finally show ?thesis by (auto simp: mult.commute)
  qed
  have m: "MUL_NO_OVERFLOW \<le> x \<longleftrightarrow> 2 ^ 32 \<le> unat x" for x
    by (simp add: MUL_NO_OVERFLOW_def word_le_nat_alt push_bit_eq_mult)
  show ?thesis
    using small div unfolding xrecalloc_def m by (cases "nmemb = 0") (auto simp: word_neq_0_conv not_le)
qed

subsection \<open>The array holds the lines\<close>

lemma drop_line:
  assumes "newline \<in> set text"
  obtains l rest where "text = l @ newline # rest" "newline \<notin> set l"
    "takeWhile (\<lambda>c. c \<noteq> newline) text = l" "drop 1 (dropWhile (\<lambda>c. c \<noteq> newline) text) = rest"
proof -
  from split_list_first[OF assms] obtain l rest where s: "text = l @ newline # rest" "newline \<notin> set l"
    by blast
  then have "takeWhile (\<lambda>c. c \<noteq> newline) text = l" "dropWhile (\<lambda>c. c \<noteq> newline) text = newline # rest"
    by (auto simp: takeWhile_append dropWhile_append)
  with s that show ?thesis by simp
qed

text \<open>The array never overflows, and neither does its size for files below \<open>2 ^ 59\<close> bytes.\<close>

lemma sort_entries_step:
  "text = l @ newline # rest \<Longrightarrow> newline \<notin> set l \<Longrightarrow> rest \<noteq> [] \<Longrightarrow> n < asz \<Longrightarrow>
     (Suc n = asz \<Longrightarrow> xrecalloc (of_nat (2 * asz)) 16 \<noteq> None) \<Longrightarrow>
     sort_entries n asz text = map_option ((#) (l @ [newline]))
       (sort_entries (Suc n) (if Suc n = asz then 2 * asz else asz) rest)"
proof -
  assume a: "text = l @ newline # rest" "newline \<notin> set l" "rest \<noteq> []" "n < asz"
    and x: "Suc n = asz \<Longrightarrow> xrecalloc (of_nat (2 * asz)) 16 \<noteq> None"
  have "newline \<in> set (butlast text)" using a(1,3) by (simp add: butlast_append)
  moreover have "takeWhile (\<lambda>c. c \<noteq> newline) text = l" "dropWhile (\<lambda>c. c \<noteq> newline) text = newline # rest"
    using a(1,2) by (auto simp: takeWhile_append dropWhile_append)
  ultimately show ?thesis
    using a(4) x unfolding sort_entries.simps[of n asz "text"]
    by (cases "Suc n = asz") (auto simp: Let_def split: option.split)
qed

lemma sort_entries_lines:
  "n < asz \<Longrightarrow> text \<noteq> [] \<Longrightarrow> n + length text < 2 ^ 59 \<Longrightarrow>
     sort_entries n asz text = Some (file_lines text)"
proof (induction "text" arbitrary: n asz rule: length_induct)
  case (1 "text")
  show ?case
  proof (cases "newline \<in> set (butlast text)")
    case True
    then have "newline \<in> set text" by (rule in_set_butlastD)
    then obtain l rest where t: "text = l @ newline # rest" "newline \<notin> set l"
      by (rule drop_line)
    have r: "rest \<noteq> []" using True t by (auto simp: butlast_append)
    have b: "Suc n + length rest < 2 ^ 59" using 1(4) t(1) by simp
    then have u: "unat (of_nat (2 * Suc n) :: 64 word) = 2 * Suc n" by (simp add: unat_of_nat del: of_nat_mult of_nat_Suc)
    have "sort_entries n asz text = map_option ((#) (l @ [newline]))
        (sort_entries (Suc n) (if Suc n = asz then 2 * asz else asz) rest)"
    proof (rule sort_entries_step[OF t r 1(2)])
      assume "Suc n = asz"
      then show "xrecalloc (of_nat (2 * asz)) 16 \<noteq> None" using b u by (simp add: xrecalloc_exact)
    qed
    also have "sort_entries (Suc n) (if Suc n = asz then 2 * asz else asz) rest = Some (file_lines rest)"
      using 1(1) t(1) r b 1(2) by simp
    finally show ?thesis by (simp add: t file_lines_line)
  next
    case False
    have "file_lines text = [text]"
    proof (cases "newline \<in> set text")
      case True
      then obtain l rest where t: "text = l @ newline # rest" "newline \<notin> set l" by (rule drop_line)
      with False have "rest = []" by (cases rest) (auto simp: butlast_append)
      then show ?thesis using t file_lines_line[of l "[]"] by simp
    qed (simp add: file_lines_last 1(3))
    with False 1(2) show ?thesis by (simp add: sort_entries.simps)
  qed
qed

subsection \<open>The order\<close>

lemma of_char_less: "(of_char x :: int) < of_char y \<longleftrightarrow> x < y"
proof -
  have "(of_char c :: int) = int (of_char c)" for c by (simp add: of_nat_of_char)
  then show ?thesis by (simp only: of_nat_less_iff less_char_def)
qed

lemma memcmp_sign: "length x = length y \<Longrightarrow> (memcmp x y < 0 \<longleftrightarrow> x < y) \<and> (memcmp x y = 0 \<longleftrightarrow> x = y)"
  by (induction x y rule: memcmp.induct) (auto simp: of_char_less)

text \<open>A list is in the order of its common part with another one, or the shorter one is first.\<close>

lemma le_by_prefix:
  fixes x y :: "'a::linorder list"
  shows "x \<le> y \<longleftrightarrow> take (length y) x < take (length x) y
     \<or> take (length y) x = take (length x) y \<and> length x \<le> length y"
proof (induction x arbitrary: y)
  case (Cons a x)
  then show ?case by (cases y) auto
qed simp

lemma cmpfn_le:
  assumes "a \<noteq> []" "b \<noteq> []"
  shows "cmpfn a b \<le> 0 \<longleftrightarrow> butlast a \<le> butlast b"
proof -
  obtain x c y d where ab: "a = x @ [c]" "b = y @ [d]"
    using assms by (metis rev_exhaust)
  have "length (take (length y) x) = length (take (length x) y)" by simp
  from memcmp_sign[OF this] show ?thesis
    using le_by_prefix[of x y] by (auto simp: cmpfn_def ab Let_def not_less)
qed

lemma qsort_cmpfn: "[] \<notin> set xs \<Longrightarrow> qsort cmpfn xs = sort_key butlast xs"
proof (induction xs)
  case (Cons x xs)
  have "qsort_insert cmpfn x ys = insort_key butlast x ys" if "[] \<notin> set ys" for ys
    using that Cons.prems by (induction ys) (auto simp: cmpfn_le)
  with Cons show ?case by (simp add: qsort_def flip: sort_key_def)
qed (simp add: qsort_def)

end
