(* ===== verification/Sortfile_Properties.thy ===== *)
theory Sortfile_Properties
  imports Sortfile
begin

text \<open>
  The properties of \<open>sortfile\<close>: what the output file holds, that it does not depend on the sorting
  algorithm, and the overflow check of its allocation.
\<close>

subsection \<open>Lines that end\<close>

definition ended :: "string \<Rightarrow> bool" where
  "ended l \<longleftrightarrow> (\<exists>x. newline \<notin> set x \<and> l = x @ [newline])"

lemma file_lines_ended: "last text = newline \<Longrightarrow> \<forall>l \<in> set (file_lines text). ended l"
proof (induction "text" rule: length_induct)
  case (1 "text")
  show ?case
  proof (cases "text = []")
    case False
    with 1(2) have "newline \<in> set text" by (metis last_in_set)
    then obtain l rest where t: "text = l @ newline # rest" "newline \<notin> set l" by (rule drop_line)
    have "\<forall>k \<in> set (file_lines rest). ended k"
    proof (cases "rest = []")
      case False
      then show ?thesis using 1(1)[rule_format, of rest] 1(2) t by simp
    qed simp
    then show ?thesis using t by (auto simp: file_lines_line ended_def)
  qed simp
qed

lemma file_lines_ended_concat: "\<forall>l \<in> set ls. ended l \<Longrightarrow> file_lines (concat ls) = ls"
  by (induction ls) (auto simp: ended_def file_lines_line)

lemma ended_butlast_inj: "inj_on butlast {l. ended l}"
  by (auto simp: inj_on_def ended_def)

lemma rearranged_length:
  assumes "mset ls = mset (file_lines text)"
  shows "length (concat ls) = length text"
proof -
  have "sum_list (map length ls) = sum_list (map length (file_lines text))"
    by (metis assms mset_map sum_mset_sum_list)
  then show ?thesis
    using arg_cong[OF file_lines_concat[of "text"], of length] by (simp add: length_concat)
qed

text \<open>What \<open>sortfile\<close> writes.\<close>

lemma sortfile_eq:
  assumes "w_files w infile = Some text" "text \<noteq> []" "length text < 2 ^ 59"
    and "infile \<noteq> outfile" "w_writable w outfile"
  shows "sortfile infile outfile w =
    Some (w_overwrite outfile (concat (sort_key butlast (file_lines text))) w)"
proof -
  have "sort_entries 0 8 text = Some (file_lines text)"
    using sort_entries_lines[of 0 8 "text"] assms(2,3) by simp
  moreover have "qsort cmpfn (file_lines text) = sort_key butlast (file_lines text)"
    using qsort_cmpfn file_lines_nonempty by blast
  moreover have "xrecalloc 8 16 = Some 128" by (simp add: xrecalloc_exact)
  ultimately show ?thesis using assms by (simp add: sortfile_def)
qed

text \<open>C29: for a non-empty file, \<open>sortfile\<close> returns, and what it writes to the start of the output
  file is a rearrangement of the lines of the input that is sorted for its comparison function.
  If the input ends with a newline, these are also the lines of the output: each is a line of
  the input with its newline.\<close>

theorem sortfile_sorts:
  assumes "w_files w infile = Some text" "text \<noteq> []" "length text < 2 ^ 59"
    and "infile \<noteq> outfile" "w_writable w outfile"
  shows "\<exists>ls. sortfile infile outfile w = Some (w_overwrite outfile (concat ls) w)
    \<and> mset ls = mset (file_lines text) \<and> length (concat ls) = length text
    \<and> sorted_wrt (\<lambda>a b. cmpfn a b \<le> 0) ls
    \<and> (last text = newline \<longrightarrow> file_lines (concat ls) = ls)"
proof -
  let ?ls = "sort_key butlast (file_lines text)"
  have m: "mset ?ls = mset (file_lines text)" by simp
  then have set: "set ?ls = set (file_lines text)" by (metis set_mset_mset)
  have len: "length (concat ?ls) = length text" by (rule rearranged_length[OF m])
  have "sorted_wrt (\<lambda>a b. butlast a \<le> butlast b) ?ls"
    using sorted_sort_key[of butlast "file_lines text"] by (simp add: sorted_wrt_map)
  then have sorted: "sorted_wrt (\<lambda>a b. cmpfn a b \<le> 0) ?ls"
    by (rule sorted_wrt_mono_rel[rotated]) (metis cmpfn_le file_lines_nonempty set)
  have "file_lines (concat ?ls) = ?ls" if "last text = newline"
    using file_lines_ended[OF that] set by (intro file_lines_ended_concat) simp
  with sortfile_eq[OF assms] m len sorted show ?thesis by blast
qed

definition sort_world :: "string \<Rightarrow> world" where
  "sort_world text = \<lparr>w_env = (\<lambda>_. None), w_files = [''in'' \<mapsto> text], w_dirs = {}, w_denied = {},
     w_pid = 1, w_rand = (\<lambda>_. 0), w_rpos = 0\<rparr>"

theorem sortfile_sorts_witness:
  "\<exists>ls. sortfile ''in'' ''out'' (sort_world (''b'' @ newline # ''a'' @ [newline])) =
      Some (w_overwrite ''out'' (concat ls) (sort_world (''b'' @ newline # ''a'' @ [newline])))
    \<and> file_lines (concat ls) = ls"
  using sortfile_sorts[of "sort_world (''b'' @ newline # ''a'' @ [newline])" "''in''"
      "''b'' @ newline # ''a'' @ [newline]" "''out''"]
  by (auto simp: sort_world_def w_writable_def)

text \<open>C30: if the input ends with a newline, any sorting function that arranges the lines so that they
  are sorted for \<open>cmpfn\<close> gives the output of the program: no two different lines are equal for
  \<open>cmpfn\<close>, so the algorithm of \<open>qsort\<close> does not matter. Sorting the output again, from a
  file that holds nothing else, gives the same text.\<close>

theorem sortfile_unique:
  assumes "w_files w infile = Some text" "text \<noteq> []" "length text < 2 ^ 59" "last text = newline"
    and "infile \<noteq> outfile" "w_writable w outfile"
    and "mset ls = mset (file_lines text)" "sorted_wrt (\<lambda>a b. cmpfn a b \<le> 0) ls"
  shows "sortfile infile outfile w = Some (w_overwrite outfile (concat ls) w)
    \<and> sortfile infile outfile (w\<lparr>w_files := (w_files w)(infile \<mapsto> concat ls)\<rparr>)
        = Some (w_overwrite outfile (concat ls) (w\<lparr>w_files := (w_files w)(infile \<mapsto> concat ls)\<rparr>))"
proof -
  have set: "set ls = set (file_lines text)" using assms(7) by (metis set_mset_mset)
  have e: "\<forall>l \<in> set ls. ended l" using file_lines_ended[OF assms(4)] set by simp
  have "sorted_wrt (\<lambda>a b. butlast a \<le> butlast b) ls"
    using assms(8) by (rule sorted_wrt_mono_rel[rotated]) (metis cmpfn_le file_lines_nonempty set)
  then have sorted: "sorted (map butlast ls)" by (simp add: sorted_wrt_map)
  have inj: "inj_on butlast (set ls)" by (rule inj_on_subset[OF ended_butlast_inj]) (use e in auto)
  have s: "sort_key butlast (file_lines text) = ls"
    by (rule sort_key_inj_key_eq[OF assms(7)[symmetric]]) (use inj sorted set in auto)
  have s2: "sort_key butlast (file_lines (concat ls)) = ls"
    using file_lines_ended_concat[OF e] by (simp add: sort_key_inj_key_eq[OF refl inj sorted])
  have len: "length (concat ls) = length text" by (rule rearranged_length[OF assms(7)])
  then have ne: "concat ls \<noteq> []" using assms(2) by fastforce
  show ?thesis
    using sortfile_eq[OF assms(1-3,5,6)] s
      sortfile_eq[of "w\<lparr>w_files := (w_files w)(infile \<mapsto> concat ls)\<rparr>" infile "concat ls" outfile]
      ne len assms(3,5,6) s2 by (simp add: w_writable_def)
qed

theorem sortfile_unique_witness:
  "sortfile ''in'' ''out'' (sort_world (''b'' @ newline # ''a'' @ [newline])) =
     Some (w_overwrite ''out'' (concat [''a'' @ [newline], ''b'' @ [newline]])
       (sort_world (''b'' @ newline # ''a'' @ [newline])))"
  using sortfile_unique[of "sort_world (''b'' @ newline # ''a'' @ [newline])" "''in''"
      "''b'' @ newline # ''a'' @ [newline]" "''out''" "[''a'' @ [newline], ''b'' @ [newline]]"]
  by (simp add: sort_world_def w_writable_def cmpfn_def)

text \<open>C31: the overflow check of \<open>xrecalloc\<close> is exact: it lets a request through exactly if the product
  fits the 64 bits of \<open>size_t\<close>, and then the size it allocates is that product, not a wrapped one.\<close>

theorem xrecalloc_no_wrap:
  "(xrecalloc nmemb sz = None \<longleftrightarrow> 2 ^ 64 \<le> unat nmemb * unat sz)
    \<and> (\<forall>n. xrecalloc nmemb sz = Some n \<longrightarrow> unat n = unat nmemb * unat sz)"
  by (auto simp: xrecalloc_exact unat_mult_lem[THEN iffD1] mult.commute split: if_splits)

theorem xrecalloc_no_wrap_witness: "unat (the (xrecalloc 1000 16)) = 16000"
proof -
  obtain n where n: "xrecalloc 1000 16 = Some n" using xrecalloc_no_wrap[of 1000 16] by auto
  then have "unat n = 16000" using xrecalloc_no_wrap[of 1000 16] by simp
  with n show ?thesis by simp
qed

end
