(* ===== verification/Cstring.thy ===== *)
theory Cstring
  imports World "HOL-Library.Sublist"
begin

text \<open>
  The string functions of the C library that the package tools parse make files with: \<open>strstr\<close>,
  \<open>strtok\<close>, \<open>fgets\<close>, \<open>strncmp\<close> with a literal, bounded buffers, and the split of a line into
  a variable and its value that all of them share.
\<close>

subsection \<open>Searching\<close>

lemma starts_with_eval:
  "starts_with [] str" "\<not> starts_with (a # pre) []"
  "starts_with (a # pre) (b # str) \<longleftrightarrow> a = b \<and> starts_with pre str"
  by (auto simp: starts_with_def)

text \<open>\<open>strstr\<close>: the position of the first occurrence.\<close>

fun strstr :: "string \<Rightarrow> string \<Rightarrow> nat option" where
  "strstr needle [] = (if needle = [] then Some 0 else None)"
| "strstr needle (c # cs) =
     (if starts_with needle (c # cs) then Some 0 else map_option Suc (strstr needle cs))"

lemma strstr_Some: "strstr needle str = Some p \<Longrightarrow> \<exists>pre post. str = pre @ needle @ post \<and> p = length pre"
proof (induction str arbitrary: p)
  case (Cons c cs)
  show ?case
  proof (cases "starts_with needle (c # cs)")
    case True
    then have "c # cs = needle @ drop (length needle) (c # cs)"
      by (metis append_take_drop_id starts_with_def)
    with True Cons.prems show ?thesis by (intro exI[of _ "[]"] exI[of _ "drop (length needle) (c # cs)"]) simp
  next
    case False
    with Cons.prems obtain q where q: "strstr needle cs = Some q" "p = Suc q" by auto
    from Cons.IH[OF q(1)] obtain pre post where "cs = pre @ needle @ post" "q = length pre" by blast
    then show ?thesis using q(2) by (intro exI[of _ "c # pre"] exI[of _ post]) simp
  qed
qed (auto split: if_splits)

lemma strstr_prefix [simp]: "strstr needle (needle @ str) = Some 0"
proof (cases "needle @ str")
  case (Cons c cs)
  then show ?thesis using starts_with_append[of needle str] by simp
qed simp

declare strstr.simps [simp del]

subsection \<open>Tokens\<close>

text \<open>
  \<open>strtok\<close> as a function of the text it is to continue with (the pointer it keeps): the token, if
  there is one, and the text for the next call. The caller's buffer is cut at the end of the
  token by a NUL; \<open>strtok_left\<close> is what remains visible of it.
\<close>

definition strtok :: "string \<Rightarrow> string \<Rightarrow> string option \<times> string" where
  "strtok delims str =
     (case dropWhile (\<lambda>c. c \<in> set delims) str of
        [] \<Rightarrow> (None, [])
      | t \<Rightarrow> (Some (takeWhile (\<lambda>c. c \<notin> set delims) t), drop 1 (dropWhile (\<lambda>c. c \<notin> set delims) t)))"

definition strtok_left :: "string \<Rightarrow> string \<Rightarrow> string" where
  "strtok_left delims str = takeWhile (\<lambda>c. c \<in> set delims) str
     @ takeWhile (\<lambda>c. c \<notin> set delims) (dropWhile (\<lambda>c. c \<in> set delims) str)"

lemma strtok_shorter: "strtok delims str = (Some t, rest) \<Longrightarrow> length rest < length str"
proof -
  assume a: "strtok delims str = (Some t, rest)"
  let ?d = "dropWhile (\<lambda>c. c \<in> set delims) str"
  have d: "length ?d \<le> length str" by (rule length_dropWhile_le)
  from a obtain c cs where c: "?d = c # cs" "rest = drop 1 (dropWhile (\<lambda>c. c \<notin> set delims) (c # cs))"
    by (auto simp: strtok_def split: list.splits)
  then have "c \<notin> set delims" using hd_dropWhile[of "\<lambda>c. c \<in> set delims" str] by auto
  with c have "length rest \<le> length cs"
    using length_dropWhile_le[of "\<lambda>c. c \<notin> set delims" cs] by auto
  with c(1) d show ?thesis by simp
qed

lemma strtok_nonempty: "strtok delims str = (Some t, rest) \<Longrightarrow> t \<noteq> []"
proof -
  assume a: "strtok delims str = (Some t, rest)"
  then obtain c cs where c: "dropWhile (\<lambda>c. c \<in> set delims) str = c # cs"
    "t = takeWhile (\<lambda>c. c \<notin> set delims) (c # cs)"
    by (auto simp: strtok_def split: list.splits)
  then have "c \<notin> set delims" using hd_dropWhile[of "\<lambda>c. c \<in> set delims" str] by auto
  with c show ?thesis by simp
qed

text \<open>The loop \<open>token = strtok(str, delims); while (token != NULL) token = strtok(NULL, delims)\<close>.\<close>

function tokens :: "string \<Rightarrow> string \<Rightarrow> string list" where
  "tokens delims str =
     (case strtok delims str of (None, _) \<Rightarrow> [] | (Some t, rest) \<Rightarrow> t # tokens delims rest)"
  by pat_completeness auto

termination by (relation "measure (\<lambda>(delims, str). length str)") (auto dest: strtok_shorter[OF sym])

declare tokens.simps [simp del]

subsection \<open>Lines of bounded length\<close>

text \<open>\<open>fgets\<close> with a buffer of \<open>Suc n\<close> bytes: up to a newline, at most \<open>n\<close> bytes.\<close>

fun fgets_line :: "nat \<Rightarrow> string \<Rightarrow> string" where
  "fgets_line 0 str = []"
| "fgets_line (Suc n) [] = []"
| "fgets_line (Suc n) (c # cs) = c # (if c = newline then [] else fgets_line n cs)"

text \<open>The contents of the buffer, as C strings, of \<open>while (fgets(buf, n, f) != NULL)\<close>.\<close>

function fgets :: "nat \<Rightarrow> string \<Rightarrow> string list" where
  "fgets n [] = []"
| "fgets n (c # cs) = c_str (fgets_line (n - 1) (c # cs)) # fgets n (drop (length (fgets_line (n - 1) (c # cs)) - 1) cs)"
  by pat_completeness auto

termination by (relation "measure (\<lambda>(n, str). length str)") auto

lemma fgets_line_short: "newline \<notin> set l \<Longrightarrow> length l < n \<Longrightarrow> fgets_line n (l @ newline # r) = l @ [newline]"
proof (induction l arbitrary: n)
  case Nil
  then show ?case by (cases n) auto
next
  case (Cons c l)
  then show ?case by (cases n) auto
qed

lemma fgets_short:
  assumes "newline \<notin> set l" "CHR 0x00 \<notin> set l" "length l + 1 < n"
  shows "fgets n (l @ newline # r) = (l @ [newline]) # fgets n r"
proof -
  have "length l < n - 1" using assms(3) by simp
  from fgets_line_short[OF assms(1) this] have f: "fgets_line (n - 1) (l @ newline # r) = l @ [newline]" .
  have "c_str (l @ [newline]) = l @ [newline]" using assms(2) by (intro c_str_id) auto
  then show ?thesis
  proof (cases l)
    case (Cons c cs)
    then show ?thesis using f fgets.simps(2)[of n c "cs @ newline # r"] \<open>c_str _ = _\<close> by simp
  qed (use f fgets.simps(2)[of n newline r] in simp)
qed

declare fgets.simps(2) [simp del]

lemma fgets_lines:
  "\<forall>l \<in> set ls. newline \<notin> set l \<and> CHR 0x00 \<notin> set l \<and> length l + 1 < n \<Longrightarrow>
     fgets n (concat (map (\<lambda>l. l @ [newline]) ls)) = map (\<lambda>l. l @ [newline]) ls"
  by (induction ls) (simp_all add: fgets_short)

subsection \<open>Buffers\<close>

text \<open>A string in a buffer of \<open>n\<close> bytes: what does not fit overruns it, or is cut (\<open>snprintf\<close>).\<close>

definition fits :: "nat \<Rightarrow> string \<Rightarrow> string option" where
  "fits n str = (if length str < n then Some str else None)"

definition snprintf :: "nat \<Rightarrow> string \<Rightarrow> string" where
  "snprintf n str = take (n - 1) str"

text \<open>\<open>p + n\<close> for a pointer to the start of a string; behind the terminator is \<open>None\<close>.\<close>

definition ptr_add :: "nat \<Rightarrow> string \<Rightarrow> string option" where
  "ptr_add n str = (if length str < n then None else Some (drop n str))"

subsection \<open>Variables of a make file\<close>

text \<open>
  \<open>string[strlen(string)-1] = '\0'; key = strtok(string, delims); value = strtok(NULL, "=\t")\<close>
  for the \<open>string\<close> at position \<open>p\<close> of a buffer: the key, the value, the text \<open>strtok\<close> continues
  with, and what is left of the buffer.
\<close>

definition split_assign ::
  "string \<Rightarrow> nat \<Rightarrow> string \<Rightarrow> string option \<times> string option \<times> string \<times> string" where
  "split_assign delims p buf =
     (let str = butlast (drop p buf);
          (key, rest) = strtok delims str;
          (val, rest) = strtok [CHR ''='', tab] rest
      in (key, val, rest, take p buf @ strtok_left delims str))"

text \<open>\<open>token = strtok(value, " ")\<close> in a loop: without a value, \<open>strtok\<close> continues where it was.\<close>

definition value_tokens :: "string option \<Rightarrow> string \<Rightarrow> string list" where
  "value_tokens val rest = tokens '' '' (case val of Some v \<Rightarrow> v | None \<Rightarrow> rest)"

subsection \<open>Lists of words\<close>

fun spaced :: "string list \<Rightarrow> string" where
  "spaced [] = []"
| "spaced [x] = x"
| "spaced (x # xs) = x @ CHR '' '' # spaced xs"

text \<open>A word: not empty, without the characters the parsers split at, newline and NUL.\<close>

definition word_char :: "char \<Rightarrow> bool" where
  "word_char c \<longleftrightarrow> c \<notin> {CHR '' '', tab, CHR ''='', newline, CHR 0x00}"

definition is_word :: "string \<Rightarrow> bool" where
  "is_word n \<longleftrightarrow> n \<noteq> [] \<and> (\<forall>c \<in> set n. word_char c)"

lemma takeWhile_stop: "\<forall>c \<in> set n. P c \<Longrightarrow> \<not> P d \<Longrightarrow> takeWhile P (n @ d # r) = n"
  by (induction n) auto

lemma dropWhile_stop: "\<forall>c \<in> set n. P c \<Longrightarrow> \<not> P d \<Longrightarrow> dropWhile P (n @ d # r) = d # r"
  by (induction n) auto

text \<open>A token and what ends it.\<close>

lemma strtok_token:
  "n \<noteq> [] \<Longrightarrow> \<forall>c \<in> set n. c \<notin> set delims \<Longrightarrow> d \<in> set delims \<Longrightarrow> strtok delims (n @ d # r) = (Some n, r)"
  by (cases n) (simp_all add: strtok_def takeWhile_stop dropWhile_stop)

lemma strtok_all: "n \<noteq> [] \<Longrightarrow> \<forall>c \<in> set n. c \<notin> set delims \<Longrightarrow> strtok delims n = (Some n, [])"
  by (cases n) (simp_all add: strtok_def takeWhile_eq_all_conv[THEN iffD2] dropWhile_eq_Nil_conv[THEN iffD2])

lemma strtok_skip: "d \<in> set delims \<Longrightarrow> strtok delims (d # str) = strtok delims str"
  by (simp add: strtok_def)

lemma strtok_empty [simp]: "strtok delims [] = (None, [])"
  by (simp add: strtok_def)

lemma tokens_spaced: "\<forall>n \<in> set ns. n \<noteq> [] \<and> CHR '' '' \<notin> set n \<Longrightarrow> tokens '' '' (spaced ns) = ns"
proof (induction ns rule: spaced.induct)
  case 1
  then show ?case by (simp add: tokens.simps)
next
  case (2 x)
  have "\<forall>c \<in> set x. c \<notin> set '' ''" using 2 by auto
  then have "strtok '' '' x = (Some x, [])" using 2 by (intro strtok_all) simp_all
  then show ?case by (simp add: tokens.simps[of "'' ''" x] tokens.simps[of "'' ''" "[]"])
next
  case (3 x y ys)
  have "\<forall>c \<in> set x. c \<notin> set '' ''" using 3 by auto
  then have "strtok '' '' (x @ CHR '' '' # spaced (y # ys)) = (Some x, spaced (y # ys))"
    using 3 by (intro strtok_token) simp_all
  then show ?case using 3 by (simp add: tokens.simps[of "'' ''" "x @ _"])
qed

lemma set_spaced: "set (spaced ns) \<subseteq> insert CHR '' '' (\<Union> (set ` set ns))"
  by (induction ns rule: spaced.induct) auto

lemma spaced_Nil: "\<forall>n \<in> set ns. n \<noteq> [] \<Longrightarrow> spaced ns = [] \<longleftrightarrow> ns = []"
  by (cases ns rule: spaced.cases) auto

text \<open>Looking for a variable with its assignment in a line with one assignment only.\<close>

lemma strstr_assign_None:
  assumes "\<not> suffix n h" "CHR ''='' \<notin> set h" "CHR ''='' \<notin> set body"
  shows "strstr (n @ ''='') (h @ CHR ''='' # body) = None"
proof (rule ccontr)
  assume "strstr (n @ ''='') (h @ CHR ''='' # body) \<noteq> None"
  then obtain p where "strstr (n @ ''='') (h @ CHR ''='' # body) = Some p" by blast
  from strstr_Some[OF this] obtain pre post where "h @ CHR ''='' # body = (pre @ n) @ CHR ''='' # post"
    by auto
  then have "h = pre @ n"
    using assms(2,3) by (auto simp: append_eq_append_conv2 append_eq_Cons_conv Cons_eq_append_conv)
  with assms(1) show False by (simp add: suffix_def)
qed

text \<open>The parts of a line that assigns a list of words.\<close>

lemma strtok_left_token:
  "n \<noteq> [] \<Longrightarrow> \<forall>c \<in> set n. c \<notin> set delims \<Longrightarrow> d \<in> set delims \<Longrightarrow> strtok_left delims (n @ d # r) = n"
  by (cases n) (simp_all add: strtok_left_def takeWhile_stop)

lemma spaced_words:
  assumes "\<forall>n \<in> set ns. is_word n"
  shows "\<forall>c \<in> set (spaced ns). c \<notin> {tab, CHR ''='', newline, CHR 0x00}" "spaced ns = [] \<longleftrightarrow> ns = []"
    "tokens '' '' (spaced ns) = ns"
proof -
  show "\<forall>c \<in> set (spaced ns). c \<notin> {tab, CHR ''='', newline, CHR 0x00}"
    using assms set_spaced[of ns] by (fastforce simp: is_word_def word_char_def tab_def)
  show "spaced ns = [] \<longleftrightarrow> ns = []" using assms by (intro spaced_Nil) (auto simp: is_word_def)
  show "tokens '' '' (spaced ns) = ns"
    using assms by (intro tokens_spaced) (auto simp: is_word_def word_char_def)
qed

lemma strtok_value:
  assumes "\<forall>c \<in> set v. c \<notin> {tab, CHR ''=''}" and "set q \<subseteq> {CHR ''=''}"
  shows "strtok [CHR ''='', tab] (q @ replicate t tab @ v) = (if v = [] then None else Some v, [])"
proof -
  have "strtok [CHR ''='', tab] (q @ replicate t tab @ v) = strtok [CHR ''='', tab] (replicate t tab @ v)"
    using assms(2) by (induction q) (simp_all add: strtok_skip)
  also have "\<dots> = strtok [CHR ''='', tab] v"
    by (induction t) (simp_all add: strtok_skip)
  also have "\<dots> = (if v = [] then None else Some v, [])"
    using assms(1) strtok_all[of v "[CHR ''='', tab]"] by auto
  finally show ?thesis .
qed

lemma split_assign_words:
  assumes "k \<noteq> []" "\<forall>c \<in> set k. c \<notin> set delims" "d \<in> set delims" "set q \<subseteq> {CHR ''=''}"
    and "\<forall>n \<in> set ns. is_word n"
  shows "split_assign delims 0 (k @ d # q @ replicate t tab @ spaced ns @ [newline]) =
    (Some k, if ns = [] then None else Some (spaced ns), [], k)"
proof -
  have b: "butlast (k @ d # q @ replicate t tab @ spaced ns @ [newline]) =
      k @ d # q @ replicate t tab @ spaced ns"
    by (simp add: butlast_append)
  have "strtok [CHR ''='', tab] (q @ replicate t tab @ spaced ns) =
      (if ns = [] then None else Some (spaced ns), [])"
    using spaced_words[OF assms(5)] assms(4) by (subst strtok_value) auto
  then show ?thesis
    unfolding split_assign_def b drop_0
    by (simp add: strtok_token[OF assms(1-3)] strtok_left_token[OF assms(1-3)])
qed

lemma value_tokens_words:
  "\<forall>n \<in> set ns. is_word n \<Longrightarrow> value_tokens (if ns = [] then None else Some (spaced ns)) [] = ns"
  using spaced_words(3)[of ns] by (auto simp: value_tokens_def)

end
