(* ===== verification/Pkgrebuild.thy ===== *)
theory Pkgrebuild
  imports Cstring Strmap
begin

text \<open>
  \<open>adk/tools/pkgrebuild.c\<close>: the packages that must be built again after a change of the
  configuration. A table from symbols to packages is read from the make files of all packages;
  every symbol that is in only one of the two configurations \<open>.config\<close> and \<open>.config.old\<close>
  creates the file \<open>.rebuild.<package>\<close>. \<open>None\<close> is undefined behaviour (a null pointer, an overrun
  buffer).
\<close>

subsection \<open>The table of packages\<close>

definition D_PKG :: string where "D_PKG = ''ADK_PACKAGE_''"

definition upper_char :: "char \<Rightarrow> char" where
  "upper_char c = toupper (if c = CHR ''+'' then CHR ''X'' else if c = CHR ''-'' then CHR ''_'' else c)"

definition toupperstr :: "string \<Rightarrow> string" where
  "toupperstr str = map upper_char str"

text \<open>\<open>pkg_name\<close> keeps its value from one package to the next.\<close>

record rebuild =
  rb_pkg_name :: "string option"
  rb_pkgmap :: "strmap option"

text \<open>One token: its key is built in a buffer of 256 bytes.\<close>

definition rebuild_put :: "(string \<Rightarrow> string option) \<Rightarrow> string \<Rightarrow> string \<Rightarrow> rebuild \<Rightarrow> rebuild option" where
  "rebuild_put keyof dir token st = do {
     key \<leftarrow> keyof token;
     keystr \<leftarrow> fits 256 (D_PKG @ key);
     (_, m) \<leftarrow> strmap_put (rb_pkgmap st) (Some keystr) (Some dir);
     Some (st\<lparr>rb_pkgmap := m\<rparr>) }"

text \<open>The blocks of the loop over the lines. Each looks for its variable in the buffer, in the form
  the blocks before have left it.\<close>

type_synonym rebuild_block = "string \<times> rebuild \<Rightarrow> (string \<times> rebuild) option"

definition rebuild_name :: rebuild_block where
  "rebuild_name = (\<lambda>(buf, st).
     (case strstr ''PKG_NAME:='' buf of
        None \<Rightarrow> Some (buf, st)
      | Some p \<Rightarrow>
         (let (key, val, rest, buf) = split_assign '':='' p buf
          in Some (buf, case val of None \<Rightarrow> st | Some v \<Rightarrow> st\<lparr>rb_pkg_name := Some v\<rparr>))))"

definition rebuild_subpkgs :: "string \<Rightarrow> string \<Rightarrow> string \<Rightarrow> rebuild_block" where
  "rebuild_subpkgs var delims dir = (\<lambda>(buf, st).
     (case strstr var buf of
        None \<Rightarrow> Some (buf, st)
      | Some p \<Rightarrow>
         (let (key, val, rest, buf) = split_assign delims p buf
          in do {
            st \<leftarrow> ofold (rebuild_put Some dir) (value_tokens val rest) st;
            Some (buf, st) })))"

definition rebuild_flavours :: "string \<Rightarrow> rebuild_block" where
  "rebuild_flavours dir = (\<lambda>(buf, st).
     (case strstr ''PKG_FLAVOURS_'' buf of
        None \<Rightarrow> Some (buf, st)
      | Some p \<Rightarrow>
         (let delims = (if strstr '':='' buf \<noteq> None then '':='' else ''+='');
              (key, val, rest, buf) = split_assign delims p buf
          in do {
            key \<leftarrow> key;
            realpkgname \<leftarrow> ptr_add 13 key;
            st \<leftarrow> ofold (rebuild_put (\<lambda>t. Some (realpkgname @ ''_'' @ t)) dir) (value_tokens val rest) st;
            Some (buf, st) })))"

definition rebuild_choices :: "string \<Rightarrow> rebuild_block" where
  "rebuild_choices dir = (\<lambda>(buf, st).
     (case strstr ''PKG_CHOICES_'' buf of
        None \<Rightarrow> Some (buf, st)
      | Some p \<Rightarrow>
         (let (key, val, rest, buf) = split_assign '':='' p buf
          in do {
            st \<leftarrow> ofold (rebuild_put (\<lambda>t. map_option (\<lambda>n. toupperstr n @ ''_'' @ t) (rb_pkg_name st)) dir)
              (value_tokens val rest) st;
            Some (buf, st) })))"

definition rebuild_line :: "string \<Rightarrow> string \<Rightarrow> rebuild \<Rightarrow> rebuild option" where
  "rebuild_line dir buf st =
     (if starts_with ''PKG'' buf then do {
        s \<leftarrow> rebuild_name (buf, st);
        s \<leftarrow> rebuild_subpkgs ''PKG_SUBPKGS:='' '':='' dir s;
        s \<leftarrow> rebuild_subpkgs ''PKG_SUBPKGS+='' ''+='' dir s;
        s \<leftarrow> rebuild_flavours dir s;
        s \<leftarrow> rebuild_choices dir s;
        Some (snd s) }
      else Some st)"

text \<open>\<open>strncmp(d_name, ".", 1) > 0\<close>\<close>

definition no_dotfile :: "string \<Rightarrow> bool" where
  "no_dotfile name \<longleftrightarrow> (46 :: nat) < of_char (char_at name 0)"

definition rebuild_package :: "world \<Rightarrow> string \<Rightarrow> rebuild \<Rightarrow> rebuild option" where
  "rebuild_package w dir st =
     (if no_dotfile dir then
        (case w_files w (snprintf 320 (''package/'' @ dir @ ''/Makefile'')) of
           None \<Rightarrow> Some st
         | Some text \<Rightarrow> ofold (rebuild_line dir) (fgets 320 text) st)
      else Some st)"

text \<open>\<open>readdir\<close> gives the entries of a directory in their order, if it can be opened.\<close>

definition rebuild_packages :: "(string \<Rightarrow> string list option) \<Rightarrow> world \<Rightarrow> rebuild option" where
  "rebuild_packages readdir w = do {
     dirs \<leftarrow> readdir ''package'';
     ofold (rebuild_package w) dirs \<lparr>rb_pkg_name = None, rb_pkgmap = Some (strmap_new 1024)\<rparr> }"

subsection \<open>The configurations\<close>

text \<open>A line without a value is not entered: \<open>strmap_put\<close> refuses it.\<close>

definition config_line :: "string \<Rightarrow> strmap option \<Rightarrow> strmap option option" where
  "config_line buf m =
     (if starts_with ''ADK_PACKAGE'' buf then
        (let (key, rest) = strtok ''='' buf; (val, _) = strtok ''='' rest
         in do { (_, m) \<leftarrow> strmap_put m key val; Some m })
      else Some m)"

definition config_map :: "string \<Rightarrow> strmap option option" where
  "config_map text = ofold config_line (fgets 128 text) (Some (strmap_new 1024))"

subsection \<open>The files\<close>

text \<open>\<open>open(path, O_RDWR | O_CREAT)\<close>: a file that is there is kept.\<close>

definition w_touch :: "string \<Rightarrow> world \<Rightarrow> world" where
  "w_touch path w = (if w_files w path = None \<and> w_writable w path then w_put path [] w else w)"

text \<open>\<open>iter_disabled\<close> and \<open>iter_enabled\<close>, with the map the key is looked for.\<close>

definition iter_symbol :: "strmap option \<Rightarrow> strmap option \<Rightarrow> string \<Rightarrow> world \<Rightarrow> world option" where
  "iter_symbol other pkgmap key w = do {
     e \<leftarrow> strmap_exists other (Some key);
     if e = 0 then do {
       (r, hvalue) \<leftarrow> strmap_get pkgmap (Some key) True 256;
       if r = 1 then do {
         h \<leftarrow> hvalue;
         Some (w_touch (snprintf 256 (''.rebuild.'' @ h)) w) }
       else Some w }
     else Some w }"

text \<open>The result is the exit code and the world.\<close>

definition pkgrebuild :: "(string \<Rightarrow> string list option) \<Rightarrow> world \<Rightarrow> (nat \<times> world) option" where
  "pkgrebuild readdir w = do {
     st \<leftarrow> rebuild_packages readdir w;
     case w_files w ''.config'' of
       None \<Rightarrow> Some (1, w)
     | Some config \<Rightarrow> do {
         configmap \<leftarrow> config_map config;
         case w_files w ''.config.old'' of
           None \<Rightarrow> Some (1, w)
         | Some configold \<Rightarrow> do {
             configoldmap \<leftarrow> config_map configold;
             w \<leftarrow> ofold (\<lambda>(key, _). iter_symbol configmap (rb_pkgmap st) key)
               (snd (strmap_enum configoldmap)) w;
             w \<leftarrow> ofold (\<lambda>(key, _). iter_symbol configoldmap (rb_pkgmap st) key)
               (snd (strmap_enum configmap)) w;
             Some (0, w) } } }"

end
