(* ===== verification/Pkgrebuild_Properties.thy ===== *)
theory Pkgrebuild_Properties
  imports Pkgrebuild
begin

text \<open>
  The properties of \<open>pkgrebuild\<close>: which files it creates, and what a list of subpackages enters
  into its table.
\<close>

subsection \<open>The maps are loaded with lists of pairs\<close>

text \<open>The entry of one line of a configuration.\<close>

definition config_entry :: "string \<Rightarrow> (string \<times> string) list" where
  "config_entry buf =
     (if starts_with ''ADK_PACKAGE'' buf then
        (case strtok ''='' buf of
           (Some key, rest) \<Rightarrow> (case strtok ''='' rest of (Some val, _) \<Rightarrow> [(key, val)] | _ \<Rightarrow> [])
         | _ \<Rightarrow> [])
      else [])"

definition config_entries :: "string \<Rightarrow> (string \<times> string) list" where
  "config_entries text = concat (map config_entry (fgets 128 text))"

definition config_symbols :: "string \<Rightarrow> string set" where
  "config_symbols text = fst ` set (config_entries text)"

lemma config_entry_cases:
  obtains "config_entry buf = []" "\<And>m. config_line buf m = Some m"
  | k v where "config_entry buf = [(k, v)]" "k \<noteq> []"
      "\<And>m. config_line buf m = map_option snd (strmap_put m (Some k) (Some v))"
proof -
  obtain k r v q where t: "strtok ''='' buf = (k, r)" "strtok ''='' r = (v, q)" by fastforce
  show ?thesis
  proof (cases "starts_with ''ADK_PACKAGE'' buf \<and> k \<noteq> None \<and> v \<noteq> None")
    case True
    then obtain k' v' where kv: "k = Some k'" "v = Some v'" by auto
    have "config_line buf m = map_option snd (strmap_put m (Some k') (Some v'))" for m
      using True t kv by (cases "strmap_put m (Some k') (Some v')") (auto simp: config_line_def)
    with True t kv that(2) strtok_nonempty show ?thesis by (simp add: config_entry_def)
  next
    case False
    then have "config_line buf m = Some m" for m
      using t by (cases m; cases k) (auto simp: config_line_def strmap_put_def)
    moreover have "config_entry buf = []"
      using False t by (auto simp: config_entry_def split: option.splits)
    ultimately show ?thesis by (rule that(1)[rotated])
  qed
qed

lemma config_entry_keys: "(k, v) \<in> set (config_entry buf) \<Longrightarrow> k \<noteq> []"
  by (cases buf rule: config_entry_cases) auto

lemma config_entries_keys: "\<forall>(k, v) \<in> set (config_entries text). k \<noteq> []"
  by (auto simp: config_entries_def dest: config_entry_keys)

lemma config_line_load:
  "strmap_ok m \<Longrightarrow> config_line buf (Some m) = Some (Some (strmap_load (config_entry buf) m))"
  by (cases buf rule: config_entry_cases) (simp_all add: strmap_load_def strmap_put_update strmap_ok_def)

lemma config_map_load: "config_map text = Some (Some (strmap_load (config_entries text) (strmap_new 1024)))"
proof -
  have "ofold config_line bufs (Some m) = Some (Some (strmap_load (concat (map config_entry bufs)) m))"
    if "strmap_ok m" for bufs m
    using that
  proof (induction bufs arbitrary: m)
    case (Cons b bufs)
    have "strmap_ok (strmap_load (config_entry b) m)"
      using Cons.prems config_entry_keys by (intro strmap_ok_load) auto
    then show ?case using Cons by (simp add: config_line_load strmap_load_append)
  qed (simp add: strmap_load_def)
  then show ?thesis by (simp add: config_map_def config_entries_def strmap_ok_new)
qed

lemma config_map_ok: "strmap_ok (strmap_load (config_entries text) (strmap_new 1024))"
  by (simp add: strmap_ok_load strmap_ok_new config_entries_keys)

lemma config_map_dom: "dom (strmap_find (strmap_load (config_entries text) (strmap_new 1024))) = config_symbols text"
  by (simp add: strmap_find_load strmap_ok_new config_entries_keys strmap_find_new config_symbols_def
      dom_map_of_conv_image_fst)

subsection \<open>The table is a string map\<close>

definition rebuild_ok :: "rebuild \<Rightarrow> bool" where
  "rebuild_ok st \<longleftrightarrow> (\<exists>m. rb_pkgmap st = Some m \<and> strmap_ok m)"

lemma rebuild_put_eq:
  assumes "rb_pkgmap st = Some m" "strmap_ok m" "keyof t = Some key" "length (D_PKG @ key) < 256"
  shows "rebuild_put keyof dir t st = Some (st\<lparr>rb_pkgmap := Some (strmap_update m (D_PKG @ key) dir)\<rparr>)"
proof -
  have "D_PKG @ key \<noteq> []" "m \<noteq> []" using assms(2) by (simp_all add: D_PKG_def strmap_ok_def)
  from strmap_put_update[OF this] show ?thesis using assms by (simp add: rebuild_put_def fits_def)
qed

lemma rebuild_put_ok: "rebuild_put keyof dir t st = Some st' \<Longrightarrow> rebuild_ok st \<Longrightarrow> rebuild_ok st'"
proof -
  assume a: "rebuild_put keyof dir t st = Some st'" and "rebuild_ok st"
  then obtain m where m: "rb_pkgmap st = Some m" "strmap_ok m" by (auto simp: rebuild_ok_def)
  from a obtain key where key: "keyof t = Some key" "length (D_PKG @ key) < 256"
    by (auto simp: rebuild_put_def fits_def bind_eq_Some_conv split: if_splits)
  have "D_PKG @ key \<noteq> []" by (simp add: D_PKG_def)
  then have "strmap_ok (strmap_update m (D_PKG @ key) dir)" using m(2) by (rule strmap_ok_update)
  then show "rebuild_ok st'" using a rebuild_put_eq[of st m keyof t key dir, OF m key] by (auto simp: rebuild_ok_def)
qed

lemma rebuild_puts_ok: "ofold (rebuild_put keyof dir) ts st = Some st' \<Longrightarrow> rebuild_ok st \<Longrightarrow> rebuild_ok st'"
  by (rule ofold_invariant[where P = rebuild_ok]) (auto intro: rebuild_put_ok)

lemmas rebuild_block_defs = rebuild_name_def rebuild_subpkgs_def rebuild_flavours_def rebuild_choices_def

lemma rebuild_line_ok: "rebuild_line dir buf st = Some st' \<Longrightarrow> rebuild_ok st \<Longrightarrow> rebuild_ok st'"
proof -
  have n: "rebuild_name s = Some s' \<Longrightarrow> rebuild_ok (snd s) \<Longrightarrow> rebuild_ok (snd s')" for s s'
    by (auto simp: rebuild_name_def rebuild_ok_def Let_def split: prod.splits option.splits)
  have b: "rebuild_subpkgs var ds dir s = Some s' \<Longrightarrow> rebuild_ok (snd s) \<Longrightarrow> rebuild_ok (snd s')"
    "rebuild_flavours dir s = Some s' \<Longrightarrow> rebuild_ok (snd s) \<Longrightarrow> rebuild_ok (snd s')"
    "rebuild_choices dir s = Some s' \<Longrightarrow> rebuild_ok (snd s) \<Longrightarrow> rebuild_ok (snd s')" for var ds s s'
    by (auto simp: rebuild_block_defs Let_def bind_eq_Some_conv dest: rebuild_puts_ok
        split: prod.splits option.splits if_splits)
  assume "rebuild_line dir buf st = Some st'" "rebuild_ok st"
  then show ?thesis
    by (auto simp: rebuild_line_def bind_eq_Some_conv split: if_splits dest!: n b)
qed

lemma rebuild_packages_ok: "rebuild_packages readdir w = Some st \<Longrightarrow> rebuild_ok st"
proof -
  assume "rebuild_packages readdir w = Some st"
  then obtain dirs where d: "ofold (rebuild_package w) dirs
      \<lparr>rb_pkg_name = None, rb_pkgmap = Some (strmap_new 1024)\<rparr> = Some st"
    by (auto simp: rebuild_packages_def bind_eq_Some_conv)
  have p: "rebuild_package w dir s = Some s' \<Longrightarrow> rebuild_ok s \<Longrightarrow> rebuild_ok s'" for dir s s'
    by (auto simp: rebuild_package_def split: if_splits option.splits
        intro: ofold_invariant[where P = rebuild_ok] rebuild_line_ok)
  show ?thesis
    using p by (rule ofold_invariant[where P = rebuild_ok, OF _ _ d]) (simp_all add: rebuild_ok_def strmap_ok_new)
qed

subsection \<open>The files\<close>

definition rebuild_file :: "string \<Rightarrow> string" where
  "rebuild_file pkg = snprintf 256 (''.rebuild.'' @ pkg)"

text \<open>The files for a set of symbols, given the table from symbols to packages.\<close>

definition rebuild_files :: "(string \<Rightarrow> string option) \<Rightarrow> string set \<Rightarrow> string set" where
  "rebuild_files pm syms = {rebuild_file p | k p. k \<in> syms \<and> pm k = Some p \<and> length p < 256}"

text \<open>A world in which the files of a set exist if they can be created.\<close>

definition w_touched :: "string set \<Rightarrow> world \<Rightarrow> world" where
  "w_touched F w = w\<lparr>w_files := (\<lambda>path. if path \<in> F \<and> w_files w path = None \<and> w_writable w path
     then Some [] else w_files w path)\<rparr>"

lemma w_touched_empty [simp]: "w_touched {} w = w"
  by (simp add: w_touched_def)

lemma w_touched_touch: "w_touch path (w_touched F w) = w_touched (insert path F) w"
  by (rule world.equality) (auto simp: w_touched_def w_touch_def w_put_def w_writable_def fun_eq_iff)

lemma iter_symbol_eq:
  assumes "strmap_ok other" "strmap_ok p" "key \<noteq> []"
  shows "iter_symbol (Some other) (Some p) key (w_touched F w) =
    Some (w_touched (F \<union> rebuild_files (strmap_find p) ({key} - dom (strmap_find other))) w)"
proof -
  have "other \<noteq> []" "p \<noteq> []" using assms by (auto simp: strmap_ok_def)
  then show ?thesis
    using assms(3)
    by (cases "strmap_find other key"; cases "strmap_find p key")
      (auto simp: iter_symbol_def strmap_exists_find strmap_get_find rebuild_files_def w_touched_touch
        rebuild_file_def domIff)
qed

lemma iter_symbols_eq:
  assumes "strmap_ok other" "strmap_ok p" "\<forall>(k, v) \<in> set kvs. k \<noteq> []"
  shows "ofold (\<lambda>(key, _). iter_symbol (Some other) (Some p) key) kvs (w_touched F w) =
    Some (w_touched (F \<union> rebuild_files (strmap_find p) (fst ` set kvs - dom (strmap_find other))) w)"
  using assms(3)
proof (induction kvs arbitrary: F)
  case Nil
  then show ?case by (simp add: rebuild_files_def)
next
  case (Cons kv kvs)
  obtain k v where kv: "kv = (k, v)" by fastforce
  have "rebuild_files pm A \<union> rebuild_files pm B = rebuild_files pm (A \<union> B)" for pm A B
    by (auto simp: rebuild_files_def)
  moreover have "({k} - dom (strmap_find other)) \<union> (fst ` set kvs - dom (strmap_find other))
      = fst ` set (kv # kvs) - dom (strmap_find other)"
    by (auto simp: kv)
  ultimately show ?case
    using Cons iter_symbol_eq[OF assms(1,2), of k F w] by (simp add: kv Un_assoc)
qed

text \<open>C32: when the make files could be read and both configurations are there, \<open>pkgrebuild\<close> succeeds,
  and its only effect is that the files \<open>.rebuild.<package>\<close> exist for exactly the packages of those
  symbols that are in one of the two configurations and not in the other.\<close>

theorem pkgrebuild_files:
  assumes "rebuild_packages readdir w = Some st"
    and "w_files w ''.config'' = Some new" and "w_files w ''.config.old'' = Some old"
  shows "\<exists>m. rb_pkgmap st = Some m \<and> strmap_ok m \<and> pkgrebuild readdir w = Some (0, w_touched
    (rebuild_files (strmap_find m)
      (config_symbols old - config_symbols new \<union> (config_symbols new - config_symbols old))) w)"
proof -
  from rebuild_packages_ok[OF assms(1)] obtain m where m: "rb_pkgmap st = Some m" "strmap_ok m"
    by (auto simp: rebuild_ok_def)
  let ?c = "\<lambda>text. strmap_load (config_entries text) (strmap_new 1024)"
  have keys: "fst ` set (concat (?c text)) = config_symbols text" for "text"
    by (simp only: strmap_enum_keys[OF config_map_ok] config_map_dom)
  have ne: "[] \<notin> config_symbols text" for "text"
    using config_entries_keys[of "text"] by (auto simp: config_symbols_def)
  have k: "\<forall>(k, v) \<in> set (concat (?c text)). k \<noteq> []" for "text"
  proof safe
    fix v assume "([], v) \<in> set (concat (?c text))"
    then have "[] \<in> fst ` set (concat (?c text))" by (metis fst_conv image_eqI)
    with keys ne show False by simp
  qed
  have i: "ofold (\<lambda>(key, _). iter_symbol (Some (?c b)) (Some m) key) (concat (?c a)) (w_touched F w)
      = Some (w_touched (F \<union> rebuild_files (strmap_find m) (config_symbols a - config_symbols b)) w)" for a b F
    by (simp only: iter_symbols_eq[OF config_map_ok m(2) k] keys config_map_dom)
  have "pkgrebuild readdir w = Some (0, w_touched
      (rebuild_files (strmap_find m) (config_symbols old - config_symbols new)
        \<union> rebuild_files (strmap_find m) (config_symbols new - config_symbols old)) w)"
    using i[of new old "{}"] i[of old new "rebuild_files (strmap_find m) (config_symbols old - config_symbols new)"]
    by (simp add: pkgrebuild_def assms config_map_load m(1) strmap_enum_def del: concat.simps)
  moreover have "rebuild_files pm A \<union> rebuild_files pm B = rebuild_files pm (A \<union> B)" for pm A B
    by (auto simp: rebuild_files_def)
  ultimately show ?thesis using m by simp
qed

subsection \<open>Lists of subpackages\<close>

lemma rebuild_puts_eq:
  assumes "\<forall>t \<in> set ts. \<exists>key. keyof t = Some key \<and> length (D_PKG @ key) < 256"
    and "rb_pkgmap st = Some m" "strmap_ok m"
  shows "\<exists>m'. ofold (rebuild_put keyof dir) ts st = Some (st\<lparr>rb_pkgmap := Some m'\<rparr>) \<and> strmap_ok m'
    \<and> strmap_find m' = (\<lambda>k. if k \<in> (\<lambda>t. D_PKG @ the (keyof t)) ` set ts then Some dir else strmap_find m k)"
  using assms
proof (induction ts arbitrary: st m)
  case Nil
  then show ?case by (auto intro!: exI[of _ m] rebuild.equality)
next
  case (Cons t ts)
  then obtain key where key: "keyof t = Some key" "length (D_PKG @ key) < 256" by auto
  let ?m = "strmap_update m (D_PKG @ key) dir"
  let ?st = "st\<lparr>rb_pkgmap := Some ?m\<rparr>"
  have ne: "D_PKG @ key \<noteq> []" by (simp add: D_PKG_def)
  have p: "rebuild_put keyof dir t st = Some ?st" using rebuild_put_eq[of st m keyof t key dir] Cons.prems key by simp
  have f: "strmap_find ?m = (strmap_find m)(D_PKG @ key \<mapsto> dir)"
    using Cons.prems(3) by (intro strmap_find_update[OF ne]) (simp add: strmap_ok_def)
  have ok: "strmap_ok ?m" by (rule strmap_ok_update[OF ne Cons.prems(3)])
  from Cons.IH[of ?st ?m] Cons.prems(1) ok show ?case
    by (auto simp: p f key(1) fun_eq_iff)
qed

text \<open>C33: a line that assigns or appends a list of words to \<open>PKG_SUBPKGS\<close> enters exactly the symbols of
  these subpackages into the table, all with the directory of the package; every other symbol keeps
  its entry.\<close>

theorem rebuild_subpkgs_line:
  assumes "\<forall>n \<in> set ns. is_word n \<and> length (D_PKG @ n) < 256" and "op \<in> {CHR '':'', CHR ''+''}"
    and "rb_pkgmap st = Some m" "strmap_ok m"
  shows "\<exists>m'. rebuild_line dir (''PKG_SUBPKGS'' @ op # CHR ''='' # replicate t tab @ spaced ns @ [newline]) st
      = Some (st\<lparr>rb_pkgmap := Some m'\<rparr>) \<and> strmap_ok m'
    \<and> strmap_find m' = (\<lambda>k. if k \<in> (@) D_PKG ` set ns then Some dir else strmap_find m k)"
proof -
  let ?body = "replicate t tab @ spaced ns @ [newline]"
  let ?buf = "''PKG_SUBPKGS'' @ op # CHR ''='' # ?body"
  have w: "\<forall>n \<in> set ns. is_word n" using assms(1) by simp
  have body: "CHR ''='' \<notin> set ?body" using spaced_words(1)[OF w] by (auto simp: tab_def)
  have none: "strstr (n @ ''='') ?buf = None" if "\<not> suffix n (''PKG_SUBPKGS'' @ [op])" for n
    using strstr_assign_None[OF that _ body] assms(2) by fastforce
  have name: "rebuild_name (?buf, st) = Some (?buf, st)"
    using none[of "''PKG_NAME:''"] assms(2) by (auto simp: rebuild_name_def suffix_def)
  obtain m' where m': "ofold (rebuild_put Some dir) ns st = Some (st\<lparr>rb_pkgmap := Some m'\<rparr>)" "strmap_ok m'"
    "strmap_find m' = (\<lambda>k. if k \<in> (@) D_PKG ` set ns then Some dir else strmap_find m k)"
    using rebuild_puts_eq[of ns Some st m dir] assms by auto
  have split: "split_assign [op, CHR ''=''] 0 ?buf =
      (Some ''PKG_SUBPKGS'', if ns = [] then None else Some (spaced ns), [], ''PKG_SUBPKGS'')"
    using split_assign_words[of "''PKG_SUBPKGS''" "[op, CHR ''='']" op "''=''" ns t] w assms(2) by auto
  have block: "rebuild_subpkgs (''PKG_SUBPKGS'' @ [op, CHR ''='']) [op, CHR ''=''] dir (?buf, st)
      = Some (''PKG_SUBPKGS'', st\<lparr>rb_pkgmap := Some m'\<rparr>)"
    using strstr_prefix[of "''PKG_SUBPKGS'' @ [op, CHR ''='']" ?body] split
    by (simp add: rebuild_subpkgs_def value_tokens_words[OF w] m'(1) del: strstr_prefix)
  have other: "rebuild_subpkgs (''PKG_SUBPKGS'' @ [op', CHR ''='']) ds dir (?buf, s) = Some (?buf, s)"
    if "op' \<noteq> op" for op' ds s
    using none[of "''PKG_SUBPKGS'' @ [op']"] that by (auto simp: rebuild_subpkgs_def suffix_def)
  have rest: "rebuild_subpkgs (''PKG_SUBPKGS'' @ [op', CHR ''='']) ds dir (''PKG_SUBPKGS'', s) = Some (''PKG_SUBPKGS'', s)"
    "rebuild_flavours dir (''PKG_SUBPKGS'', s) = Some (''PKG_SUBPKGS'', s)"
    "rebuild_choices dir (''PKG_SUBPKGS'', s) = Some (''PKG_SUBPKGS'', s)" for op' ds s
    by (simp_all add: rebuild_block_defs strstr.simps starts_with_eval)
  have "rebuild_line dir ?buf st = Some (st\<lparr>rb_pkgmap := Some m'\<rparr>)"
    using name block other[where op' = "CHR '':''"] other[where op' = "CHR ''+''"]
      rest(1)[where op' = "CHR ''+''"] rest(1)[where op' = "CHR '':''"] rest(2,3) assms(2)
    by (auto simp: rebuild_line_def starts_with_eval)
  with m' show ?thesis by blast
qed

subsection \<open>A concrete run\<close>

definition rebuild_world :: world where
  "rebuild_world = \<lparr>w_env = (\<lambda>_. None),
     w_files = [''package/zlib/Makefile'' \<mapsto> ''PKG_SUBPKGS:='' @ tab # ''ZLIB ZLIB_DEV'' @ [newline],
       ''.config'' \<mapsto> ''ADK_PACKAGE_ZLIB=y'' @ [newline],
       ''.config.old'' \<mapsto> ''# none'' @ [newline]],
     w_dirs = {}, w_denied = {}, w_pid = 1, w_rand = (\<lambda>_. 0), w_rpos = 0\<rparr>"

lemma rebuild_world_packages:
  "\<exists>st. rebuild_packages (\<lambda>_. Some [''.'', ''zlib'']) rebuild_world = Some st"
proof -
  have "\<forall>n \<in> set [''ZLIB'', ''ZLIB_DEV'']. is_word n \<and> length (D_PKG @ n) < 256"
    by (simp add: is_word_def word_char_def tab_def D_PKG_def)
  from rebuild_subpkgs_line[OF this, of "CHR '':''"
      "\<lparr>rb_pkg_name = None, rb_pkgmap = Some (strmap_new 1024)\<rparr>" "strmap_new 1024" "''zlib''" 1]
  moreover have "fgets 320 (''PKG_SUBPKGS:='' @ tab # ''ZLIB ZLIB_DEV'' @ [newline]) =
      [''PKG_SUBPKGS:='' @ tab # ''ZLIB ZLIB_DEV'' @ [newline]]"
    using fgets_short[of "''PKG_SUBPKGS:='' @ tab # ''ZLIB ZLIB_DEV''" 320 "[]"] by (simp add: tab_def)
  ultimately show ?thesis
    by (auto simp: rebuild_packages_def rebuild_package_def no_dotfile_def char_at_def rebuild_world_def
        snprintf_def strmap_ok_new)
qed

theorem rebuild_subpkgs_line_witness:
  "\<exists>m'. rebuild_line ''zlib'' (''PKG_SUBPKGS:='' @ tab # ''ZLIB ZLIB_DEV'' @ [newline])
      \<lparr>rb_pkg_name = None, rb_pkgmap = Some (strmap_new 1024)\<rparr>
      = Some \<lparr>rb_pkg_name = None, rb_pkgmap = Some m'\<rparr>
    \<and> strmap_find m' ''ADK_PACKAGE_ZLIB_DEV'' = Some ''zlib''"
proof -
  have "\<forall>n \<in> set [''ZLIB'', ''ZLIB_DEV'']. is_word n \<and> length (D_PKG @ n) < 256"
    by (simp add: is_word_def word_char_def tab_def D_PKG_def)
  from rebuild_subpkgs_line[OF this, of "CHR '':''"
      "\<lparr>rb_pkg_name = None, rb_pkgmap = Some (strmap_new 1024)\<rparr>" "strmap_new 1024" "''zlib''" 1]
  show ?thesis by (auto simp: D_PKG_def strmap_ok_new)
qed

theorem pkgrebuild_files_witness:
  "\<exists>w'. pkgrebuild (\<lambda>_. Some [''.'', ''zlib'']) rebuild_world = Some (0, w')"
proof -
  obtain st where "rebuild_packages (\<lambda>_. Some [''.'', ''zlib'']) rebuild_world = Some st"
    using rebuild_world_packages by blast
  from pkgrebuild_files[OF this] show ?thesis by (auto simp: rebuild_world_def)
qed

end
