(* ===== verification/Depmaker.thy ===== *)
theory Depmaker
  imports Pkgrebuild
begin

text \<open>
  \<open>adk/tools/depmaker.c\<close>: the build dependencies between packages, printed as make rules. The
  variables of a package's make file that name dependencies become one rule for the package and one
  for its host build; conditional ones are kept if their symbol is set in \<open>.config\<close>. \<open>None\<close> is
  a call of \<open>exit\<close>, or undefined behaviour.
\<close>

definition DM_MAXLINE :: nat where "DM_MAXLINE = 1024"

definition DM_MAXPATH :: nat where "DM_MAXPATH = 128"

text \<open>The result is 0 if the symbol is set.\<close>

definition check_symbol :: "world \<Rightarrow> string \<Rightarrow> nat option" where
  "check_symbol w symbol = do {
     config \<leftarrow> w_files w ''.config'';
     Some (if \<exists>buf \<in> set (fgets DM_MAXLINE config). starts_with (symbol @ ''='') buf then 0 else 1) }"

subsection \<open>One variable\<close>

text \<open>The symbol a conditional dependency is for. \<open>system\<close> is 1 for a target system, 2 for a C
  library.\<close>

definition dep_symbol :: "string \<Rightarrow> string option \<Rightarrow> nat \<Rightarrow> nat \<Rightarrow> string option" where
  "dep_symbol key pkgvar pprefix system =
     (if system = 0 then do {
        pre \<leftarrow> (if pprefix = 0
          then map_option (\<lambda>v. snprintf DM_MAXLINE (''ADK_PACKAGE_'' @ v @ ''_'')) pkgvar
          else Some ''ADK_PACKAGE_'');
        k \<leftarrow> ptr_add 6 key;
        fits DM_MAXLINE (pre @ k) }
      else if system = 1 then map_option (\<lambda>v. snprintf DM_MAXLINE (''ADK_TARGET_SYSTEM_'' @ v)) pkgvar
      else map_option (\<lambda>v. snprintf DM_MAXLINE (''ADK_TARGET_LIB_'' @ v)) pkgvar)"

text \<open>
  A dependency on a host tool that is only built if it is missing on the host. \<open>strlen(dep)-5\<close>
  wraps around for a shorter name, so that all of it is copied.
\<close>

definition optional_tools :: "string list" where
  "optional_tools = [''bc'', ''bzip2'', ''file'', ''gawk'', ''grep'', ''sed'', ''xz'']"

definition host_tool :: "string \<Rightarrow> string" where
  "host_tool dep = (if length dep < 5 then dep else take (length dep - 5) dep)"

definition host_dep_missing :: "world \<Rightarrow> string \<Rightarrow> bool option" where
  "host_dep_missing w dep = do {
     depvar \<leftarrow> fits DM_MAXLINE (host_tool dep);
     if \<exists>t \<in> set optional_tools. starts_with t depvar then do {
       r \<leftarrow> check_symbol w (snprintf DM_MAXLINE (''ADK_HOST_BUILD_'' @ toupperstr depvar));
       Some (r \<noteq> 0) }
     else Some False }"

text \<open>The loop over the dependencies: the first one of a package starts the rule.\<close>

fun dep_loop :: "world \<Rightarrow> string \<Rightarrow> nat \<Rightarrow> string list \<Rightarrow> nat \<Rightarrow> string \<Rightarrow> (string option \<times> nat) option" where
  "dep_loop w package checksym [] prefixp pkgdeps = Some (Some pkgdeps, prefixp)"
| "dep_loop w package checksym (dep # deps) prefixp pkgdeps = do {
     missing \<leftarrow> (if checksym = 2 then host_dep_missing w dep else Some False);
     if missing then Some (None, prefixp)
     else do {
       let temp = snprintf DM_MAXLINE (if prefixp = 0 then package @ ''-compile: '' @ dep @ ''-compile''
         else CHR '' '' # dep @ ''-compile'');
       pkgdeps \<leftarrow> fits DM_MAXLINE (pkgdeps @ temp);
       dep_loop w package checksym deps 1 pkgdeps } }"

text \<open>The text of the rule for one line, the new \<open>*prefixp\<close>, and what is left of the line.\<close>

definition parse_line :: "world \<Rightarrow> string \<Rightarrow> string option \<Rightarrow> string \<Rightarrow> nat \<Rightarrow> nat \<Rightarrow> nat \<Rightarrow> nat
    \<Rightarrow> (string option \<times> nat \<times> string) option" where
  "parse_line w package pkgvar str checksym pprefix system prefixp =
     (let (key, val, rest, left) = split_assign '':='' 0 str in do {
        key \<leftarrow> key;
        unset \<leftarrow> (if checksym = 1 then do {
          key_sym \<leftarrow> dep_symbol key pkgvar pprefix system;
          check_symbol w key_sym } else Some 0);
        if unset \<noteq> 0 then Some (None, prefixp, left)
        else do {
          (deps, prefixp) \<leftarrow> dep_loop w package checksym (value_tokens val rest) prefixp [];
          Some (deps, prefixp, left) } })"

subsection \<open>One package\<close>

text \<open>\<open>fpkg\<close>, \<open>cpkg\<close> and \<open>spkg\<close> keep their values from one package to the next.\<close>

record dep_state =
  dm_pkgdeps :: string
  dm_hpkgdeps :: "string option"
  dm_prefix :: nat
  dm_hprefix :: nat
  dm_fpkg :: "string option"
  dm_cpkg :: "string option"
  dm_spkg :: "string option"

type_synonym dep_block = "string \<times> dep_state \<Rightarrow> (string \<times> dep_state) option"

definition dep_append :: "string option \<Rightarrow> nat \<Rightarrow> dep_state \<Rightarrow> dep_state option" where
  "dep_append deps prefixp st = do {
     pkgdeps \<leftarrow> (case deps of None \<Rightarrow> Some (dm_pkgdeps st) | Some d \<Rightarrow> fits DM_MAXLINE (dm_pkgdeps st @ d));
     Some (st\<lparr>dm_pkgdeps := pkgdeps, dm_prefix := prefixp\<rparr>) }"

text \<open>A block that parses a variable in place.\<close>

definition dep_parse :: "world \<Rightarrow> string \<Rightarrow> string \<Rightarrow> (dep_state \<Rightarrow> string option) \<Rightarrow> nat \<Rightarrow> nat \<Rightarrow> dep_block" where
  "dep_parse w package var pkgvar checksym pprefix = (\<lambda>(buf, st).
     (case strstr var buf of
        None \<Rightarrow> Some (buf, st)
      | Some p \<Rightarrow> do {
          (deps, prefixp, left) \<leftarrow> parse_line w package (pkgvar st) (drop p buf) checksym pprefix 0 (dm_prefix st);
          st \<leftarrow> dep_append deps prefixp st;
          Some (take p buf @ left, st) }))"

text \<open>Dependencies for a system or a C library: the line is parsed in a copy.\<close>

definition dep_system :: "world \<Rightarrow> string \<Rightarrow> dep_block" where
  "dep_system w package = (\<lambda>(buf, st).
     (case strstr ''PKG_BUILDDEP_'' buf of
        None \<Rightarrow> Some (buf, st)
      | Some p \<Rightarrow>
         if strstr '':='' buf = None then Some (buf, st)
         else (let (key, _, _, left) = split_assign '':='' p buf in do {
           key \<leftarrow> key;
           dpkg \<leftarrow> ptr_add 13 key;
           let system = (if starts_with ''UCLIBC_NG'' dpkg \<or> starts_with ''MUSL'' dpkg then 2 else 1);
           (deps, prefixp, _) \<leftarrow> parse_line w package (Some dpkg) (drop p buf) 1 0 system (dm_prefix st);
           st \<leftarrow> dep_append deps prefixp st;
           Some (left, st) })))"

text \<open>A block that takes the name of a subpackage from a variable.\<close>

definition dep_name :: "string \<Rightarrow> nat \<Rightarrow> (string \<Rightarrow> dep_state \<Rightarrow> dep_state) \<Rightarrow> dep_block" where
  "dep_name var n store = (\<lambda>(buf, st).
     (case strstr var buf of
        None \<Rightarrow> Some (buf, st)
      | Some p \<Rightarrow>
         if strstr '':='' buf = None then Some (buf, st)
         else (let (key, _, _, left) = split_assign '':='' p buf in do {
           key \<leftarrow> key;
           name \<leftarrow> ptr_add n key;
           Some (left, store name st) })))"

definition dep_host :: "world \<Rightarrow> string \<Rightarrow> string \<Rightarrow> dep_state \<Rightarrow> dep_state option" where
  "dep_host w dir buf st = do {
     (deps, prefixp, _) \<leftarrow> parse_line w (dir @ ''-host'') None buf 2 0 0 (dm_hprefix st);
     let st = st\<lparr>dm_hprefix := prefixp\<rparr>;
     Some (case deps of
         Some d \<Rightarrow> if d = [] then st else st\<lparr>dm_hpkgdeps := Some (case dm_hpkgdeps st of None \<Rightarrow> d | Some h \<Rightarrow> h @ d)\<rparr>
       | None \<Rightarrow> st) }"

definition dep_line :: "world \<Rightarrow> string \<Rightarrow> string \<Rightarrow> dep_state \<Rightarrow> dep_state option" where
  "dep_line w dir buf st =
     (if starts_with ''PKG'' buf then do {
        s \<leftarrow> dep_parse w dir ''PKG_BUILDDEP:='' (\<lambda>_. Some (toupperstr dir)) 0 0 (buf, st);
        s \<leftarrow> dep_parse w dir ''PKG_BUILDDEP+='' (\<lambda>_. Some (toupperstr dir)) 0 0 s;
        s \<leftarrow> dep_system w dir s;
        s \<leftarrow> dep_name ''PKG_FLAVOURS_'' 13 (\<lambda>n st. st\<lparr>dm_fpkg := Some n\<rparr>) s;
        s \<leftarrow> dep_parse w dir ''PKGFB_'' dm_fpkg 1 0 s;
        s \<leftarrow> dep_name ''PKG_CHOICES_'' 12 (\<lambda>n st. st\<lparr>dm_cpkg := Some n\<rparr>) s;
        s \<leftarrow> dep_parse w dir ''PKGCB_'' dm_cpkg 1 0 s;
        s \<leftarrow> dep_name ''PKG_SUBPKGS_'' 12 (\<lambda>n st. st\<lparr>dm_spkg := Some n\<rparr>) s;
        s \<leftarrow> dep_parse w dir ''PKGSB_'' dm_spkg 1 1 s;
        Some (snd s) }
      else if starts_with ''HOST_BUILDDEP'' buf then dep_host w dir buf st
      else Some st)"

definition dep_header :: "string \<Rightarrow> string" where
  "dep_header dir =
     (if dir \<noteq> ''uclibc-ng'' \<and> \<not> starts_with ''musl'' dir \<and> \<not> starts_with ''glibc'' dir then
        ''package-$(ADK_COMPILE_'' @ toupperstr dir @ '') += '' @ dir @ newline
          # ''hostpackage-$(ADK_HOST_BUILD_'' @ toupperstr dir @ '') += '' @ dir @ [newline]
      else [])"

text \<open>The state and the text printed for one entry of the directory of packages.\<close>

definition dep_package :: "world \<Rightarrow> string \<Rightarrow> dep_state \<times> string \<Rightarrow> (dep_state \<times> string) option" where
  "dep_package w dir = (\<lambda>(st, out).
     (if no_dotfile dir then
        (case w_files w (snprintf DM_MAXPATH (''package/'' @ dir @ ''/Makefile'')) of
           None \<Rightarrow> Some (st, out)
         | Some text \<Rightarrow> do {
             st \<leftarrow> ofold (dep_line w dir) (fgets DM_MAXLINE text)
               (st\<lparr>dm_pkgdeps := [], dm_hpkgdeps := None, dm_prefix := 0, dm_hprefix := 0\<rparr>);
             Some (st, out @ dep_header dir
               @ (if dm_pkgdeps st \<noteq> [] then dm_pkgdeps st @ [newline] else [])
               @ (case dm_hpkgdeps st of Some h \<Rightarrow> if h = [] then [] else h @ [newline] | None \<Rightarrow> [])) })
      else Some (st, out)))"

definition dep_start :: dep_state where
  "dep_start = \<lparr>dm_pkgdeps = [], dm_hpkgdeps = None, dm_prefix = 0, dm_hprefix = 0,
     dm_fpkg = None, dm_cpkg = None, dm_spkg = None\<rparr>"

definition depmaker :: "(string \<Rightarrow> string list option) \<Rightarrow> world \<Rightarrow> string option" where
  "depmaker readdir w = do {
     dirs \<leftarrow> readdir ''package'';
     (_, out) \<leftarrow> ofold (dep_package w) dirs (dep_start, []);
     Some out }"

end
