(* ===== verification/Depmaker_Properties.thy ===== *)
theory Depmaker_Properties
  imports Depmaker
begin

text \<open>
  The properties of \<open>depmaker\<close>: the rule it prints for a package is the list of all its build
  dependencies; what happens when an optional host tool is not to be built.
\<close>

subsection \<open>Rules\<close>

definition dep_items :: "string list \<Rightarrow> string" where
  "dep_items deps = concat (map (\<lambda>d. CHR '' '' # d @ ''-compile'') deps)"

definition dep_rule :: "string \<Rightarrow> string list \<Rightarrow> string" where
  "dep_rule package deps = (if deps = [] then [] else package @ ''-compile:'' @ dep_items deps)"

text \<open>What a list of dependencies adds to a rule that may have been started.\<close>

definition dep_piece :: "string \<Rightarrow> nat \<Rightarrow> string list \<Rightarrow> string" where
  "dep_piece package p deps = (if p = 0 then dep_rule package deps else dep_items deps)"

definition dep_started :: "nat \<Rightarrow> string list \<Rightarrow> nat" where
  "dep_started p deps = (if deps = [] then p else 1)"

lemma dep_piece_Cons:
  "dep_piece package p (d # ds) =
    (if p = 0 then package @ ''-compile: '' @ d @ ''-compile'' else CHR '' '' # d @ ''-compile'') @ dep_items ds"
  by (simp add: dep_piece_def dep_rule_def dep_items_def)

lemma dep_piece_append:
  "dep_piece package p (xs @ ys) = dep_piece package p xs @ dep_piece package (dep_started p xs) ys"
  by (simp add: dep_piece_def dep_rule_def dep_items_def dep_started_def)

lemma dep_loop_rule:
  assumes "c \<noteq> 2" "length (out @ dep_piece package p deps) < DM_MAXLINE"
  shows "dep_loop w package c deps p out = Some (Some (out @ dep_piece package p deps), dep_started p deps)"
  using assms(2)
proof (induction deps arbitrary: p out)
  case Nil
  then show ?case by (simp add: dep_piece_def dep_rule_def dep_items_def dep_started_def)
next
  case (Cons d ds)
  let ?t = "if p = 0 then package @ ''-compile: '' @ d @ ''-compile'' else CHR '' '' # d @ ''-compile''"
  have len: "length (out @ ?t @ dep_items ds) < DM_MAXLINE" using Cons.prems by (simp only: dep_piece_Cons)
  then have t: "snprintf DM_MAXLINE ?t = ?t" "fits DM_MAXLINE (out @ ?t) = Some (out @ ?t)"
    by (auto simp: snprintf_def fits_def)
  have "dep_loop w package c ds 1 (out @ ?t) = Some (Some ((out @ ?t) @ dep_items ds), 1)"
    using Cons.IH[of "out @ ?t" 1] len by (simp add: dep_piece_def dep_started_def)
  then show ?case
    using assms(1) t by (simp only: dep_loop.simps dep_piece_Cons dep_started_def if_False Option.bind.simps
        Let_def list.distinct append.assoc refl if_True simp_thms)
qed

subsection \<open>Lines\<close>

definition builddep :: "char \<Rightarrow> nat \<Rightarrow> string list \<Rightarrow> string" where
  "builddep op t ns = ''PKG_BUILDDEP'' @ op # CHR ''='' # replicate t tab @ spaced ns"

definition builddep_left :: "char \<Rightarrow> string" where
  "builddep_left op = (if op = CHR '':'' then ''PKG_BUILDDEP'' else ''PKG_BUILDDEP+'')"

lemma split_builddep:
  assumes "op \<in> {CHR '':'', CHR ''+''}" "\<forall>n \<in> set ns. is_word n"
  shows "split_assign '':='' 0 (builddep op t ns @ [newline]) =
    (Some (builddep_left op), if ns = [] then None else Some (spaced ns), [], builddep_left op)"
  using assms split_assign_words[of "''PKG_BUILDDEP''" "'':=''" "CHR '':''" "''=''" ns t]
    split_assign_words[of "''PKG_BUILDDEP+''" "'':=''" "CHR ''=''" "[]" ns t]
  by (auto simp: builddep_def builddep_left_def)

lemma parse_builddep:
  assumes "op \<in> {CHR '':'', CHR ''+''}" "\<forall>n \<in> set ns. is_word n"
    and "length (dep_piece package p ns) < DM_MAXLINE"
  shows "parse_line w package v (builddep op t ns @ [newline]) 0 0 0 p =
    Some (Some (dep_piece package p ns), dep_started p ns, builddep_left op)"
  using dep_loop_rule[of 0 "[]" package p ns w] assms(3)
  by (simp add: parse_line_def split_builddep[OF assms(1,2)] value_tokens_words[OF assms(2)])

lemma strstr_builddep:
  assumes "op \<in> {CHR '':'', CHR ''+''}" "\<forall>n \<in> set ns. is_word n"
  shows "strstr (''PKG_BUILDDEP'' @ [op', CHR ''='']) (builddep op t ns @ [newline]) =
    (if op' = op then Some 0 else None)"
proof -
  let ?body = "replicate t tab @ spaced ns @ [newline]"
  have b: "CHR ''='' \<notin> set ?body" using spaced_words(1)[OF assms(2)] by (auto simp: tab_def)
  show ?thesis
  proof (cases "op' = op")
    case True
    then show ?thesis using strstr_prefix[of "''PKG_BUILDDEP'' @ [op, CHR ''='']" ?body]
      by (simp add: builddep_def del: strstr_prefix)
  next
    case False
    then show ?thesis
      using strstr_assign_None[of "''PKG_BUILDDEP'' @ [op']" "''PKG_BUILDDEP'' @ [op]" ?body] assms(1) b
      by (auto simp: builddep_def suffix_def)
  qed
qed

lemma dep_line_builddep:
  assumes "op \<in> {CHR '':'', CHR ''+''}" "\<forall>n \<in> set ns. is_word n"
    and "length (dm_pkgdeps st @ dep_piece dir (dm_prefix st) ns) < DM_MAXLINE"
  shows "dep_line w dir (builddep op t ns @ [newline]) st = Some
    (st\<lparr>dm_pkgdeps := dm_pkgdeps st @ dep_piece dir (dm_prefix st) ns,
        dm_prefix := dep_started (dm_prefix st) ns\<rparr>)"
proof -
  let ?st = "st\<lparr>dm_pkgdeps := dm_pkgdeps st @ dep_piece dir (dm_prefix st) ns,
      dm_prefix := dep_started (dm_prefix st) ns\<rparr>"
  let ?buf = "builddep op t ns @ [newline]"
  have pl: "parse_line w dir v ?buf 0 0 0 (dm_prefix st) =
      Some (Some (dep_piece dir (dm_prefix st) ns), dep_started (dm_prefix st) ns, builddep_left op)" for v
    using assms(3) by (intro parse_builddep[OF assms(1,2)]) simp
  have hit: "dep_parse w dir (''PKG_BUILDDEP'' @ [op, CHR ''='']) pv 0 0 (?buf, st) = Some (builddep_left op, ?st)" for pv
    using strstr_builddep[OF assms(1,2), of op t] assms(3)
    by (simp add: dep_parse_def pl dep_append_def fits_def)
  have miss: "dep_parse w dir (''PKG_BUILDDEP'' @ [op', CHR ''='']) pv 0 0 (?buf, s) = Some (?buf, s)"
    if "op' \<noteq> op" for op' pv s
    using strstr_builddep[OF assms(1,2), of op' t] that by (simp add: dep_parse_def)
  have none: "strstr v (builddep_left op) = None"
    if "v \<in> {''PKG_BUILDDEP+='', ''PKG_BUILDDEP_'', ''PKG_FLAVOURS_'', ''PKGFB_'', ''PKG_CHOICES_'', ''PKGCB_'',
      ''PKG_SUBPKGS_'', ''PKGSB_''}" for v
    using that by (elim insertE emptyE; hypsubst; simp add: builddep_left_def strstr.simps starts_with_eval)
  have rest: "dep_parse w dir v pv c pp (builddep_left op, s) = Some (builddep_left op, s)"
    "dep_name v n f (builddep_left op, s) = Some (builddep_left op, s)"
    if "v \<in> {''PKG_BUILDDEP+='', ''PKG_BUILDDEP_'', ''PKG_FLAVOURS_'', ''PKGFB_'', ''PKG_CHOICES_'', ''PKGCB_'',
      ''PKG_SUBPKGS_'', ''PKGSB_''}" for v pv c pp n f s
    using none[OF that] by (simp_all add: dep_parse_def dep_name_def)
  have sys: "dep_system w dir (builddep_left op, s) = Some (builddep_left op, s)" for s
    using none by (simp add: dep_system_def)
  obtain b s where two: "dep_parse w dir ''PKG_BUILDDEP:='' (\<lambda>_. Some (toupperstr dir)) 0 0 (?buf, st) = Some (b, s)"
    "dep_parse w dir ''PKG_BUILDDEP+='' (\<lambda>_. Some (toupperstr dir)) 0 0 (b, s) = Some (builddep_left op, ?st)"
  proof (cases "op = CHR '':''")
    case True
    then show ?thesis using hit rest(1)[of "''PKG_BUILDDEP+=''"] that by simp
  next
    case False
    then show ?thesis using assms(1) hit miss[of "CHR '':''"] that by simp
  qed
  have "starts_with ''PKG'' ?buf" by (simp add: starts_with_eval builddep_def)
  then show ?thesis by (simp add: dep_line_def two sys rest)
qed

subsection \<open>Make files\<close>

text \<open>A make file as far as dependencies go: assignments and additions to \<open>PKG_BUILDDEP\<close>, and
  lines that start with neither \<open>PKG\<close> nor \<open>HOST_BUILDDEP\<close>.\<close>

datatype dep_item = Builddep char nat "string list" | Other string

fun item_text :: "dep_item \<Rightarrow> string" where
  "item_text (Builddep op t ns) = builddep op t ns"
| "item_text (Other l) = l"

fun item_deps :: "dep_item \<Rightarrow> string list" where
  "item_deps (Builddep op t ns) = ns"
| "item_deps (Other l) = []"

definition item_ok :: "dep_item \<Rightarrow> bool" where
  "item_ok i \<longleftrightarrow> newline \<notin> set (item_text i) \<and> CHR 0x00 \<notin> set (item_text i) \<and> length (item_text i) + 1 < DM_MAXLINE
    \<and> (case i of Builddep op t ns \<Rightarrow> op \<in> {CHR '':'', CHR ''+''} \<and> (\<forall>n \<in> set ns. is_word n)
        | Other l \<Rightarrow> \<not> starts_with ''PKG'' (l @ [newline]) \<and> \<not> starts_with ''HOST_BUILDDEP'' (l @ [newline]))"

definition makefile :: "dep_item list \<Rightarrow> string" where
  "makefile is = concat (map (\<lambda>i. item_text i @ [newline]) is)"

definition makefile_deps :: "dep_item list \<Rightarrow> string list" where
  "makefile_deps is = concat (map item_deps is)"

lemma fgets_makefile:
  "\<forall>i \<in> set is. item_ok i \<Longrightarrow> fgets DM_MAXLINE (makefile is) = map (\<lambda>i. item_text i @ [newline]) is"
  using fgets_lines[of "map item_text is" DM_MAXLINE] by (simp add: makefile_def item_ok_def comp_def)

lemma dep_line_item:
  assumes "item_ok i" "length (dm_pkgdeps st @ dep_piece dir (dm_prefix st) (item_deps i)) < DM_MAXLINE"
  shows "dep_line w dir (item_text i @ [newline]) st = Some
    (st\<lparr>dm_pkgdeps := dm_pkgdeps st @ dep_piece dir (dm_prefix st) (item_deps i),
        dm_prefix := dep_started (dm_prefix st) (item_deps i)\<rparr>)"
proof (cases i)
  case (Builddep op t ns)
  then show ?thesis using assms dep_line_builddep[of op ns st dir w t] by (simp add: item_ok_def)
next
  case (Other l)
  then show ?thesis using assms(1)
    by (auto simp: item_ok_def dep_line_def dep_piece_def dep_rule_def dep_items_def dep_started_def
        intro!: dep_state.equality)
qed

lemma dep_lines_items:
  assumes "\<forall>i \<in> set is. item_ok i"
    and "length (dm_pkgdeps st @ dep_piece dir (dm_prefix st) (makefile_deps is)) < DM_MAXLINE"
  shows "ofold (dep_line w dir) (map (\<lambda>i. item_text i @ [newline]) is) st = Some
    (st\<lparr>dm_pkgdeps := dm_pkgdeps st @ dep_piece dir (dm_prefix st) (makefile_deps is),
        dm_prefix := dep_started (dm_prefix st) (makefile_deps is)\<rparr>)"
  using assms
proof (induction "is" arbitrary: st)
  case Nil
  then show ?case by (auto simp: makefile_deps_def dep_piece_def dep_rule_def dep_items_def dep_started_def
        intro!: dep_state.equality)
next
  case (Cons i "is")
  let ?st = "st\<lparr>dm_pkgdeps := dm_pkgdeps st @ dep_piece dir (dm_prefix st) (item_deps i),
        dm_prefix := dep_started (dm_prefix st) (item_deps i)\<rparr>"
  have m: "makefile_deps (i # is) = item_deps i @ makefile_deps is" by (simp add: makefile_deps_def)
  have len: "length (dm_pkgdeps st @ dep_piece dir (dm_prefix st) (item_deps i)) < DM_MAXLINE"
    using Cons.prems(2) by (simp add: m dep_piece_append)
  have s: "dep_started (dep_started p xs) ys = dep_started p (xs @ ys)" for p xs ys
    by (simp add: dep_started_def)
  show ?case
    using Cons.IH[of ?st] Cons.prems len
    by (simp add: dep_line_item m dep_piece_append s)
qed



subsection \<open>Optional host tools\<close>



end
