(* ===== verification/Pkgmaker_Parse.thy ===== *)
theory Pkgmaker_Parse
  imports Pkgrebuild
begin

text \<open>
  The parser of \<open>adk/tools/pkgmaker.c\<close>: what it reads of a package's make file. Every parsing
  function answers whether the line was its variable; the loop goes on with the next line then, so
  that what \<open>strtok\<close> leaves of the buffer is never looked at. \<open>None\<close> is undefined behaviour
  (a null pointer, an overrun buffer).
\<close>

definition PM_MAXLINE :: nat where "PM_MAXLINE = 4096"

definition MAXVALUE :: nat where "MAXVALUE = 168"

definition MAXVAR :: nat where "MAXVAR = 64"

definition PM_MAXPATH :: nat where "PM_MAXPATH = 320"

definition HASHSZ :: nat where "HASHSZ = 96"

subsection \<open>The variables of a package\<close>

text \<open>The variables of \<open>main\<close> that hold what was parsed (with the prefix \<open>pkg_\<close> there), and
  \<open>pkgname\<close>, \<open>sysname\<close>, \<open>nobinpkgs\<close> and \<open>pkgmap\<close>.\<close>

record pkgvars =
  pm_name :: "string option"
  pm_descr :: "string option"
  pm_section :: "string option"
  pm_url :: "string option"
  pm_depends :: "string option"
  pm_kdepends :: "string option"
  pm_needs :: "string option"
  pm_depends_system :: "string option"
  pm_depends_libc :: "string option"
  pm_opts :: "string option"
  pm_libname :: "string option"
  pm_flavours :: "string option"
  pm_flavours_string :: "string option"
  pm_choices :: "string option"
  pm_subpkgs :: "string option"
  pm_arch_depends :: "string option"
  pm_system_depends :: "string option"
  pm_host_depends :: "string option"
  pm_libc_depends :: "string option"
  pm_dflt :: "string option"
  pm_cfline :: "string option"
  pm_bb :: "string option"
  pm_pkgname :: "string option"
  pm_sysname :: "string option"
  pm_nobinpkgs :: nat
  pm_pkgmap :: "strmap option"

subsection \<open>Parsing functions\<close>

text \<open>Their result: the line is another one (1), or the variable has a value, or none (0).\<close>

datatype parsed = No_match | Value string | No_value

definition parse_var_hash :: "string \<Rightarrow> string \<Rightarrow> strmap option \<Rightarrow> strmap option option option" where
  "parse_var_hash buf varname m =
     (case strstr varname buf of
        None \<Rightarrow> Some None
      | Some p \<Rightarrow>
         (let (key, val, _, _) = split_assign '':='' p buf
          in if val = None then Some (Some m)
             else do { (_, m) \<leftarrow> strmap_put m key val; Some (Some m) }))"

text \<open>\<open>pvalue " " value\<close>, in a buffer of \<open>PM_MAXLINE\<close> bytes.\<close>

definition append_value :: "string option \<Rightarrow> string option \<Rightarrow> string option" where
  "append_value pvalue val = fits PM_MAXLINE (case_option [] id pvalue @ CHR '' '' # case_option [] id val)"

definition parse_var :: "string \<Rightarrow> string \<Rightarrow> string option \<Rightarrow> parsed option" where
  "parse_var buf varname pvalue =
     (case strstr (snprintf MAXVAR (varname @ '':='')) buf of
        Some p \<Rightarrow>
          (let (_, val, _, _) = split_assign '':='' p buf
           in case val of Some v \<Rightarrow> map_option Value (fits PM_MAXLINE v) | None \<Rightarrow> Some No_value)
      | None \<Rightarrow>
      (case strstr (snprintf MAXVAR (varname @ ''+='')) buf of
        Some p \<Rightarrow> (let (_, val, _, _) = split_assign ''+='' p buf in map_option Value (append_value pvalue val))
      | None \<Rightarrow> Some No_match))"

text \<open>
  \<open>parse_var_with_system\<close> and \<open>parse_var_with_pkg\<close>, which are the same: the value, and the name
  that follows the prefix \<open>varname\<close> of the variable. The answer \<open>Some None\<close> is the result 1.
\<close>

definition parse_var_with ::
  "string \<Rightarrow> string \<Rightarrow> string option \<Rightarrow> string option \<Rightarrow> nat \<Rightarrow> (string option \<times> string option) option option" where
  "parse_var_with buf varname val name varlen =
     (case strstr varname buf of
        None \<Rightarrow> Some None
      | Some p \<Rightarrow>
         if strstr '':='' buf \<noteq> None then
           (let (key, v, _, _) = split_assign '':='' p buf in do {
              key \<leftarrow> key;
              name \<leftarrow> ptr_add varlen key;
              Some (Some (if v = None then val else v, Some name)) })
         else
           (let (_, v, _, _) = split_assign ''+='' p buf in do {
              r \<leftarrow> append_value val v;
              Some (Some (Some r, name)) }))"

subsection \<open>One line\<close>

type_synonym pm_parser = "string \<Rightarrow> pkgvars \<Rightarrow> pkgvars option option"

text \<open>\<open>if (parser(buf, ...) == 0) continue;\<close> for a list of parsers.\<close>

fun first_match :: "pm_parser list \<Rightarrow> string \<Rightarrow> pkgvars \<Rightarrow> pkgvars option" where
  "first_match [] buf st = Some st"
| "first_match (p # ps) buf st =
     (case p buf st of
        None \<Rightarrow> None
      | Some None \<Rightarrow> first_match ps buf st
      | Some (Some st') \<Rightarrow> Some st')"

definition var_parser :: "string \<Rightarrow> (pkgvars \<Rightarrow> string option) \<Rightarrow> (string option \<Rightarrow> pkgvars \<Rightarrow> pkgvars) \<Rightarrow> pm_parser" where
  "var_parser varname pvalue store buf st = do {
     r \<leftarrow> parse_var buf varname (pvalue st);
     Some (case r of
         No_match \<Rightarrow> None
       | Value v \<Rightarrow> Some (store (Some v) st)
       | No_value \<Rightarrow> Some (store None (st\<lparr>pm_nobinpkgs := 1\<rparr>))) }"

definition with_parser :: "string \<Rightarrow> nat \<Rightarrow> (pkgvars \<Rightarrow> string option) \<Rightarrow> (pkgvars \<Rightarrow> string option)
    \<Rightarrow> (string option \<Rightarrow> string option \<Rightarrow> pkgvars \<Rightarrow> pkgvars) \<Rightarrow> pm_parser" where
  "with_parser varname varlen val name store buf st = do {
     r \<leftarrow> parse_var_with buf varname (val st) (name st) varlen;
     Some (map_option (\<lambda>(v, n). store v n st) r) }"

definition hash_parser :: "string \<Rightarrow> pm_parser" where
  "hash_parser varname buf st = do {
     r \<leftarrow> parse_var_hash buf varname (pm_pkgmap st);
     Some (map_option (\<lambda>m. st\<lparr>pm_pkgmap := m\<rparr>) r) }"

text \<open>\<open>pkgmaker\<close> has a \<open>toupperstr\<close> of its own that also replaces the negation sign.\<close>

definition pm_toupperstr :: "string \<Rightarrow> string" where
  "pm_toupperstr str = map (\<lambda>c. upper_char (if c = CHR ''!'' then CHR ''_'' else c)) str"

definition name_parser :: pm_parser where
  "name_parser = var_parser ''PKG_NAME'' (\<lambda>_. None) (\<lambda>v. pm_name_update (\<lambda>_. v))"

definition line_parsers :: "string \<Rightarrow> pm_parser list" where
  "line_parsers name_u =
    [var_parser (snprintf MAXVAR (''PKG_CFLINE_'' @ name_u)) pm_cfline (\<lambda>v. pm_cfline_update (\<lambda>_. v)),
     var_parser (snprintf MAXVAR (''PKG_DFLT_'' @ name_u)) (\<lambda>_. None) (\<lambda>v. pm_dflt_update (\<lambda>_. v)),
     var_parser ''PKG_LIBC_DEPENDS'' (\<lambda>_. None) (\<lambda>v. pm_libc_depends_update (\<lambda>_. v)),
     var_parser ''PKG_HOST_DEPENDS'' (\<lambda>_. None) (\<lambda>v. pm_host_depends_update (\<lambda>_. v)),
     var_parser ''PKG_ARCH_DEPENDS'' (\<lambda>_. None) (\<lambda>v. pm_arch_depends_update (\<lambda>_. v)),
     var_parser ''PKG_SYSTEM_DEPENDS'' (\<lambda>_. None) (\<lambda>v. pm_system_depends_update (\<lambda>_. v)),
     var_parser ''PKG_DESCR'' (\<lambda>_. None) (\<lambda>v. pm_descr_update (\<lambda>_. v)),
     var_parser ''PKG_SECTION'' (\<lambda>_. None) (\<lambda>v. pm_section_update (\<lambda>_. v)),
     var_parser ''PKG_URL'' (\<lambda>_. None) (\<lambda>v. pm_url_update (\<lambda>_. v)),
     var_parser ''PKG_BB'' (\<lambda>_. None) (\<lambda>v. pm_bb_update (\<lambda>_. v)),
     var_parser ''PKG_DEPENDS'' pm_depends (\<lambda>v. pm_depends_update (\<lambda>_. v)),
     var_parser ''PKG_KDEPENDS'' pm_kdepends (\<lambda>v. pm_kdepends_update (\<lambda>_. v)),
     var_parser ''PKG_NEEDS'' pm_needs (\<lambda>v. pm_needs_update (\<lambda>_. v)),
     with_parser ''PKG_DEPENDS_'' 12 pm_depends_system pm_sysname
       (\<lambda>v n. pm_depends_system_update (\<lambda>_. v) \<circ> pm_sysname_update (\<lambda>_. n)),
     with_parser ''PKG_DEPENDS_'' 12 pm_depends_libc pm_sysname
       (\<lambda>v n. pm_depends_libc_update (\<lambda>_. v) \<circ> pm_sysname_update (\<lambda>_. n)),
     var_parser ''PKG_LIBNAME'' pm_libname (\<lambda>v. pm_libname_update (\<lambda>_. v)),
     var_parser ''PKG_OPTS'' pm_opts (\<lambda>v. pm_opts_update (\<lambda>_. v)),
     with_parser ''PKG_FLAVOURS_STRING_'' 20 pm_flavours_string pm_pkgname
       (\<lambda>v n. pm_flavours_string_update (\<lambda>_. v) \<circ> pm_pkgname_update (\<lambda>_. n)),
     with_parser ''PKG_FLAVOURS_'' 13 pm_flavours pm_pkgname
       (\<lambda>v n. pm_flavours_update (\<lambda>_. v) \<circ> pm_pkgname_update (\<lambda>_. n)),
     hash_parser ''PKGFD_'', hash_parser ''PKGFX_'', hash_parser ''PKGFS_'', hash_parser ''PKGFC_'',
     with_parser ''PKG_CHOICES_'' 12 pm_choices pm_pkgname
       (\<lambda>v n. pm_choices_update (\<lambda>_. v) \<circ> pm_pkgname_update (\<lambda>_. n)),
     hash_parser ''PKGCD_'', hash_parser ''PKGCS_'',
     var_parser ''PKG_SUBPKGS'' pm_subpkgs (\<lambda>v. pm_subpkgs_update (\<lambda>_. v)),
     hash_parser ''PKGSD_'', hash_parser ''PKGSS_'', hash_parser ''PKGSC_'', hash_parser ''PKGSK_'',
     hash_parser ''PKGSN_'']"

text \<open>A line, for the package in directory \<open>dir\<close>: the names of two variables contain the name of
  the package.\<close>

definition pm_line :: "string \<Rightarrow> string \<Rightarrow> pkgvars \<Rightarrow> pkgvars option" where
  "pm_line dir buf st =
     (if starts_with ''PKG'' buf then
        first_match (name_parser #
          line_parsers (pm_toupperstr (case pm_name st of Some n \<Rightarrow> n | None \<Rightarrow> dir))) buf st
      else Some st)"

definition pm_libname_rule :: "pkgvars \<Rightarrow> pkgvars" where
  "pm_libname_rule st =
     (case (pm_libname st, pm_opts st) of
        (Some l, Some opts) \<Rightarrow> if strstr ''libmix'' opts = None then st\<lparr>pm_name := Some l\<rparr> else st
      | _ \<Rightarrow> st)"

definition pm_parse :: "string \<Rightarrow> string \<Rightarrow> pkgvars \<Rightarrow> pkgvars option" where
  "pm_parse dir text st = do {
     st \<leftarrow> ofold (pm_line dir) (fgets PM_MAXPATH text) (st\<lparr>pm_nobinpkgs := 0, pm_pkgmap := Some (strmap_new HASHSZ)\<rparr>);
     Some (pm_libname_rule st) }"

end
