(* ===== verification/Pkgmaker.thy ===== *)
theory Pkgmaker
  imports Pkgmaker_Parse Sortfile
begin

text \<open>
  The generator of \<open>adk/tools/pkgmaker.c\<close>: from the make files of all packages, one configuration
  file for every binary package, lists of the packages of every section, and the menus of the
  sections. \<open>None\<close> is \<open>fatal_error\<close>, or undefined behaviour; printing a null pointer counts as
  undefined. \<open>system\<close> and the directory listings are modelled on the record \<open>world\<close>.
\<close>

subsection \<open>Strings and files\<close>

definition tolowerstr :: "string \<Rightarrow> string" where
  "tolowerstr str = map (\<lambda>c. tolower (if c = CHR ''_'' then CHR ''-'' else c)) str"

text \<open>A \<open>char\<close> is signed.\<close>

definition hash_str :: "string \<Rightarrow> int" where
  "hash_str str = sum_list (map (\<lambda>c. if (of_char c :: int) < 128 then of_char c else of_char c - 256) str)"

definition w_append :: "string \<Rightarrow> string \<Rightarrow> world \<Rightarrow> world" where
  "w_append path text w =
     (if w_writable w path then w_put path (case_option [] id (w_files w path) @ text) w else w)"

definition w_unlink :: "string \<Rightarrow> world \<Rightarrow> world" where
  "w_unlink path w = w\<lparr>w_files := (w_files w)(path := None)\<rparr>"

definition w_mkdir :: "string \<Rightarrow> world \<Rightarrow> world" where
  "w_mkdir path w = w\<lparr>w_dirs := insert path (w_dirs w)\<rparr>"

text \<open>The value of a key that is built in a buffer of \<open>MAXVAR\<close> bytes; a value that does not fit
  \<open>hvalue\<close> counts as missing.\<close>

definition hash_value :: "strmap option \<Rightarrow> string \<Rightarrow> string \<Rightarrow> string option option" where
  "hash_value m pre token = do {
     hkey \<leftarrow> fits MAXVAR (pre @ token);
     (result, hvalue) \<leftarrow> strmap_get m (Some hkey) True MAXVALUE;
     Some (if result = 1 then hvalue else None) }"

text \<open>A name that is filled up with dots.\<close>

definition pseudo_name :: "nat \<Rightarrow> string \<Rightarrow> string" where
  "pseudo_name n str = str @ replicate (n - length str) CHR ''.''"

subsection \<open>Lines of a configuration file\<close>

definition cf_line :: "string \<Rightarrow> string" where
  "cf_line text = tab # text @ [newline]"

definition cf_lines :: "string \<Rightarrow> string \<Rightarrow> string list \<Rightarrow> string" where
  "cf_lines before after ts = concat (map (\<lambda>t. cf_line (before @ pm_toupperstr t @ after)) ts)"

text \<open>The lines for the words of a value in the map of the package, if there is one.\<close>

definition cf_map_lines :: "strmap option \<Rightarrow> string \<Rightarrow> string \<Rightarrow> string \<Rightarrow> string option" where
  "cf_map_lines m pre token before = do {
     v \<leftarrow> hash_value m pre token;
     Some (case v of Some v \<Rightarrow> cf_lines before [] (tokens '' '' v) | None \<Rightarrow> []) }"

text \<open>The condition over a list of names, some of them negated: the sign decides which operator comes
  before the next name. The name of a negated one starts with \<open>_\<close>, the replaced sign.\<close>

fun depends_expr :: "string \<Rightarrow> string \<Rightarrow> string \<Rightarrow> string list \<Rightarrow> string" where
  "depends_expr base neg sp [] = []"
| "depends_expr base neg sp (t # ts) =
     (if starts_with ''!'' t then sp @ ''!'' @ base @ neg @ pm_toupperstr t @ depends_expr base neg '' && '' ts
      else sp @ base @ ''_'' @ pm_toupperstr t @ depends_expr base neg '' || '' ts)"

definition depends_on :: "string \<Rightarrow> string \<Rightarrow> string option \<Rightarrow> string" where
  "depends_on base neg names =
     (case names of
        None \<Rightarrow> []
      | Some v \<Rightarrow> cf_line (''depends on '' @ depends_expr base neg [] (tokens '' '' v)))"

definition needs_lines :: "string \<Rightarrow> string" where
  "needs_lines t =
     (if starts_with ''c++'' t then cf_line ''select ADK_TOOLCHAIN_WITH_CXX'' @ cf_line ''select ADK_PACKAGE_LIBSTDCXX'' else [])
     @ (if starts_with ''iconv'' t then
          cf_line ''select ADK_TARGET_LIBC_WITH_LIBICONV if ADK_TARGET_LIB_UCLIBC_NG && !ADK_PACKAGE_LIBICONV'' else [])
     @ (if starts_with ''intl'' t then cf_line ''select ADK_TARGET_LIBC_WITH_LIBINTL if ADK_TARGET_LIB_UCLIBC_NG'' else [])
     @ (if starts_with ''locale'' t then cf_line ''select ADK_TARGET_LIBC_WITH_LOCALE if ADK_TARGET_LIB_UCLIBC_NG'' else [])
     @ (if starts_with ''threads'' t then cf_line ''select ADK_TARGET_LIB_WITH_THREADS'' else [])
     @ (if starts_with ''data'' t then cf_line ''select ADK_RUNTIME_DATA_PARTITION'' else [])
     @ (if starts_with ''mmu'' t then cf_line ''depends on ADK_TARGET_WITH_MMU'' else [])"

definition opt_tokens :: "string option \<Rightarrow> string list" where
  "opt_tokens v = (case v of None \<Rightarrow> [] | Some v \<Rightarrow> tokens '' '' v)"

text \<open>The text for \<open>ADK_COMPILE_*\<close> of a package.\<close>

definition compile_config :: "string \<Rightarrow> pkgvars \<Rightarrow> string option" where
  "compile_config dir st = do {
     dep \<leftarrow> (if pm_nobinpkgs st = 0 then
         (case pm_subpkgs st of
            Some pkgs \<Rightarrow>
              (case tokens '' '' pkgs of
                 [] \<Rightarrow> None
               | t # ts \<Rightarrow> Some (cf_line (''depends on ADK_PACKAGE_'' @ t @ concat (map (\<lambda>t. '' || ADK_PACKAGE_'' @ t) ts))))
          | None \<Rightarrow> map_option (\<lambda>n. cf_line (''depends on ADK_PACKAGE_'' @ pm_toupperstr n)) (pm_name st))
       else Some []);
     Some (''config ADK_COMPILE_'' @ pm_toupperstr dir @ newline # cf_line ''boolean'' @ dep @ cf_line ''default n'') }"

subsection \<open>A binary package\<close>

definition dquoted :: "string \<Rightarrow> string" where
  "dquoted str = dquote # str @ [dquote]"

definition prompt_text :: "string \<Rightarrow> string \<Rightarrow> pkgvars \<Rightarrow> string" where
  "prompt_text pseudo descr st =
     (if pm_opts st \<noteq> None \<and> strstr ''devonly'' (the (pm_opts st)) \<noteq> None
      then cf_line (''#prompt '' @ dquoted (pseudo @ ''. '' @ descr))
      else cf_line (''prompt '' @ dquoted (pseudo @ ''. '' @ descr)))"

text \<open>The first part, up to the dependencies on the target.\<close>

definition config_head :: "string \<Rightarrow> string \<Rightarrow> string \<Rightarrow> pkgvars \<Rightarrow> string option" where
  "config_head token pseudo descr st = do {
     let u = pm_toupperstr token;
     let m = pm_pkgmap st;
     sn \<leftarrow> cf_map_lines m ''PKGSN_'' u ''depends on ADK_PACKAGE_'';
     ss \<leftarrow> cf_map_lines m ''PKGSS_'' u ''select ADK_PACKAGE_'';
     sk \<leftarrow> cf_map_lines m ''PKGSK_'' u ''select ADK_KERNEL_'';
     Some ((if pm_bb st = None then [] else
         ''comment '' @ dquoted (token @ ''... '' @ descr @ '' (provided by busybox)'') @ newline
           # ''depends on ADK_PACKAGE_BUSYBOX_HIDE'' @ [newline, newline])
       @ ''config ADK_PACKAGE_'' @ u @ newline # prompt_text pseudo descr st @ cf_line ''bool''
       @ (case pm_cfline st of None \<Rightarrow> [] | Some v \<Rightarrow> concat (map cf_line (tokens ''@'' v)))
       @ sn @ ss @ sk) }"

text \<open>A list of names is only printed with the name of the system.\<close>

definition system_lines :: "string \<Rightarrow> string option \<Rightarrow> string option \<Rightarrow> string option" where
  "system_lines base names sysname =
     (case opt_tokens names of
        [] \<Rightarrow> Some []
      | ts \<Rightarrow> map_option (\<lambda>n. cf_lines ''select ADK_PACKAGE_'' ('' if '' @ base @ n) ts) sysname)"

definition config_deps :: "string \<Rightarrow> pkgvars \<Rightarrow> string option" where
  "config_deps dir st = do {
     sys \<leftarrow> system_lines ''ADK_TARGET_SYSTEM_'' (pm_depends_system st) (pm_sysname st);
     libc \<leftarrow> system_lines ''ADK_TARGET_LIB_'' (pm_depends_libc st) (pm_sysname st);
     Some (depends_on ''ADK_TARGET_SYSTEM'' [] (pm_system_depends st)
       @ depends_on ''ADK_HOST'' [] (pm_host_depends st)
       @ depends_on ''ADK_TARGET_LIB'' ''_'' (pm_libc_depends st)
       @ depends_on ''ADK_TARGET_ARCH'' [] (pm_arch_depends st)
       @ concat (map needs_lines (opt_tokens (pm_needs st)))
       @ cf_lines ''select ADK_PACKAGE_'' [] (opt_tokens (pm_depends st))
       @ cf_lines ''select ADK_LINUX_KERNEL_'' '' m if ADK_TARGET_OS_LINUX'' (opt_tokens (pm_kdepends st))
       @ sys @ libc
       @ (if pm_bb st = None then [] else cf_line ''depends on !ADK_PACKAGE_BUSYBOX_HIDE'')
       @ cf_line (''select ADK_COMPILE_'' @ pm_toupperstr dir)) }"

definition config_help :: "string \<Rightarrow> string \<Rightarrow> pkgvars \<Rightarrow> string" where
  "config_help token descr st =
     cf_line (''default '' @ (case pm_dflt st of None \<Rightarrow> ''n'' | Some d \<Rightarrow> d))
     @ cf_line ''help'' @ cf_line (''  '' @ descr) @ newline
     # (case pm_url st of None \<Rightarrow> [] | Some u \<Rightarrow> cf_line (''  WWW: '' @ u))
     @ newline # ''config ADK_PACKAGE_'' @ pm_toupperstr token @ ''_DBG'' @ newline
     # cf_line (''bool '' @ dquoted ''add debug symbols package'')
     @ cf_line ''depends on ADK_PACKAGE_GDB && ADK_BUILD_WITH_DEBUG''
     @ cf_line ''depends on ADK_DEBUG''
     @ cf_line (''depends on ADK_PACKAGE_'' @ pm_toupperstr token)
     @ cf_line ''default n'' @ cf_line ''help'' @ [newline]"

text \<open>A flavour, with a boolean or a string value.\<close>

definition flavour_text :: "bool \<Rightarrow> strmap option \<Rightarrow> string \<Rightarrow> string \<Rightarrow> string option" where
  "flavour_text is_string m pkgname t = do {
     fx \<leftarrow> hash_value m ''PKGFX_'' t;
     fc \<leftarrow> hash_value m ''PKGFC_'' t;
     fd \<leftarrow> hash_value m ''PKGFD_'' t;
     fs \<leftarrow> cf_map_lines m ''PKGFS_'' t ''select ADK_PACKAGE_'';
     let fx = case_option [] id fx;
     let fc = case_option [] id fc;
     let fd = case_option [] id fd;
     Some (newline # ''config ADK_PACKAGE_'' @ pkgname @ ''_'' @ pm_toupperstr t @ newline
       # (if is_string then (if fx = [] then [] else cf_line (''default '' @ dquoted fx))
          else cf_line (''default '' @ (if fx = [] then ''n'' else fx)))
       @ (if fc = [] then [] else cf_line fc)
       @ cf_line ((if is_string then ''string '' else ''boolean '') @ dquoted fd)
       @ cf_line (''depends on ADK_PACKAGE_'' @ pkgname)
       @ fs @ cf_line ''help'' @ cf_line (''  '' @ fd)) }"

fun concat_opt :: "('a \<Rightarrow> string option) \<Rightarrow> 'a list \<Rightarrow> string option" where
  "concat_opt f [] = Some []"
| "concat_opt f (x # xs) = do { a \<leftarrow> f x; b \<leftarrow> concat_opt f xs; Some (a @ b) }"

definition flavours_text :: "bool \<Rightarrow> strmap option \<Rightarrow> string option \<Rightarrow> string option \<Rightarrow> string option" where
  "flavours_text is_string m pkgname names =
     concat_opt (\<lambda>t. Option.bind pkgname (\<lambda>n. flavour_text is_string m n t)) (opt_tokens names)"

definition choice_text :: "strmap option \<Rightarrow> string \<Rightarrow> string \<Rightarrow> string option" where
  "choice_text m pkgname t = do {
     cd \<leftarrow> hash_value m ''PKGCD_'' t;
     cs \<leftarrow> cf_map_lines m ''PKGCS_'' t ''select ADK_PACKAGE_'';
     Some (''config ADK_PACKAGE_'' @ pkgname @ ''_'' @ pm_toupperstr t @ newline
       # cf_line (''bool '' @ dquoted (case_option [] id cd)) @ cs) }"

definition choices_text :: "strmap option \<Rightarrow> string option \<Rightarrow> string option \<Rightarrow> string option" where
  "choices_text m pkgname names =
     (case names of
        None \<Rightarrow> Some []
      | Some v \<Rightarrow> do {
          n \<leftarrow> pkgname;
          body \<leftarrow> concat_opt (choice_text m n) (tokens '' '' v);
          Some (newline # ''choice'' @ newline # ''prompt '' @ dquoted ''Package flavour choice'' @ newline
            # ''depends on ADK_PACKAGE_'' @ n @ newline # newline # body @ newline # ''endchoice'' @ [newline]) })"

definition config_text :: "string \<Rightarrow> string \<Rightarrow> pkgvars \<Rightarrow> string option" where
  "config_text dir token st = do {
     descr \<leftarrow> pm_descr st;
     pseudo \<leftarrow> fits PM_MAXLINE (pseudo_name 23 token);
     head \<leftarrow> config_head token pseudo descr st;
     deps \<leftarrow> config_deps dir st;
     fl \<leftarrow> flavours_text False (pm_pkgmap st) (pm_pkgname st) (pm_flavours st);
     fs \<leftarrow> flavours_text True (pm_pkgmap st) (pm_pkgname st) (pm_flavours_string st);
     ch \<leftarrow> choices_text (pm_pkgmap st) (pm_pkgname st) (pm_choices st);
     Some (head @ deps @ config_help token descr st @ fl @ fs @ ch) }"

text \<open>What was printed for one binary package is not printed for the next one of the same make
  file.\<close>

definition pm_printed :: "pkgvars \<Rightarrow> pkgvars" where
  "pm_printed st = st\<lparr>pm_cfline := None, pm_needs := None, pm_depends := None, pm_kdepends := None,
     pm_depends_system := None, pm_depends_libc := None, pm_dflt := None, pm_flavours := None,
     pm_flavours_string := None, pm_choices := None\<rparr>"

subsection \<open>Development packages\<close>

definition dev_path :: string where "dev_path = ''package/pkgconfigs.d/gcc/Config.in.dev''"

definition dev_text :: "string \<Rightarrow> pkgvars \<Rightarrow> string option" where
  "dev_text lib st = do {
     pseudo \<leftarrow> fits PM_MAXLINE (pseudo_name 20 (lib @ ''-dev''));
     Some (newline # ''config ADK_PACKAGE_'' @ pm_toupperstr lib @ ''_DEV'' @ newline
       # cf_line (''prompt '' @ dquoted (pseudo @ ''. development files for '' @ lib))
       @ cf_line ''boolean'' @ depends_on ''ADK_TARGET_ARCH'' [] (pm_arch_depends st)
       @ cf_line (''depends on ADK_PACKAGE_GCC && ADK_PACKAGE_'' @ pm_toupperstr lib)
       @ cf_line ''default n'') }"

definition pm_dev :: "pkgvars \<Rightarrow> world \<Rightarrow> (pkgvars \<times> world) option" where
  "pm_dev st w =
     (case pm_opts st of
        None \<Rightarrow> Some (st, w)
      | Some opts \<Rightarrow>
         if strstr ''dev'' opts = None then Some (st\<lparr>pm_opts := None\<rparr>, w)
         else if \<not> w_writable w dev_path then None
         else do {
           lib \<leftarrow> (case pm_libname st of Some l \<Rightarrow> Some l | None \<Rightarrow> pm_name st);
           text \<leftarrow> dev_text lib st;
           Some (st\<lparr>pm_libname := None, pm_opts := None\<rparr>, w_append dev_path text w) })"

subsection \<open>One package\<close>

definition section_list :: "string \<Rightarrow> string" where
  "section_list descr = snprintf PM_MAXPATH (''package/pkglist.d/sectionlst.'' @ show_lld (hash_str descr))"

text \<open>The description of the section of a package; an unknown one ends the program.\<close>

definition section_descr :: "strmap option \<Rightarrow> string option \<Rightarrow> string option" where
  "section_descr sectionmap sect = do {
     (result, hvalue) \<leftarrow> strmap_get sectionmap sect True MAXVALUE;
     if result = 1 then hvalue else None }"

text \<open>One binary package: its section and description may be overridden, it is entered into the list of
  its section, and its configuration file is written.\<close>

definition pm_token :: "strmap option \<Rightarrow> string \<Rightarrow> string \<Rightarrow> pkgvars \<times> world \<Rightarrow> (pkgvars \<times> world) option" where
  "pm_token sectionmap dir token = (\<lambda>(st, w). do {
     sc \<leftarrow> hash_value (pm_pkgmap st) ''PKGSC_'' (pm_toupperstr token);
     let st = (case sc of None \<Rightarrow> st | Some v \<Rightarrow> st\<lparr>pm_section := Some v\<rparr>);
     sd \<leftarrow> hash_value (pm_pkgmap st) ''PKGSD_'' (pm_toupperstr token);
     let st = (case sd of None \<Rightarrow> st | Some v \<Rightarrow> st\<lparr>pm_descr := Some v\<rparr>);
     let path = snprintf PM_MAXPATH (''package/pkgconfigs.d/'' @ dir @ ''/Config.in.'' @ token);
     sect \<leftarrow> section_descr sectionmap (pm_section st);
     let w = w_append (section_list sect) (token @ '' |'' @ dir @ [newline]) w;
     if \<not> w_writable w path then None
     else do {
       text \<leftarrow> config_text dir token st;
       pm_dev (pm_printed st) (w_put path text w) } })"

definition pm_reset :: "pkgvars \<Rightarrow> pkgvars" where
  "pm_reset st = st\<lparr>pm_name := None, pm_libname := None, pm_descr := None, pm_section := None, pm_url := None,
     pm_depends := None, pm_kdepends := None, pm_flavours := None, pm_flavours_string := None, pm_choices := None,
     pm_subpkgs := None, pm_arch_depends := None, pm_system_depends := None, pm_host_depends := None,
     pm_libc_depends := None, pm_dflt := None, pm_cfline := None, pm_bb := None, pm_nobinpkgs := 0\<rparr>"

text \<open>The words a package's binary packages are named by.\<close>

definition pm_packages :: "pkgvars \<Rightarrow> string list option" where
  "pm_packages st =
     (case pm_subpkgs st of
        Some s \<Rightarrow> Some (tokens '' '' (tolowerstr s))
      | None \<Rightarrow> map_option (tokens '' '') (pm_name st))"

text \<open>The variables, the text of \<open>Config.in.auto.global\<close> so far, and the world.\<close>

type_synonym pm_state = "pkgvars \<times> string \<times> world"

text \<open>The rest of the work on a package after its make file was parsed. A package without binary
  packages leaves the loop early, with all variables as they are.\<close>

definition pm_generate :: "strmap option \<Rightarrow> string \<Rightarrow> pm_state \<Rightarrow> pm_state option" where
  "pm_generate sectionmap dir = (\<lambda>(st, menu, w).
     (let path = snprintf PM_MAXPATH (''package/pkgconfigs.d/'' @ dir @ ''/Config.in'');
          menu = menu @ ''source '' @ dquoted path @ [newline]
      in if \<not> w_writable w path then Some (st, menu, w_unlink path w)
         else do {
           text \<leftarrow> compile_config dir st;
           let w = w_put path text w;
           if pm_nobinpkgs st = 1 then Some (st, menu, w)
           else do {
             packages \<leftarrow> pm_packages st;
             (st, w) \<leftarrow> ofold (pm_token sectionmap dir) packages (st, w);
             Some (pm_reset st, menu, w) } }))"

text \<open>A manually maintained package is only entered into the list of its section.\<close>

definition pm_manual :: "strmap option \<Rightarrow> string \<Rightarrow> string \<Rightarrow> pm_state \<Rightarrow> pm_state option" where
  "pm_manual sectionmap dir text = (\<lambda>(st, menu, w). do {
     st \<leftarrow> ofold (first_match [var_parser ''PKG_SECTION'' (\<lambda>_. None) (\<lambda>v. pm_section_update (\<lambda>_. v))])
       (fgets PM_MAXPATH text) st;
     sect \<leftarrow> section_descr sectionmap (pm_section st);
     Some (st, menu, w_append (section_list sect) (dir @ ''@'' @ [newline]) w) })"

subsection \<open>Scripts that start services\<close>

definition runtime :: string where "runtime = ''target/config/Config.in.scripts''"

definition script_line :: "string \<Rightarrow> string \<Rightarrow> world \<Rightarrow> world option" where
  "script_line script ibuf w =
     (if starts_with ''#PKG'' ibuf then do {
        sname \<leftarrow> ptr_add 5 ibuf;
        if sname = [] then None
        else (let sname = butlast sname; sname2 = take (length script - 5) script;
                  bb = starts_with ''busybox'' sname
          in Some (w_append runtime
               (''config ADK_RUNTIME_START_'' @ pm_toupperstr sname
                @ (if bb then CHR ''_'' # pm_toupperstr sname2 else []) @ newline
                # cf_line (''prompt '' @ dquoted (''Start '' @ sname2 @ '' on boot'')) @ cf_line ''tristate''
                @ (if bb then cf_line (''depends on BUSYBOX_'' @ pm_toupperstr sname2)
                   else cf_line (''depends on ADK_PACKAGE_'' @ pm_toupperstr sname))
                @ cf_line ''depends on ADK_RUNTIME_START_SERVICES'' @ cf_line ''default n'' @ [newline]) w)) }
      else Some w)"

definition is_init :: "string \<Rightarrow> bool" where
  "is_init name \<longleftrightarrow> no_dotfile name \<and> 5 \<le> length name \<and> drop (length name - 5) name = ''.init''"

definition pm_script :: "string \<Rightarrow> string \<Rightarrow> world \<Rightarrow> world option" where
  "pm_script dir script w =
     (if is_init script then
        (case w_files w (snprintf PM_MAXPATH (''package/'' @ dir @ ''/files/'' @ script)) of
           None \<Rightarrow> Some w
         | Some text \<Rightarrow> ofold (script_line script) (fgets PM_MAXPATH text) w)
      else Some w)"

subsection \<open>The loop over the packages\<close>

text \<open>\<open>readdir\<close> lists a directory of the world, if it can be opened.\<close>

definition pm_package :: "(world \<Rightarrow> string \<Rightarrow> string list option) \<Rightarrow> strmap option \<Rightarrow> string
    \<Rightarrow> pm_state \<Rightarrow> pm_state option" where
  "pm_package readdir sectionmap dir = (\<lambda>(st, menu, w).
     (if no_dotfile dir then
        (case w_files w (snprintf PM_MAXPATH (''package/'' @ dir @ ''/Makefile'')) of
           None \<Rightarrow> Some (st, menu, w)
         | Some text \<Rightarrow> do {
             w \<leftarrow> (case readdir w (snprintf PM_MAXPATH (''package/'' @ dir @ ''/files'')) of
                 None \<Rightarrow> Some w
               | Some scripts \<Rightarrow> ofold (pm_script dir) scripts w);
             if w_exists w (snprintf PM_MAXPATH (''package/'' @ dir @ ''/Config.in.manual''))
             then pm_manual sectionmap dir text (st, menu, w)
             else do {
               let w = w_mkdir (snprintf PM_MAXPATH (''package/pkgconfigs.d/'' @ dir)) w;
               st \<leftarrow> pm_parse dir text st;
               pm_generate sectionmap dir (st, menu, w) } })
      else Some (st, menu, w)))"

definition pm_start :: pkgvars where
  "pm_start = \<lparr>pm_name = None, pm_descr = None, pm_section = None, pm_url = None, pm_depends = None,
     pm_kdepends = None, pm_needs = None, pm_depends_system = None, pm_depends_libc = None, pm_opts = None,
     pm_libname = None, pm_flavours = None, pm_flavours_string = None, pm_choices = None, pm_subpkgs = None,
     pm_arch_depends = None, pm_system_depends = None, pm_host_depends = None, pm_libc_depends = None,
     pm_dflt = None, pm_cfline = None, pm_bb = None, pm_pkgname = None, pm_sysname = None, pm_nobinpkgs = 0,
     pm_pkgmap = None\<rparr>"

subsection \<open>Sections\<close>

definition section_line :: "string \<Rightarrow> strmap option \<Rightarrow> strmap option option" where
  "section_line buf m =
     (let (key, rest) = strtok [tab] buf; (val, _) = strtok [tab] rest
      in do { (_, m) \<leftarrow> strmap_put m key val; Some m })"

definition section_map :: "string \<Rightarrow> strmap option option" where
  "section_map text = ofold section_line (fgets PM_MAXPATH text) (Some (strmap_new HASHSZ))"

text \<open>One line of a sorted list: a manually maintained package ends with \<open>@\<close>, any other line is the
  name of a binary package, a space, and the directory.\<close>

definition section_entry :: "string \<Rightarrow> string option" where
  "section_entry line =
     (let buf = butlast line in
      if buf = [] then None
      else if last buf = CHR ''@'' then
        Some (''source '' @ dquoted (''package/'' @ butlast buf @ ''/Config.in.manual'') @ [newline])
      else (let (subpkg, rest) = strtok ''|'' buf; (pkg, _) = strtok ''|'' rest in do {
        subpkg \<leftarrow> subpkg;
        pkg \<leftarrow> pkg;
        Some (''source '' @ dquoted (''package/pkgconfigs.d/'' @ pkg @ ''/Config.in.'' @ butlast subpkg) @ [newline]) }))"

text \<open>\<open>iter\<close>: the menu of one section. Its list is removed, so that a second section with the same
  description gets no menu.\<close>

definition section_iter :: "string \<Rightarrow> string \<Rightarrow> world \<Rightarrow> world option" where
  "section_iter key descr w = do {
     let (sect, rest) = strtok ''/'' key;
     let (subsect, _) = strtok ''/'' rest;
     sect \<leftarrow> sect;
     subsect \<leftarrow> subsect;
     let configsect = snprintf PM_MAXPATH (''package/Config.in.auto.'' @ sect @ ''.'' @ subsect);
     let infile = section_list descr;
     let outfile = snprintf PM_MAXPATH
       (''package/pkglist.d/sectionlst.'' @ show_lld (hash_str descr) @ ''.sorted'');
     if \<not> w_writable w configsect then None
     else if \<not> w_exists w infile then Some (w_append configsect [] w)
     else do {
       w \<leftarrow> sortfile infile outfile w;
       let w = w_unlink infile w;
       sorted \<leftarrow> w_files w outfile;
       entries \<leftarrow> concat_opt section_entry (fgets PM_MAXPATH sorted);
       Some (w_append configsect
         (''menu '' @ dquoted (butlast descr) @ newline # entries @ ''endmenu'' @ [newline, newline]) w) } }"

subsection \<open>The program\<close>

definition dev_entry :: "string \<Rightarrow> string \<Rightarrow> string \<Rightarrow> string \<Rightarrow> string \<Rightarrow> string" where
  "dev_entry opt pseudo lib libsym help =
     ''config ADK_PACKAGE_'' @ opt @ ''_DEV'' @ newline
       # cf_line (''prompt '' @ dquoted (pseudo @ '' development files for '' @ lib))
       @ cf_line ''boolean'' @ cf_line ''default n'' @ cf_line (''depends on ADK_TARGET_LIB_'' @ libsym)
       @ cf_line ''help'' @ cf_line (''  '' @ help) @ [newline]"

definition dev_initial :: string where
  "dev_initial =
     dev_entry ''GLIBC'' ''glibc-dev............'' ''glibc'' ''GLIBC'' ''GNU C library header files.''
     @ dev_entry ''UCLIBC_NG'' ''uclibc-ng-dev........'' ''uclibc-ng'' ''UCLIBC_NG'' ''C library header files.''
     @ dev_entry ''MUSL'' ''musl-dev.............'' ''musl'' ''MUSL'' ''C library header files.''"

definition gcc_menu :: string where
  "gcc_menu = ''menu '' @ dquoted ''Development packages'' @ newline # ''depends on ADK_PACKAGE_GCC'' @ newline
     # ''source '' @ dquoted dev_path @ newline # ''endmenu'' @ [newline]"

text \<open>\<open>rm package/Config.in.auto.*\<close>\<close>

definition rm_auto :: "world \<Rightarrow> world" where
  "rm_auto w = w\<lparr>w_files := (\<lambda>p. if starts_with ''package/Config.in.auto.'' p
     \<and> CHR ''/'' \<notin> set (drop (length ''package/Config.in.auto.'') p) then None else w_files w p)\<rparr>"

text \<open>The lists that are left in the end; a failing removal ends the program.\<close>

definition rm_list :: "string \<Rightarrow> world \<Rightarrow> world option" where
  "rm_list name w =
     (if starts_with ''sectionlst.'' name then
        (let path = snprintf PM_MAXPATH (''package/pkglist.d/'' @ name)
         in if w_files w path = None then None else Some (w_unlink path w))
      else Some w)"

definition pkgmaker :: "(world \<Rightarrow> string \<Rightarrow> string list option) \<Rightarrow> world \<Rightarrow> world option" where
  "pkgmaker readdir w = do {
     let w = w_unlink runtime (rm_auto w);
     if \<not> w_writable w ''package/Config.in.auto.global'' then None
     else do {
       let w = w_put ''package/Config.in.auto.global'' [] w;
       sections \<leftarrow> w_files w ''package/section.lst'';
       sectionmap \<leftarrow> section_map sections;
       let w = w_mkdir ''package/pkglist.d'' (w_mkdir ''package/pkgconfigs.d/gcc'' (w_mkdir ''package/pkgconfigs.d'' w));
       if \<not> w_writable w dev_path then None
       else do {
         let w = w_put dev_path dev_initial w;
         dirs \<leftarrow> readdir w ''package'';
         (_, menu, w) \<leftarrow> ofold (pm_package readdir sectionmap) dirs (pm_start, [], w);
         if \<not> w_writable w ''package/pkgconfigs.d/gcc/Config.in.gcc'' then None
         else do {
           let w = w_append ''package/pkgconfigs.d/gcc/Config.in.gcc'' gcc_menu w;
           w \<leftarrow> ofold (\<lambda>(key, descr). section_iter key descr) (snd (strmap_enum sectionmap)) w;
           let w = w_put ''package/Config.in.auto.global'' menu w;
           lists \<leftarrow> readdir w ''package/pkglist.d'';
           ofold rm_list lists w } } } }"

end
