(* ===== verification/Pkgmaker_Properties.thy ===== *)
theory Pkgmaker_Properties
  imports Pkgmaker Sortfile_Properties
begin

text \<open>
  The properties of \<open>pkgmaker\<close>: lists in make file variables, what is carried from one package to
  the next, conditions over names, and the menu of a section.
\<close>

subsection \<open>Lists in variables\<close>

lemma tokens_skip: "d \<in> set delims \<Longrightarrow> tokens delims (d # str) = tokens delims str"
  by (simp add: tokens.simps[of _ "d # str"] tokens.simps[of _ str] strtok_skip)

lemma strtok_split:
  assumes "dropWhile (\<lambda>c. c \<in> set delims) x \<noteq> []"
  obtains t where "strtok delims x = (Some t, [])" "strtok delims (x @ d # y) = strtok delims (t @ d # y)"
      "t \<noteq> []" "\<forall>c \<in> set t. c \<notin> set delims"
  | t r where "strtok delims x = (Some t, r)" "strtok delims (x @ d # y) = (Some t, r @ d # y)" "length r < length x"
proof -
  let ?D = "\<lambda>c. c \<in> set delims"
  let ?s = "dropWhile ?D x"
  obtain c cs where s: "?s = c # cs" using assms by (cases ?s) auto
  then have c: "c \<notin> set delims" using hd_dropWhile[of ?D x] by auto
  have app: "dropWhile ?D (x @ d # y) = ?s @ d # y"
    using assms by (simp add: dropWhile_append1 dropWhile_eq_Nil_conv)
      (metis dropWhile_append1 dropWhile_eq_Nil_conv)
  show ?thesis
  proof (cases "\<exists>b \<in> set ?s. b \<in> set delims")
    case False
    then have "strtok delims x = (Some ?s, [])" using s
      by (simp add: strtok_def takeWhile_eq_all_conv[THEN iffD2] dropWhile_eq_Nil_conv[THEN iffD2])
    moreover have "strtok delims (x @ d # y) = strtok delims (?s @ d # y)"
      using s c by (simp add: strtok_def app)
    ultimately show ?thesis using that(1) False assms by blast
  next
    case True
    then obtain t b r where t: "?s = t @ b # r" "b \<in> set delims" "\<forall>a \<in> set t. a \<notin> set delims"
      using split_list_first_prop[of ?s "\<lambda>b. b \<in> set delims"] by blast
    then have "t \<noteq> []" using s c by auto
    then have "strtok delims (t @ b # r) = (Some t, r)" "strtok delims (t @ b # r @ d # y) = (Some t, r @ d # y)"
      using t by (simp_all add: strtok_token)
    moreover have "strtok delims x = strtok delims ?s" "strtok delims (x @ d # y) = strtok delims (?s @ d # y)"
      using s c by (simp_all add: strtok_def app)
    moreover have "length r < length x" using t(1) length_dropWhile_le[of ?D x] by simp
    ultimately show ?thesis using that(2)[of t r] t(1) by simp
  qed
qed

lemma tokens_append:
  assumes "d \<in> set delims"
  shows "tokens delims (x @ d # y) = tokens delims x @ tokens delims y"
proof (induction x rule: length_induct)
  case (1 x)
  show ?case
  proof (cases "dropWhile (\<lambda>c. c \<in> set delims) x = []")
    case True
    then have "\<forall>c \<in> set x. c \<in> set delims" by (simp add: dropWhile_eq_Nil_conv)
    then have "tokens delims (x @ d # y) = tokens delims (d # y)" "tokens delims x = tokens delims []"
      by (induction x) (simp_all add: tokens_skip)
    then show ?thesis using assms by (simp add: tokens_skip tokens.simps[of _ "[]"])
  next
    case False
    then show ?thesis
    proof (cases rule: strtok_split[where d = d and y = y])
      case (1 t)
      then have "strtok delims (x @ d # y) = (Some t, y)" using assms by (simp add: strtok_token)
      then show ?thesis using 1(1) by (simp add: tokens.simps[of _ "x @ d # y"] tokens.simps[of _ x] tokens.simps[of _ "[]"])
    next
      case (2 t r)
      then show ?thesis using 1 by (simp add: tokens.simps[of _ "x @ d # y"] tokens.simps[of _ x])
    qed
  qed
qed

definition var_name :: "string \<Rightarrow> bool" where
  "var_name v \<longleftrightarrow> v \<noteq> [] \<and> length v + 2 < MAXVAR \<and> set v \<inter> set '':+='' = {}"

text \<open>C38: a line that assigns a list of words to a variable gives a value with exactly these words, and
  a line that adds a list gives the words that were there before and then the new ones; an
  assignment of nothing is the answer that there is no value.\<close>

theorem parse_var_list:
  assumes "var_name v" "\<forall>n \<in> set ns. is_word n" "length (case_option [] id pv) + length (spaced ns) + 1 < PM_MAXLINE"
  shows "parse_var (v @ '':='' @ replicate t tab @ spaced ns @ [newline]) v pv
      = Some (if ns = [] then No_value else Value (spaced ns))
    \<and> tokens '' '' (spaced ns) = ns
    \<and> (\<exists>r. parse_var (v @ ''+='' @ replicate t tab @ spaced ns @ [newline]) v pv = Some (Value r)
        \<and> tokens '' '' r = opt_tokens pv @ ns)"
proof -
  note w = spaced_words[OF assms(2)]
  let ?body = "replicate t tab @ spaced ns @ [newline]"
  have v: "v \<noteq> []" "\<forall>c \<in> set v. c \<notin> set '':=''" "\<forall>c \<in> set v. c \<notin> set ''+=''" "CHR ''='' \<notin> set v"
    using assms(1) by (auto simp: var_name_def)
  have cut: "snprintf MAXVAR (v @ '':='') = v @ '':=''" "snprintf MAXVAR (v @ ''+='') = v @ ''+=''"
    using assms(1) by (auto simp: var_name_def snprintf_def MAXVAR_def)
  have body: "CHR ''='' \<notin> set ?body" using w(1) by (auto simp: tab_def)
  have s1: "split_assign '':='' 0 (v @ '':='' @ ?body) = (Some v, if ns = [] then None else Some (spaced ns), [], v)"
    using split_assign_words[OF v(1,2), of "CHR '':''" "''=''" ns t] assms(2) by simp
  have s2: "split_assign ''+='' 0 (v @ ''+='' @ ?body) = (Some v, if ns = [] then None else Some (spaced ns), [], v)"
    using split_assign_words[OF v(1,3), of "CHR ''+''" "''=''" ns t] assms(2) by simp
  have f1: "strstr (v @ '':='') (v @ '':='' @ ?body) = Some 0" "strstr (v @ ''+='') (v @ ''+='' @ ?body) = Some 0"
    using strstr_prefix[of "v @ '':=''" ?body] strstr_prefix[of "v @ ''+=''" ?body] by simp_all
  have f2: "strstr (v @ '':='') (v @ ''+='' @ ?body) = None"
    using strstr_assign_None[of "v @ '':''" "v @ ''+''" ?body] v(4) body by (auto simp: suffix_def)
  let ?r = "case_option [] id pv @ CHR '' '' # spaced ns"
  have "tokens '' '' ?r = opt_tokens pv @ ns"
    using tokens_append[of "CHR '' ''" "'' ''" "case_option [] id pv" "spaced ns"] w(3)
    by (cases pv) (simp_all add: opt_tokens_def tokens.simps[of _ "[]"])
  moreover have "parse_var (v @ ''+='' @ ?body) v pv = Some (Value ?r)"
    using assms(3) w(2) unfolding parse_var_def cut f2 option.case f1 s2
    by (cases "ns = []") (simp_all add: append_value_def fits_def)
  moreover have "parse_var (v @ '':='' @ ?body) v pv = Some (if ns = [] then No_value else Value (spaced ns))"
    using assms(3) unfolding parse_var_def cut f1 option.case s1 by (simp add: fits_def)
  ultimately show ?thesis using w(3) by blast
qed

theorem parse_var_list_witness:
  "\<exists>r. parse_var (''PKG_DEPENDS+='' @ replicate 1 tab @ spaced [''b'', ''c''] @ [newline]) ''PKG_DEPENDS'' (Some ''a'') = Some (Value r)
    \<and> tokens '' '' r = [''a'', ''b'', ''c'']"
proof -
  have "opt_tokens (Some ''a'') = [''a'']" using tokens_spaced[of "[''a'']"] by (simp add: opt_tokens_def)
  then show ?thesis
    using parse_var_list[of "''PKG_DEPENDS''" "[''b'', ''c'']" "Some ''a''" 1]
    by (simp add: var_name_def is_word_def word_char_def tab_def MAXVAR_def PM_MAXLINE_def)
qed

subsection \<open>Conditions over names\<close>

fun joined :: "string \<Rightarrow> string list \<Rightarrow> string" where
  "joined sp [] = []"
| "joined sp [x] = x"
| "joined sp (x # xs) = x @ sp @ joined sp xs"

text \<open>C40: a list of names becomes the disjunction of their symbols, and a list of negated names the
  conjunction of the negated symbols. For C libraries the symbol of a negated name has two
  underscores, so it is not the symbol of the library.\<close>

theorem depends_expr_spec:
  assumes "\<forall>n \<in> set ns. \<not> starts_with ''!'' n"
  shows "depends_expr base neg [] ns = joined '' || '' (map (\<lambda>n. base @ ''_'' @ pm_toupperstr n) ns)
    \<and> depends_expr base neg [] (map ((@) ''!'') ns) =
        joined '' && '' (map (\<lambda>n. ''!'' @ base @ neg @ ''_'' @ pm_toupperstr n) ns)
    \<and> depends_on ''ADK_TARGET_LIB'' ''_'' (Some ''!musl'') = cf_line ''depends on !ADK_TARGET_LIB__MUSL''"
proof -
  have pos: "depends_expr base neg sp ns = (if ns = [] then [] else sp @ joined '' || '' (map (\<lambda>n. base @ ''_'' @ pm_toupperstr n) ns))" for sp
    using assms
  proof (induction ns arbitrary: sp)
    case (Cons n ns)
    then show ?case by (cases ns) simp_all
  qed simp
  have up: "pm_toupperstr (''!'' @ n) = ''_'' @ pm_toupperstr n" for n
    by (simp add: pm_toupperstr_def upper_char_def toupper_def islower_def in_range_def)
  have negs: "depends_expr base neg sp (map ((@) ''!'') ns) =
      (if ns = [] then [] else sp @ joined '' && '' (map (\<lambda>n. ''!'' @ base @ neg @ ''_'' @ pm_toupperstr n) ns))" for sp
  proof (induction ns arbitrary: sp)
    case (Cons n ns)
    then show ?case using up[of n] by (cases ns) (simp_all add: starts_with_eval)
  qed simp
  have "tokens '' '' ''!musl'' = [''!musl'']" using tokens_spaced[of "[''!musl'']"] by simp
  moreover have "pm_toupperstr ''!musl'' = ''_MUSL''" by code_simp
  ultimately show ?thesis using pos[of "[]"] negs[of "[]"] by (simp add: depends_on_def starts_with_eval)
qed

theorem depends_expr_spec_witness:
  "depends_expr ''ADK_HOST'' [] [] [''!linux'', ''!darwin''] =
     joined '' && '' (map (\<lambda>n. ''!ADK_HOST_'' @ pm_toupperstr n) [''linux'', ''darwin''])"
  using depends_expr_spec[of "[''linux'', ''darwin'']" "''ADK_HOST''" "[]"] by (simp add: starts_with_eval)

subsection \<open>Dependencies on a C library\<close>

text \<open>When one of two equal tests comes first, the second one is never reached.\<close>

lemma first_match_stop: "a buf st \<noteq> Some None \<Longrightarrow> first_match (ps @ a # qs) buf st = first_match (ps @ [a]) buf st"
  by (induction ps) (auto split: option.splits)

lemma first_match_skip: "b buf st = Some None \<Longrightarrow> first_match (ps @ a # b # qs) buf st = first_match (ps @ a # qs) buf st"
  by (induction ps) (auto split: option.splits)

lemma first_match_invariant:
  assumes "\<And>p st'. p \<in> set ps \<Longrightarrow> p buf st = Some (Some st') \<Longrightarrow> P st'" and "P st"
    and "first_match ps buf st = Some st'"
  shows "P st'"
  using assms
proof (induction ps)
  case (Cons p ps)
  show ?case
  proof (cases "p buf st")
    case (Some r)
    then show ?thesis
    proof (cases r)
      case None
      show ?thesis by (rule Cons.IH) (use Some None Cons.prems in auto)
    next
      case (Some st2)
      then show ?thesis using \<open>p buf st = Some r\<close> Cons.prems(1)[of p st2] Cons.prems(3) by simp
    qed
  qed (use Cons.prems(3) in simp)
qed simp

definition keeps_libc :: "pm_parser \<Rightarrow> bool" where
  "keeps_libc p \<longleftrightarrow> (\<forall>buf st st'. p buf st = Some (Some st') \<longrightarrow> pm_depends_libc st' = pm_depends_libc st)"

lemma var_parser_libc:
  "(\<And>x st. pm_depends_libc (store x st) = pm_depends_libc st) \<Longrightarrow> keeps_libc (var_parser v pv store)"
  unfolding keeps_libc_def var_parser_def bind_eq_Some_conv
  by (intro allI impI, elim exE conjE, rename_tac r) (case_tac r; auto)

lemma with_parser_libc:
  "(\<And>x n st. pm_depends_libc (store x n st) = pm_depends_libc st) \<Longrightarrow> keeps_libc (with_parser v k pv name store)"
  by (auto simp: keeps_libc_def with_parser_def bind_eq_Some_conv)

lemma hash_parser_libc: "keeps_libc (hash_parser v)"
  by (auto simp: keeps_libc_def hash_parser_def bind_eq_Some_conv)

definition libc_parser :: pm_parser where
  "libc_parser = with_parser ''PKG_DEPENDS_'' 12 pm_depends_libc pm_sysname
     (\<lambda>v n. pm_depends_libc_update (\<lambda>_. v) \<circ> pm_sysname_update (\<lambda>_. n))"

definition system_parser :: pm_parser where
  "system_parser = with_parser ''PKG_DEPENDS_'' 12 pm_depends_system pm_sysname
     (\<lambda>v n. pm_depends_system_update (\<lambda>_. v) \<circ> pm_sysname_update (\<lambda>_. n))"

lemma line_parsers_split:
  obtains ps qs where "name_parser # line_parsers u = ps @ system_parser # libc_parser # qs"
    "\<forall>p \<in> set ps. keeps_libc p" "keeps_libc system_parser" "\<forall>p \<in> set qs. keeps_libc p"
proof -
  have eq: "name_parser # line_parsers u = (name_parser # take 13 (line_parsers u)) @ system_parser # libc_parser
      # drop 15 (line_parsers u)"
    by (simp add: line_parsers_def system_parser_def libc_parser_def)
  have k: "\<forall>p \<in> set (name_parser # take 13 (line_parsers u)). keeps_libc p"
    "\<forall>p \<in> set (drop 15 (line_parsers u)). keeps_libc p"
    by (simp_all add: line_parsers_def name_parser_def var_parser_libc with_parser_libc hash_parser_libc)
  have "keeps_libc system_parser" unfolding system_parser_def by (rule with_parser_libc) simp
  with that[OF eq k(1) _ k(2)] show ?thesis by blast
qed

lemma pm_line_libc: "pm_line dir buf st = Some st' \<Longrightarrow> pm_depends_libc st' = pm_depends_libc st"
proof -
  assume a: "pm_line dir buf st = Some st'"
  let ?P = "\<lambda>s. pm_depends_libc s = pm_depends_libc st"
  have inv: "first_match l buf st = Some st' \<Longrightarrow> \<forall>p \<in> set l. keeps_libc p \<Longrightarrow> ?P st'" for l
    by (erule first_match_invariant[where P = ?P, rotated -1]) (auto simp: keeps_libc_def)
  obtain ps qs where l: "name_parser #
      line_parsers (pm_toupperstr (case pm_name st of Some n \<Rightarrow> n | None \<Rightarrow> dir))
      = ps @ system_parser # libc_parser # qs"
    "\<forall>p \<in> set ps. keeps_libc p" "keeps_libc system_parser" "\<forall>p \<in> set qs. keeps_libc p"
    by (rule line_parsers_split)
  show ?thesis
  proof (cases "starts_with ''PKG'' buf")
    case True
    then have f: "first_match (ps @ system_parser # libc_parser # qs) buf st = Some st'"
      using a by (simp add: pm_line_def l(1))
    show ?thesis
    proof (cases "strstr ''PKG_DEPENDS_'' buf")
      case None
      then have "libc_parser buf st = Some None"
        by (simp add: libc_parser_def with_parser_def parse_var_with_def)
      from f first_match_skip[of libc_parser buf st ps system_parser qs, OF this]
      have "first_match (ps @ system_parser # qs) buf st = Some st'" by simp
      then show ?thesis by (rule inv) (use l in auto)
    next
      case (Some p)
      then have "system_parser buf st \<noteq> Some None"
        by (auto simp: system_parser_def with_parser_def parse_var_with_def Let_def bind_eq_Some_conv
            split: prod.splits if_splits)
      then have "first_match (ps @ [system_parser]) buf st = Some st'"
        using f first_match_stop[of system_parser buf st ps "libc_parser # qs"] by simp
      then show ?thesis by (rule inv) (use l in auto)
    qed
  qed (use a in \<open>simp add: pm_line_def\<close>)
qed

text \<open>C39: dependencies on a C library (the variable that is printed with \<open>ADK_TARGET_LIB_*\<close>) are
  never read: whatever the make file holds, parsing it leaves the variable as it was, since the same
  test for dependencies on a target system comes first.\<close>

theorem depends_libc_never_set:
  assumes "pm_parse dir text st = Some st'"
  shows "pm_depends_libc st' = pm_depends_libc st"
proof -
  obtain s where s: "ofold (pm_line dir) (fgets PM_MAXPATH text)
      (st\<lparr>pm_nobinpkgs := 0, pm_pkgmap := Some (strmap_new HASHSZ)\<rparr>) = Some s" "st' = pm_libname_rule s"
    using assms by (auto simp: pm_parse_def bind_eq_Some_conv)
  have "pm_depends_libc s = pm_depends_libc st"
    by (rule ofold_invariant[where P = "\<lambda>s. pm_depends_libc s = pm_depends_libc st", OF _ _ s(1)])
      (simp_all add: pm_line_libc)
  then show ?thesis by (simp add: s(2) pm_libname_rule_def split: option.split)
qed

theorem depends_libc_never_set_witness:
  "\<exists>st'. pm_parse ''a'' [] pm_start = Some st' \<and> pm_depends_libc st' = None"
  using depends_libc_never_set[of "''a''" "[]" pm_start]
  by (simp add: pm_parse_def pm_start_def pm_libname_rule_def)

subsection \<open>From one package to the next\<close>

text \<open>The variables that describe one package are empty, except for the two names of a flavour and of a
  system, and the map.\<close>

definition pm_clean :: "pkgvars \<Rightarrow> bool" where
  "pm_clean st \<longleftrightarrow> st = pm_start\<lparr>pm_pkgname := pm_pkgname st, pm_sysname := pm_sysname st, pm_pkgmap := pm_pkgmap st\<rparr>"

definition pm_lists_empty :: "pkgvars \<Rightarrow> bool" where
  "pm_lists_empty st \<longleftrightarrow> pm_needs st = None \<and> pm_depends_system st = None \<and> pm_depends_libc st = None \<and> pm_opts st = None"

lemma pm_dev_empty: "pm_dev (pm_printed st) w = Some (st', w') \<Longrightarrow> pm_lists_empty st'"
  unfolding pm_dev_def
  by (cases "pm_opts (pm_printed st)") (auto simp: pm_printed_def pm_lists_empty_def bind_eq_Some_conv split: if_splits)

lemma pm_token_empty:
  assumes "pm_token sm dir t (st, w) = Some (st', w')"
  shows "pm_lists_empty st'"
proof -
  have "\<exists>s v. pm_dev (pm_printed s) v = Some (st', w')"
    using assms unfolding pm_token_def by (auto simp: bind_eq_Some_conv Let_def split: if_splits)
  then show ?thesis using pm_dev_empty by blast
qed

lemma pm_reset_clean: "pm_lists_empty st \<Longrightarrow> pm_clean (pm_reset st)"
  by (cases st) (simp add: pm_clean_def pm_reset_def pm_start_def pm_lists_empty_def)



subsection \<open>The menu of a section\<close>

definition list_line :: "string \<times> string \<Rightarrow> string" where
  "list_line e = fst e @ '' |'' @ snd e"

definition list_source :: "string \<times> string \<Rightarrow> string" where
  "list_source e = ''source '' @ dquoted (''package/pkgconfigs.d/'' @ snd e @ ''/Config.in.'' @ fst e) @ [newline]"

definition list_entry_ok :: "string \<times> string \<Rightarrow> bool" where
  "list_entry_ok e \<longleftrightarrow> is_word (fst e) \<and> is_word (snd e) \<and> CHR ''|'' \<notin> set (fst e) \<union> set (snd e)
     \<and> last (snd e) \<noteq> CHR ''@'' \<and> length (list_line e) + 1 < PM_MAXPATH"

lemma list_line_chars: "list_entry_ok e \<Longrightarrow> newline \<notin> set (list_line e) \<and> CHR 0x00 \<notin> set (list_line e)"
  by (auto simp: list_entry_ok_def list_line_def is_word_def word_char_def)

lemma section_entry_line: "list_entry_ok e \<Longrightarrow> section_entry (list_line e @ [newline]) = Some (list_source e)"
proof -
  assume e: "list_entry_ok e"
  obtain t d where td: "e = (t, d)" by fastforce
  have ne: "t \<noteq> []" "d \<noteq> []" using e by (auto simp: td list_entry_ok_def is_word_def)
  have "strtok ''|'' ((t @ '' '') @ CHR ''|'' # d) = (Some (t @ '' ''), d)" "strtok ''|'' d = (Some d, [])"
    using e ne strtok_token[of "t @ '' ''" "''|''" "CHR ''|''" d] strtok_all[of d "''|''"]
    by (auto simp: td list_entry_ok_def)
  then show ?thesis
    using e ne by (simp add: section_entry_def td list_line_def list_source_def list_entry_ok_def Let_def butlast_append)
qed

lemma sort_key_map: "sort_key g (map f xs) = map f (sort_key (g \<circ> f) xs)"
proof (induction xs)
  case (Cons x xs)
  have "insort_key g (f x) (map f ys) = map f (insort_key (g \<circ> f) x ys)" for ys
    by (induction ys) simp_all
  with Cons show ?case by (simp add: comp_def)
qed simp

lemma file_lines_lines:
  "\<forall>l \<in> set ls. newline \<notin> set l \<Longrightarrow> file_lines (concat (map (\<lambda>l. l @ [newline]) ls)) = map (\<lambda>l. l @ [newline]) ls"
  by (induction ls) (simp_all add: file_lines_line)

lemma concat_opt_map: "\<forall>x \<in> set xs. f (h x) = Some (g x) \<Longrightarrow> concat_opt f (map h xs) = Some (concat (map g xs))"
  by (induction xs) simp_all

definition section_menu :: "string \<Rightarrow> string \<Rightarrow> string" where
  "section_menu sect subsect = snprintf PM_MAXPATH (''package/Config.in.auto.'' @ sect @ ''.'' @ subsect)"

text \<open>C36: the menu of a section whose list holds the binary packages \<open>es\<close>, in any order, is appended
  to the menu file of the section: it names every entry of the list once, sorted by name and
  directory, between the title and the end of the menu. The list is removed, and no other file but
  the sorted copy changes.\<close>

theorem section_iter_menu:
  assumes "es \<noteq> []" "\<forall>e \<in> set es. list_entry_ok e"
    and "sect \<noteq> []" "CHR ''/'' \<notin> set sect" "subsect \<noteq> []" "CHR ''/'' \<notin> set subsect"
    and "length (show_lld (hash_str descr)) < 200"
    and "w_files w (section_list descr) = Some (concat (map (\<lambda>e. list_line e @ [newline]) es))"
    and "length (concat (map (\<lambda>e. list_line e @ [newline]) es)) < 2 ^ 59"
    and "w_files w (section_list descr @ ''.sorted'') = None" "w_writable w (section_list descr @ ''.sorted'')"
    and "w_writable w (section_menu sect subsect)"
  shows "\<exists>w'. section_iter (sect @ ''/'' @ subsect) descr w = Some w'
    \<and> w_files w' (section_menu sect subsect) = Some (case_option [] id (w_files w (section_menu sect subsect))
        @ ''menu '' @ dquoted (butlast descr) @ newline
        # concat (map list_source (sort_key list_line es)) @ ''endmenu'' @ [newline, newline])
    \<and> w_files w' (section_list descr) = None
    \<and> (\<forall>p. p \<notin> {section_menu sect subsect, section_list descr, section_list descr @ ''.sorted''}
        \<longrightarrow> w_files w' p = w_files w p)"
proof -
  let ?text = "concat (map (\<lambda>e. list_line e @ [newline]) es)"
  let ?in = "section_list descr"
  let ?out = "?in @ ''.sorted''"
  let ?es = "sort_key list_line es"
  let ?menu = "section_menu sect subsect"
  have inl: "?in = ''package/pkglist.d/sectionlst.'' @ show_lld (hash_str descr)"
    and outl: "snprintf PM_MAXPATH (''package/pkglist.d/sectionlst.'' @ show_lld (hash_str descr) @ ''.sorted'') = ?out"
    using assms(7) by (simp_all add: section_list_def snprintf_def PM_MAXPATH_def)
  have menu: "?menu \<noteq> ?in" "?menu \<noteq> ?out"
    by (simp_all add: inl section_menu_def snprintf_def PM_MAXPATH_def)
  have keys: "strtok ''/'' (sect @ ''/'' @ subsect) = (Some sect, subsect)" "strtok ''/'' subsect = (Some subsect, [])"
    using assms(3-6) strtok_token[of sect "''/''" "CHR ''/''" subsect] strtok_all[of subsect "''/''"] by auto
  have fl: "file_lines ?text = map (\<lambda>e. list_line e @ [newline]) es"
    using file_lines_lines[of "map list_line es"] assms(2) list_line_chars by (simp add: comp_def)
  have sorted: "sort_key butlast (file_lines ?text) = map (\<lambda>e. list_line e @ [newline]) ?es"
    unfolding fl sort_key_map by (simp add: comp_def)
  let ?sorted = "concat (map (\<lambda>e. list_line e @ [newline]) ?es)"
  have sf: "sortfile ?in ?out w = Some (w_overwrite ?out ?sorted w)"
    using sortfile_eq[OF assms(8) _ assms(9) _ assms(11)] assms(1) unfolding sorted by (cases es) simp_all
  have fg: "fgets PM_MAXPATH ?sorted = map (\<lambda>e. list_line e @ [newline]) ?es"
    using fgets_lines[of "map list_line ?es" PM_MAXPATH] assms(2) list_line_chars
    by (simp add: comp_def list_entry_ok_def)
  have en: "concat_opt section_entry (map (\<lambda>e. list_line e @ [newline]) ?es) = Some (concat (map list_source ?es))"
    by (rule concat_opt_map) (use assms(2) in \<open>simp add: section_entry_line\<close>)
  have wf: "w_files (w_unlink ?in (w_overwrite ?out ?sorted w)) ?out = Some ?sorted"
    using assms(10) by (simp add: w_unlink_def w_overwrite_def w_put_def)
  let ?w = "w_unlink ?in (w_overwrite ?out ?sorted w)"
  have "section_iter (sect @ ''/'' @ subsect) descr w = Some (w_append ?menu
      (''menu '' @ dquoted (butlast descr) @ newline # concat (map list_source ?es) @ ''endmenu'' @ [newline, newline]) ?w)"
    unfolding section_iter_def keys outl section_menu_def[symmetric]
    using assms(8,12) sf wf fg en keys(2) by (simp add: w_exists_def Let_def)
  moreover have "w_writable ?w ?menu" using assms(12) by (simp add: w_writable_def w_unlink_def w_overwrite_def w_put_def)
  ultimately show ?thesis using menu
    by (simp add: w_append_def w_put_def w_unlink_def w_overwrite_def)
qed

theorem section_iter_menu_witness:
  "\<exists>w'. section_iter (''net'' @ ''/'' @ ''dns'') ''D'' ((sort_world [])\<lparr>w_files := [''package/pkglist.d/sectionlst.68'' \<mapsto>
        ''b |b'' @ newline # ''a |b'' @ [newline]]\<rparr>) = Some w'"
proof -
  have l: "section_list ''D'' = ''package/pkglist.d/sectionlst.68''" by code_simp
  have h: "length (show_lld (hash_str ''D'')) < 200" by code_simp
  have m: "section_menu ''net'' ''dns'' = ''package/Config.in.auto.net.dns''" by code_simp
  show ?thesis
    using section_iter_menu[of "[(''b'', ''b''), (''a'', ''b'')]" "''net''" "''dns''" "''D''"
        "(sort_world [])\<lparr>w_files := [''package/pkglist.d/sectionlst.68'' \<mapsto> ''b |b'' @ newline # ''a |b'' @ [newline]]\<rparr>"]
    by (auto simp: l h m list_entry_ok_def list_line_def is_word_def word_char_def tab_def PM_MAXPATH_def
        sort_world_def w_writable_def)
qed

end
