(* ===== verification/Menu_Help.thy ===== *)
theory Menu_Help
  imports Confdata
begin

text \<open>
  The help texts of the front ends (end of \<open>adk/config/menu.c\<close>): the prompt of a symbol with
  its place in the menu tree and the hints for jumping there, the description of a symbol with
  its dependencies, and the text a front end shows for an entry. Translations (\<open>_()\<close>) are those
  of the C locale.
\<close>

subsection \<open>Values in texts\<close>

text \<open>A value that is used as a string: null, a string, or a choice (which is none).\<close>

definition value_pointer :: "symval \<Rightarrow> string option option" where
  "value_pointer v = (case v of VStr x \<Rightarrow> Some (Some x) | VNull \<Rightarrow> Some None | VSym y \<Rightarrow> None)"

definition shown_value :: "calc_fun \<Rightarrow> symref \<Rightarrow> kconf \<Rightarrow> (string \<times> kconf) option" where
  "shown_value calc y s = do {
     (v, s) \<leftarrow> sym_get_string_value calc y s;
     str \<leftarrow> value_pointer v;
     Some (or_null str, s) }"

text \<open>\<open>expr_gstr_print\<close>, with the values its output function asks for.\<close>

definition gstr_token :: "calc_fun \<Rightarrow> token \<Rightarrow> gstr \<times> kconf \<Rightarrow> (gstr \<times> kconf) option" where
  "gstr_token calc tok st = (case st of (gs, s) \<Rightarrow>
     (case fst tok of
        None \<Rightarrow> do {
          gs \<leftarrow> expr_print_gstr_helper (\<lambda>z. sym_type (symtab s z)) (\<lambda>z. None) tok gs;
          Some (gs, s) }
      | Some y \<Rightarrow> do {
          (v, s) \<leftarrow> sym_get_string_value calc y s;
          str \<leftarrow> value_pointer v;
          gs \<leftarrow> expr_print_gstr_helper (\<lambda>z. sym_type (symtab s z)) (\<lambda>z. str) tok gs;
          Some (gs, s) }))"

definition gstr_print ::
  "calc_fun \<Rightarrow> expr option \<Rightarrow> gstr \<times> kconf \<Rightarrow> (gstr \<times> kconf) option" where
  "gstr_print calc e st =
     ofold (gstr_token calc) (expr_print (\<lambda>y. sym_name (symtab (snd st) y)) e E_NONE) st"

subsection \<open>The place of a prompt\<close>

text \<open>
  A hint to jump to an entry; the offset is set when the text of the location has been reached.
  The list of hints is optional (\<open>head\<close> may be null).
\<close>

record jump_key =
  jump_offset :: "nat option"
  jump_target :: menuref
  jump_index :: int

type_synonym jumps = "jump_key list option"

text \<open>At most \<open>n\<close> entries from \<open>m\<close> upwards below the root, with their visibility.\<close>

fun submenus :: "calc_fun \<Rightarrow> nat \<Rightarrow> menuref option \<Rightarrow> kconf
    \<Rightarrow> ((menuref \<times> bool) list \<times> kconf) option" where
  "submenus calc 0 m s = Some ([], s)"
| "submenus calc (Suc n) None s = None"
| "submenus calc (Suc n) (Some m) s =
     (if m = rootmenu then Some ([], s)
      else do {
        (v, s) \<leftarrow> menu_is_visible calc (Suc (nmenus s)) m s;
        (ms, s) \<leftarrow> submenus calc n (menu_parent (menutab s m)) s;
        Some ((m, v) # ms, s) })"

definition menu_location :: "(menuref \<times> bool) list \<Rightarrow> menuref option" where
  "menu_location ms = map_option fst (List.find snd ms)"

definition next_index :: "jump_key list \<Rightarrow> int" where
  "next_index js = (if js = [] then 0 else jump_index (last js) + 1)"

definition add_jump ::
  "calc_fun \<Rightarrow> menuref \<Rightarrow> menuref option \<Rightarrow> jumps \<Rightarrow> kconf \<Rightarrow> (jumps \<times> kconf) option" where
  "add_jump calc m location head_opt s =
     (case (head_opt, location) of
        (Some js, Some l) \<Rightarrow> do {
          (v, s) \<leftarrow> menu_is_visible calc (Suc (nmenus s)) m s;
          Some (Some (js @ [\<lparr>jump_offset = None, jump_target = (if v then m else l),
                             jump_index = next_index js\<rparr>]), s) }
      | _ \<Rightarrow> Some (head_opt, s))"

text \<open>The hint that was added last gets the length of the text so far.\<close>

definition set_offset :: "gstr \<Rightarrow> jumps \<Rightarrow> jumps" where
  "set_offset r head_opt = map_option
     (\<lambda>js. butlast js @ [(last js)\<lparr>jump_offset := Some (length (gs_s r))\<rparr>]) head_opt"

type_synonym help_state = "gstr \<times> jumps \<times> kconf"

definition location_line ::
  "calc_fun \<Rightarrow> menuref option \<Rightarrow> nat \<times> menuref \<Rightarrow> help_state \<Rightarrow> help_state option" where
  "location_line calc location p st = (case (p, st) of ((j, m), (r, head_opt, s)) \<Rightarrow> do {
     let head_opt = (if location = Some m then set_offset r head_opt else head_opt);
     let r = str_printf r (replicate j CHR '' '' @ ''-> '' @ or_null (menu_get_prompt s m));
     (r, s) \<leftarrow> (case menu_sym (menutab s m) of
         None \<Rightarrow> Some (r, s)
       | Some y \<Rightarrow> do {
           (v, s) \<leftarrow> shown_value calc y s;
           Some (str_printf r ('' ('' @ (case sym_name (symtab s y) of Some n \<Rightarrow> n | None \<Rightarrow> ''<choice>'')
                   @ '' [='' @ v @ ''])''), s) });
     Some (str_append r (Some [newline]), head_opt, s) })"

text \<open>The entries from the outermost one, indented by 4, 6, 8 and so on.\<close>

definition indented :: "menuref list \<Rightarrow> (nat \<times> menuref) list" where
  "indented ms = map (\<lambda>(i, m). (4 + 2 * i, m)) (enumerate 0 (rev ms))"

definition get_prompt_str :: "calc_fun \<Rightarrow> propref \<Rightarrow> help_state \<Rightarrow> help_state option" where
  "get_prompt_str calc p st = (case st of (r, head_opt, s) \<Rightarrow> do {
     let r = str_printf r (''Prompt: '' @ or_null (prop_text (proptab s p)) @ [newline]);
     m \<leftarrow> prop_menu (proptab s p);
     (ms, s) \<leftarrow> submenus calc 8 (menu_parent (menutab s m)) s;
     let location = menu_location ms;
     (head_opt, s) \<leftarrow> add_jump calc m location head_opt s;
     if ms = [] then Some (r, head_opt, s)
     else ofold (location_line calc location) (indented (map fst ms))
            (str_printf r (''  Location:'' @ [newline]), head_opt, s) })"

subsection \<open>The description of a symbol\<close>

definition get_symbol_prop :: "kconf \<Rightarrow> symref \<Rightarrow> propref option" where
  "get_symbol_prop s y = first_prop (props_of_type s y P_SYMBOL)"

text \<open>Name, value, type and range.\<close>

definition symbol_head :: "calc_fun \<Rightarrow> symref \<Rightarrow> gstr \<times> kconf \<Rightarrow> (gstr \<times> kconf) option" where
  "symbol_head calc y st = (case st of (r, s) \<Rightarrow>
     (case sym_name (symtab s y) of
        None \<Rightarrow> Some (r, s)
      | Some n \<Rightarrow> do {
          (v, s) \<leftarrow> shown_value calc y s;
          let ty = sym_type (symtab s y);
          let r = str_printf r (''Symbol: '' @ n @ '' [='' @ v @ '']'' @ [newline]);
          let r = str_printf r (''Type  : '' @ sym_type_name ty @ [newline]);
          if ty = S_INT \<or> ty = S_HEX then do {
            (p, s) \<leftarrow> sym_get_range_prop calc y s;
            case p of
              None \<Rightarrow> Some (r, s)
            | Some p \<Rightarrow> do {
                (r, s) \<leftarrow> gstr_print calc (prop_expr (proptab s p)) (str_printf r ''Range : '', s);
                Some (str_append r (Some [newline]), s) }}
          else Some (r, s) }))"

definition symbol_defined :: "calc_fun \<Rightarrow> symref \<Rightarrow> gstr \<times> kconf \<Rightarrow> (gstr \<times> kconf) option" where
  "symbol_defined calc y st = (case st of (r, s) \<Rightarrow>
     (case get_symbol_prop s y of
        None \<Rightarrow> Some (r, s)
      | Some p \<Rightarrow> do {
          m \<leftarrow> prop_menu (proptab s p);
          f \<leftarrow> menu_file (menutab s m);
          let r = str_printf r (''  Defined at '' @ f @ '':'' @ show_nat 10 (menu_lineno (menutab s m)) @ [newline]);
          if expr_is_yes (ev_expr (prop_visible (proptab s p))) then Some (r, s)
          else do {
            (r, s) \<leftarrow> gstr_print calc (ev_expr (prop_visible (proptab s p)))
              (str_append r (Some ''  Depends on: ''), s);
            Some (str_append r (Some [newline]), s) }}))"

definition symbol_select ::
  "calc_fun \<Rightarrow> nat \<times> propref \<Rightarrow> gstr \<times> kconf \<Rightarrow> (gstr \<times> kconf) option" where
  "symbol_select calc ip st = (case (ip, st) of ((i, p), (r, s)) \<Rightarrow> do {
     let r = (if i = 0 then str_append r (Some ''  Selects: '') else str_printf r '' && '');
     (r, s) \<leftarrow> gstr_print calc (prop_expr (proptab s p)) (r, s);
     case prop_value (proptab s p) of
       None \<Rightarrow> Some (r, s)
     | Some v \<Rightarrow> do {
         (r, s) \<leftarrow> gstr_print calc (Some v) (str_printf r '' (value='', s);
         Some (str_printf r '')'', s) }})"

definition symbol_selects :: "calc_fun \<Rightarrow> symref \<Rightarrow> gstr \<times> kconf \<Rightarrow> (gstr \<times> kconf) option" where
  "symbol_selects calc y st =
     (let ps = props_of_type (snd st) y P_SELECT in do {
        (r, s) \<leftarrow> ofold (symbol_select calc) (enumerate 0 ps) st;
        Some (if ps = [] then r else str_append r (Some [newline]), s) })"

definition symbol_rev_dep :: "calc_fun \<Rightarrow> symref \<Rightarrow> gstr \<times> kconf \<Rightarrow> (gstr \<times> kconf) option" where
  "symbol_rev_dep calc y st = (case st of (r, s) \<Rightarrow>
     (case ev_expr (rev_dep (symtab s y)) of
        None \<Rightarrow> Some (r, s)
      | Some e \<Rightarrow> do {
          (r, s) \<leftarrow> gstr_print calc (Some e) (str_append r (Some ''  Selected by: ''), s);
          Some (str_append r (Some [newline]), s) }))"

definition symbol_val_dep ::
  "calc_fun \<Rightarrow> expr_select_value \<Rightarrow> gstr \<times> kconf \<Rightarrow> (gstr \<times> kconf) option" where
  "symbol_val_dep calc v st = (case st of (r, s) \<Rightarrow> do {
     (r, s) \<leftarrow> gstr_print calc (esv_expr v) (str_append r (Some ''  Selected by: ''), s);
     (r, s) \<leftarrow> gstr_print calc (esv_value v) (str_append r (Some '' with value: ''), s);
     Some (str_append r (Some [newline]), s) })"

definition get_symbol_str :: "calc_fun \<Rightarrow> symref \<Rightarrow> help_state \<Rightarrow> help_state option" where
  "get_symbol_str calc y st = (case st of (r, head_opt, s) \<Rightarrow> do {
     (r, s) \<leftarrow> symbol_head calc y (r, s);
     (r, head_opt, s) \<leftarrow> ofold (get_prompt_str calc) (prompts s y) (r, head_opt, s);
     (r, s) \<leftarrow> symbol_defined calc y (r, s);
     (r, s) \<leftarrow> symbol_selects calc y (r, s);
     (r, s) \<leftarrow> symbol_rev_dep calc y (r, s);
     (r, s) \<leftarrow> ofold (symbol_val_dep calc) (val_dep (symtab s y)) (r, s);
     Some (str_append r (Some [newline, newline]), head_opt, s) })"

text \<open>The symbols of the array up to its null entry; a null array is the empty list.\<close>

definition get_relations_str :: "calc_fun \<Rightarrow> symref list \<Rightarrow> jumps \<Rightarrow> kconf \<Rightarrow> help_state option" where
  "get_relations_str calc ys head_opt s = do {
     (r, head_opt, s) \<leftarrow> ofold (get_symbol_str calc) ys (str_new, head_opt, s);
     Some (if ys = [] then str_append r (Some (''No matches found.'' @ [newline])) else r, head_opt, s) }"

text \<open>The text for an entry. An entry with a help text and without a symbol is a null access.\<close>

definition menu_get_ext_help ::
  "calc_fun \<Rightarrow> world \<Rightarrow> menuref \<Rightarrow> gstr \<Rightarrow> kconf \<Rightarrow> (gstr \<times> kconf) option" where
  "menu_get_ext_help calc w m help s = do {
     let y = menu_sym (menutab s m);
     help \<leftarrow> (if menu_has_help s m then do {
                y \<leftarrow> y;
                Some (case sym_name (symtab s y) of
                    None \<Rightarrow> help
                  | Some n \<Rightarrow> str_printf help (CONFIG_prefix w @ n @ '':'' @ [newline, newline])) }
              else Some help);
     let help = str_printf help
       ((if menu_has_help s m then menu_get_help s m else nohelp_text) @ [newline]);
     case y of
       None \<Rightarrow> Some (help, s)
     | Some y \<Rightarrow> do {
         (help, _, s) \<leftarrow> get_symbol_str calc y (help, None, s);
         Some (help, s) } }"

end
