(* ===== verification/Front.thy ===== *)
theory Front
  imports Menu_Help Conf_Write Conf_New Cstring
begin

text \<open>
  The state of the line oriented front end (\<open>adk/config/conf.c\<close>) and the composition of its
  steps: a step prints to standard output, reads a line of standard input, calls the engine, or
  ends the program with an exit status.
\<close>

subsection \<open>The state of the front end\<close>

datatype input_mode =
  oldaskconfig | silentoldconfig | oldconfig | allnoconfig | allyesconfig | allmodconfig
| alldefconfig | randconfig | defconfig | savedefconfig | listnewconfig | olddefconfig

text \<open>The globals of \<open>conf.c\<close>, the standard streams, and the engine with its world.\<close>

record front =
  input_mode :: input_mode
  indent :: nat
  tty_stdio :: bool
  valid_stdin :: bool
  sync_kconfig :: bool
  conf_cnt :: int
  line_buf :: string
  root_entry :: "menuref option"
  fin :: string
  fout :: string
  ferr :: string
  engine :: kconf
  fworld :: world

text \<open>
  \<open>Stuck\<close> is a null access, a write in front of the line buffer, or the end of the fuel.
\<close>

datatype 'a outcome = Done 'a front | Exit int front | Stuck

type_synonym 'a io = "front \<Rightarrow> 'a outcome"

subsection \<open>Steps\<close>

definition io_return :: "'a \<Rightarrow> 'a io" where
  "io_return x st = Done x st"

definition io_bind :: "'a io \<Rightarrow> ('a \<Rightarrow> 'b io) \<Rightarrow> 'b io" where
  "io_bind m f st = (case m st of Done x t \<Rightarrow> f x t | Exit c t \<Rightarrow> Exit c t | Stuck \<Rightarrow> Stuck)"

definition io_seq :: "'a io \<Rightarrow> 'b io \<Rightarrow> 'b io" where
  "io_seq m k = io_bind m (\<lambda>_. k)"

definition io_stuck :: "'a io" where
  "io_stuck st = Stuck"

definition io_exit :: "int \<Rightarrow> 'a io" where
  "io_exit c st = Exit c st"

definition io_some :: "'a option \<Rightarrow> 'a io" where
  "io_some x = (case x of None \<Rightarrow> io_stuck | Some y \<Rightarrow> io_return y)"

definition io_get :: "(front \<Rightarrow> 'a) \<Rightarrow> 'a io" where
  "io_get f st = Done (f st) st"

definition io_upd :: "(front \<Rightarrow> front) \<Rightarrow> unit io" where
  "io_upd f st = Done () (f st)"

text \<open>An engine operation, on the engine's state or on that and the world.\<close>

definition io_call :: "(kconf \<Rightarrow> ('a \<times> kconf) option) \<Rightarrow> 'a io" where
  "io_call f st = (case f (engine st) of
     None \<Rightarrow> Stuck | Some (x, s) \<Rightarrow> Done x (st\<lparr>engine := s\<rparr>))"

definition io_world :: "(world \<Rightarrow> kconf \<Rightarrow> ('a \<times> kconf \<times> world) option) \<Rightarrow> 'a io" where
  "io_world f st = (case f (fworld st) (engine st) of
     None \<Rightarrow> Stuck | Some (x, s, w) \<Rightarrow> Done x (st\<lparr>engine := s, fworld := w\<rparr>))"

definition printf :: "string \<Rightarrow> unit io" where
  "printf x = io_upd (\<lambda>st. st\<lparr>fout := fout st @ x\<rparr>)"

definition eprintf :: "string \<Rightarrow> unit io" where
  "eprintf x = io_upd (\<lambda>st. st\<lparr>ferr := ferr st @ x\<rparr>)"

definition set_line :: "string \<Rightarrow> unit io" where
  "set_line x = io_upd (\<lambda>st. st\<lparr>line_buf := x\<rparr>)"

definition printf_if :: "bool \<Rightarrow> string \<Rightarrow> unit io" where
  "printf_if b x = (if b then printf x else io_return ())"

text \<open>A loop over a list.\<close>

fun io_each :: "('a \<Rightarrow> unit io) \<Rightarrow> 'a list \<Rightarrow> unit io" where
  "io_each f [] = io_return ()"
| "io_each f (x # xs) = io_seq (f x) (io_each f xs)"

text \<open>
  \<open>xfgets(line, 128, stdin)\<close>: at the end of the input the buffer stays as it is. The buffer is
  read as a C string.
\<close>

definition xfgets :: "unit io" where
  "xfgets = io_upd (\<lambda>st.
     if fin st = [] then st\<lparr>ferr := ferr st @ newline # ''Error in reading or end of file.'' @ [newline]\<rparr>
     else (let l = fgets_line 127 (fin st)
           in st\<lparr>line_buf := c_str l, fin := drop (length l) (fin st)\<rparr>))"

subsection \<open>Rules for steps\<close>

text \<open>
  \<open>io_keeps I m Q\<close>: from a state with \<open>I\<close>, the step ends in one, whether it returns (then with a
  result that has \<open>Q\<close>) or ends the program. \<open>io_returns I m\<close>: it does return, too.
\<close>

definition io_keeps :: "(front \<Rightarrow> bool) \<Rightarrow> 'a io \<Rightarrow> ('a \<Rightarrow> bool) \<Rightarrow> bool" where
  "io_keeps I m Q \<longleftrightarrow> (\<forall>st. I st \<longrightarrow>
     (case m st of Done x t \<Rightarrow> I t \<and> Q x | Exit c t \<Rightarrow> I t | Stuck \<Rightarrow> True))"

definition io_returns :: "(front \<Rightarrow> bool) \<Rightarrow> 'a io \<Rightarrow> ('a \<Rightarrow> bool) \<Rightarrow> bool" where
  "io_returns I m Q \<longleftrightarrow> (\<forall>st. I st \<longrightarrow> (\<exists>x t. m st = Done x t \<and> I t \<and> Q x))"

named_theorems io_keeps_rules \<open>what the steps of the front end keep\<close>
named_theorems io_returns_rules \<open>steps of the front end that return\<close>

lemma io_keepsD:
  assumes "io_keeps I m Q" "I st"
  shows "m st = Done x t \<Longrightarrow> I t \<and> Q x" "m st = Exit c t \<Longrightarrow> I t"
  using assms by (fastforce simp: io_keeps_def)+

lemma io_returnsD:
  assumes "io_returns I m Q" "I st"
  obtains x t where "m st = Done x t" "I t" "Q x"
  using assms by (auto simp: io_returns_def)

lemma io_keeps_bind:
  assumes "io_keeps I m P" "\<And>x. P x \<Longrightarrow> io_keeps I (f x) Q"
  shows "io_keeps I (io_bind m f) Q"
  unfolding io_keeps_def
proof (intro allI impI)
  fix st assume st: "I st"
  show "case io_bind m f st of Done x t \<Rightarrow> I t \<and> Q x | Exit c t \<Rightarrow> I t | Stuck \<Rightarrow> True"
  proof (cases "m st")
    case (Done x t)
    then have "I t" "P x" using io_keepsD(1)[OF assms(1) st] by simp_all
    then show ?thesis using assms(2)[of x] Done by (simp add: io_keeps_def io_bind_def)
  next
    case (Exit c t)
    then show ?thesis using io_keepsD(2)[OF assms(1) st] by (simp add: io_bind_def)
  qed (simp add: io_bind_def)
qed

lemma io_keeps_next [io_keeps_rules]:
  "io_keeps I m (\<lambda>_. True) \<Longrightarrow> (\<And>x. io_keeps I (f x) Q) \<Longrightarrow> io_keeps I (io_bind m f) Q"
  by (rule io_keeps_bind)

lemma io_keeps_seq [io_keeps_rules]:
  "io_keeps I m (\<lambda>_. True) \<Longrightarrow> io_keeps I k Q \<Longrightarrow> io_keeps I (io_seq m k) Q"
  unfolding io_seq_def by (rule io_keeps_next)

lemma io_keeps_return: "Q x \<Longrightarrow> io_keeps I (io_return x) Q"
  by (simp add: io_keeps_def io_return_def)

lemma io_keeps_ends [io_keeps_rules]:
  "io_keeps I (io_return x) (\<lambda>_. True)" "io_keeps I io_stuck Q" "io_keeps I (io_exit c) Q"
  by (simp_all add: io_keeps_def io_return_def io_stuck_def io_exit_def)

lemma io_keeps_some:
  "(\<And>y. x = Some y \<Longrightarrow> io_keeps I (f y) Q) \<Longrightarrow> io_keeps I (io_bind (io_some x) f) Q"
  by (cases x) (simp_all add: io_keeps_def io_some_def io_return_def io_stuck_def io_bind_def)

lemma io_keeps_get: "io_keeps I (io_get g) (\<lambda>_. True)"
  by (simp add: io_keeps_def io_get_def)

lemma io_keeps_if [io_keeps_rules]:
  "(b \<Longrightarrow> io_keeps I m Q) \<Longrightarrow> (\<not> b \<Longrightarrow> io_keeps I k Q) \<Longrightarrow> io_keeps I (if b then m else k) Q"
  by simp

lemma io_keeps_option [io_keeps_rules]:
  "(x = None \<Longrightarrow> io_keeps I m Q) \<Longrightarrow> (\<And>y. x = Some y \<Longrightarrow> io_keeps I (k y) Q)
     \<Longrightarrow> io_keeps I (case x of None \<Rightarrow> m | Some y \<Rightarrow> k y) Q"
  by (cases x) simp_all

lemma io_keeps_weaken:
  assumes "io_keeps I m P" "\<And>x. P x \<Longrightarrow> Q x"
  shows "io_keeps I m Q"
  unfolding io_keeps_def
proof (intro allI impI)
  fix st assume st: "I st"
  show "case m st of Done x t \<Rightarrow> I t \<and> Q x | Exit c t \<Rightarrow> I t | Stuck \<Rightarrow> True"
  proof (cases "m st")
    case (Done x t)
    then show ?thesis using io_keepsD(1)[OF assms(1) st Done] assms(2) by simp
  next
    case (Exit c t)
    then show ?thesis using io_keepsD(2)[OF assms(1) st Exit] by simp
  qed simp
qed

lemma io_keeps_upd:
  "(\<And>st. I st \<Longrightarrow> I (f st)) \<Longrightarrow> io_keeps I (io_upd f) (\<lambda>_. True)"
  by (simp add: io_keeps_def io_upd_def)

lemma io_keeps_each:
  "(\<And>x. x \<in> set xs \<Longrightarrow> io_keeps I (f x) (\<lambda>_. True)) \<Longrightarrow> io_keeps I (io_each f xs) (\<lambda>_. True)"
  by (induction xs) (auto intro: io_keeps_rules)

lemma io_returns_bind:
  assumes "io_returns I m P" "\<And>x. P x \<Longrightarrow> io_returns I (f x) Q"
  shows "io_returns I (io_bind m f) Q"
  unfolding io_returns_def
proof (intro allI impI)
  fix st assume "I st"
  then obtain x t where "m st = Done x t" "I t" "P x" by (rule io_returnsD[OF assms(1)])
  then show "\<exists>x t. io_bind m f st = Done x t \<and> I t \<and> Q x"
    using assms(2)[of x] by (auto simp: io_returns_def io_bind_def)
qed

lemma io_returns_next [io_returns_rules]:
  "io_returns I m (\<lambda>_. True) \<Longrightarrow> (\<And>x. io_returns I (f x) Q) \<Longrightarrow> io_returns I (io_bind m f) Q"
  by (rule io_returns_bind)

lemma io_returns_seq [io_returns_rules]:
  "io_returns I m (\<lambda>_. True) \<Longrightarrow> io_returns I k Q \<Longrightarrow> io_returns I (io_seq m k) Q"
  unfolding io_seq_def by (rule io_returns_next)

lemma io_returns_return [io_returns_rules]: "io_returns I (io_return x) (\<lambda>_. True)"
  by (simp add: io_returns_def io_return_def)

lemma io_returns_if [io_returns_rules]:
  "(b \<Longrightarrow> io_returns I m Q) \<Longrightarrow> (\<not> b \<Longrightarrow> io_returns I k Q) \<Longrightarrow> io_returns I (if b then m else k) Q"
  by simp

lemma io_returns_option [io_returns_rules]:
  "(x = None \<Longrightarrow> io_returns I m Q) \<Longrightarrow> (\<And>y. x = Some y \<Longrightarrow> io_returns I (k y) Q)
     \<Longrightarrow> io_returns I (case x of None \<Rightarrow> m | Some y \<Rightarrow> k y) Q"
  by (cases x) simp_all

lemma io_returns_get:
  "(\<And>st. I st \<Longrightarrow> io_returns I (f (g st)) Q) \<Longrightarrow> io_returns I (io_bind (io_get g) f) Q"
  by (simp add: io_returns_def io_get_def io_bind_def)

lemma io_returns_upd: "(\<And>st. I st \<Longrightarrow> I (f st)) \<Longrightarrow> io_returns I (io_upd f) (\<lambda>_. True)"
  by (simp add: io_returns_def io_upd_def)

lemma io_returns_each:
  "(\<And>x. x \<in> set xs \<Longrightarrow> io_returns I (f x) (\<lambda>_. True)) \<Longrightarrow> io_returns I (io_each f xs) (\<lambda>_. True)"
  by (induction xs) (auto intro: io_returns_rules)

end
