(* ===== verification/Conf.thy ===== *)
theory Conf
  imports Front
begin

text \<open>
  The line oriented front end \<open>adk/config/conf.c\<close>: questions for symbols and choices, the walk
  along the menu tree (\<open>conf\<close>), the search for symbols without a value (\<open>check_conf\<close>), and the
  main program. The loops that ask until an answer is accepted run on fuel: at the end of the
  input they may go on for ever.
\<close>

subsection \<open>Texts\<close>

text \<open>\<open>%*c\<close> and \<open>%*s\<close> with an empty string.\<close>

definition pad_char :: "nat \<Rightarrow> char \<Rightarrow> string" where
  "pad_char n c = replicate (n - 1) CHR '' '' @ [c]"

definition pad :: "nat \<Rightarrow> string" where
  "pad n = replicate n CHR '' ''"

definition strip :: "string \<Rightarrow> string" where
  "strip str = rev (dropWhile isspace (rev (dropWhile isspace str)))"

definition menu_text :: "kconf \<Rightarrow> menuref \<Rightarrow> string" where
  "menu_text s m = or_null (menu_get_prompt s m)"

subsection \<open>Questions\<close>

definition visible :: "calc_fun \<Rightarrow> menuref \<Rightarrow> bool io" where
  "visible calc m = io_call (\<lambda>s. menu_is_visible calc (Suc (nmenus s)) m s)"

definition print_help :: "calc_fun \<Rightarrow> menuref \<Rightarrow> unit io" where
  "print_help calc m =
     io_bind (io_get fworld) (\<lambda>w.
     io_bind (io_call (menu_get_ext_help calc w m str_new)) (\<lambda>help.
     printf (newline # str_get help @ [newline])))"

definition check_stdin :: "unit io" where
  "check_stdin = io_bind (io_get valid_stdin) (\<lambda>ok.
     if ok then io_return ()
     else io_seq (printf (''aborted!'' @ [newline, newline]
         @ ''Console input/output is redirected. ''
         @ ''Run '' @ quoted ''make oldconfig'' @ '' to update configuration.'' @ [newline, newline]))
       (io_exit 1))"

text \<open>Reading the answer; whether the caller looks at it.\<close>

definition ask_line :: "bool io" where
  "ask_line = io_seq xfgets
     (io_bind (io_get tty_stdio) (\<lambda>tty.
      io_seq (printf_if (\<not> tty) [newline]) (io_return True)))"

text \<open>\<open>puts(def)\<close> of a null pointer is undefined.\<close>

definition puts_value :: "symval \<Rightarrow> unit io" where
  "puts_value def = io_bind (io_some (str_of def)) (\<lambda>d. printf (d @ [newline]))"

definition conf_askvalue :: "symref \<Rightarrow> symval \<Rightarrow> bool io" where
  "conf_askvalue y def =
     io_bind (io_get engine) (\<lambda>s.
     io_seq (printf_if (\<not> sym_has_value s y) ''(NEW) '')
     (io_seq (set_line [newline])
     (if \<not> sym_is_changable s y then io_seq (puts_value def) (io_return False)
      else io_bind (io_get input_mode) (\<lambda>mode.
        if mode = oldconfig \<or> mode = silentoldconfig then
          (if sym_has_value s y then io_seq (puts_value def) (io_return False)
           else io_seq check_stdin ask_line)
        else if mode = oldaskconfig then ask_line
        else if sym_get_type s y \<in> {S_INT, S_HEX, S_STRING}
        then io_seq (puts_value def) (io_return True)
        else io_bind (io_get line_buf) (\<lambda>l. io_seq (printf l) (io_return True))))))"

text \<open>The prompt of an entry; an entry that is asked has one.\<close>

definition prompt_text :: "kconf \<Rightarrow> menuref \<Rightarrow> string option" where
  "prompt_text s m = do {
     p \<leftarrow> menu_prompt (menutab s m);
     Some (or_null (prop_text (proptab s p))) }"

definition ask_prompt :: "menuref \<Rightarrow> unit io" where
  "ask_prompt m =
     io_bind (io_get indent) (\<lambda>i.
     io_bind (io_get engine) (\<lambda>s.
     io_bind (io_some (prompt_text s m)) (\<lambda>t. printf (pad (i - 1) @ t @ '' ''))))"

text \<open>What to set a string symbol to, for the line that was read. A null pointer asks again; an
  empty line has no last character to cut off (\<open>None\<close>: the code writes in front of the buffer).
  The cut is made in the buffer, which is set again before it is read again.\<close>

datatype string_answer = Show_help | Set_to "string option"

definition string_answer :: "string \<Rightarrow> string option \<Rightarrow> string_answer option" where
  "string_answer line def =
     (if char_at line 0 = newline then Some (Set_to def)
      else if char_at line 0 = CHR ''?'' \<and> char_at line 1 = newline then Some Show_help
      else if line = [] then None
      else Some (Set_to (Some (butlast line))))"

fun conf_string :: "calc_fun \<Rightarrow> nat \<Rightarrow> menuref \<Rightarrow> symref \<Rightarrow> unit io" where
  "conf_string calc 0 m y = io_stuck"
| "conf_string calc (Suc n) m y =
     io_seq (ask_prompt m)
     (io_bind (io_get engine) (\<lambda>s.
      io_seq (printf (''('' @ or_null (sym_name (symtab s y)) @ '') ''))
     (io_bind (io_call (sym_get_string_value calc y)) (\<lambda>v.
      io_bind (io_some (value_pointer v)) (\<lambda>def.
      io_seq (case def of None \<Rightarrow> io_return () | Some d \<Rightarrow> printf (''['' @ d @ ''] ''))
     (io_bind (conf_askvalue y v) (\<lambda>asked.
      if \<not> asked then io_return ()
      else io_bind (io_get line_buf) (\<lambda>l.
           io_bind (io_some (string_answer l def)) (\<lambda>a.
           case a of
             Show_help \<Rightarrow> io_seq (print_help calc m) (conf_string calc n m y)
           | Set_to None \<Rightarrow> conf_string calc n m y
           | Set_to (Some d) \<Rightarrow> io_bind (io_call (sym_set_string_value calc y d)) (\<lambda>ok.
               if ok then io_return () else conf_string calc n m y))))))))))"

text \<open>The answers for a boolean or tristate symbol.\<close>

datatype sym_answer = Ask_again | Help_text | Answer tristate

definition sym_answer :: "string \<Rightarrow> tristate \<Rightarrow> sym_answer" where
  "sym_answer line oldval =
     (let c = char_at line 0; rest = drop 1 line in
      if c = CHR ''n'' \<or> c = CHR ''N'' then (if rest = [] \<or> rest = ''o'' then Answer tno else Ask_again)
      else if c = CHR ''m'' \<or> c = CHR ''M'' then (if rest = [] then Answer tmod else Ask_again)
      else if c = CHR ''y'' \<or> c = CHR ''Y'' then (if rest = [] \<or> rest = ''es'' then Answer tyes else Ask_again)
      else if line = [] then Answer oldval
      else if c = CHR ''?'' then Help_text
      else Ask_again)"

primrec tri_letter :: "tristate \<Rightarrow> char" where
  "tri_letter tno = CHR ''N''"
| "tri_letter tmod = CHR ''M''"
| "tri_letter tyes = CHR ''Y''"

text \<open>\<open>[N/m/y/?] \<close>: the value and the values it may be changed to.\<close>

definition sym_choices_text :: "kconf \<Rightarrow> menuref \<Rightarrow> symref \<Rightarrow> string" where
  "sym_choices_text s m y =
     (let old = sym_get_tristate_value s y;
          other = (\<lambda>v t. if old \<noteq> v \<and> sym_tristate_within_range s y v then t else []) in
      ''['' @ [tri_letter old] @ other tno ''/n'' @ other tmod ''/m'' @ other tyes ''/y''
      @ (if menu_has_help s m then ''/?'' else []) @ ''] '')"

fun conf_sym :: "calc_fun \<Rightarrow> nat \<Rightarrow> menuref \<Rightarrow> symref \<Rightarrow> unit io" where
  "conf_sym calc 0 m y = io_stuck"
| "conf_sym calc (Suc n) m y =
     io_seq (ask_prompt m)
     (io_bind (io_get engine) (\<lambda>s.
      io_seq (case sym_name (symtab s y) of None \<Rightarrow> io_return () | Some k \<Rightarrow> printf (''('' @ k @ '') ''))
     (io_seq (printf (sym_choices_text s m y))
     (io_bind (io_call (sym_get_string_value calc y)) (\<lambda>def.
      io_bind (conf_askvalue y def) (\<lambda>asked.
      if \<not> asked then io_return ()
      else io_bind (io_get line_buf) (\<lambda>l.
           io_seq (set_line (strip l))
           (case sym_answer (strip l) (sym_get_tristate_value s y) of
              Ask_again \<Rightarrow> conf_sym calc n m y
            | Help_text \<Rightarrow> io_seq (print_help calc m) (conf_sym calc n m y)
            | Answer v \<Rightarrow> io_bind (io_call (sym_set_tristate_value calc y v)) (\<lambda>ok.
                if ok then io_return ()
                else io_seq (print_help calc m) (conf_sym calc n m y))))))))))"

subsection \<open>Choices\<close>

text \<open>The lines of the list of values; the result is the number of values and the position of
  the value that is set (0 if none is shown).\<close>

fun choice_lines :: "calc_fun \<Rightarrow> symval \<Rightarrow> menuref list \<Rightarrow> nat \<times> nat \<Rightarrow> (nat \<times> nat) io" where
  "choice_lines calc def_sym [] cd = io_return cd"
| "choice_lines calc def_sym (k # ks) (cnt, def) =
     io_bind (visible calc k) (\<lambda>v.
     if \<not> v then choice_lines calc def_sym ks (cnt, def)
     else io_bind (io_get indent) (\<lambda>i.
     io_bind (io_get engine) (\<lambda>s.
     case menu_sym (menutab s k) of
       None \<Rightarrow> io_seq (printf (pad_char i CHR ''*'' @ '' '' @ menu_text s k @ [newline]))
                 (choice_lines calc def_sym ks (cnt, def))
     | Some z \<Rightarrow>
         io_seq (printf (pad_char i (if VSym z = def_sym then CHR ''>'' else CHR '' '')
             @ '' '' @ show_nat 10 (Suc cnt) @ ''. '' @ menu_text s k
             @ (case sym_name (symtab s z) of None \<Rightarrow> [] | Some n \<Rightarrow> '' ('' @ n @ '')'')
             @ (if sym_has_value s z then [] else '' (NEW)'') @ [newline]))
           (choice_lines calc def_sym ks (Suc cnt, if VSym z = def_sym then Suc cnt else def)))))"

text \<open>The value at position \<open>cnt\<close>, counting from 1; other numbers find none.\<close>

fun choice_pick :: "calc_fun \<Rightarrow> menuref list \<Rightarrow> int \<Rightarrow> menuref option io" where
  "choice_pick calc [] cnt = io_return None"
| "choice_pick calc (k # ks) cnt =
     io_bind (io_get engine) (\<lambda>s.
     if menu_sym (menutab s k) = None then choice_pick calc ks cnt
     else io_bind (visible calc k) (\<lambda>v.
       if \<not> v then choice_pick calc ks cnt
       else if cnt - 1 = 0 then io_return (Some k)
       else choice_pick calc ks (cnt - 1)))"

text \<open>The position to choose; \<open>None\<close> asks again.\<close>

definition choice_answer :: "string \<Rightarrow> nat \<Rightarrow> int option" where
  "choice_answer line def =
     (if line = [] then Some (int def)
      else if isdigit (char_at line 0) then Some (to_int32 (strtoll line 10))
      else None)"

definition choice_ask :: "calc_fun \<Rightarrow> menuref \<Rightarrow> bool \<Rightarrow> nat \<Rightarrow> nat \<Rightarrow> int option io" where
  "choice_ask calc m is_new cnt def =
     (let ask = io_seq xfgets
            (io_bind (io_get line_buf) (\<lambda>l.
             io_seq (set_line (strip l))
             (if char_at (strip l) 0 = CHR ''?'' then io_seq (print_help calc m) (io_return None)
              else io_return (choice_answer (strip l) def))))
      in io_bind (io_get input_mode) (\<lambda>mode.
         if mode = oldconfig \<or> mode = silentoldconfig then
           (if \<not> is_new then io_seq (printf (show_nat 10 def @ [newline])) (io_return (Some (int def)))
            else io_seq check_stdin ask)
         else if mode = oldaskconfig then ask
         else io_return (Some (int cnt))))"

definition choice_heading :: "menuref \<Rightarrow> unit io" where
  "choice_heading m =
     io_bind (io_get indent) (\<lambda>i.
     io_bind (io_get engine) (\<lambda>s. printf (pad (i - 1) @ menu_text s m @ [newline])))"

text \<open>The menu entries below an entry, from its first link.\<close>

definition io_children :: "menuref \<Rightarrow> menuref list io" where
  "io_children m = io_bind (io_get engine) (\<lambda>s. io_some (menu_children s m))"

definition deeper :: "unit io \<Rightarrow> unit io" where
  "deeper m = io_seq (io_upd (\<lambda>st. st\<lparr>indent := indent st + 2\<rparr>))
     (io_seq m (io_upd (\<lambda>st. st\<lparr>indent := indent st - 2\<rparr>)))"

text \<open>One round of the loop of \<open>conf_choice\<close>: the list, the question, and the value that was
  chosen, if any.\<close>

definition choice_round :: "calc_fun \<Rightarrow> menuref \<Rightarrow> symref \<Rightarrow> bool \<Rightarrow> menuref option io" where
  "choice_round calc m y is_new =
     io_seq (choice_heading m)
     (io_bind (io_get engine) (\<lambda>s.
      io_seq (set_line [])
     (io_bind (io_children m) (\<lambda>ks.
      io_bind (choice_lines calc (sym_get_choice_value s y) ks (0, 0)) (\<lambda>(cnt, def).
      io_bind (io_get indent) (\<lambda>i.
      io_seq (printf (pad (i - 1) @ ''choice''))
     (io_bind (if cnt = 1 then io_seq (printf (''[1]: 1'' @ [newline])) (io_return (Some 1))
               else io_seq (printf (''[1-'' @ show_nat 10 cnt
                      @ (if menu_has_help s m then ''?'' else []) @ '']: ''))
                    (choice_ask calc m is_new cnt def)) (\<lambda>pos.
      case pos of
        None \<Rightarrow> io_return None
      | Some p \<Rightarrow>
          io_bind (choice_pick calc ks p) (\<lambda>pick.
          io_bind (io_get line_buf) (\<lambda>l.
          case pick of
            None \<Rightarrow> io_return None
          | Some k \<Rightarrow>
              (if l \<noteq> [] \<and> last l = CHR ''?'' then io_seq (print_help calc k) (io_return None)
               else io_return (Some k))))))))))))"

fun choice_loop ::
  "calc_fun \<Rightarrow> (menuref \<Rightarrow> unit io) \<Rightarrow> nat \<Rightarrow> menuref \<Rightarrow> symref \<Rightarrow> bool \<Rightarrow> unit io" where
  "choice_loop calc conf 0 m y is_new = io_stuck"
| "choice_loop calc conf (Suc n) m y is_new =
     io_bind (choice_round calc m y is_new) (\<lambda>pick.
     case pick of
       None \<Rightarrow> choice_loop calc conf n m y is_new
     | Some k \<Rightarrow>
         io_bind (io_get engine) (\<lambda>s.
         io_bind (io_some (menu_sym (menutab s k))) (\<lambda>z.
         io_bind (io_call (sym_set_tristate_value calc z tyes)) (\<lambda>ok.
         io_bind (io_children k) (\<lambda>ks. io_each (\<lambda>c. deeper (conf c)) ks)))))"

definition conf_choice :: "calc_fun \<Rightarrow> (menuref \<Rightarrow> unit io) \<Rightarrow> nat \<Rightarrow> menuref \<Rightarrow> symref \<Rightarrow> unit io" where
  "conf_choice calc conf n m y =
     io_bind (io_get engine) (\<lambda>s.
     let is_new = \<not> sym_has_value s y in
     if sym_is_changable s y then
       io_seq (conf_sym calc n m y)
       (io_seq (io_call (\<lambda>s. map_option (Pair ()) (calc y s)))
       (io_bind (io_get engine) (\<lambda>s.
        if sym_get_tristate_value s y = tyes then choice_loop calc conf n m y is_new
        else io_return ())))
     else
       (case sym_get_tristate_value s y of
          tno \<Rightarrow> io_return ()
        | tmod \<Rightarrow> choice_heading m
        | tyes \<Rightarrow> choice_loop calc conf n m y is_new))"

subsection \<open>The walk along the menu\<close>

text \<open>The title of a menu or a comment.\<close>

definition conf_title :: "menuref \<Rightarrow> unit io" where
  "conf_title m =
     io_bind (io_get engine) (\<lambda>s.
     io_bind (io_get indent) (\<lambda>i.
     case menu_get_prompt s m of
       None \<Rightarrow> io_return ()
     | Some prompt \<Rightarrow> printf (pad_char i CHR ''*'' @ newline # pad_char i CHR ''*'' @ '' '' @ prompt
         @ newline # pad_char i CHR ''*'' @ [newline])))"

definition conf_childs :: "(menuref \<Rightarrow> unit io) \<Rightarrow> menuref \<Rightarrow> unit io" where
  "conf_childs f m = io_bind (io_children m) (io_each f)"

text \<open>The question for the symbol of an entry, and the entries below it.\<close>

definition conf_entry :: "calc_fun \<Rightarrow> (menuref \<Rightarrow> unit io) \<Rightarrow> nat \<Rightarrow> menuref \<Rightarrow> unit io" where
  "conf_entry calc conf n m =
     io_bind (io_get engine) (\<lambda>s.
     case menu_sym (menutab s m) of
       None \<Rightarrow> conf_childs conf m
     | Some y \<Rightarrow>
         if sym_is_choice s y then
           io_seq (conf_choice calc conf n m y)
           (io_bind (io_get engine) (\<lambda>s.
            if sym_get_tristate_value s y \<noteq> tmod then io_return ()
            else deeper (conf_childs conf m)))
         else
           io_seq (if sym_type (symtab s y) \<in> {S_INT, S_HEX, S_STRING}
                   then conf_string calc n m y else conf_sym calc n m y)
             (deeper (conf_childs conf m)))"

definition conf_body :: "calc_fun \<Rightarrow> (menuref \<Rightarrow> unit io) \<Rightarrow> (menuref \<Rightarrow> unit io) \<Rightarrow> nat
    \<Rightarrow> menuref \<Rightarrow> unit io" where
  "conf_body calc conf check_conf n m =
     io_bind (visible calc m) (\<lambda>v.
     if \<not> v then io_return ()
     else
       io_bind (io_get engine) (\<lambda>s.
       io_bind (io_get input_mode) (\<lambda>mode.
       io_bind (io_get root_entry) (\<lambda>root.
       let ty = map_option (\<lambda>p. prop_type (proptab s p)) (menu_prompt (menutab s m)) in
       if ty = Some P_MENU \<and> mode \<in> {silentoldconfig, listnewconfig, olddefconfig} \<and> root \<noteq> Some m
       then check_conf m
       else io_seq (if ty = Some P_MENU \<or> ty = Some P_COMMENT then conf_title m else io_return ())
              (conf_entry calc conf n m)))))"

text \<open>An entry whose symbol has no value yet.\<close>

definition is_new_entry :: "kconf \<Rightarrow> menuref \<Rightarrow> bool" where
  "is_new_entry s m \<longleftrightarrow> (case menu_sym (menutab s m) of
     None \<Rightarrow> False
   | Some y \<Rightarrow> \<not> sym_has_value s y
       \<and> (sym_is_changable s y \<or> (sym_is_choice s y \<and> sym_get_tristate_value s y = tyes)))"

text \<open>What is done about it: it is listed, or the questions around it are asked again.\<close>

definition report_new :: "(menuref \<Rightarrow> unit io) \<Rightarrow> menuref \<Rightarrow> unit io" where
  "report_new conf m =
     io_bind (io_get engine) (\<lambda>s.
     io_bind (io_get input_mode) (\<lambda>mode.
     io_bind (io_get fworld) (\<lambda>w.
     if mode = listnewconfig then
       (case menu_sym (menutab s m) of
          None \<Rightarrow> io_return ()
        | Some y \<Rightarrow>
            (case sym_name (symtab s y) of
               Some n \<Rightarrow> printf_if (\<not> sym_is_choice_value s y) (CONFIG_prefix w @ n @ [newline])
             | None \<Rightarrow> io_return ()))
     else if mode = olddefconfig then io_return ()
     else
       io_bind (io_get conf_cnt) (\<lambda>c.
       io_seq (io_upd (\<lambda>st. st\<lparr>conf_cnt := c + 1\<rparr>))
       (io_seq (printf_if (c = 0) (''*'' @ newline # ''* Restart config...'' @ newline # ''*'' @ [newline]))
       (io_bind (io_some (menu_get_parent_menu (Suc (nmenus s)) s m)) (\<lambda>r.
        io_seq (io_upd (\<lambda>st. st\<lparr>root_entry := Some r\<rparr>)) (conf r))))))))"

definition check_conf_body :: "calc_fun \<Rightarrow> (menuref \<Rightarrow> unit io) \<Rightarrow> (menuref \<Rightarrow> unit io)
    \<Rightarrow> menuref \<Rightarrow> unit io" where
  "check_conf_body calc conf check_conf m =
     io_bind (visible calc m) (\<lambda>v.
     if \<not> v then io_return ()
     else
       io_bind (io_get engine) (\<lambda>s.
       io_seq (if is_new_entry s m then report_new conf m else io_return ())
         (conf_childs check_conf m)))"

text \<open>The two functions call each other; one fuel counts the depth of both and the rounds of the
  questions.\<close>

fun conf :: "calc_fun \<Rightarrow> nat \<Rightarrow> menuref \<Rightarrow> unit io"
  and check_conf :: "calc_fun \<Rightarrow> nat \<Rightarrow> menuref \<Rightarrow> unit io" where
  "conf calc 0 m = io_stuck"
| "conf calc (Suc n) m = conf_body calc (conf calc n) (check_conf calc n) n m"
| "check_conf calc 0 m = io_stuck"
| "check_conf calc (Suc n) m = check_conf_body calc (conf calc n) (check_conf calc n) m"

end
