(* ===== verification/Conf_Main.thy ===== *)
theory Conf_Main
  imports Conf
begin

text \<open>
  The main program of \<open>adk/config/conf.c\<close>: the options, reading the configuration, giving values
  to symbols, and writing. Splitting the command line is \<open>getopt_long\<close>; it hands over the name
  and the argument of each option. The parser of the configuration language (\<open>conf_parse\<close>) is an
  argument, as is the generator behind \<open>srand\<close>.
\<close>

subsection \<open>Options\<close>

definition long_opts :: "(string \<times> input_mode) list" where
  "long_opts = [(''oldaskconfig'', oldaskconfig), (''oldconfig'', oldconfig),
     (''silentoldconfig'', silentoldconfig), (''defconfig'', defconfig),
     (''savedefconfig'', savedefconfig), (''allnoconfig'', allnoconfig),
     (''allyesconfig'', allyesconfig), (''allmodconfig'', allmodconfig),
     (''alldefconfig'', alldefconfig), (''randconfig'', randconfig),
     (''listnewconfig'', listnewconfig), (''olddefconfig'', olddefconfig),
     (''oldnoconfig'', olddefconfig)]"

definition conf_usage :: "string \<Rightarrow> unit io" where
  "conf_usage progname = printf (concat (map (\<lambda>l. l @ [newline])
     [''Usage: '' @ progname @ '' [option] <kconfig-file>'',
      ''[option] is _one_ of the following:'',
      ''  --listnewconfig         List new options'',
      ''  --oldaskconfig          Start a new configuration using a line-oriented program'',
      ''  --oldconfig             Update a configuration using a provided .config as base'',
      ''  --silentoldconfig       Same as oldconfig, but quietly, additionally update deps'',
      ''  --olddefconfig          Same as silentoldconfig but sets new symbols to their default value'',
      ''  --oldnoconfig           An alias of olddefconfig'',
      ''  --defconfig <file>      New config with default defined in <file>'',
      ''  --savedefconfig <file>  Save the minimal current configuration to <file>'',
      ''  --allnoconfig           New config where all options are answered with no'',
      ''  --allyesconfig          New config where all options are answered with yes'',
      ''  --allmodconfig          New config where all options are answered with mod'',
      ''  --alldefconfig          New config with all symbols set to default'',
      ''  --randconfig            New config with random answer to all options'']))"

text \<open>\<open>strtol(str, &endp, 0)\<close>: the value and the rest; without a digit nothing is consumed.\<close>

definition strtol_base0 :: "string \<Rightarrow> int \<times> string" where
  "strtol_base0 str =
     (let t = dropWhile isspace str;
          neg = (char_at t 0 = CHR ''-'');
          t = (if char_at t 0 = CHR ''-'' \<or> char_at t 0 = CHR ''+'' then drop 1 t else t);
          hex = (char_at t 0 = CHR ''0'' \<and> (char_at t 1 = CHR ''x'' \<or> char_at t 1 = CHR ''X'')
                 \<and> isxdigit (char_at t 2));
          base = (if hex then 16 else if char_at t 0 = CHR ''0'' then 8 else 10);
          t = (if hex then drop 2 t else t);
          v = parse_digits base 0 t
      in if digit_val (char_at t 0) < base
         then (max LLONG_MIN (min LLONG_MAX (if neg then - v else v)),
               dropWhile (\<lambda>c. digit_val c < base) t)
         else (0, str))"

definition conf_seed :: "world \<Rightarrow> nat \<Rightarrow> nat \<Rightarrow> nat" where
  "conf_seed w sec usec =
     (let seed = (sec + 1) * (usec + 1) mod 2 ^ 32 in
      case w_env w ''KCONFIG_SEED'' of
        None \<Rightarrow> seed
      | Some e \<Rightarrow>
          (if e \<noteq> [] \<and> snd (strtol_base0 e) = [] then nat (fst (strtol_base0 e) mod 2 ^ 32) else seed))"

text \<open>\<open>srand rnd now\<close>: \<open>rnd seed\<close> is the sequence of \<open>rand\<close>, \<open>now\<close> the time of day.\<close>

definition seed_rand :: "(nat \<Rightarrow> nat \<Rightarrow> nat) \<Rightarrow> nat \<times> nat \<Rightarrow> unit io" where
  "seed_rand rnd now =
     io_bind (io_get fworld) (\<lambda>w.
     let seed = conf_seed w (fst now) (snd now) in
     io_seq (eprintf (''KCONFIG_SEED=0x'' @ map toupper (show_nat 16 seed) @ [newline]))
       (io_upd (\<lambda>st. st\<lparr>fworld := (fworld st)\<lparr>w_rand := rnd seed, w_rpos := 0\<rparr>\<rparr>)))"

text \<open>One option and its argument; the result is the file of \<open>defconfig\<close> and \<open>savedefconfig\<close>.\<close>

definition conf_option :: "(nat \<Rightarrow> nat \<Rightarrow> nat) \<Rightarrow> nat \<times> nat \<Rightarrow> string \<Rightarrow> string option
    \<Rightarrow> string \<times> string option \<Rightarrow> string option io" where
  "conf_option rnd now progname file opt =
     (case map_of long_opts (fst opt) of
        None \<Rightarrow> io_seq (conf_usage progname) (io_exit 1)
      | Some mode \<Rightarrow>
          io_seq (io_upd (\<lambda>st. st\<lparr>input_mode := mode\<rparr>))
          (if mode = silentoldconfig
           then io_seq (io_upd (\<lambda>st. st\<lparr>sync_kconfig := True\<rparr>)) (io_return file)
           else if mode = defconfig \<or> mode = savedefconfig then io_return (snd opt)
           else if mode = randconfig then io_seq (seed_rand rnd now) (io_return file)
           else io_return file))"

fun conf_options :: "(nat \<Rightarrow> nat \<Rightarrow> nat) \<Rightarrow> nat \<times> nat \<Rightarrow> string \<Rightarrow> string option
    \<Rightarrow> (string \<times> string option) list \<Rightarrow> string option io" where
  "conf_options rnd now progname file [] = io_return file"
| "conf_options rnd now progname file (opt # opts) =
     io_bind (conf_option rnd now progname file opt) (\<lambda>file.
     conf_options rnd now progname file opts)"

subsection \<open>Reading\<close>

definition stars :: "string list \<Rightarrow> string" where
  "stars ls = ''***'' @ newline # concat (map (\<lambda>l. ''*** '' @ l @ [newline]) ls) @ ''***'' @ [newline]"

definition need_config :: "unit io" where
  "need_config =
     io_bind (io_get fworld) (\<lambda>w.
     if w_exists w (conf_get_configname w) then io_return ()
     else io_seq (eprintf (stars [''Configuration file '' @ dquote # conf_get_configname w @ dquote # '' not found!'']
         @ ''*** Please run some configurator (e.g. '' @ dquote # ''make oldconfig'' @ dquote # '' or'' @ newline
         # ''*** '' @ dquote # ''make menuconfig'' @ dquote # '' or '' @ dquote # ''make xconfig'' @ dquote # '').'' @ newline
         # ''***'' @ [newline]))
       (io_exit 1))"

definition io_conf_read :: "calc_fun \<Rightarrow> string option \<Rightarrow> bool io" where
  "io_conf_read calc name = io_bind (io_get fworld) (\<lambda>w. io_call (conf_read calc w name))"

definition io_read_simple :: "calc_fun \<Rightarrow> string \<Rightarrow> bool io" where
  "io_read_simple calc name =
     io_bind (io_get fworld) (\<lambda>w. io_call (conf_read_simple calc w (Some name) S_DEF_USER))"

text \<open>The file that defines the values of the all... configurations.\<close>

primrec allconfig_name :: "input_mode \<Rightarrow> string \<Rightarrow> string" where
  "allconfig_name allnoconfig name = ''allno.config''"
| "allconfig_name allyesconfig name = ''allyes.config''"
| "allconfig_name allmodconfig name = ''allmod.config''"
| "allconfig_name alldefconfig name = ''alldef.config''"
| "allconfig_name randconfig name = ''allrandom.config''"
| "allconfig_name oldaskconfig name = name"
| "allconfig_name silentoldconfig name = name"
| "allconfig_name oldconfig name = name"
| "allconfig_name defconfig name = name"
| "allconfig_name savedefconfig name = name"
| "allconfig_name listnewconfig name = name"
| "allconfig_name olddefconfig name = name"

definition read_allconfig :: "calc_fun \<Rightarrow> unit io" where
  "read_allconfig calc =
     io_bind (io_get fworld) (\<lambda>w.
     io_bind (io_get input_mode) (\<lambda>mode.
     case w_env w ''KCONFIG_ALLCONFIG'' of
       None \<Rightarrow> io_return ()
     | Some name \<Rightarrow>
         (if name \<noteq> [] \<and> name \<noteq> ''1'' then
            io_bind (io_read_simple calc name) (\<lambda>failed.
            if failed then
              io_seq (eprintf (''*** Can'' @ [CHR 0x27] @ ''t read seed configuration '' @ dquote # name @ dquote # ''!'' @ [newline]))
                (io_exit 1)
            else io_return ())
          else
            io_bind (io_read_simple calc (allconfig_name mode name)) (\<lambda>failed.
            if \<not> failed then io_return ()
            else io_bind (io_read_simple calc ''all.config'') (\<lambda>failed.
              if \<not> failed then io_return ()
              else io_seq (eprintf (''*** KCONFIG_ALLCONFIG set, but no '' @ dquote # allconfig_name mode name
                     @ dquote # '' or '' @ dquote # ''all.config'' @ dquote # '' file found'' @ [newline]))
                   (io_exit 1))))))"

text \<open>The given file, or the default one.\<close>

definition read_defconfig :: "calc_fun \<Rightarrow> string option \<Rightarrow> string option io" where
  "read_defconfig calc file =
     io_bind (io_get fworld) (\<lambda>w.
     io_bind (case file of
         Some f \<Rightarrow> io_return f
       | None \<Rightarrow> io_call (conf_get_default_confname calc w)) (\<lambda>f.
     io_bind (io_conf_read calc (Some f)) (\<lambda>failed.
     if failed then
       io_seq (printf (''***'' @ newline # ''*** Can'' @ [CHR 0x27] @ ''t find default configuration '' @ dquote # f
           @ dquote # ''!'' @ newline # ''***'' @ [newline]))
         (io_exit 1)
     else io_return (Some f))))"

definition read_phase :: "calc_fun \<Rightarrow> string option \<Rightarrow> string option io" where
  "read_phase calc file =
     io_bind (io_get input_mode) (\<lambda>mode.
     if mode = defconfig then read_defconfig calc file
     else if mode \<in> {savedefconfig, silentoldconfig, oldaskconfig, oldconfig, listnewconfig, olddefconfig}
     then io_bind (io_conf_read calc None) (\<lambda>_. io_return file)
     else io_seq (read_allconfig calc) (io_return file))"

subsection \<open>Values\<close>

definition io_new_symbols :: "calc_fun \<Rightarrow> conf_def_mode \<Rightarrow> bool io" where
  "io_new_symbols calc dm = io_world (\<lambda>w s. conf_set_all_new_symbols calc dm s w)"

text \<open>\<open>while (conf_set_all_new_symbols(def_random));\<close>\<close>

fun random_loop :: "calc_fun \<Rightarrow> nat \<Rightarrow> unit io" where
  "random_loop calc 0 = io_stuck"
| "random_loop calc (Suc n) =
     io_bind (io_new_symbols calc def_random) (\<lambda>again.
     if again then random_loop calc n else io_return ())"

text \<open>\<open>do ... while\<close>: the whole menu is checked until nothing was asked.\<close>

fun update_loop :: "calc_fun \<Rightarrow> nat \<Rightarrow> unit io" where
  "update_loop calc 0 = io_stuck"
| "update_loop calc (Suc n) =
     io_seq (io_upd (\<lambda>st. st\<lparr>conf_cnt := 0\<rparr>))
     (io_seq (check_conf calc n rootmenu)
     (io_bind (io_get conf_cnt) (\<lambda>c.
      io_bind (io_get input_mode) (\<lambda>mode.
      if c \<noteq> 0 \<and> mode \<noteq> listnewconfig \<and> mode \<noteq> olddefconfig then update_loop calc n
      else io_return ()))))"

definition set_phase :: "calc_fun \<Rightarrow> nat \<Rightarrow> unit io" where
  "set_phase calc n =
     io_bind (io_get input_mode) (\<lambda>mode.
     let new = (\<lambda>dm. io_bind (io_new_symbols calc dm) (\<lambda>_. io_return ())) in
     case mode of
       allnoconfig \<Rightarrow> new def_no
     | allyesconfig \<Rightarrow> new def_yes
     | allmodconfig \<Rightarrow> new def_mod
     | alldefconfig \<Rightarrow> new def_default
     | randconfig \<Rightarrow> random_loop calc n
     | defconfig \<Rightarrow> new def_default
     | savedefconfig \<Rightarrow> io_return ()
     | oldaskconfig \<Rightarrow>
         io_seq (io_upd (\<lambda>st. st\<lparr>root_entry := Some rootmenu\<rparr>))
         (io_seq (conf calc n rootmenu)
         (io_seq (io_upd (\<lambda>st. st\<lparr>input_mode := silentoldconfig\<rparr>)) (update_loop calc n)))
     | _ \<Rightarrow> update_loop calc n)"

subsection \<open>Writing\<close>

definition io_conf_write :: "calc_fun \<Rightarrow> bool io" where
  "io_conf_write calc = io_world (\<lambda>w. conf_write calc w None)"

definition write_error :: "string \<Rightarrow> unit io" where
  "write_error what = eprintf (newline # ''*** Error during '' @ what @ '' of the configuration.'' @ [newline, newline])"

text \<open>The exit status.\<close>

definition write_sync :: "calc_fun \<Rightarrow> int io" where
  "write_sync calc =
     io_bind (io_get (\<lambda>st. conf_get_changed (engine st))) (\<lambda>changed.
     io_bind (if changed then io_conf_write calc else io_return False) (\<lambda>failed.
     if failed then io_seq (write_error ''writing'') (io_exit 1)
     else io_bind (io_world (conf_write_autoconf calc)) (\<lambda>failed.
       if failed then io_seq (write_error ''update'') (io_return 1) else io_return 0)))"

definition write_phase :: "calc_fun \<Rightarrow> string option \<Rightarrow> int io" where
  "write_phase calc file =
     io_bind (io_get sync_kconfig) (\<lambda>sync.
     io_bind (io_get input_mode) (\<lambda>mode.
     if sync then write_sync calc
     else if mode = savedefconfig then
       io_bind (io_some file) (\<lambda>f.
       io_bind (io_world (\<lambda>w. conf_write_defconfig calc w f)) (\<lambda>failed.
       if failed then io_seq (eprintf (''n*** Error while saving defconfig to: '' @ f @ [newline, newline]))
           (io_return 1)
       else io_return 0))
     else if mode \<noteq> listnewconfig then
       io_bind (io_conf_write calc) (\<lambda>failed.
       if failed then io_seq (write_error ''writing'') (io_exit 1) else io_return 0)
     else io_return 0))"

subsection \<open>The main program\<close>

text \<open>A changed configuration may not be updated silently.\<close>

definition needs_update :: "front \<Rightarrow> bool" where
  "needs_update st \<longleftrightarrow> sync_kconfig st \<and> conf_get_changed (engine st)
     \<and> w_env (fworld st) ''KCONFIG_NOSILENTUPDATE'' \<notin> {None, Some []}"

definition conf_run :: "calc_fun \<Rightarrow> nat \<Rightarrow> string option \<Rightarrow> int io" where
  "conf_run calc n file =
     io_bind (io_get sync_kconfig) (\<lambda>sync.
     io_seq (if sync then need_config else io_return ())
     (io_bind (read_phase calc file) (\<lambda>file.
      io_bind (io_get needs_update) (\<lambda>stop.
      if stop then
        io_seq (eprintf (newline # ''*** The configuration requires explicit update.'' @ [newline, newline]))
          (io_return 1)
      else
        io_seq (if sync then io_upd (\<lambda>st. st\<lparr>valid_stdin := tty_stdio st\<rparr>) else io_return ())
        (io_seq (set_phase calc n) (write_phase calc file))))))"

definition conf_main :: "(string \<Rightarrow> unit io) \<Rightarrow> (nat \<Rightarrow> nat \<Rightarrow> nat) \<Rightarrow> nat \<times> nat \<Rightarrow> calc_fun \<Rightarrow> nat
    \<Rightarrow> string \<Rightarrow> (string \<times> string option) list \<Rightarrow> string option \<Rightarrow> int io" where
  "conf_main conf_parse rnd now calc n progname opts kconfig =
     io_bind (conf_options rnd now progname None opts) (\<lambda>file.
     case kconfig of
       None \<Rightarrow> io_seq (printf (progname @ '': Kconfig file missing'' @ [newline]))
                 (io_seq (conf_usage progname) (io_exit 1))
     | Some name \<Rightarrow> io_seq (conf_parse name) (conf_run calc n file))"

text \<open>The globals at the start of the program.\<close>

definition front_init :: "bool \<Rightarrow> string \<Rightarrow> kconf \<Rightarrow> world \<Rightarrow> front" where
  "front_init tty input s w = \<lparr>input_mode = oldaskconfig, indent = 1, tty_stdio = tty,
     valid_stdin = True, sync_kconfig = False, conf_cnt = 0, line_buf = [], root_entry = None,
     fin = input, fout = [], ferr = [], engine = s, fworld = w\<rparr>"

end
