(* ===== verification/Session.thy ===== *)
theory Session
  imports Conf_Read_Properties Conf_Write_Properties Menu_Help
begin

text \<open>
  What the operations a front end calls keep of the engine: the configuration stays well-formed
  and its skeleton (declarations and menu tree) stays the same. \<open>runs\<close> says that an operation
  returns in such a state, \<open>safe\<close> that it does if it returns.
\<close>

subsection \<open>Steady operations\<close>

definition steady :: "kconf \<Rightarrow> kconf \<Rightarrow> bool" where
  "steady s t \<longleftrightarrow> loadable t \<and> skeleton t = skeleton s"

definition runs :: "kconf \<Rightarrow> ('a \<Rightarrow> kconf \<Rightarrow> bool) \<Rightarrow> ('a \<times> kconf) option \<Rightarrow> bool" where
  "runs s P r \<longleftrightarrow> (\<exists>v t. r = Some (v, t) \<and> steady s t \<and> P v t)"

definition safe :: "kconf \<Rightarrow> ('a \<times> kconf) option \<Rightarrow> bool" where
  "safe s r \<longleftrightarrow> (\<forall>v t. r = Some (v, t) \<longrightarrow> steady s t)"

lemma steady_refl: "loadable s \<Longrightarrow> steady s s"
  by (simp add: steady_def)

lemma steady_trans: "steady s t \<Longrightarrow> steady t u \<Longrightarrow> steady s u"
  by (simp add: steady_def)

lemma steadyD: "steady s t \<Longrightarrow> loadable t" "steady s t \<Longrightarrow> skeleton t = skeleton s"
  by (simp_all add: steady_def)

lemma runs_safe: "runs s P r \<Longrightarrow> safe s r"
  by (auto simp: runs_def safe_def)

lemma runs_weaken: "runs s P r \<Longrightarrow> (\<And>v t. P v t \<Longrightarrow> Q v t) \<Longrightarrow> runs s Q r"
  by (auto simp: runs_def)

lemma runs_Some: "steady s t \<Longrightarrow> P v t \<Longrightarrow> runs s P (Some (v, t))"
  by (simp add: runs_def)

lemma runs_bind:
  assumes "runs s P m" "\<And>v t. steady s t \<Longrightarrow> P v t \<Longrightarrow> runs t Q (f (v, t))"
  shows "runs s Q (Option.bind m f)"
  using assms steady_trans by (fastforce simp: runs_def)

lemma safe_None: "safe s None"
  by (simp add: safe_def)

lemma safe_Some: "steady s t \<Longrightarrow> safe s (Some (v, t))"
  by (simp add: safe_def)

lemma safe_bind:
  assumes "safe s m" "\<And>v t. steady s t \<Longrightarrow> safe t (f (v, t))"
  shows "safe s (Option.bind m f)"
  unfolding safe_def
proof (intro allI impI)
  fix w u assume "Option.bind m f = Some (w, u)"
  then obtain v t where t: "m = Some (v, t)" "f (v, t) = Some (w, u)" by (auto simp: bind_eq_Some_conv)
  then have "steady s t" using assms(1) by (simp add: safe_def)
  then show "steady s u" using assms(2)[of t v] t(2) steady_trans[of s t u] by (simp add: safe_def)
qed

lemma safe_pure: "(\<And>x. m = Some x \<Longrightarrow> safe s (f x)) \<Longrightarrow> safe s (Option.bind m f)"
  by (cases m) (simp_all add: safe_None)

lemma safe_step: "steady s t \<Longrightarrow> safe t r \<Longrightarrow> safe s r"
  using steady_trans by (auto simp: safe_def)

lemma runs_step: "steady s t \<Longrightarrow> runs t P r \<Longrightarrow> runs s P r"
  using steady_trans by (auto simp: runs_def)

text \<open>Operations without a result.\<close>

lemma runs_bind0:
  assumes "m = Some t" "steady s t" "runs t Q (f t)"
  shows "runs s Q (Option.bind m f)"
  using assms runs_step by simp

subsection \<open>Computing values\<close>

lemma load_steady: "load_to s t \<Longrightarrow> loadable s \<Longrightarrow> steady s t"
  using load_to_loadable by (auto simp: steady_def load_to_def load_rel_def)

lemma post_steady: "loadable s \<Longrightarrow> calc_post s t \<Longrightarrow> steady s t"
  using post_keeps[of s t] by (simp add: keeps_def steady_def)

lemma loadable_ready: "loadable s \<Longrightarrow> calc_ready s" "loadable s \<Longrightarrow> hash_ok s" "loadable s \<Longrightarrow> choices_ok s"
  "loadable s \<Longrightarrow> users_ok s"
  by (simp_all add: loadable_def)

lemma loadable_go: "loadable s \<Longrightarrow> calc_total.go (Suc (calc_work s)) s"
  by (simp add: sc.go_def loadable_def)

lemma returns_runs:
  assumes "loadable s" "calc_total.returns s P r"
  shows "runs s P r"
  using assms post_steady[OF assms(1)] by (auto simp: sc.returns_def runs_def)

lemma calc_steady:
  assumes "loadable s" "y \<in> sym_univ s"
  obtains t where "sym_calc y s = Some t" "steady s t"
  using calc_keeps[OF assms] by (auto simp: keeps_def steady_def)

lemma calc_safe: "loadable s \<Longrightarrow> y \<in> sym_univ s \<Longrightarrow> sym_calc y s = Some t \<Longrightarrow> steady s t"
  using calc_steady by (metis option.inject)

lemma expr_runs: "loadable s \<Longrightarrow> expr_ok s e \<Longrightarrow> runs s (\<lambda>_ _. True) (expr_calc_value sym_calc e s)"
  by (rule returns_runs[OF _ sc.expr_value_returns[OF loadable_go]])

lemma prop_runs:
  "loadable s \<Longrightarrow> expr_ok s (ev_expr (prop_visible (proptab s p))) \<Longrightarrow>
   runs s (\<lambda>_ _. True) (prop_calc_visible sym_calc p s)"
  by (rule returns_runs[OF _ sc.prop_visible_returns[OF loadable_go]])

lemma range_prop_runs:
  "loadable s \<Longrightarrow> y \<in> sym_univ s \<Longrightarrow> runs s (\<lambda>_ _. True) (sym_get_range_prop sym_calc y s)"
proof -
  assume a: "loadable s" "y \<in> sym_univ s"
  have "runs s (\<lambda>v t. \<forall>p. v = Some p \<longrightarrow> range_ok s p) (sym_get_range_prop sym_calc y s)"
    by (rule returns_runs[OF a(1) sc.range_prop_returns[OF loadable_go[OF a(1)]]])
      (rule readyD(1)[OF loadable_ready(1)[OF a(1)] a(2)])
  then show ?thesis by (rule runs_weaken) simp
qed

lemma string_safe:
  assumes "loadable s"
  shows "safe s (sym_get_string_value sym_calc y s)"
proof -
  obtain m where "modules_sym s = Some m" "m \<in> sym_univ s"
    using loadable_ready(1)[OF assms] by (auto simp: calc_ready_def conf_wf_def)
  moreover then obtain t where "sym_calc m s = Some t" "steady s t" using calc_steady[OF assms] by blast
  ultimately obtain t where m: "modules_sym s = Some m" "sym_calc m s = Some t" "steady s t" by blast
  then have "modules_sym t = Some m" using skelD(15)[OF steadyD(2)] by simp
  then show ?thesis using steady_refl[OF assms] m
    by (auto simp: safe_def sym_get_string_value_def calc_opt_def split: tristate.splits if_splits)
qed

subsection \<open>Setting values\<close>

lemma cleared_load: "loadable s \<Longrightarrow> load_to s (cleared s)"
proof -
  assume l: "loadable s"
  have c: "symbol_hash (cleared s) = symbol_hash s" "sym_change_count s \<le> sym_change_count (cleared s)"
    by (simp_all add: cleared_def clear_flags_fold sym_add_change_count_def sym_set_change_count_def Let_def)
  have v: "has_flag SYMBOL_VALID y (cleared s)" if "y \<in> const_syms" "has_flag SYMBOL_VALID y s" for y
    using hash_not_const[OF loadable_ready(2)[OF l] that(1)] that(2) by (simp add: has_flag_def cleared_fields)
  have "load_rel s (cleared s)" unfolding load_rel_def
    using cleared_same c cleared_skel v by (simp add: has_flag_def cleared_fields)
  moreover have "user_ok (cleared s) y = user_ok s y" "sym_has_value (cleared s) y = sym_has_value s y" for y
    by (simp_all add: user_ok_def lkc_inline_defs cleared_fields)
  ultimately show ?thesis using loadable_ready(4)[OF l] all_symbols_same[OF cleared_same c(1)]
      same_confD(1,2,3)[OF cleared_same, of s]
    by (simp add: load_to_def users_ok_def)
qed

lemma clear_all_steady:
  assumes "loadable s"
  obtains t where "sym_clear_all_valid sym_calc s = Some t" "steady s t"
proof -
  have c: "steady s (cleared s)" by (rule load_steady[OF cleared_load[OF assms] assms])
  obtain m where m: "modules_sym s = Some m" "m \<in> sym_univ (cleared s)"
    using loadable_ready(1)[OF assms] skelD(1)[OF cleared_skel] by (auto simp: calc_ready_def conf_wf_def)
  obtain t where "sym_calc m (cleared s) = Some t" "steady (cleared s) t"
    by (rule calc_steady[OF steadyD(1)[OF c] m(2)])
  then show ?thesis using that m(1) steady_trans[OF c] by (simp add: clear_all_eq calc_opt_def)
qed

lemma set_changed_steady: "loadable s \<Longrightarrow> steady s (sym_set_changed y s)"
  by (rule post_steady) (simp_all add: loadable_ready(1))

lemma user_flag_steady:
  assumes "loadable s" "y \<in> sym_univ s" "logic_sym s y"
  shows "steady s (set_user_flag y s)"
proof -
  have "load_to s (set_flag SYMBOL_DEF_USER y s)" by (rule user_flag_on_step[OF assms(1,2)]) (use assms(3) in auto)
  then have f: "steady s (set_flag SYMBOL_DEF_USER y s)" by (rule load_steady[OF _ assms(1)])
  then have "steady s (sym_set_changed y (set_flag SYMBOL_DEF_USER y s))"
    using steady_trans set_changed_steady steadyD(1) by blast
  then show ?thesis using steady_refl[OF assms(1)] by (simp add: set_user_flag_def)
qed

lemma value_flags_steady:
  assumes "loadable s" "set vs \<subseteq> sym_univ s" "\<forall>v \<in> set vs. logic_sym s v"
  shows "steady s (fold (\<lambda>d s. if sym_visible (symtab s d) \<noteq> tno then set_flag SYMBOL_DEF_USER d s else s) vs s)"
  using assms
proof (induction vs arbitrary: s)
  case (Cons d vs)
  let ?t = "if sym_visible (symtab s d) \<noteq> tno then set_flag SYMBOL_DEF_USER d s else s"
  have "load_to s (set_flag SYMBOL_DEF_USER d s)"
    by (rule user_flag_on_step[OF Cons.prems(1)]) (use Cons.prems(2,3) in auto)
  then have t: "steady s ?t" using load_steady[OF _ Cons.prems(1)] steady_refl[OF Cons.prems(1)] by simp
  note k = skelD(1,2)[OF steadyD(2)[OF t]]
  have "steady ?t (fold (\<lambda>d s. if sym_visible (symtab s d) \<noteq> tno then set_flag SYMBOL_DEF_USER d s else s) vs ?t)"
    by (rule Cons.IH[OF steadyD(1)[OF t]]) (use Cons.prems(2,3) in \<open>auto simp only: k list.set\<close>)
  then show ?case unfolding fold_Cons comp_apply by (rule steady_trans[OF t])
qed (simp add: steady_refl)

lemma choice_user_steady:
  assumes "loadable s" "y \<in> sym_univ s" "sym_is_choice_value s y"
  obtains t where "set_choice_user y s = Some t" "steady s t"
proof -
  note r = loadable_ready[OF assms(1)]
  obtain c where c: "choice_of s y = Some c" "c \<in> sym_univ s"
    using sym_wfD(7)[OF readyD(1)[OF r(1) assms(2)]] assms(3) by (auto simp: choice_ok_def)
  have cc: "sym_is_choice s c" using r(3) assms(2,3) c(1) by (auto simp: choices_ok_def)
  obtain vs where vs: "choice_values s c = Some vs" "set vs \<subseteq> sym_univ s" "logic_sym s c"
    using sym_wfD(7)[OF readyD(1)[OF r(1) c(2)]] cc by (auto simp: choice_ok_def)
  have lv: "\<forall>v \<in> set vs. logic_sym s v" using r(3) c(2) cc vs(1) by (auto simp: choices_ok_def)
  let ?a = "set_def_val S_DEF_USER c (VSym y) s" and ?b = "set_flag SYMBOL_DEF_USER c (set_def_val S_DEF_USER c (VSym y) s)"
  have a: "steady s ?a"
    by (rule load_steady[OF user_val_step[OF assms(1) c(2)] assms(1)]) (simp add: cc)
  note ka = skelD[OF steadyD(2)[OF a]]
  have "load_to ?a ?b" by (rule user_flag_on_step[OF steadyD(1)[OF a]]) (use c(2) vs(3) ka(1,2) in auto)
  then have b: "steady s ?b" using load_steady steadyD(1)[OF a] steady_trans[OF a] by blast
  note kb = skelD[OF steadyD(2)[OF b]]
  have v: "choice_values ?b c = Some vs" using kb(19) vs(1) by simp
  have "steady ?b (fold (\<lambda>d s. if sym_visible (symtab s d) \<noteq> tno then set_flag SYMBOL_DEF_USER d s else s) vs ?b)"
    by (rule value_flags_steady[OF steadyD(1)[OF b]]) (use vs(2) lv kb(1,2) in simp_all)
  then have "steady s (fold (\<lambda>d s. if sym_visible (symtab s d) \<noteq> tno then set_flag SYMBOL_DEF_USER d s else s) vs ?b)"
    by (rule steady_trans[OF b])
  then show ?thesis using that c(1) v by (simp add: set_choice_user_def Let_def)
qed

lemma set_tristate_runs:
  assumes "loadable s" "y \<in> sym_univ s" "logic_sym s y"
  shows "runs s (\<lambda>_ _. True) (sym_set_tristate_value sym_calc y v s)"
proof (cases "sym_get_tristate_value s y \<noteq> v \<and> \<not> sym_tristate_within_range s y v")
  case True
  then show ?thesis by (simp add: sym_set_tristate_value_def runs_Some steady_refl assms(1))
next
  case False
  let ?u = "set_user_flag y s"
  have u: "steady s ?u" by (rule user_flag_steady[OF assms])
  note ku = skelD[OF steadyD(2)[OF u]]
  obtain w where w: "(if sym_is_choice_value ?u y \<and> v = tyes then set_choice_user y ?u else Some ?u) = Some w"
    "steady s w"
  proof (cases "sym_is_choice_value ?u y \<and> v = tyes")
    case True
    obtain t where "set_choice_user y ?u = Some t" "steady ?u t"
      by (rule choice_user_steady[OF steadyD(1)[OF u]]) (use assms(2) ku(1) conjunct1[OF True] in simp_all)
    then show ?thesis using that True steady_trans[OF u] by simp
  next
    case False
    show ?thesis by (rule that[of ?u]) (use False u in \<open>simp_all only: if_False\<close>)
  qed
  let ?x = "set_def_tri S_DEF_USER y v w"
  have "load_to w ?x"
    by (rule user_tri_step[OF steadyD(1)[OF w(2)]]) (use assms(2) skelD(1)[OF steadyD(2)[OF w(2)]] in simp)
  then have x: "steady s ?x" using load_steady steadyD(1)[OF w(2)] steady_trans[OF w(2)] by blast
  obtain r where r: "sym_clear_all_valid sym_calc ?x = Some r" "steady ?x r"
    by (rule clear_all_steady[OF steadyD(1)[OF x]])
  show ?thesis
    unfolding sym_set_tristate_value_def Let_def if_not_P[OF False] w(1) bind.bind_lunit
    using x r steady_trans[OF x r(2)] by (simp add: runs_Some)
qed

text \<open>The new value may be stored before the symbol is marked, which is how the invariant is kept.\<close>

lemma set_changed_upd:
  assumes "\<And>x. sym_prop (g x) = sym_prop x" "\<And>x. g (x\<lparr>sym_flags := insert SYMBOL_CHANGED (sym_flags x)\<rparr>)
    = (g x)\<lparr>sym_flags := insert SYMBOL_CHANGED (sym_flags (g x))\<rparr>"
  shows "sym_set_changed y (upd_sym y g s) = upd_sym y g (sym_set_changed y s)"
proof -
  have m: "menu_set_changed m (upd_sym y g t) = upd_sym y g (menu_set_changed m t)" for m t
    by (simp add: menu_set_changed_def upd_menu_def upd_sym_def split: option.split)
  have f: "fold (\<lambda>p s. menu_set_changed (prop_menu (proptab s p)) s) ps (upd_sym y g t)
      = upd_sym y g (fold (\<lambda>p s. menu_set_changed (prop_menu (proptab s p)) s) ps t)" for ps t
    by (induction ps arbitrary: t) (simp_all add: m, simp add: upd_sym_def)
  have "set_flag SYMBOL_CHANGED y (upd_sym y g s) = upd_sym y g (set_flag SYMBOL_CHANGED y s)"
    using assms(2) by (simp add: set_flag_def upd_sym_def)
  then show ?thesis using assms(1) by (simp add: sym_set_changed_def f)
qed

lemma set_val_user_flag:
  "set_def_val S_DEF_USER y v (set_user_flag y s) = set_user_flag y (set_def_val S_DEF_USER y v s)"
proof -
  have "set_def_val S_DEF_USER y v (sym_set_changed y t) = sym_set_changed y (set_def_val S_DEF_USER y v t)" for t
    unfolding set_def_val_def by (rule set_changed_upd[symmetric]) simp_all
  moreover have "set_def_val S_DEF_USER y v (set_flag SYMBOL_DEF_USER y s)
      = set_flag SYMBOL_DEF_USER y (set_def_val S_DEF_USER y v s)"
    by (cases "symtab s y") (simp add: set_def_val_def set_flag_def upd_sym_def)
  ultimately show ?thesis by (simp add: set_user_flag_def has_flag_def set_def_val_def)
qed

lemma string_flag_steady:
  assumes "loadable s" "y \<in> sym_univ s" "stringy_sym s y" "sv_val (sym_def (symtab s y) S_DEF_USER) = VStr p"
  shows "steady s (set_user_flag y s)"
proof -
  have "load_to s (set_flag SYMBOL_DEF_USER y s)"
    by (rule user_flag_on_step[OF assms(1,2)]) (use assms(3,4) in auto)
  then have f: "steady s (set_flag SYMBOL_DEF_USER y s)" by (rule load_steady[OF _ assms(1)])
  then have "steady s (sym_set_changed y (set_flag SYMBOL_DEF_USER y s))"
    using steady_trans set_changed_steady steadyD(1) by blast
  then show ?thesis using steady_refl[OF assms(1)] by (simp add: set_user_flag_def)
qed

lemma string_store_steady:
  assumes "loadable s" "y \<in> sym_univ s" "stringy_sym s y"
  shows "steady s (set_def_val S_DEF_USER y (VStr p) (set_user_flag y s))"
proof -
  have nc: "\<not> sym_is_choice s y" using choice_logic[OF assms(1,2)] assms(3) by auto
  let ?t = "set_def_val S_DEF_USER y (VStr p) s"
  have t: "steady s ?t" by (rule load_steady[OF user_val_step[OF assms(1,2)] assms(1)]) (simp add: nc)
  note k = skelD[OF steadyD(2)[OF t]]
  have "steady ?t (set_user_flag y ?t)"
    by (rule string_flag_steady[OF steadyD(1)[OF t], of y p]) (use assms(2,3) k(1,2) in \<open>auto simp: set_def_val_def\<close>)
  then show ?thesis unfolding set_val_user_flag by (rule steady_trans[OF t])
qed

lemma within_range_runs:
  "loadable s \<Longrightarrow> y \<in> sym_univ s \<Longrightarrow> runs s (\<lambda>_ _. True) (sym_string_within_range sym_calc y p s)"
  by (rule returns_runs[OF _ sc.within_range_returns[OF loadable_go]])

lemma set_string_runs:
  assumes "loadable s" "y \<in> sym_univ s" "logic_sym s y \<or> stringy_sym s y"
  shows "runs s (\<lambda>_ _. True) (sym_set_string_value sym_calc y p s)"
proof (cases "logic_sym s y")
  case True
  then have e: "sym_set_string_value sym_calc y p s = (case tri_of_char (char_at p 0) of
      Some t \<Rightarrow> sym_set_tristate_value sym_calc y t s | None \<Rightarrow> Some (False, s))"
    by (auto simp: sym_set_string_value_def)
  show ?thesis unfolding e
    by (cases "tri_of_char (char_at p 0)")
      (simp_all add: set_tristate_runs[OF assms(1,2) True] runs_Some steady_refl[OF assms(1)])
next
  case False
  then have st: "stringy_sym s y" and nl: "\<not> (sym_type (symtab s y) = S_BOOLEAN \<or> sym_type (symtab s y) = S_TRISTATE)"
    using assms(3) by auto
  have clear: "runs t (\<lambda>_ _. True) (do { s \<leftarrow> sym_clear_all_valid sym_calc (set_def_val S_DEF_USER y (VStr q) (set_user_flag y t));
      Some (True, s) })" if t: "steady s t" for t q
  proof -
    note k = skelD[OF steadyD(2)[OF t]]
    have x: "steady t (set_def_val S_DEF_USER y (VStr q) (set_user_flag y t))"
      by (rule string_store_steady[OF steadyD(1)[OF t]]) (use assms(2) st k(1,2) in auto)
    obtain r where "sym_clear_all_valid sym_calc (set_def_val S_DEF_USER y (VStr q) (set_user_flag y t)) = Some r"
      "steady (set_def_val S_DEF_USER y (VStr q) (set_user_flag y t)) r"
      by (rule clear_all_steady[OF steadyD(1)[OF x]])
    then show ?thesis using steady_trans[OF x] by (simp add: runs_Some)
  qed
  show ?thesis unfolding sym_set_string_value_def if_not_P[OF nl] Let_def
  proof (rule runs_bind[OF within_range_runs[OF assms(1,2)]], unfold split)
    fix ok t assume t: "steady s t"
    note k = skelD[OF steadyD(2)[OF t]]
    have same: "runs t (\<lambda>_ _. True) (Some (True, set_user_flag y t))"
      if "sv_val (sym_def (symtab (set_user_flag y t) y) S_DEF_USER) = VStr p"
    proof (rule runs_Some[OF string_flag_steady[OF steadyD(1)[OF t]]])
      show "y \<in> sym_univ t" "stringy_sym t y" using assms(2) st k(1,2) by auto
      show "sv_val (sym_def (symtab t y) S_DEF_USER) = VStr p"
        using that by (simp add: set_user_flag_def symtab_set_changed set_flag_def split: if_splits)
    qed simp
    show "runs t (\<lambda>_ _. True) (if \<not> ok then Some (False, t)
      else if sym_type (symtab (set_user_flag y t) y) = S_HEX \<and> lacks_hex_prefix p then do {
          s \<leftarrow> sym_clear_all_valid sym_calc (set_def_val S_DEF_USER y (VStr (''0x'' @ p)) (set_user_flag y t));
          Some (True, s) }
        else if sv_val (sym_def (symtab (set_user_flag y t) y) S_DEF_USER) \<noteq> VStr p then do {
          s \<leftarrow> sym_clear_all_valid sym_calc (set_def_val S_DEF_USER y (VStr p) (set_user_flag y t));
          Some (True, s) }
        else Some (True, set_user_flag y t))"
      using clear[OF t] same by (simp add: runs_Some steady_refl[OF steadyD(1)[OF t]])
  qed
qed

end
