(* ===== verification/Menu_Visible.thy ===== *)
theory Menu_Visible
  imports Session
begin

text \<open>
  The visibility of menu entries: \<open>menu_is_visible\<close> keeps the configuration well-formed, and
  returns on every entry of a menu tree.
\<close>

subsection \<open>Well-formed menus\<close>

text \<open>The entries are declared: their symbols exist and have a type, their conditions are over
  symbols that exist, and their links and the menus of the properties are entries.\<close>

definition menus_ok :: "kconf \<Rightarrow> bool" where
  "menus_ok s \<longleftrightarrow> (\<forall>m < nmenus s. entry_ok s m
       \<and> (\<forall>y. menu_sym (menutab s m) = Some y \<longrightarrow> logic_sym s y \<or> stringy_sym s y)
       \<and> (\<forall>k. Some k \<in> {menu_list (menutab s m), menu_next (menutab s m), menu_parent (menutab s m)}
            \<longrightarrow> k < nmenus s))
     \<and> (\<forall>p m. prop_menu (proptab s p) = Some m \<longrightarrow> m < nmenus s) \<and> rootmenu < nmenus s"

lemma entry_ok_skel:
  assumes "skeleton t = skeleton s"
  shows "entry_ok t m = entry_ok s m"
  unfolding entry_ok_def skelD[OF assms] ..

lemma prop_menu_skel:
  assumes "skeleton t = skeleton s"
  shows "prop_menu (proptab t p) = prop_menu (proptab s p)"
  using arg_cong[OF assms, of "\<lambda>s. prop_menu (proptab s p)"] by simp

lemma menus_ok_skel:
  assumes "skeleton t = skeleton s"
  shows "menus_ok t = menus_ok s"
  unfolding menus_ok_def entry_ok_skel[OF assms] prop_menu_skel[OF assms] skelD[OF assms] ..

lemma links_skel:
  assumes "skeleton t = skeleton s"
  shows "links t = links s"
  unfolding links_def skelD[OF assms] ..

lemma menus_okD:
  assumes "menus_ok s" "m < nmenus s"
  shows "entry_ok s m" "menu_sym (menutab s m) = Some y \<Longrightarrow> y \<in> sym_univ s"
    "menu_sym (menutab s m) = Some y \<Longrightarrow> logic_sym s y \<or> stringy_sym s y"
    "menu_list (menutab s m) = Some k \<Longrightarrow> k < nmenus s" "menu_next (menutab s m) = Some k \<Longrightarrow> k < nmenus s"
    "menu_parent (menutab s m) = Some k \<Longrightarrow> k < nmenus s"
proof -
  note a = assms(1)[unfolded menus_ok_def, THEN conjunct1, rule_format, OF assms(2)]
  show e: "entry_ok s m" using a by (rule conjunct1)
  show "menu_sym (menutab s m) = Some y \<Longrightarrow> y \<in> sym_univ s" using e by (simp add: entry_ok_def)
  show "menu_sym (menutab s m) = Some y \<Longrightarrow> logic_sym s y \<or> stringy_sym s y" using a by (elim conjE allE) (erule mp)
  have l: "Some k \<in> {menu_list (menutab s m), menu_next (menutab s m), menu_parent (menutab s m)} \<Longrightarrow> k < nmenus s"
    using a[THEN conjunct2, THEN conjunct2] by (elim allE) (erule mp)
  then show "menu_list (menutab s m) = Some k \<Longrightarrow> k < nmenus s" "menu_next (menutab s m) = Some k \<Longrightarrow> k < nmenus s"
    "menu_parent (menutab s m) = Some k \<Longrightarrow> k < nmenus s" by simp_all
qed

lemma prop_menu_bound: "menus_ok s \<Longrightarrow> prop_menu (proptab s p) = Some m \<Longrightarrow> m < nmenus s"
  unfolding menus_ok_def by blast

lemma chain_bound:
  assumes "menus_ok s" "\<And>m. h = Some m \<Longrightarrow> m < nmenus s" "menu_chain n s h = Some ms" "m \<in> set ms"
  shows "m < nmenus s"
  using assms(2-4)
proof (induction n arbitrary: h ms)
  case 0
  then show ?case by (cases h) auto
next
  case (Suc n)
  show ?case
  proof (cases h)
    case (Some k)
    then have k: "k < nmenus s" using Suc.prems(1) by simp
    obtain ks where ks: "menu_chain n s (menu_next (menutab s k)) = Some ks" "ms = k # ks"
      using Suc.prems(2) Some by auto
    show ?thesis
      using Suc.IH[OF _ ks(1)] menus_okD(5)[OF assms(1) k] k Suc.prems(3) ks(2) by auto
  qed (use Suc.prems in simp)
qed

lemma children_bound:
  "menus_ok s \<Longrightarrow> m < nmenus s \<Longrightarrow> menu_children s m = Some ms \<Longrightarrow> k \<in> set ms \<Longrightarrow> k < nmenus s"
  unfolding menu_children_def by (rule chain_bound) (auto intro: menus_okD(4))

lemma chain_skel: "skeleton t = skeleton s \<Longrightarrow> menu_chain n t h = menu_chain n s h"
proof (induction n arbitrary: h)
  case 0
  then show ?case by (cases h) simp_all
next
  case (Suc n)
  then show ?case by (cases h) (simp_all add: skelD(12)[OF Suc.prems])
qed

lemma children_skel:
  assumes "skeleton t = skeleton s"
  shows "menu_children t m = menu_children s m"
  unfolding menu_children_def chain_skel[OF assms] skelD[OF assms] ..

subsection \<open>One entry\<close>

text \<open>An entry whose symbol is set is a boolean or tristate one, and may be marked.\<close>

lemma set_symbol_logic:
  assumes "loadable s" "y \<in> sym_univ s" "logic_sym s y \<or> stringy_sym s y" "sym_get_tristate_value s y \<noteq> tno"
  shows "logic_sym s y"
proof (rule ccontr)
  assume n: "\<not> logic_sym s y"
  have v: "conf_wf s" "vals_ok s" using loadable_ready(1)[OF assms(1)] by (simp_all add: calc_ready_def)
  then have "y \<notin> const_syms" using assms(3) n by (auto simp: conf_wf_def)
  then have "sv_tri (sym_curr (symtab s y)) = tno"
    using v(2) assms(2) n const_tri_heap by (simp add: vals_ok_def)
  then show False using assms(4) by (simp add: sym_get_tristate_value_def)
qed

lemma def_user_steady:
  "loadable s \<Longrightarrow> y \<in> sym_univ s \<Longrightarrow> logic_sym s y \<Longrightarrow> steady s (set_flag SYMBOL_DEF_USER y s)"
  by (rule load_steady[OF user_flag_on_step]) auto

text \<open>Either the entry decides, or its symbol is set and the entries below it decide.\<close>

lemma visible_body_cases:
  assumes "loadable s" "menus_ok s" "m < nmenus s"
  obtains v t where "menu_visible_body sym_calc vis m s = Some (v, t)" "steady s t"
  | y t where "menu_sym (menutab s m) = Some y" "steady s t" "logic_sym t y"
      "menu_visible_body sym_calc vis m s = do {
         ms \<leftarrow> menu_children t m;
         (v, u) \<leftarrow> any_visible vis ms t;
         Some (v, if v then set_flag SYMBOL_DEF_USER y u else u) }"
proof (cases "menu_prompt (menutab s m)")
  case None
  then show ?thesis using that(1)[of False s] steady_refl[OF assms(1)] by (simp add: menu_visible_body_def)
next
  case (Some p)
  note e = menus_okD(1)[OF assms(2,3)]
  obtain g t where t: "expr_calc_value sym_calc (menu_visibility (menutab s m)) s = Some (g, t)" "steady s t"
    using expr_runs[OF assms(1), of "menu_visibility (menutab s m)"] e by (auto simp: entry_ok_def runs_def)
  note k = skelD[OF steadyD(2)[OF t(2)]]
  show ?thesis
  proof (cases "g = tno")
    case True
    then show ?thesis using that(1)[of False t] t Some by (simp add: menu_visible_body_def)
  next
    case g: False
    show ?thesis
    proof (cases "menu_sym (menutab s m)")
      case None
      have "expr_ok t (ev_expr (prop_visible (proptab t p)))"
        using e Some k(6,10) by (simp add: entry_ok_def)
      then obtain v u where u: "prop_calc_visible sym_calc p t = Some (v, u)" "steady t u"
        using prop_runs[OF steadyD(1)[OF t(2)], of p] by (auto simp: runs_def)
      have "menu_sym (menutab u m) = None" using None k(7) skelD(7)[OF steadyD(2)[OF u(2)]] by simp
      then have "menu_visible_body sym_calc vis m s = Some (v \<noteq> tno, u)"
        using t(1) g u(1) None Some k(7) by (simp add: menu_visible_body_def)
      then show ?thesis using that(1) steady_trans[OF t(2) u(2)] by blast
    next
      case y: (Some y)
      note yu = menus_okD(2,3)[OF assms(2,3) y]
      obtain u where u: "sym_calc y t = Some u" "steady t u"
        by (rule calc_steady[OF steadyD(1)[OF t(2)]]) (use yu(1) k(1) in simp)
      note su = steady_trans[OF t(2) u(2)]
      note ku = skelD[OF steadyD(2)[OF su]]
      have b: "menu_visible_body sym_calc vis m s = (if ev_tri (prop_visible (proptab u p)) \<noteq> tno then Some (True, u)
          else if sym_get_tristate_value u y = tno then Some (False, u)
          else do {
             ms \<leftarrow> menu_children u m;
             (v, w) \<leftarrow> any_visible vis ms u;
             Some (v, if v then set_flag SYMBOL_DEF_USER y w else w) })"
        using t(1) g u(1) y Some k(7) ku(7) by (simp add: menu_visible_body_def)
      show ?thesis
      proof (cases "ev_tri (prop_visible (proptab u p)) = tno \<and> sym_get_tristate_value u y \<noteq> tno")
        case False
        then show ?thesis using b that(1)[OF _ su] by (auto split: if_splits)
      next
        case True
        have "logic_sym u y"
          by (rule set_symbol_logic[OF steadyD(1)[OF su]]) (use yu ku(1,2) True in auto)
        then show ?thesis using that(2)[OF y su] b True by simp
      qed
    qed
  qed
qed

subsection \<open>All entries\<close>

lemma any_visible_safe:
  assumes "\<And>k t. k \<in> set ms \<Longrightarrow> steady s t \<Longrightarrow> safe t (vis k t)" "steady s t"
  shows "safe t (any_visible vis ms t)"
  using assms
proof (induction ms arbitrary: t)
  case (Cons k ms)
  have "safe t (vis k t)" using Cons.prems by simp
  then show ?case unfolding any_visible.simps
  proof (rule safe_bind, unfold split)
    fix v u assume u: "steady t u"
    have "safe u (any_visible vis ms u)"
      using Cons.IH[of u] Cons.prems(1) steady_trans[OF Cons.prems(2) u] by simp
    then show "safe u (if v then Some (True, u) else any_visible vis ms u)"
      by (simp add: safe_Some steady_refl steadyD(1)[OF u])
  qed
qed (simp add: safe_Some steady_refl steadyD)

lemma any_visible_runs:
  assumes "\<And>k t. k \<in> set ms \<Longrightarrow> steady s t \<Longrightarrow> runs t (\<lambda>_ _. True) (vis k t)" "steady s t"
  shows "runs t (\<lambda>_ _. True) (any_visible vis ms t)"
  using assms
proof (induction ms arbitrary: t)
  case (Cons k ms)
  have "runs t (\<lambda>_ _. True) (vis k t)" using Cons.prems by simp
  then show ?case unfolding any_visible.simps
  proof (rule runs_bind, unfold split)
    fix v u assume u: "steady t u"
    have "runs u (\<lambda>_ _. True) (any_visible vis ms u)"
      using Cons.IH[of u] Cons.prems(1) steady_trans[OF Cons.prems(2) u] by simp
    then show "runs u (\<lambda>_ _. True) (if v then Some (True, u) else any_visible vis ms u)"
      using steady_refl[OF steadyD(1)[OF u]] by (simp add: runs_Some)
  qed
qed (simp add: runs_Some steady_refl steadyD)

lemma visible_safe:
  "loadable s \<Longrightarrow> menus_ok s \<Longrightarrow> m < nmenus s \<Longrightarrow> safe s (menu_is_visible sym_calc n m s)"
proof (induction n arbitrary: m s)
  case (Suc n)
  show ?case unfolding menu_is_visible.simps
  proof (rule visible_body_cases[OF Suc.prems, of "menu_is_visible sym_calc n"])
    fix v t assume "menu_visible_body sym_calc (menu_is_visible sym_calc n) m s = Some (v, t)" "steady s t"
    then show "safe s (menu_visible_body sym_calc (menu_is_visible sym_calc n) m s)" by (simp add: safe_Some)
  next
    fix y t
    assume y: "menu_sym (menutab s m) = Some y" and t: "steady s t" "logic_sym t y"
      and b: "menu_visible_body sym_calc (menu_is_visible sym_calc n) m s = do {
         ms \<leftarrow> menu_children t m;
         (v, u) \<leftarrow> any_visible (menu_is_visible sym_calc n) ms t;
         Some (v, if v then set_flag SYMBOL_DEF_USER y u else u) }"
    note k = steadyD(2)[OF t(1)]
    have mt: "menus_ok t" "m < nmenus t" using Suc.prems(2,3) menus_ok_skel[OF k] skelD(14)[OF k] by simp_all
    show "safe s (menu_visible_body sym_calc (menu_is_visible sym_calc n) m s)" unfolding b
    proof (rule safe_step[OF t(1)], rule safe_pure, rule safe_bind, unfold split)
      fix ms assume ms: "menu_children t m = Some ms"
      show "safe t (any_visible (menu_is_visible sym_calc n) ms t)"
      proof (rule any_visible_safe[OF _ steady_refl[OF steadyD(1)[OF t(1)]]])
        fix k u assume k: "k \<in> set ms" and u: "steady t u"
        show "safe u (menu_is_visible sym_calc n k u)"
          by (rule Suc.IH[OF steadyD(1)[OF u]])
            (use mt children_bound[OF mt ms k] menus_ok_skel[OF steadyD(2)[OF u]] skelD(14)[OF steadyD(2)[OF u]]
              in simp_all)
      qed
    next
      fix ms v u assume u: "steady t u"
      note ku = skelD(1,2)[OF steadyD(2)[OF u]]
      have "y \<in> sym_univ u" "logic_sym u y"
        using menus_okD(2)[OF Suc.prems(2,3) y] skelD(1)[OF k] ku t(2) by auto
      then show "safe u (Some (v, if v then set_flag SYMBOL_DEF_USER y u else u))"
        using def_user_steady[OF steadyD(1)[OF u]] steady_refl[OF steadyD(1)[OF u]] by (simp add: safe_Some)
    qed
  qed
qed (simp add: safe_None)

subsection \<open>Trees\<close>

primrec mroot :: "mtree \<Rightarrow> menuref" where
  "mroot (MTree m cs) = m"

lemma length_preorder: "length ts \<le> length (preorder ts)"
  by (induction ts rule: preorder.induct) auto

lemma forest_node:
  "forest_at s p h ts \<Longrightarrow> MTree m cs \<in> set ts \<Longrightarrow> forest_at s m (menu_list (menutab s m)) cs"
  by (induction s p h ts rule: forest_at.induct) auto

lemma node_bounds:
  "MTree m cs \<in> set ts \<Longrightarrow> Suc (mheight cs) \<le> mheight ts \<and> Suc (length (preorder cs)) \<le> length (preorder ts)
     \<and> m \<in> set (preorder ts) \<and> set (preorder cs) \<subseteq> set (preorder ts)"
  by (induction ts rule: preorder.induct) auto

lemma forest_chain: "forest_at s p h ts \<Longrightarrow> length ts \<le> n \<Longrightarrow> menu_chain n s h = Some (map mroot ts)"
proof (induction s p h ts arbitrary: n rule: forest_at.induct)
  case (2 s p m k cs ts)
  then obtain n' where "n = Suc n'" by (cases n) auto
  then show ?case using 2 by auto
qed auto

lemma forest_children:
  assumes "forest_at s m (menu_list (menutab s m)) cs" "length (preorder cs) \<le> nmenus s"
  shows "menu_children s m = Some (map mroot cs)"
  unfolding menu_children_def using forest_chain[OF assms(1)] length_preorder[of cs] assms(2) by simp

lemma forest_bound:
  assumes "menus_ok s"
  shows "forest_at s p h ts \<Longrightarrow> (\<And>m. h = Some m \<Longrightarrow> m < nmenus s) \<Longrightarrow> set (preorder ts) \<subseteq> {..<nmenus s}"
proof (induction ts arbitrary: p h rule: preorder.induct)
  case (2 k cs ts)
  obtain m where h: "h = Some m" using 2(3) by (cases h) auto
  then have m: "m = k" "forest_at s k (menu_list (menutab s k)) cs" "forest_at s p (menu_next (menutab s k)) ts"
    using 2(3) by simp_all
  have k: "k < nmenus s" using 2(4) h m(1) by simp
  show ?case using 2(1)[OF m(2)] 2(2)[OF m(3)] menus_okD(4,5)[OF assms k] k by auto
qed simp

lemma visible_runs:
  assumes "menus_ok s"
  shows "forest_at s m (menu_list (menutab s m)) cs \<Longrightarrow> insert m (set (preorder cs)) \<subseteq> {..<nmenus s}
    \<Longrightarrow> length (preorder cs) \<le> nmenus s \<Longrightarrow> mheight cs < n \<Longrightarrow> steady s t
    \<Longrightarrow> runs t (\<lambda>_ _. True) (menu_is_visible sym_calc n m t)"
proof (induction n arbitrary: m cs t)
  case (Suc n)
  note kt = steadyD(2)[OF Suc.prems(5)]
  have mt: "menus_ok t" "m < nmenus t"
    using Suc.prems(2) assms menus_ok_skel[OF kt] skelD(14)[OF kt] by simp_all
  have ch: "menu_children s m = Some (map mroot cs)" by (rule forest_children[OF Suc.prems(1,3)])
  show ?case unfolding menu_is_visible.simps
  proof (rule visible_body_cases[OF steadyD(1)[OF Suc.prems(5)] mt, of "menu_is_visible sym_calc n"])
    fix v u assume "menu_visible_body sym_calc (menu_is_visible sym_calc n) m t = Some (v, u)" "steady t u"
    then show "runs t (\<lambda>_ _. True) (menu_visible_body sym_calc (menu_is_visible sym_calc n) m t)"
      by (simp add: runs_Some)
  next
    fix y u
    assume y: "menu_sym (menutab t m) = Some y" and u: "steady t u" "logic_sym u y"
      and e: "menu_visible_body sym_calc (menu_is_visible sym_calc n) m t = do {
         ms \<leftarrow> menu_children u m;
         (v, w) \<leftarrow> any_visible (menu_is_visible sym_calc n) ms u;
         Some (v, if v then set_flag SYMBOL_DEF_USER y w else w) }"
    note su = steady_trans[OF Suc.prems(5) u(1)]
    have c: "menu_children u m = Some (map mroot cs)" using ch children_skel[OF steadyD(2)[OF su]] by simp
    show "runs t (\<lambda>_ _. True) (menu_visible_body sym_calc (menu_is_visible sym_calc n) m t)"
      unfolding e c bind.bind_lunit
    proof (rule runs_step[OF u(1)], rule runs_bind[OF any_visible_runs[OF _ su]], unfold split)
      fix k w assume k: "k \<in> set (map mroot cs)" and w: "steady s w"
      then obtain ds where d: "MTree k ds \<in> set cs" by (metis imageE list.set_map mroot.simps mtree.exhaust)
      note b = node_bounds[OF d]
      show "runs w (\<lambda>_ _. True) (menu_is_visible sym_calc n k w)"
        by (rule Suc.IH[OF forest_node[OF Suc.prems(1) d] _ _ _ w]) (use b Suc.prems(2-4) in auto)
    next
      fix v w assume w: "steady u w"
      note kw = skelD(1,2)[OF steadyD(2)[OF w]]
      have "y \<in> sym_univ w" "logic_sym w y"
        using menus_okD(2)[OF mt y] skelD(1)[OF steadyD(2)[OF u(1)]] kw u(2) by simp_all
      then show "runs w (\<lambda>_ _. True) (Some (v, if v then set_flag SYMBOL_DEF_USER y w else w))"
        using def_user_steady[OF steadyD(1)[OF w]] steady_refl[OF steadyD(1)[OF w]] by (simp add: runs_Some)
    qed
  qed
qed simp

subsection \<open>The whole menu\<close>

text \<open>A configuration with its menu tree, as the parser leaves it.\<close>

definition session_ok :: "kconf \<Rightarrow> mtree list \<Rightarrow> bool" where
  "session_ok s ts \<longleftrightarrow> loadable s \<and> menus_ok s \<and> menu_tree s ts"

lemma session_steady:
  assumes "session_ok s ts" "steady s t"
  shows "session_ok t ts"
proof -
  note k = steadyD(2)[OF assms(2)]
  have "menu_tree t ts = menu_tree s ts"
    unfolding menu_tree_def forest_links[OF links_skel[OF k]] skelD[OF k] ..
  then show ?thesis using assms steadyD(1) menus_ok_skel[OF k] by (simp add: session_ok_def)
qed

lemma session_loadable: "session_ok s ts \<Longrightarrow> loadable s"
  by (simp add: session_ok_def)

lemma tree_bounds:
  assumes "session_ok s ts"
  shows "set (preorder ts) \<subseteq> {..<nmenus s}" "length (preorder ts) \<le> nmenus s" "mheight ts < nmenus s"
    "rootmenu < nmenus s"
proof -
  have m: "menus_ok s" "menu_tree s ts" using assms by (simp_all add: session_ok_def)
  then show r: "rootmenu < nmenus s" by (simp add: menus_ok_def)
  show "set (preorder ts) \<subseteq> {..<nmenus s}"
    using forest_bound[OF m(1), of rootmenu "menu_list (menutab s rootmenu)" ts] menus_okD(4)[OF m(1) r] m(2) by (simp add: menu_tree_def)
  show "length (preorder ts) \<le> nmenus s" "mheight ts < nmenus s"
    using m(2) mheight_preorder[of ts] by (simp_all add: menu_tree_def)
qed

text \<open>Every entry of the tree is the root of the entries below it.\<close>

lemma forest_sub:
  "forest_at s p h ts \<Longrightarrow> k \<in> set (preorder ts) \<Longrightarrow> \<exists>cs. forest_at s k (menu_list (menutab s k)) cs
     \<and> set (preorder cs) \<subseteq> set (preorder ts) \<and> length (preorder cs) \<le> length (preorder ts) \<and> mheight cs \<le> mheight ts
     \<and> (\<exists>q \<in> insert p (set (preorder ts)). menu_parent (menutab s k) = Some q)"
proof (induction s p h ts rule: forest_at.induct)
  case (2 s p m k' cs ts)
  then consider "k = k'" | "k \<in> set (preorder cs)" | "k \<in> set (preorder ts)" by auto
  then show ?case
  proof cases
    case 1
    then show ?thesis using 2(3) by (intro exI[of _ cs]) auto
  next
    case c: 2
    from 2(1)[OF _ c] 2(3) show ?thesis by auto
  next
    case 3
    from 2(2)[OF _ 3] 2(3) show ?thesis by auto
  qed
qed auto

lemma tree_entry:
  assumes "session_ok s ts" "k \<in> insert rootmenu (set (preorder ts))"
  obtains cs where "forest_at s k (menu_list (menutab s k)) cs" "set (preorder cs) \<subseteq> set (preorder ts)"
    "length (preorder cs) \<le> length (preorder ts)" "mheight cs \<le> mheight ts"
proof (cases "k = rootmenu")
  case True
  then show ?thesis using that[of ts] assms(1) by (simp add: session_ok_def menu_tree_def)
next
  case False
  then show ?thesis using that forest_sub[of s rootmenu _ ts k] assms by (auto simp: session_ok_def menu_tree_def)
qed

lemma tree_parent:
  assumes "session_ok s ts" "k \<in> set (preorder ts)"
  obtains q where "menu_parent (menutab s k) = Some q" "q \<in> insert rootmenu (set (preorder ts))"
  using that forest_sub[of s rootmenu _ ts k] assms by (auto simp: session_ok_def menu_tree_def)

lemma visible_tree:
  assumes "session_ok s ts" "k \<in> insert rootmenu (set (preorder ts))"
  shows "runs s (\<lambda>_ _. True) (menu_is_visible sym_calc (Suc (nmenus s)) k s)"
proof -
  note b = tree_bounds[OF assms(1)]
  obtain cs where c: "forest_at s k (menu_list (menutab s k)) cs" "set (preorder cs) \<subseteq> set (preorder ts)"
    "length (preorder cs) \<le> length (preorder ts)" "mheight cs \<le> mheight ts"
    by (rule tree_entry[OF assms])
  have m: "menus_ok s" using assms(1) by (simp add: session_ok_def)
  show ?thesis
    by (rule visible_runs[OF m c(1) _ _ _ steady_refl[OF session_loadable[OF assms(1)]]]) (use b c assms(2) in auto)
qed

end
