(* ===== verification/Conf_Keeps.thy ===== *)
theory Conf_Keeps
  imports Conf_Main Menu_Visible
begin

text \<open>
  What the line oriented front end keeps of the engine, whatever the user types: every step of
  \<open>conf.c\<close> that calls the engine leaves the configuration well-formed and the menu as it is.
\<close>

subsection \<open>The help texts\<close>

lemma bind_SomeE': "Option.bind m f = Some y \<Longrightarrow> m = Some x \<Longrightarrow> f x = Some y"
  by simp

text \<open>Each part returns in a steady state, if it returns.\<close>

lemma value_steady: "loadable s \<Longrightarrow> sym_get_string_value sym_calc y s = Some (v, t) \<Longrightarrow> steady s t"
  using string_safe by (auto simp: safe_def)

lemma shown_steady: "loadable s \<Longrightarrow> shown_value sym_calc y s = Some (v, t) \<Longrightarrow> steady s t"
  by (auto simp: shown_value_def bind_eq_Some_conv dest: value_steady)

lemma token_steady: "loadable s \<Longrightarrow> gstr_token sym_calc k (g, s) = Some (h, t) \<Longrightarrow> steady s t"
  by (auto simp: gstr_token_def bind_eq_Some_conv steady_refl dest: value_steady split: option.splits)

lemma ofold_steady:
  assumes "\<And>k st st'. k \<in> set ks \<Longrightarrow> steady s (get st) \<Longrightarrow> f k st = Some st' \<Longrightarrow> steady (get st) (get st')"
    and "loadable s" "s = get st" "ofold f ks st = Some st'"
  shows "steady s (get st')"
  by (rule ofold_invariant[where P = "\<lambda>st. steady s (get st)", OF _ _ assms(4)])
    (use assms(1,2,3) steady_trans steady_refl in blast)+

lemma gstr_print_steady: "loadable s \<Longrightarrow> gstr_print sym_calc e (g, s) = Some (h, t) \<Longrightarrow> steady s t"
  unfolding gstr_print_def
  using ofold_steady[where get = snd and f = "gstr_token sym_calc" and st = "(g, s)" and st' = "(h, t)" and s = s]
    token_steady steadyD(1) by fastforce

lemma symbol_head_steady:
  assumes "loadable s" "y \<in> sym_univ s" "symbol_head sym_calc y (g, s) = Some (h, t)"
  shows "steady s t"
proof (cases "sym_name (symtab s y)")
  case (Some n)
  then obtain v u where u: "shown_value sym_calc y s = Some (v, u)" using assms(3)
    by (auto simp: symbol_head_def bind_eq_Some_conv)
  have su: "steady s u" by (rule shown_steady[OF assms(1) u])
  obtain p w where w: "sym_get_range_prop sym_calc y u = Some (p, w)" "steady u w"
    using range_prop_runs[of u y] steadyD(1)[OF su] skelD(1)[OF steadyD(2)[OF su]] assms(2) by (auto simp: runs_def)
  have sw: "steady s w" by (rule steady_trans[OF su w(2)])
  show ?thesis using assms(3) Some u w(1) su sw steady_trans[OF sw] gstr_print_steady[OF steadyD(1)[OF sw]]
    by (auto simp: symbol_head_def bind_eq_Some_conv Let_def split: if_splits option.splits)
qed (use assms steady_refl in \<open>auto simp: symbol_head_def\<close>)

lemma symbol_parts_steady:
  assumes "loadable s"
  shows "symbol_defined sym_calc y (g, s) = Some (h, t) \<Longrightarrow> steady s t"
    "symbol_select sym_calc ip (g, s) = Some (h, t) \<Longrightarrow> steady s t"
    "symbol_rev_dep sym_calc y (g, s) = Some (h, t) \<Longrightarrow> steady s t"
    "symbol_val_dep sym_calc x (g, s) = Some (h, t) \<Longrightarrow> steady s t"
proof -
  note p = gstr_print_steady[OF assms] and r = steady_refl[OF assms]
  note q = steady_trans[OF p gstr_print_steady[OF steadyD(1)[OF p]]]
  show "symbol_defined sym_calc y (g, s) = Some (h, t) \<Longrightarrow> steady s t"
    "symbol_rev_dep sym_calc y (g, s) = Some (h, t) \<Longrightarrow> steady s t"
    using p r by (auto simp: symbol_defined_def symbol_rev_dep_def bind_eq_Some_conv Let_def
        split: if_splits option.splits)
  show "symbol_select sym_calc ip (g, s) = Some (h, t) \<Longrightarrow> steady s t"
    "symbol_val_dep sym_calc x (g, s) = Some (h, t) \<Longrightarrow> steady s t"
    using p q by (auto simp: symbol_select_def symbol_val_dep_def bind_eq_Some_conv Let_def
        split: prod.splits option.splits)
qed

lemma symbol_selects_steady: "loadable s \<Longrightarrow> symbol_selects sym_calc y (g, s) = Some (h, t) \<Longrightarrow> steady s t"
proof -
  assume a: "loadable s" "symbol_selects sym_calc y (g, s) = Some (h, t)"
  then obtain h' where "ofold (symbol_select sym_calc) (enumerate 0 (props_of_type s y P_SELECT)) (g, s) = Some (h', t)"
    by (auto simp: symbol_selects_def bind_eq_Some_conv Let_def)
  from ofold_steady[where get = snd and s = s, OF _ a(1) _ this] show ?thesis
    using symbol_parts_steady(2) steadyD(1) by fastforce
qed

subsection \<open>The places of prompts\<close>

lemma submenus_steady:
  "loadable s \<Longrightarrow> menus_ok s \<Longrightarrow> (\<And>k. m = Some k \<Longrightarrow> k < nmenus s) \<Longrightarrow> submenus sym_calc n m s = Some (ms, t)
     \<Longrightarrow> steady s t"
proof (induction n arbitrary: m s ms t)
  case (Suc n)
  obtain k where m: "m = Some k" using Suc.prems(4) by (cases m) auto
  have k: "k < nmenus s" using Suc.prems(3) m by simp
  show ?case
  proof (cases "k = rootmenu")
    case True
    then show ?thesis using Suc.prems(1,4) m steady_refl by simp
  next
    case False
    then obtain v u ms' where u: "menu_is_visible sym_calc (Suc (nmenus s)) k s = Some (v, u)"
      "submenus sym_calc n (menu_parent (menutab u k)) u = Some (ms', t)"
      using Suc.prems(4) m by (auto simp: bind_eq_Some_conv simp del: menu_is_visible.simps)
    have su: "steady s u" using visible_safe[OF Suc.prems(1,2) k] u(1) unfolding safe_def by blast
    note kk = steadyD(2)[OF su]
    have "steady u t"
      by (rule Suc.IH[OF steadyD(1)[OF su] _ _ u(2)])
        (use Suc.prems(2) k menus_ok_skel[OF kk] menus_okD(6)[OF Suc.prems(2) k] skelD(13,14)[OF kk] in simp_all)
    then show ?thesis by (rule steady_trans[OF su])
  qed
qed (simp add: steady_refl)

lemma prompt_steady:
  assumes "loadable s" "menus_ok s" "get_prompt_str sym_calc p (g, js, s) = Some (h, js', t)"
  shows "steady s t"
proof -
  note d = assms(3)[unfolded get_prompt_str_def split Let_def]
  obtain m where m: "prop_menu (proptab s p) = Some m"
    using bind_SomeD[OF d] by blast
  note d = bind_SomeE'[OF d m]
  obtain ms u where u: "submenus sym_calc 8 (menu_parent (menutab s m)) s = Some (ms, u)"
    using bind_SomeD[OF d] by (metis surj_pair)
  note d = bind_SomeE'[OF d u, unfolded split]
  obtain js1 w where w: "add_jump sym_calc m (menu_location ms) js u = Some (js1, w)"
    using bind_SomeD[OF d] by (metis surj_pair)
  note d = bind_SomeE'[OF d w, unfolded split]
  have l: "w = t \<or> (\<exists>g'. ofold (location_line sym_calc (menu_location ms)) (indented (map fst ms))
            (g', js1, w) = Some (h, js', t))"
  proof (cases "ms = []")
    case False
    show ?thesis by (intro disjI2 exI) (rule d[unfolded if_not_P[OF False]])
  qed (use d in simp)
  have k: "m < nmenus s" by (rule prop_menu_bound[OF assms(2) m])
  have su: "steady s u" by (rule submenus_steady[OF assms(1,2) menus_okD(6)[OF assms(2) k] u])
  note ku = steadyD(2)[OF su]
  have "safe u (menu_is_visible sym_calc (Suc (nmenus u)) m u)"
    by (rule visible_safe[OF steadyD(1)[OF su]]) (use assms(2) k menus_ok_skel[OF ku] skelD(14)[OF ku] in simp_all)
  then have "steady u w" using w steady_refl[OF steadyD(1)[OF su]] unfolding safe_def add_jump_def
    by (auto simp: bind_eq_Some_conv simp del: menu_is_visible.simps split: option.splits)
  then have sw: "steady s w" by (rule steady_trans[OF su])
  have step: "steady a b" if "loadable a" "location_line sym_calc loc q (r, j, a) = Some (r', j', b)" for loc q r j a r' j' b
    using that shown_steady[OF that(1)] steady_refl[OF that(1)]
    by (auto simp: location_line_def bind_eq_Some_conv Let_def split: prod.splits option.splits)
  show ?thesis
  proof (cases "w = t")
    case False
    then obtain g' where "ofold (location_line sym_calc (menu_location ms)) (indented (map fst ms))
            (g', js1, w) = Some (h, js', t)" using l by blast
    from ofold_steady[where get = "\<lambda>st. snd (snd st)" and s = w, OF _ steadyD(1)[OF sw] _ this]
    have "steady w t" using step steadyD(1) by fastforce
    then show ?thesis by (rule steady_trans[OF sw])
  qed (use sw in simp)
qed

lemma symbol_str_steady:
  assumes "loadable s" "menus_ok s" "y \<in> sym_univ s" "get_symbol_str sym_calc y (g, js, s) = Some (h, js', t)"
  shows "steady s t"
proof -
  note d = assms(4)[unfolded get_symbol_str_def split]
  obtain g1 s1 where 1: "symbol_head sym_calc y (g, s) = Some (g1, s1)"
    using bind_SomeD[OF d] by (metis surj_pair)
  note d = bind_SomeE'[OF d 1, unfolded split]
  obtain g2 js2 s2 where 2: "ofold (get_prompt_str sym_calc) (prompts s1 y) (g1, js, s1) = Some (g2, js2, s2)"
    using bind_SomeD[OF d] by (metis surj_pair)
  note d = bind_SomeE'[OF d 2, unfolded split]
  obtain g3 s3 where 3: "symbol_defined sym_calc y (g2, s2) = Some (g3, s3)"
    using bind_SomeD[OF d] by (metis surj_pair)
  note d = bind_SomeE'[OF d 3, unfolded split]
  obtain g4 s4 where 4: "symbol_selects sym_calc y (g3, s3) = Some (g4, s4)"
    using bind_SomeD[OF d] by (metis surj_pair)
  note d = bind_SomeE'[OF d 4, unfolded split]
  obtain g5 s5 where 5: "symbol_rev_dep sym_calc y (g4, s4) = Some (g5, s5)"
    using bind_SomeD[OF d] by (metis surj_pair)
  note d = bind_SomeE'[OF d 5, unfolded split]
  obtain g6 s6 where 6: "ofold (symbol_val_dep sym_calc) (val_dep (symtab s5 y)) (g5, s5) = Some (g6, s6)"
    using bind_SomeD[OF d] by (metis surj_pair)
  have s6: "s6 = t" using bind_SomeE'[OF d 6, unfolded split] by simp
  have s1: "steady s s1" by (rule symbol_head_steady[OF assms(1,3) 1])
  have p: "steady (snd (snd st)) (snd (snd st'))"
    if "steady s1 (snd (snd st))" "get_prompt_str sym_calc p st = Some st'" for p st st'
  proof -
    obtain r j a r' j' b where e: "st = (r, j, a)" "st' = (r', j', b)" by (metis surj_pair)
    have a: "steady s a" using that(1) e steady_trans[OF s1] by simp
    show ?thesis using prompt_steady[OF steadyD(1)[OF a], of p r j r' j' b] assms(2) menus_ok_skel[OF steadyD(2)[OF a]]
        that(2) e by simp
  qed
  have "steady s1 (snd (snd (g2, js2, s2)))"
    by (rule ofold_steady[where get = "\<lambda>st. snd (snd st)", OF _ steadyD(1)[OF s1] _ 2]) (use p in simp_all)
  then have s2: "steady s s2" using steady_trans[OF s1] by simp
  have s3: "steady s s3" using symbol_parts_steady(1)[OF steadyD(1)[OF s2] 3] steady_trans[OF s2] by blast
  have s4: "steady s s4" using symbol_selects_steady[OF steadyD(1)[OF s3] 4] steady_trans[OF s3] by blast
  have s5: "steady s s5" using symbol_parts_steady(3)[OF steadyD(1)[OF s4] 5] steady_trans[OF s4] by blast
  from ofold_steady[where get = snd and s = s5, OF _ steadyD(1)[OF s5] _ 6]
  have "steady s5 s6" using symbol_parts_steady(4) steadyD(1) by fastforce
  then show ?thesis unfolding s6 by (rule steady_trans[OF s5])
qed

lemma ext_help_safe:
  assumes "loadable s" "menus_ok s" "m < nmenus s"
  shows "safe s (menu_get_ext_help sym_calc w m g s)"
  using symbol_str_steady[OF assms(1,2) menus_okD(2)[OF assms(2,3)]] steady_refl[OF assms(1)]
  by (auto simp: safe_def menu_get_ext_help_def bind_eq_Some_conv Let_def split: option.splits)

subsection \<open>Steps of the front end\<close>

text \<open>The state of the engine when a front end starts, and the invariant of its steps: the engine
  is well-formed with the same declarations, no file changes, the input is read from its front
  and the output only grows.\<close>

definition session :: "kconf \<Rightarrow> bool" where
  "session s \<longleftrightarrow> loadable s \<and> menus_ok s"

definition front_inv :: "kconf \<Rightarrow> front \<Rightarrow> front \<Rightarrow> bool" where
  "front_inv s st0 st \<longleftrightarrow> steady s (engine st) \<and> fworld st = fworld st0
     \<and> suffix (fin st) (fin st0) \<and> prefix (fout st0) (fout st)"

lemma session_skel: "session s \<Longrightarrow> steady s t \<Longrightarrow> session t"
  unfolding session_def using menus_ok_skel[OF steadyD(2)] steadyD(1) by blast

lemma keeps_engine:
  "(\<And>t. steady s t \<Longrightarrow> io_keeps (front_inv s st0) (f t) Q) \<Longrightarrow> io_keeps (front_inv s st0) (io_bind (io_get engine) f) Q"
  by (simp add: io_keeps_def io_get_def io_bind_def front_inv_def)

lemma keeps_gets [io_keeps_rules]: "io_keeps I (io_get g) (\<lambda>_. True)"
  by (rule io_keeps_get)

lemma suffix_drop_trans: "suffix xs ys \<Longrightarrow> suffix (drop n xs) ys"
  using suffix_drop suffix_order.order_trans by blast

lemma prefix_append_trans: "prefix xs ys \<Longrightarrow> prefix xs (ys @ zs)"
  by simp

lemma keeps_upds [io_keeps_rules]:
  "io_keeps (front_inv s st0) (printf x) (\<lambda>_. True)" "io_keeps (front_inv s st0) (eprintf x) (\<lambda>_. True)"
  "io_keeps (front_inv s st0) (set_line x) (\<lambda>_. True)" "io_keeps (front_inv s st0) xfgets (\<lambda>_. True)"
  "io_keeps (front_inv s st0) (io_upd (\<lambda>st. st\<lparr>indent := g st\<rparr>)) (\<lambda>_. True)"
  "io_keeps (front_inv s st0) (io_upd (\<lambda>st. st\<lparr>conf_cnt := c\<rparr>)) (\<lambda>_. True)"
  "io_keeps (front_inv s st0) (io_upd (\<lambda>st. st\<lparr>root_entry := r\<rparr>)) (\<lambda>_. True)"
  "io_keeps (front_inv s st0) (io_upd (\<lambda>st. st\<lparr>input_mode := mode\<rparr>)) (\<lambda>_. True)"
  unfolding printf_def eprintf_def set_line_def xfgets_def
  by (rule io_keeps_upd; auto simp: front_inv_def Let_def intro: suffix_drop_trans prefix_append_trans)+

lemma keeps_printf_if [io_keeps_rules]: "io_keeps (front_inv s st0) (printf_if b x) (\<lambda>_. True)"
  unfolding printf_if_def by (intro keeps_engine io_keeps_some io_keeps_rules)

lemma keeps_call:
  assumes "\<And>t. steady s t \<Longrightarrow> safe t (f t)"
  shows "io_keeps (front_inv s st0) (io_call f) (\<lambda>_. True)"
  unfolding io_keeps_def
proof (intro allI impI)
  fix st assume st: "front_inv s st0 st"
  then have "safe (engine st) (f (engine st))" using assms by (simp add: front_inv_def)
  then show "case io_call f st of Done x t \<Rightarrow> front_inv s st0 t \<and> True | Exit c t \<Rightarrow> front_inv s st0 t | Stuck \<Rightarrow> True"
    using st steady_trans[of s "engine st"]
    by (cases "f (engine st)") (auto simp: io_call_def front_inv_def safe_def)
qed

lemma keeps_visible [io_keeps_rules]:
  assumes "session s" "m < nmenus s"
  shows "io_keeps (front_inv s st0) (visible sym_calc m) (\<lambda>_. True)"
  unfolding visible_def
proof (rule keeps_call)
  fix t assume t: "steady s t"
  have "session t" by (rule session_skel[OF assms(1) t])
  then show "safe t (menu_is_visible sym_calc (Suc (nmenus t)) m t)"
    using assms(2) skelD(14)[OF steadyD(2)[OF t]] unfolding session_def by (intro visible_safe) simp_all
qed

lemma keeps_help [io_keeps_rules]:
  assumes "session s" "m < nmenus s"
  shows "io_keeps (front_inv s st0) (print_help sym_calc m) (\<lambda>_. True)"
proof -
  have "io_keeps (front_inv s st0) (io_call (menu_get_ext_help sym_calc w m str_new)) (\<lambda>_. True)" for w
  proof (rule keeps_call)
    fix t assume t: "steady s t"
    have "session t" by (rule session_skel[OF assms(1) t])
    then show "safe t (menu_get_ext_help sym_calc w m str_new t)"
      using assms(2) skelD(14)[OF steadyD(2)[OF t]] unfolding session_def by (intro ext_help_safe) simp_all
  qed
  then show ?thesis unfolding print_help_def by (intro keeps_engine io_keeps_some io_keeps_rules)
qed

lemma keeps_ask [io_keeps_rules]:
  "io_keeps (front_inv s st0) check_stdin (\<lambda>_. True)" "io_keeps (front_inv s st0) ask_line (\<lambda>_. True)"
  "io_keeps (front_inv s st0) (puts_value v) (\<lambda>_. True)" "io_keeps (front_inv s st0) (ask_prompt m) (\<lambda>_. True)"
  unfolding check_stdin_def ask_line_def puts_value_def ask_prompt_def by (intro keeps_engine io_keeps_some io_keeps_rules)+

lemma keeps_askvalue [io_keeps_rules]: "io_keeps (front_inv s st0) (conf_askvalue y v) (\<lambda>_. True)"
  unfolding conf_askvalue_def by (intro keeps_engine io_keeps_some io_keeps_rules)

subsection \<open>Questions\<close>

text \<open>A symbol that may be asked for: it exists and has a type.\<close>

definition typed_sym :: "kconf \<Rightarrow> symref \<Rightarrow> bool" where
  "typed_sym s y \<longleftrightarrow> y \<in> sym_univ s \<and> (logic_sym s y \<or> stringy_sym s y)"

lemma typed_skel: "steady s t \<Longrightarrow> typed_sym t y = typed_sym s y"
  using skelD(1,2)[OF steadyD(2)] by (simp add: typed_sym_def)

lemma entry_typed: "session s \<Longrightarrow> m < nmenus s \<Longrightarrow> menu_sym (menutab s m) = Some y \<Longrightarrow> typed_sym s y"
  using menus_okD(2,3) by (auto simp: session_def typed_sym_def)

lemma keeps_value [io_keeps_rules]: "io_keeps (front_inv s st0) (io_call (sym_get_string_value sym_calc y)) (\<lambda>_. True)"
  by (rule keeps_call) (rule string_safe, rule steadyD)

lemma keeps_set_string [io_keeps_rules]:
  assumes "typed_sym s y"
  shows "io_keeps (front_inv s st0) (io_call (sym_set_string_value sym_calc y d)) (\<lambda>_. True)"
proof (rule keeps_call)
  fix t assume t: "steady s t"
  then have "typed_sym t y" using typed_skel assms by simp
  then show "safe t (sym_set_string_value sym_calc y d t)"
    using runs_safe[OF set_string_runs[OF steadyD(1)[OF t]]] by (auto simp: typed_sym_def)
qed

lemma keeps_set_tristate [io_keeps_rules]:
  assumes "typed_sym s y" "logic_sym s y"
  shows "io_keeps (front_inv s st0) (io_call (sym_set_tristate_value sym_calc y v)) (\<lambda>_. True)"
proof (rule keeps_call)
  fix t assume t: "steady s t"
  then have "typed_sym t y" "logic_sym t y" using typed_skel skelD(2)[OF steadyD(2)[OF t]] assms by simp_all
  then show "safe t (sym_set_tristate_value sym_calc y v t)"
    using runs_safe[OF set_tristate_runs[OF steadyD(1)[OF t]]] by (auto simp: typed_sym_def)
qed

lemma keeps_conf_string [io_keeps_rules]:
  assumes "session s" "m < nmenus s" "typed_sym s y"
  shows "io_keeps (front_inv s st0) (conf_string sym_calc n m y) (\<lambda>_. True)"
proof (induction n)
  case (Suc n)
  have answer: "io_keeps (front_inv s st0) (case a of
             Show_help \<Rightarrow> io_seq (print_help sym_calc m) (conf_string sym_calc n m y)
           | Set_to None \<Rightarrow> conf_string sym_calc n m y
           | Set_to (Some d) \<Rightarrow> io_bind (io_call (sym_set_string_value sym_calc y d)) (\<lambda>ok.
               if ok then io_return () else conf_string sym_calc n m y)) (\<lambda>_. True)" for a
  proof (cases a)
    case (Set_to d)
    then show ?thesis using Suc keeps_set_string[OF assms(3)]
      by (cases d) (auto intro!: io_keeps_next io_keeps_if io_keeps_ends)
  qed (use Suc keeps_help[OF assms(1,2)] in \<open>auto intro: io_keeps_seq\<close>)
  show ?case unfolding conf_string.simps
    by (intro keeps_engine io_keeps_some io_keeps_rules answer)
qed (simp add: io_keeps_rules)

lemma keeps_conf_sym [io_keeps_rules]:
  assumes "session s" "m < nmenus s" "typed_sym s y" "logic_sym s y"
  shows "io_keeps (front_inv s st0) (conf_sym sym_calc n m y) (\<lambda>_. True)"
proof (induction n)
  case (Suc n)
  have answer: "io_keeps (front_inv s st0) (case a of
              Ask_again \<Rightarrow> conf_sym sym_calc n m y
            | Help_text \<Rightarrow> io_seq (print_help sym_calc m) (conf_sym sym_calc n m y)
            | Answer v \<Rightarrow> io_bind (io_call (sym_set_tristate_value sym_calc y v)) (\<lambda>ok.
                if ok then io_return ()
                else io_seq (print_help sym_calc m) (conf_sym sym_calc n m y))) (\<lambda>_. True)" for a
    using Suc keeps_set_tristate[OF assms(3,4)] keeps_help[OF assms(1,2)]
    by (cases a) (auto intro!: io_keeps_next io_keeps_seq io_keeps_if io_keeps_ends)
  show ?case unfolding conf_sym.simps
    by (intro keeps_engine io_keeps_some io_keeps_rules answer)
qed (simp add: io_keeps_rules)

subsection \<open>Choices\<close>

lemma keeps_lines [io_keeps_rules]:
  assumes "session s"
  shows "set ks \<subseteq> {..<nmenus s} \<Longrightarrow> io_keeps (front_inv s st0) (choice_lines sym_calc d ks cd) (\<lambda>_. True)"
proof (induction ks arbitrary: cd)
  case (Cons k ks)
  have k: "k < nmenus s" "\<And>cd. io_keeps (front_inv s st0) (choice_lines sym_calc d ks cd) (\<lambda>_. True)"
    using Cons by simp_all
  obtain c e where cd: "cd = (c, e)" by (cases cd)
  show ?case unfolding cd choice_lines.simps
    by (intro keeps_engine io_keeps_some io_keeps_rules k assms)
qed (simp add: io_keeps_rules)

lemma keeps_pick:
  assumes "session s"
  shows "set ks \<subseteq> {..<nmenus s} \<Longrightarrow> io_keeps (front_inv s st0) (choice_pick sym_calc ks c)
    (\<lambda>p. \<forall>k. p = Some k \<longrightarrow> k \<in> set ks)"
proof (induction ks arbitrary: c)
  case (Cons k ks)
  have k: "k < nmenus s" using Cons.prems by simp
  have ih: "io_keeps (front_inv s st0) (choice_pick sym_calc ks c) (\<lambda>p. \<forall>q. p = Some q \<longrightarrow> q \<in> set (k # ks))" for c
    by (rule io_keeps_weaken[OF Cons.IH]) (use Cons.prems in auto)
  have r: "io_keeps (front_inv s st0) (io_return (Some k)) (\<lambda>p. \<forall>q. p = Some q \<longrightarrow> q \<in> set (k # ks))"
    by (rule io_keeps_return) simp
  show ?case unfolding choice_pick.simps
    by (intro keeps_engine io_keeps_some ih r io_keeps_rules k assms)
qed (simp add: io_keeps_return)

lemma keeps_choice_ask [io_keeps_rules]:
  assumes "session s" "m < nmenus s"
  shows "io_keeps (front_inv s st0) (choice_ask sym_calc m new cnt d) (\<lambda>_. True)"
  unfolding choice_ask_def Let_def by (intro keeps_engine io_keeps_some io_keeps_rules assms)

lemma keeps_heading [io_keeps_rules]: "io_keeps (front_inv s st0) (choice_heading m) (\<lambda>_. True)"
  unfolding choice_heading_def by (intro keeps_engine io_keeps_some io_keeps_rules)

text \<open>The entries below an entry are entries.\<close>

lemma keeps_children:
  assumes "session s" "m < nmenus s"
    and "\<And>ks. set ks \<subseteq> {..<nmenus s} \<Longrightarrow> io_keeps (front_inv s st0) (f ks) Q"
  shows "io_keeps (front_inv s st0) (io_bind (io_children m) f) Q"
proof (rule io_keeps_bind[where P = "\<lambda>ks. set ks \<subseteq> {..<nmenus s}"])
  show "io_keeps (front_inv s st0) (io_children m) (\<lambda>ks. set ks \<subseteq> {..<nmenus s})"
    unfolding io_children_def
  proof (intro keeps_engine)
    fix t assume t: "steady s t"
    have c: "menu_children t m = menu_children s m" by (rule children_skel[OF steadyD(2)[OF t]])
    show "io_keeps (front_inv s st0) (io_some (menu_children t m)) (\<lambda>ks. set ks \<subseteq> {..<nmenus s})"
    proof (cases "menu_children s m")
      case (Some ks)
      then show ?thesis using children_bound[OF _ assms(2) Some] assms(1)
        by (auto simp: c io_some_def session_def intro!: io_keeps_return)
    qed (simp add: c io_some_def io_keeps_rules)
  qed
qed (rule assms(3))

lemma keeps_round:
  assumes "session s" "m < nmenus s"
  shows "io_keeps (front_inv s st0) (choice_round sym_calc m y new) (\<lambda>p. \<forall>k. p = Some k \<longrightarrow> k < nmenus s)"
proof -
  have n: "io_keeps (front_inv s st0) (io_return None) (\<lambda>p. \<forall>k. p = Some k \<longrightarrow> k < nmenus s)"
    by (rule io_keeps_return) simp
  have last: "io_keeps (front_inv s st0) (io_bind (choice_pick sym_calc ks p) (\<lambda>pick.
          io_bind (io_get line_buf) (\<lambda>l.
          case pick of
            None \<Rightarrow> io_return None
          | Some k \<Rightarrow>
              (if l \<noteq> [] \<and> last l = CHR ''?'' then io_seq (print_help sym_calc k) (io_return None)
               else io_return (Some k))))) (\<lambda>p. \<forall>k. p = Some k \<longrightarrow> k < nmenus s)"
    if ks: "set ks \<subseteq> {..<nmenus s}" for ks p
  proof (rule io_keeps_bind[OF keeps_pick[OF assms(1) ks]])
    fix pick assume p: "\<forall>k. pick = Some k \<longrightarrow> k \<in> set ks"
    show "io_keeps (front_inv s st0) (io_bind (io_get line_buf) (\<lambda>l.
          case pick of
            None \<Rightarrow> io_return None
          | Some k \<Rightarrow>
              (if l \<noteq> [] \<and> last l = CHR ''?'' then io_seq (print_help sym_calc k) (io_return None)
               else io_return (Some k)))) (\<lambda>p. \<forall>k. p = Some k \<longrightarrow> k < nmenus s)"
    proof (cases pick)
      case (Some k)
      then have k: "k < nmenus s" using p ks by auto
      then have "io_keeps (front_inv s st0) (io_return (Some k)) (\<lambda>p. \<forall>k. p = Some k \<longrightarrow> k < nmenus s)"
        by (intro io_keeps_return) simp
      then show ?thesis unfolding Some option.case using k by (intro n io_keeps_rules assms)
    qed (simp, intro n io_keeps_rules)
  qed
  show ?thesis unfolding choice_round_def case_prod_beta
    by (intro keeps_engine keeps_children last n io_keeps_rules assms) auto
qed

text \<open>A value that is no boolean or tristate symbol cannot be chosen: nothing changes.\<close>

lemma keeps_choose [io_keeps_rules]:
  assumes "typed_sym s y"
  shows "io_keeps (front_inv s st0) (io_call (sym_set_tristate_value sym_calc y tyes)) (\<lambda>_. True)"
proof (cases "logic_sym s y")
  case True
  then show ?thesis by (rule keeps_set_tristate[OF assms])
next
  case False
  show ?thesis
  proof (rule keeps_call)
    fix t assume t: "steady s t"
    have y: "typed_sym t y" "\<not> logic_sym t y" using typed_skel[OF t] skelD(2)[OF steadyD(2)[OF t]] False assms by simp_all
    then have n: "sym_get_tristate_value t y = tno"
      using set_symbol_logic[OF steadyD(1)[OF t]] by (auto simp: typed_sym_def)
    have "sym_get_type t y \<notin> {S_BOOLEAN, S_TRISTATE}" using y(2) by (auto simp: sym_get_type_def Let_def)
    then have "\<not> sym_tristate_within_range t y tyes" by (auto simp: sym_tristate_within_range_def Let_def)
    then have "sym_set_tristate_value sym_calc y tyes t = Some (False, t)"
      by (simp add: sym_set_tristate_value_def n)
    then show "safe t (sym_set_tristate_value sym_calc y tyes t)"
      by (simp add: safe_Some steady_refl steadyD(1)[OF t])
  qed
qed

lemma keeps_calc [io_keeps_rules]:
  assumes "typed_sym s y"
  shows "io_keeps (front_inv s st0) (io_call (\<lambda>s. map_option (Pair ()) (sym_calc y s))) (\<lambda>_. True)"
proof (rule keeps_call)
  fix t assume t: "steady s t"
  have y: "y \<in> sym_univ t" using typed_skel[OF t, of y] assms unfolding typed_sym_def by blast
  then show "safe t (map_option (Pair ()) (sym_calc y t))"
    using calc_safe[OF steadyD(1)[OF t] y] by (auto simp: safe_def)
qed

lemma keeps_deeper [io_keeps_rules]:
  "io_keeps (front_inv s st0) m (\<lambda>_. True) \<Longrightarrow> io_keeps (front_inv s st0) (deeper m) (\<lambda>_. True)"
  unfolding deeper_def by (intro io_keeps_rules)

subsection \<open>The walk along the menu\<close>

definition keeps_all :: "kconf \<Rightarrow> front \<Rightarrow> (menuref \<Rightarrow> unit io) \<Rightarrow> bool" where
  "keeps_all s st0 f \<longleftrightarrow> (\<forall>m < nmenus s. io_keeps (front_inv s st0) (f m) (\<lambda>_. True))"

lemma keeps_allD: "keeps_all s st0 f \<Longrightarrow> m < nmenus s \<Longrightarrow> io_keeps (front_inv s st0) (f m) (\<lambda>_. True)"
  by (simp add: keeps_all_def)

lemma keeps_childs [io_keeps_rules]:
  "session s \<Longrightarrow> m < nmenus s \<Longrightarrow> keeps_all s st0 f \<Longrightarrow> io_keeps (front_inv s st0) (conf_childs f m) (\<lambda>_. True)"
  unfolding conf_childs_def by (rule keeps_children, assumption+, rule io_keeps_each) (auto intro: keeps_allD)

lemma keeps_choice_loop [io_keeps_rules]:
  assumes "session s" "m < nmenus s" "keeps_all s st0 f"
  shows "io_keeps (front_inv s st0) (choice_loop sym_calc f n m y new) (\<lambda>_. True)"
proof (induction n)
  case (Suc n)
  show ?case unfolding choice_loop.simps
  proof (rule io_keeps_bind[OF keeps_round[OF assms(1,2)]])
    fix pick assume p: "\<forall>k. pick = Some k \<longrightarrow> k < nmenus s"
    have each: "io_keeps (front_inv s st0) (io_each (\<lambda>c. deeper (f c)) ks) (\<lambda>_. True)" if "set ks \<subseteq> {..<nmenus s}" for ks
      by (rule io_keeps_each) (use that in \<open>auto intro!: keeps_deeper keeps_allD[OF assms(3)]\<close>)
    show "io_keeps (front_inv s st0) (case pick of
       None \<Rightarrow> choice_loop sym_calc f n m y new
     | Some k \<Rightarrow>
         io_bind (io_get engine) (\<lambda>s.
         io_bind (io_some (menu_sym (menutab s k))) (\<lambda>z.
         io_bind (io_call (sym_set_tristate_value sym_calc z tyes)) (\<lambda>ok.
         io_bind (io_children k) (\<lambda>ks. io_each (\<lambda>c. deeper (f c)) ks))))) (\<lambda>_. True)"
    proof (cases pick)
      case None
      then show ?thesis using Suc by simp
    next
      case (Some k)
      then have k: "k < nmenus s" using p by simp
      show ?thesis unfolding Some option.case
      proof (intro keeps_engine io_keeps_some)
        fix t z assume t: "steady s t" "menu_sym (menutab t k) = Some z"
        then have z: "typed_sym s z" using entry_typed[OF assms(1) k] skelD(7)[OF steadyD(2)[OF t(1)]] by simp
        show "io_keeps (front_inv s st0) (io_bind (io_call (sym_set_tristate_value sym_calc z tyes)) (\<lambda>ok.
         io_bind (io_children k) (io_each (\<lambda>c. deeper (f c))))) (\<lambda>_. True)"
          by (rule io_keeps_next[OF keeps_choose[OF z]], rule keeps_children[OF assms(1) k], rule each)
      qed
    qed
  qed
qed (simp add: io_keeps_rules)

lemma keeps_conf_choice [io_keeps_rules]:
  assumes "session s" "m < nmenus s" "keeps_all s st0 f" "typed_sym s y" "logic_sym s y"
  shows "io_keeps (front_inv s st0) (conf_choice sym_calc f n m y) (\<lambda>_. True)"
proof -
  have c: "io_keeps (front_inv s st0) (case v of tno \<Rightarrow> io_return () | tmod \<Rightarrow> choice_heading m
        | tyes \<Rightarrow> choice_loop sym_calc f n m y new) (\<lambda>_. True)" for v new
    using keeps_choice_loop[OF assms(1-3)] by (cases v) (simp_all add: io_keeps_ends keeps_heading)
  show ?thesis unfolding conf_choice_def Let_def
    by (intro keeps_engine c io_keeps_rules assms)
qed

lemma keeps_title [io_keeps_rules]: "io_keeps (front_inv s st0) (conf_title m) (\<lambda>_. True)"
  unfolding conf_title_def by (intro keeps_engine io_keeps_rules)

lemma keeps_entry [io_keeps_rules]:
  assumes "session s" "m < nmenus s" "keeps_all s st0 f"
  shows "io_keeps (front_inv s st0) (conf_entry sym_calc f n m) (\<lambda>_. True)"
  unfolding conf_entry_def
proof (intro keeps_engine io_keeps_option)
  fix t y assume t: "steady s t" "menu_sym (menutab t m) = Some y"
  then have y: "typed_sym s y" using entry_typed[OF assms(1,2)] skelD(7)[OF steadyD(2)[OF t(1)]] by simp
  note k = skelD(1,2,3)[OF steadyD(2)[OF t(1)]]
  have c: "logic_sym s y" if "sym_is_choice t y"
    using choice_logic[OF steadyD(1)[OF t(1)]] that y k by (auto simp: typed_sym_def)
  have l: "logic_sym s y" if "\<not> sym_type (symtab t y) \<in> {S_INT, S_HEX, S_STRING}"
    using that y k by (auto simp: typed_sym_def)
  show "io_keeps (front_inv s st0) (if sym_is_choice t y then
           io_seq (conf_choice sym_calc f n m y)
           (io_bind (io_get engine) (\<lambda>s.
            if sym_get_tristate_value s y \<noteq> tmod then io_return ()
            else deeper (conf_childs f m)))
         else
           io_seq (if sym_type (symtab t y) \<in> {S_INT, S_HEX, S_STRING}
                   then conf_string sym_calc n m y else conf_sym sym_calc n m y)
             (deeper (conf_childs f m))) (\<lambda>_. True)"
    by (intro keeps_engine io_keeps_rules assms y c l)
qed (intro io_keeps_rules assms)

lemma keeps_body:
  assumes "session s" "m < nmenus s" "keeps_all s st0 f" "keeps_all s st0 g"
  shows "io_keeps (front_inv s st0) (conf_body sym_calc f g n m) (\<lambda>_. True)"
  unfolding conf_body_def Let_def by (intro keeps_engine io_keeps_rules assms keeps_allD)

text \<open>The innermost menu around an entry is an entry.\<close>

lemma parent_bound:
  "menus_ok s \<Longrightarrow> m < nmenus s \<Longrightarrow> menu_get_parent_menu n s m = Some r \<Longrightarrow> r < nmenus s"
proof (induction n arbitrary: m)
  case (Suc n)
  then show ?case using menus_okD(6)[OF Suc.prems(1,2)]
    by (auto simp: bind_eq_Some_conv split: if_splits)
qed simp

lemma keeps_report:
  assumes "session s" "m < nmenus s" "keeps_all s st0 f"
  shows "io_keeps (front_inv s st0) (report_new f m) (\<lambda>_. True)"
proof -
  have r: "r < nmenus s" if t: "steady s t" and p: "menu_get_parent_menu (Suc (nmenus t)) t m = Some r" for t r
  proof -
    have "session t" by (rule session_skel[OF assms(1) t])
    then have "r < nmenus t"
      using parent_bound[OF _ _ p] assms(2) skelD(14)[OF steadyD(2)[OF t]] by (simp add: session_def)
    then show ?thesis using skelD(14)[OF steadyD(2)[OF t]] by simp
  qed
  show ?thesis unfolding report_new_def
    by (intro keeps_engine io_keeps_some io_keeps_rules keeps_allD[OF assms(3)] r)
qed

lemma keeps_check_body:
  assumes "session s" "m < nmenus s" "keeps_all s st0 f" "keeps_all s st0 g"
  shows "io_keeps (front_inv s st0) (check_conf_body sym_calc f g m) (\<lambda>_. True)"
  unfolding check_conf_body_def by (intro keeps_engine io_keeps_rules assms keeps_report)

lemma keeps_conf:
  assumes "session s"
  shows "keeps_all s st0 (conf sym_calc n) \<and> keeps_all s st0 (check_conf sym_calc n)"
proof (induction n)
  case 0
  then show ?case by (simp add: keeps_all_def io_keeps_ends)
next
  case (Suc n)
  then show ?case using keeps_body[OF assms] keeps_check_body[OF assms] by (simp add: keeps_all_def)
qed

lemma keeps_update:
  assumes "session s"
  shows "io_keeps (front_inv s st0) (update_loop sym_calc n) (\<lambda>_. True)"
proof (induction n)
  case (Suc n)
  have r: "rootmenu < nmenus s" using assms by (simp add: session_def menus_ok_def)
  have c: "io_keeps (front_inv s st0) (check_conf sym_calc n rootmenu) (\<lambda>_. True)"
    using keeps_conf[OF assms] r by (blast intro: keeps_allD)
  show ?case unfolding update_loop.simps by (intro keeps_engine io_keeps_some io_keeps_rules c Suc)
qed (simp add: io_keeps_rules)

text \<open>The modes that may ask.\<close>

definition asking_modes :: "input_mode set" where
  "asking_modes = {oldaskconfig, silentoldconfig, oldconfig, listnewconfig, olddefconfig}"

lemma io_keeps_ends_in:
  assumes "io_keeps I m Q" "I st"
  shows "case m st of Done x t \<Rightarrow> I t | Exit c t \<Rightarrow> I t | Stuck \<Rightarrow> True"
  using io_keepsD[OF assms] by (simp split: outcome.split)

lemma keeps_questions:
  assumes "session s" "input_mode st \<in> asking_modes" "front_inv s st0 st"
  shows "case set_phase sym_calc n st of Done x t \<Rightarrow> front_inv s st0 t | Exit c t \<Rightarrow> front_inv s st0 t | Stuck \<Rightarrow> True"
proof -
  have r: "rootmenu < nmenus s" using assms by (simp add: session_def menus_ok_def)
  let ?ask = "io_seq (io_upd (\<lambda>st. st\<lparr>root_entry := Some rootmenu\<rparr>))
         (io_seq (conf sym_calc n rootmenu)
         (io_seq (io_upd (\<lambda>st. st\<lparr>input_mode := silentoldconfig\<rparr>)) (update_loop sym_calc n)))"
  have "io_keeps (front_inv s st0) (conf sym_calc n rootmenu) (\<lambda>_. True)"
    using keeps_conf[OF assms(1)] r by (blast intro: keeps_allD)
  then have "io_keeps (front_inv s st0) ?ask (\<lambda>_. True)"
    by (intro keeps_update io_keeps_rules assms)
  moreover have "set_phase sym_calc n st \<in> {?ask st, update_loop sym_calc n st}"
    using assms(2) by (auto simp: set_phase_def io_get_def io_bind_def asking_modes_def)
  ultimately show ?thesis
    using io_keeps_ends_in[where I = "front_inv s st0" and st = st, OF _ assms(3)] keeps_update[OF assms(1), of st0 n] by (elim insertE emptyE) simp_all
qed

end
