(* ===== verification/Conf_Returns.thy ===== *)
theory Conf_Returns
  imports Conf_Keeps
begin

text \<open>
  The modes that ask nothing (\<open>listnewconfig\<close> and \<open>olddefconfig\<close>): the search for symbols
  without a value returns, reads no input, and changes the engine's caches and the output only.
\<close>

text \<open>What \<open>listnewconfig\<close> prints: one line for each of some symbols.\<close>

definition new_lines :: "world \<Rightarrow> kconf \<Rightarrow> symref list \<Rightarrow> string" where
  "new_lines w s ys = concat (map (\<lambda>y. CONFIG_prefix w @ or_null (sym_name (symtab s y)) @ [newline]) ys)"

text \<open>The symbols that may be listed: those of the entries, with a name, not in a choice.\<close>

definition listed :: "kconf \<Rightarrow> mtree list \<Rightarrow> symref \<Rightarrow> bool" where
  "listed s ts y \<longleftrightarrow> (\<exists>m \<in> insert rootmenu (set (preorder ts)). menu_sym (menutab s m) = Some y)
     \<and> sym_name (symtab s y) \<noteq> None \<and> \<not> sym_is_choice_value s y"

definition quiet_modes :: "input_mode set" where
  "quiet_modes = {listnewconfig, olddefconfig}"

text \<open>The states that are reached from \<open>b\<close>.\<close>

definition quiet :: "front \<Rightarrow> mtree list \<Rightarrow> front \<Rightarrow> bool" where
  "quiet b ts st \<longleftrightarrow> (\<exists>s ys. st = b\<lparr>engine := s, fout := fout b @ new_lines (fworld b) (engine b) ys\<rparr>
     \<and> steady (engine b) s \<and> (\<forall>y \<in> set ys. listed (engine b) ts y)
     \<and> (input_mode b = olddefconfig \<longrightarrow> ys = []))"

lemma quietD:
  assumes "quiet b ts st"
  shows "steady (engine b) (engine st)" "input_mode st = input_mode b" "fworld st = fworld b" "conf_cnt st = conf_cnt b"
  using assms by (auto simp: quiet_def)

lemma quiet_refl: "loadable (engine b) \<Longrightarrow> quiet b ts b"
  unfolding quiet_def by (intro exI[of _ "engine b"] exI[of _ "[]"]) (simp add: steady_refl new_lines_def)

lemma quiet_engine:
  assumes "quiet b ts st" "steady (engine st) s"
  shows "quiet b ts (st\<lparr>engine := s\<rparr>)"
proof -
  obtain r ys where r: "st = b\<lparr>engine := r, fout := fout b @ new_lines (fworld b) (engine b) ys\<rparr>"
    "steady (engine b) r" "\<forall>y \<in> set ys. listed (engine b) ts y" "input_mode b = olddefconfig \<longrightarrow> ys = []"
    using assms(1) by (auto simp: quiet_def)
  then have "steady (engine b) s" using assms(2) steady_trans[of "engine b" r s] by simp
  then show ?thesis using r unfolding quiet_def by (intro exI[of _ s] exI[of _ ys]) simp
qed

lemma quiet_line:
  assumes "quiet b ts st" "listed (engine b) ts y" "input_mode b \<noteq> olddefconfig"
  shows "quiet b ts (st\<lparr>fout := fout st @ CONFIG_prefix (fworld b) @ or_null (sym_name (symtab (engine b) y)) @ [newline]\<rparr>)"
proof -
  obtain s ys where "st = b\<lparr>engine := s, fout := fout b @ new_lines (fworld b) (engine b) ys\<rparr>"
    "steady (engine b) s" "\<forall>y \<in> set ys. listed (engine b) ts y" using assms(1) by (auto simp: quiet_def)
  then show ?thesis using assms(2,3) unfolding quiet_def
    by (intro exI[of _ s] exI[of _ "ys @ [y]"]) (simp add: new_lines_def)
qed

text \<open>The steps.\<close>

abbreviation ends_quiet :: "front \<Rightarrow> mtree list \<Rightarrow> 'a io \<Rightarrow> bool" where
  "ends_quiet b ts m \<equiv> io_returns (quiet b ts) m (\<lambda>_. True)"

lemma quiet_call:
  assumes "\<And>t. steady (engine b) t \<Longrightarrow> runs t (\<lambda>_ _. True) (f t)"
  shows "ends_quiet b ts (io_call f)"
  unfolding io_returns_def
proof (intro allI impI)
  fix st assume st: "quiet b ts st"
  obtain v t where "f (engine st) = Some (v, t)" "steady (engine st) t"
    using assms[OF quietD(1)[OF st]] by (auto simp: runs_def)
  then show "\<exists>x t. io_call f st = Done x t \<and> quiet b ts t \<and> True"
    using quiet_engine[OF st] by (simp add: io_call_def)
qed

lemma quiet_visible:
  assumes "session_ok (engine b) ts" "k \<in> insert rootmenu (set (preorder ts))"
  shows "ends_quiet b ts (visible sym_calc k)"
  unfolding visible_def by (rule quiet_call, rule visible_tree[OF session_steady[OF assms(1)] assms(2)])

lemma quiet_get:
  "(\<And>st. quiet b ts st \<Longrightarrow> io_returns (quiet b ts) (f (g st)) Q) \<Longrightarrow> io_returns (quiet b ts) (io_bind (io_get g) f) Q"
  by (rule io_returns_get)

lemma quiet_report:
  assumes "session_ok (engine b) ts" "k \<in> insert rootmenu (set (preorder ts))" "input_mode b \<in> quiet_modes"
  shows "ends_quiet b ts (report_new f k)"
  unfolding io_returns_def
proof (intro allI impI)
  fix st assume st: "quiet b ts st"
  note q = quietD[OF st] and kk = skelD[OF steadyD(2)[OF quietD(1)[OF st]]]
  have m: "input_mode st = listnewconfig \<or> input_mode st = olddefconfig" using assms(3) q(2) by (simp add: quiet_modes_def)
  show "\<exists>x t. report_new f k st = Done x t \<and> quiet b ts t \<and> True"
  proof (cases "menu_sym (menutab (engine st) k)")
    case None
    then show ?thesis using m st by (auto simp: report_new_def io_bind_def io_get_def io_return_def)
  next
    case (Some y)
    have l: "listed (engine b) ts y" if "sym_name (symtab (engine st) y) = Some n" "\<not> sym_is_choice_value (engine st) y" for n
      using that assms(2) Some kk(4,7,20) by (auto simp: listed_def)
    show ?thesis
    proof (cases "input_mode st = listnewconfig \<and> sym_name (symtab (engine st) y) \<noteq> None \<and> \<not> sym_is_choice_value (engine st) y")
      case True
      then obtain n where n: "sym_name (symtab (engine st) y) = Some n" by blast
      have "quiet b ts (st\<lparr>fout := fout st @ CONFIG_prefix (fworld b) @ or_null (sym_name (symtab (engine b) y)) @ [newline]\<rparr>)"
        by (rule quiet_line[OF st l[OF n]]) (use True q(2) in auto)
      then show ?thesis using True Some n q(3) kk(20)[of y]
        by (simp add: report_new_def io_bind_def io_get_def printf_if_def printf_def io_upd_def or_null_def)
    next
      case False
      then show ?thesis using m Some st
        by (auto simp: report_new_def io_bind_def io_get_def printf_if_def io_return_def split: option.splits)
    qed
  qed
qed

lemma quiet_children:
  assumes "session_ok (engine b) ts" "forest_at (engine b) k (menu_list (menutab (engine b) k)) cs"
    "length (preorder cs) \<le> nmenus (engine b)" "\<And>c. c \<in> set (map mroot cs) \<Longrightarrow> ends_quiet b ts (f c)"
  shows "ends_quiet b ts (conf_childs f k)"
proof -
  have "io_returns (quiet b ts) (io_children k) (\<lambda>ks. ks = map mroot cs)"
    unfolding io_children_def
  proof (rule quiet_get)
    fix st assume st: "quiet b ts st"
    have "menu_children (engine st) k = Some (map mroot cs)"
      using forest_children[OF assms(2,3)] children_skel[OF steadyD(2)[OF quietD(1)[OF st]]] by simp
    then show "io_returns (quiet b ts) (io_some (menu_children (engine st) k)) (\<lambda>ks. ks = map mroot cs)"
      by (simp add: io_some_def io_returns_def io_return_def)
  qed
  then show ?thesis unfolding conf_childs_def
    by (rule io_returns_bind) (use assms(4) in \<open>auto intro: io_returns_each\<close>)
qed

lemma quiet_check:
  assumes "session_ok (engine b) ts" "input_mode b \<in> quiet_modes"
  shows "k \<in> insert rootmenu (set (preorder ts)) \<Longrightarrow> forest_at (engine b) k (menu_list (menutab (engine b) k)) cs
    \<Longrightarrow> set (preorder cs) \<subseteq> set (preorder ts) \<Longrightarrow> length (preorder cs) \<le> nmenus (engine b) \<Longrightarrow> mheight cs < n
    \<Longrightarrow> ends_quiet b ts (check_conf sym_calc n k)"
proof (induction n arbitrary: k cs)
  case (Suc n)
  have "ends_quiet b ts (check_conf sym_calc n c)" if "c \<in> set (map mroot cs)" for c
  proof -
    obtain ds where d: "MTree c ds \<in> set cs" using \<open>c \<in> _\<close> by (metis imageE list.set_map mroot.simps mtree.exhaust)
    note nb = node_bounds[OF d]
    show ?thesis
      by (rule Suc.IH[OF _ forest_node[OF Suc.prems(2) d]]) (use nb Suc.prems(3-5) in auto)
  qed
  then have ch: "ends_quiet b ts (conf_childs (check_conf sym_calc n) k)"
    by (rule quiet_children[OF assms(1) Suc.prems(2,4)])
  show ?case unfolding check_conf.simps check_conf_body_def
    by (intro io_returns_next quiet_visible[OF assms(1) Suc.prems(1)] io_returns_if io_returns_return quiet_get
        io_returns_seq quiet_report[OF assms(1) Suc.prems(1) assms(2)] ch)
qed simp

text \<open>One round: nothing is asked, so the loop ends after it.\<close>

lemma quiet_update:
  assumes "session_ok (engine st) ts" "input_mode st \<in> quiet_modes" "nmenus (engine st) < n"
  obtains t where "update_loop sym_calc n st = Done () t" "quiet (st\<lparr>conf_cnt := 0\<rparr>) ts t"
proof -
  let ?b = "st\<lparr>conf_cnt := 0\<rparr>"
  obtain k where n: "n = Suc k" using assms(3) by (cases n) auto
  note tb = tree_bounds[OF assms(1)]
  have "forest_at (engine ?b) rootmenu (menu_list (menutab (engine ?b) rootmenu)) ts"
    using assms(1) by (simp add: session_ok_def menu_tree_def)
  then have c: "ends_quiet ?b ts (check_conf sym_calc k rootmenu)"
    by (rule quiet_check[rotated 3]) (use assms tb n in simp_all)
  have "quiet ?b ts ?b" by (rule quiet_refl) (use assms(1) in \<open>simp add: session_ok_def\<close>)
  then obtain t where t: "check_conf sym_calc k rootmenu ?b = Done () t" "quiet ?b ts t"
    by (rule io_returnsD[OF c]) simp
  then have "update_loop sym_calc n st = Done () t" using quietD(4)[OF t(2)]
    by (simp add: n io_seq_def io_bind_def io_upd_def io_get_def io_return_def)
  then show ?thesis using that t(2) by simp
qed

end
