(* ===== verification/Conf_Dialog.thy ===== *)
theory Conf_Dialog
  imports Conf_Returns
begin

text \<open>
  Single questions of the line oriented front end: what a line that is typed does, and what the
  end of the input does.
\<close>

subsection \<open>Reading a line\<close>

text \<open>Whether a question for a symbol reads a line.\<close>

definition asks :: "front \<Rightarrow> symref \<Rightarrow> bool" where
  "asks st y \<longleftrightarrow> sym_is_changable (engine st) y
     \<and> (input_mode st = oldaskconfig
        \<or> input_mode st \<in> {oldconfig, silentoldconfig} \<and> \<not> sym_has_value (engine st) y \<and> valid_stdin st)"

text \<open>A line that fits into the buffer.\<close>

definition typed_line :: "string \<Rightarrow> bool" where
  "typed_line l \<longleftrightarrow> newline \<notin> set l \<and> CHR 0x00 \<notin> set l \<and> length l < 126"

definition eol :: "front \<Rightarrow> string" where
  "eol st = (if tty_stdio st then [] else [newline])"

lemma io_step:
  "m st = Done x t \<Longrightarrow> f x t = r \<Longrightarrow> io_bind m f st = r" "m st = Done x t \<Longrightarrow> k t = r \<Longrightarrow> io_seq m k st = r"
  by (simp_all add: io_bind_def io_seq_def)

lemma io_get_bind: "io_bind (io_get g) f st = f (g st) st"
  by (simp add: io_bind_def io_get_def)

lemma printf_Done: "printf x st = Done () (st\<lparr>fout := fout st @ x\<rparr>)"
  by (simp add: printf_def io_upd_def)

lemma printf_option:
  "(case n of None \<Rightarrow> io_return () | Some k \<Rightarrow> printf (f k)) st
     = Done () (st\<lparr>fout := fout st @ (case n of None \<Rightarrow> [] | Some k \<Rightarrow> f k)\<rparr>)"
  by (cases n) (simp_all add: printf_Done io_return_def)

lemmas io_defs = io_seq_def io_bind_def io_get_def io_upd_def io_return_def

lemma ask_line_typed:
  assumes "fin st = l @ newline # rest" "typed_line l"
  shows "ask_line st = Done True (st\<lparr>line_buf := l @ [newline], fin := rest, fout := fout st @ eol st\<rparr>)"
proof -
  have "fgets_line 127 (fin st) = l @ [newline]" using fgets_line_short[of l 127 rest] assms by (simp add: typed_line_def)
  moreover have "c_str (l @ [newline]) = l @ [newline]" using assms(2) by (intro c_str_id) (simp add: typed_line_def)
  ultimately have "xfgets st = Done () (st\<lparr>line_buf := l @ [newline], fin := rest\<rparr>)"
    using assms(1) by (simp add: xfgets_def io_upd_def)
  then show ?thesis by (simp add: ask_line_def io_defs printf_if_def printf_def eol_def)
qed

lemma ask_line_eof:
  assumes "fin st = []"
  obtains e where "ask_line st = Done True (st\<lparr>ferr := ferr st @ e, fout := fout st @ eol st\<rparr>)"
proof (rule that)
  show "ask_line st = Done True (st\<lparr>ferr := ferr st @ newline # ''Error in reading or end of file.'' @ [newline],
      fout := fout st @ eol st\<rparr>)"
    using assms by (auto simp: ask_line_def xfgets_def io_defs printf_if_def printf_def eol_def)
qed

lemma askvalue_asks:
  assumes "asks st y"
  obtains x where "conf_askvalue y d st = ask_line (st\<lparr>fout := fout st @ x, line_buf := [newline]\<rparr>)"
proof -
  let ?o = "if sym_has_value (engine st) y then [] else ''(NEW) ''"
  have "conf_askvalue y d st = ask_line (st\<lparr>fout := fout st @ ?o, line_buf := [newline]\<rparr>)"
    using assms by (auto simp: asks_def conf_askvalue_def io_defs printf_if_def printf_def set_line_def check_stdin_def)
  then show ?thesis by (rule that)
qed

subsection \<open>Answers for booleans and tristates\<close>

text \<open>The words that answer, and what a line says: an empty one keeps the old value.\<close>

primrec answer_words :: "tristate \<Rightarrow> string set" where
  "answer_words tno = {''n'', ''N'', ''no'', ''No''}"
| "answer_words tmod = {''m'', ''M''}"
| "answer_words tyes = {''y'', ''Y'', ''yes'', ''Yes''}"

definition says :: "string \<Rightarrow> tristate \<Rightarrow> tristate \<Rightarrow> bool" where
  "says word old v \<longleftrightarrow> word \<in> answer_words v \<or> word = [] \<and> v = old"

lemma sym_answer_says:
  "says word old v \<Longrightarrow> sym_answer word old = Answer v"
  "\<forall>v. \<not> says word old v \<Longrightarrow> char_at word 0 \<noteq> CHR ''?'' \<Longrightarrow> sym_answer word old = Ask_again"
proof -
  show "says word old v \<Longrightarrow> sym_answer word old = Answer v"
    by (cases v) (auto simp: says_def sym_answer_def char_at_def)
  assume n: "\<forall>v. \<not> says word old v" "char_at word 0 \<noteq> CHR ''?''"
  have w: "word \<noteq> []" "\<And>v. word \<notin> answer_words v" using n(1) by (auto simp: says_def)
  show "sym_answer word old = Ask_again"
    using w(1) n(2) w(2)[of tno] w(2)[of tmod] w(2)[of tyes]
    by (cases word) (auto simp: sym_answer_def char_at_def)
qed

text \<open>The part of the loop that looks at the answer.\<close>

definition sym_step :: "calc_fun \<Rightarrow> nat \<Rightarrow> menuref \<Rightarrow> symref \<Rightarrow> sym_answer \<Rightarrow> unit io" where
  "sym_step calc n m y a = (case a of
     Ask_again \<Rightarrow> conf_sym calc n m y
   | Help_text \<Rightarrow> io_seq (print_help calc m) (conf_sym calc n m y)
   | Answer v \<Rightarrow> io_bind (io_call (sym_set_tristate_value calc y v)) (\<lambda>ok.
       if ok then io_return () else io_seq (print_help calc m) (conf_sym calc n m y)))"

text \<open>A symbol that can be asked for here: its entry has a prompt and its value is computed.\<close>

definition askable :: "front \<Rightarrow> menuref \<Rightarrow> symref \<Rightarrow> symval \<Rightarrow> bool" where
  "askable st m y v \<longleftrightarrow> menu_prompt (menutab (engine st) m) \<noteq> None \<and> asks st y
     \<and> sym_get_string_value sym_calc y (engine st) = Some (v, engine st)"

lemma askable_fields:
  "askable (st\<lparr>fout := x, line_buf := l, fin := i, ferr := e\<rparr>) m y v = askable st m y v"
  by (simp add: askable_def asks_def)

lemma prompt_asked:
  assumes "menu_prompt (menutab (engine st) m) \<noteq> None"
  obtains x where "ask_prompt m st = Done () (st\<lparr>fout := fout st @ x\<rparr>)"
  using assms by (auto simp: ask_prompt_def io_defs io_some_def printf_def prompt_text_def)

lemma conf_sym_round:
  assumes "askable st m y v" "fin st = l @ newline # rest" "typed_line l"
  obtains x where "conf_sym sym_calc (Suc n) m y st
    = sym_step sym_calc n m y (sym_answer (strip (l @ [newline])) (sym_get_tristate_value (engine st) y))
        (st\<lparr>line_buf := strip (l @ [newline]), fin := rest, fout := fout st @ x\<rparr>)"
proof -
  have a: "menu_prompt (menutab (engine st) m) \<noteq> None" "asks st y"
    "sym_get_string_value sym_calc y (engine st) = Some (v, engine st)" using assms(1) by (simp_all add: askable_def)
  obtain x1 where 1: "ask_prompt m st = Done () (st\<lparr>fout := fout st @ x1\<rparr>)" by (rule prompt_asked[OF a(1)])
  let ?name = "case sym_name (symtab (engine st) y) of None \<Rightarrow> [] | Some k \<Rightarrow> ''('' @ k @ '') ''"
    and ?can = "sym_choices_text (engine st) m y" and ?b = "strip (l @ [newline])"
  let ?s1 = "st\<lparr>fout := fout st @ x1\<rparr>"
  let ?s2 = "?s1\<lparr>fout := fout ?s1 @ ?name\<rparr>"
  let ?s3 = "?s2\<lparr>fout := fout ?s2 @ ?can\<rparr>"
  have "asks ?s3 y" using a(2) by (simp add: asks_def)
  then obtain x3 where 3: "conf_askvalue y v ?s3 = ask_line (?s3\<lparr>fout := fout ?s3 @ x3, line_buf := [newline]\<rparr>)"
    by (rule askvalue_asks)
  let ?s4 = "?s3\<lparr>fout := fout ?s3 @ x3, line_buf := [newline]\<rparr>"
  let ?s5 = "?s4\<lparr>line_buf := l @ [newline], fin := rest, fout := fout ?s4 @ eol ?s4\<rparr>"
  have 4: "conf_askvalue y v ?s3 = Done True ?s5"
    unfolding 3 by (rule ask_line_typed) (use assms(2,3) in simp_all)
  have v: "io_call (sym_get_string_value sym_calc y) ?s3 = Done v ?s3"
    using a(3) by (simp add: io_call_def)
  have b: "set_line ?b ?s5 = Done () (?s5\<lparr>line_buf := ?b\<rparr>)" by (simp add: set_line_def io_upd_def)
  have e: "engine ?s1 = engine st" "engine ?s2 = engine st" "line_buf ?s5 = l @ [newline]" by simp_all
  have "conf_sym sym_calc (Suc n) m y st
    = sym_step sym_calc n m y (sym_answer ?b (sym_get_tristate_value (engine st) y)) (?s5\<lparr>line_buf := ?b\<rparr>)"
    unfolding conf_sym.simps sym_step_def
    by (rule io_step(2), rule 1, subst io_get_bind, unfold e, rule io_step(2), rule printf_option, rule io_step(2),
      rule printf_Done, rule io_step(1), rule v, rule io_step(1), rule 4, unfold simp_thms if_False,
      subst io_get_bind, unfold e, rule io_step(2), rule b, rule refl)
  also have "?s5\<lparr>line_buf := ?b\<rparr> = st\<lparr>line_buf := ?b, fin := rest, fout := fout st @ x1 @ ?name @ ?can @ x3 @ eol st\<rparr>"
    by (simp add: eol_def)
  finally show ?thesis by (rule that)
qed

text \<open>Lines that are no answer are asked again.\<close>

lemma conf_sym_again:
  assumes "askable st m y v" "fin st = concat (map (\<lambda>l. l @ [newline]) bad) @ rest"
    and "\<forall>l \<in> set bad. typed_line l \<and> sym_answer (strip (l @ [newline])) (sym_get_tristate_value (engine st) y) = Ask_again"
  obtains x b where "conf_sym sym_calc (length bad + n) m y st
    = conf_sym sym_calc n m y (st\<lparr>line_buf := b, fin := rest, fout := fout st @ x\<rparr>)"
  using assms
proof (induction bad arbitrary: st thesis)
  case Nil
  have "st\<lparr>line_buf := line_buf st, fin := rest, fout := fout st @ []\<rparr> = st" using Nil(3) by simp
  then show ?case using Nil(1)[of "[]" "line_buf st"] by simp
next
  case (Cons l bad)
  let ?i = "concat (map (\<lambda>l. l @ [newline]) bad) @ rest" and ?b = "strip (l @ [newline])"
  have i: "fin st = l @ newline # ?i" and l: "typed_line l" using Cons.prems(3,4) by simp_all
  obtain o1 where 1: "conf_sym sym_calc (Suc (length bad + n)) m y st
    = sym_step sym_calc (length bad + n) m y (sym_answer ?b (sym_get_tristate_value (engine st) y))
        (st\<lparr>line_buf := ?b, fin := ?i, fout := fout st @ o1\<rparr>)"
    by (rule conf_sym_round[OF Cons.prems(2) i l])
  let ?t = "st\<lparr>line_buf := ?b, fin := ?i, fout := fout st @ o1\<rparr>"
  have "askable ?t m y v" using Cons.prems(2) by (simp add: askable_def asks_def)
  then obtain o2 b where 2: "conf_sym sym_calc (length bad + n) m y ?t
    = conf_sym sym_calc n m y (?t\<lparr>line_buf := b, fin := rest, fout := fout ?t @ o2\<rparr>)"
    by (rule Cons.IH[rotated]) (use Cons.prems(4) in simp_all)
  have "sym_step sym_calc (length bad + n) m y (sym_answer ?b (sym_get_tristate_value (engine st) y)) ?t
      = conf_sym sym_calc (length bad + n) m y ?t"
    using Cons.prems(4) by (simp add: sym_step_def)
  then have "conf_sym sym_calc (length (l # bad) + n) m y st
      = conf_sym sym_calc n m y (st\<lparr>line_buf := b, fin := rest, fout := fout st @ o1 @ o2\<rparr>)"
    using 1 2 by (simp del: conf_sym.simps)
  then show ?case by (rule Cons.prems(1))
qed

lemma set_tristate_accepts:
  assumes "loadable s" "y \<in> sym_univ s" "logic_sym s y" "v = sym_get_tristate_value s y \<or> sym_tristate_within_range s y v"
  obtains t where "sym_set_tristate_value sym_calc y v s = Some (True, t)" "steady s t"
proof -
  obtain b t where t: "sym_set_tristate_value sym_calc y v s = Some (b, t)" "steady s t"
    using set_tristate_runs[OF assms(1-3), of v] unfolding runs_def by blast
  have "b" using t(1) assms(4) by (auto simp: sym_set_tristate_value_def Let_def bind_eq_Some_conv split: if_splits)
  then show ?thesis using that t by simp
qed

subsection \<open>Strings and numbers at the end of the input\<close>

text \<open>At the end of the input the answer is the value that is shown; if it is refused, the
  question is asked again in the same state of the engine.\<close>

lemma conf_string_eof:
  assumes "askable st m y (VStr d)" "fin st = []"
    "sym_set_string_value sym_calc y d (engine st) = Some (False, engine st)"
  obtains x e where "x \<noteq> []" "\<forall>n. conf_string sym_calc (Suc n) m y st
    = conf_string sym_calc n m y (st\<lparr>fout := fout st @ x, ferr := ferr st @ e, line_buf := [newline]\<rparr>)"
proof -
  have a: "menu_prompt (menutab (engine st) m) \<noteq> None" "asks st y"
    "sym_get_string_value sym_calc y (engine st) = Some (VStr d, engine st)" using assms(1) by (simp_all add: askable_def)
  obtain x1 where 1: "ask_prompt m st = Done () (st\<lparr>fout := fout st @ x1\<rparr>)" by (rule prompt_asked[OF a(1)])
  let ?name = "''('' @ or_null (sym_name (symtab (engine st) y)) @ '') ''" and ?d = "''['' @ d @ ''] ''"
  let ?s1 = "st\<lparr>fout := fout st @ x1\<rparr>"
  let ?s2 = "?s1\<lparr>fout := fout ?s1 @ ?name\<rparr>"
  let ?s3 = "?s2\<lparr>fout := fout ?s2 @ ?d\<rparr>"
  have "asks ?s3 y" using a(2) by (simp add: asks_def)
  then obtain x3 where 3: "conf_askvalue y (VStr d) ?s3 = ask_line (?s3\<lparr>fout := fout ?s3 @ x3, line_buf := [newline]\<rparr>)"
    by (rule askvalue_asks)
  let ?s4 = "?s3\<lparr>fout := fout ?s3 @ x3, line_buf := [newline]\<rparr>"
  have "fin ?s4 = []" using assms(2) by simp
  then obtain e where "ask_line ?s4 = Done True (?s4\<lparr>ferr := ferr ?s4 @ e, fout := fout ?s4 @ eol ?s4\<rparr>)"
    by (rule ask_line_eof)
  then have 4: "conf_askvalue y (VStr d) ?s3 = Done True (?s4\<lparr>ferr := ferr ?s4 @ e, fout := fout ?s4 @ eol ?s4\<rparr>)"
    unfolding 3 .
  let ?s5 = "?s4\<lparr>ferr := ferr ?s4 @ e, fout := fout ?s4 @ eol ?s4\<rparr>"
  let ?x = "x1 @ ?name @ ?d @ x3 @ eol st"
  have v: "io_call (sym_get_string_value sym_calc y) ?s2 = Done (VStr d) ?s2" using a(3) by (simp add: io_call_def)
  have p: "io_some (value_pointer (VStr d)) ?s2 = Done (Some d) ?s2"
    by (simp add: io_some_def value_pointer_def io_return_def)
  have w: "io_some (string_answer (line_buf ?s5) (Some d)) ?s5 = Done (Set_to (Some d)) ?s5"
    by (simp add: io_some_def string_answer_def char_at_def io_return_def)
  have r: "io_call (sym_set_string_value sym_calc y d) ?s5 = Done False ?s5" using assms(3) by (simp add: io_call_def)
  have e: "engine ?s1 = engine st" by simp
  have "conf_string sym_calc (Suc n) m y st = conf_string sym_calc n m y ?s5" for n
    unfolding conf_string.simps
    by (rule io_step(2), rule 1, subst io_get_bind, unfold e, rule io_step(2), rule printf_Done, rule io_step(1),
      rule v, rule io_step(1), rule p, unfold option.case, rule io_step(2), rule printf_Done, rule io_step(1), rule 4,
      unfold simp_thms if_False, subst io_get_bind, rule io_step(1), rule w, unfold string_answer.case option.case,
      rule io_step(1), rule r, unfold if_False, rule refl)
  moreover have "?s5 = st\<lparr>fout := fout st @ ?x, ferr := ferr st @ e, line_buf := [newline]\<rparr>" by (simp add: eol_def)
  ultimately have "conf_string sym_calc (Suc n) m y st
      = conf_string sym_calc n m y (st\<lparr>fout := fout st @ ?x, ferr := ferr st @ e, line_buf := [newline]\<rparr>)" for n
    by simp
  then show ?thesis by (intro that[of ?x e]) simp_all
qed

lemma conf_string_rounds:
  assumes "askable st m y (VStr d)" "fin st = []"
    "sym_set_string_value sym_calc y d (engine st) = Some (False, engine st)"
  obtains t where "\<forall>n. conf_string sym_calc (k + n) m y st = conf_string sym_calc n m y t"
    "engine t = engine st" "prefix (fout st) (fout t)" "length (fout st) + k \<le> length (fout t)"
  using assms
proof (induction k arbitrary: st thesis)
  case 0
  show ?case by (rule "0.prems"(1)[of st]) simp_all
next
  case (Suc k)
  obtain x e where 1: "x \<noteq> []" "\<forall>n. conf_string sym_calc (Suc n) m y st
    = conf_string sym_calc n m y (st\<lparr>fout := fout st @ x, ferr := ferr st @ e, line_buf := [newline]\<rparr>)"
    by (rule conf_string_eof[OF Suc.prems(2-4)])
  let ?t = "st\<lparr>fout := fout st @ x, ferr := ferr st @ e, line_buf := [newline]\<rparr>"
  have "askable ?t m y (VStr d)" "fin ?t = []"
    "sym_set_string_value sym_calc y d (engine ?t) = Some (False, engine ?t)"
    using Suc.prems(2-4) by (simp_all add: askable_def asks_def)
  then obtain u where 2: "\<forall>n. conf_string sym_calc (k + n) m y ?t = conf_string sym_calc n m y u"
    "engine u = engine ?t" "prefix (fout ?t) (fout u)" "length (fout ?t) + k \<le> length (fout u)"
    by (rule Suc.IH[rotated]) blast
  show ?case
  proof (rule Suc.prems(1)[of u])
    show "\<forall>n. conf_string sym_calc (Suc k + n) m y st = conf_string sym_calc n m y u"
      using 1(2) 2(1) by (simp del: conf_string.simps)
    show "engine u = engine st" using 2(2) by simp
    show "prefix (fout st) (fout u)" using 2(3) append_prefixD by fastforce
    have "1 \<le> length x" using 1(1) by (cases x) simp_all
    moreover have "length (fout st) + length x + k \<le> length (fout u)" using 2(4) by simp
    ultimately show "length (fout st) + Suc k \<le> length (fout u)" by linarith
  qed
qed

end
