(* ===== verification/Conf_Properties.thy ===== *)
theory Conf_Properties
  imports Conf_Dialog
begin

text \<open>
  The properties of the line oriented front end: its questions keep the engine well-formed, the
  modes that ask nothing end, an answer that fits ends a question, and the end of the input does
  not.
\<close>

subsection \<open>A front end for the witnesses\<close>

lemma demo_menu_same: "same_conf demo_conf demo_menu"
  by (simp add: same_conf_def demo_menu_def lkc_inline_defs)

lemma demo_menu_loadable: "loadable demo_menu"
proof -
  have r: "calc_ready demo_menu" "hash_ok demo_menu" using demo_writable by (simp_all add: writable_conf_def)
  have c: "choices_ok demo_menu" by (rule choices_ok_same[OF demo_menu_same, THEN iffD2, OF demo_conf_ready(3)])
  have u: "sym_univ demo_menu = sym_univ demo" by (simp add: sym_univ_def demo_menu_def)
  have h: "\<not> sym_has_value demo_menu y" for y
    by (cases y) (auto simp: sym_has_value_def has_flag_def demo_menu_def demo_defs init_symtab_def)
  have "users_ok demo_menu"
    using h sym_wf_user[OF readyD(1)[OF r(1)]] by (simp add: users_ok_def)
  then show ?thesis using r c unfolding loadable_def u demo_univ
    by (simp add: demo_menu_def demo_defs)
qed

lemma demo_session: "session_ok demo_menu [MTree 1 [], MTree 2 []]"
proof -
  have u: "sym_univ demo_menu = sym_univ demo" by (simp add: sym_univ_def demo_menu_def)
  have "menus_ok demo_menu"
    by (simp add: menus_ok_def entry_ok_def u demo_univ)
      (simp add: demo_menu_def demo_menutab_def zero_menu_def rootmenu_def expr_ok_def demo_defs)
  then show ?thesis using demo_menu_loadable demo_writable by (simp add: session_ok_def writable_conf_def)
qed

lemma session_ok_session: "session_ok s ts \<Longrightarrow> session s"
  by (simp add: session_ok_def session_def)

definition demo_front :: "input_mode \<Rightarrow> string \<Rightarrow> front" where
  "demo_front mode input = (front_init False input demo_menu demo_world)\<lparr>input_mode := mode\<rparr>"

lemma demo_front_fields:
  "engine (demo_front mode i) = demo_menu" "input_mode (demo_front mode i) = mode" "fin (demo_front mode i) = i"
  "fworld (demo_front mode i) = demo_world" "fout (demo_front mode i) = []" "sync_kconfig (demo_front mode i) = False"
  by (simp_all add: demo_front_def front_init_def)

subsection \<open>What the questions keep\<close>


subsection \<open>The modes that ask nothing\<close>

lemma session_writable:
  assumes "session_ok s ts" "menu_prompt (menutab s rootmenu) \<noteq> None"
  shows "writable_conf s ts"
proof -
  have m: "menus_ok s" "loadable s" "menu_tree s ts" using assms(1) by (simp_all add: session_ok_def)
  have "entry_ok s k" if "k \<in> set (preorder ts)" for k
    using menus_okD(1)[OF m(1)] tree_bounds(1)[OF assms(1)] that by blast
  then show ?thesis using m assms(2) by (simp add: writable_conf_def loadable_def)
qed

text \<open>Reading the configuration, or finding none where there are no defaults.\<close>

lemma read_config:
  assumes "loadable s" "zconf_fopen w (conf_get_configname w) \<noteq> None \<or> sym_defconfig_list s = None"
    and "\<forall>str. zconf_fopen w (conf_get_configname w) = Some str \<longrightarrow> (\<forall>l \<in> set (file_lines str). c_str l \<noteq> ''#'')"
  obtains u where "conf_read sym_calc w None s = Some (zconf_fopen w (conf_get_configname w) = None, u)" "steady s u"
proof (cases "zconf_fopen w (conf_get_configname w)")
  case (Some str)
  have o: "conf_read_open sym_calc w None (sym_set_change_count 0 s)
      = Some (Some (conf_get_configname w, str), sym_set_change_count 0 s)"
    using Some by (simp add: conf_read_open_def)
  have b: "conf_base s" using assms(1) loadable_base by blast
  obtain u where "conf_read sym_calc w None s = Some (False, u)" "loadable u" "skeleton u = skeleton s"
    by (rule conf_read_file[OF b o]) (use assms(3) Some in blast)
  then show ?thesis using that Some by (simp add: steady_def)
next
  case None
  let ?z = "sym_set_change_count 0 s"
  have z: "loadable ?z" "skeleton ?z = skeleton s" "sym_defconfig_list ?z = sym_defconfig_list s"
  proof -
    have "same_tabs s ?z" by (simp add: same_tabs_def, simp add: sym_set_change_count_def Let_def)
    then have "conf_base ?z" "users_ok ?z" "skeleton ?z = skeleton s"
      using store_base(1) assms(1) loadable_base by (auto simp: same_tabs_def users_ok_def user_ok_def sym_univ_def
          all_symbols_def hash_symbols_def lkc_inline_defs)
    then show "loadable ?z" "skeleton ?z = skeleton s" by (simp_all add: loadable_base)
  qed (simp add: sym_set_change_count_def Let_def)
  then have "keeps ?z (sym_add_change_count 1 ?z)" by (intro change_count_keeps) simp_all
  then have a: "loadable (sym_add_change_count 1 ?z)" "skeleton (sym_add_change_count 1 ?z) = skeleton s"
    using z by (simp_all add: keeps_def)
  obtain t where t: "calc_opt sym_calc (modules_sym (sym_add_change_count 1 ?z)) (sym_add_change_count 1 ?z) = Some t"
    "keeps (sym_add_change_count 1 ?z) t" by (rule modules_keeps[OF a(1)])
  have d: "sym_defconfig_list (sym_add_change_count 1 ?z) = None"
    using None assms(2) z(3) by (simp add: sym_add_change_count_def sym_set_change_count_def Let_def)
  have "conf_read sym_calc w None s = Some (True, t)"
    using None d t(1) by (simp add: conf_read_def conf_read_simple_def conf_read_open_def Let_def)
  then show ?thesis using that None t(2) a(2) by (simp add: keeps_def steady_def)
qed

text \<open>C7: to list the new symbols or to give them their defaults, the menu is searched once: the
  search returns on every menu tree, asks nothing and reads no input. It prints nothing for
  \<open>olddefconfig\<close>; for \<open>listnewconfig\<close> it prints a line for some symbols of the menu that have a
  name and are no values of a choice. Only the caches of the engine and the counter change
  besides.\<close>

theorem quiet_search_returns:
  assumes "session_ok (engine st) ts" "input_mode st \<in> quiet_modes" "nmenus (engine st) < n"
  shows "\<exists>s ys. set_phase sym_calc n st
        = Done () (st\<lparr>conf_cnt := 0, engine := s, fout := fout st @ new_lines (fworld st) (engine st) ys\<rparr>)
      \<and> session_ok s ts \<and> skeleton s = skeleton (engine st)
      \<and> (\<forall>y \<in> set ys. listed (engine st) ts y) \<and> (input_mode st = olddefconfig \<longrightarrow> ys = [])"
proof -
  obtain t where t: "update_loop sym_calc n st = Done () t" "quiet (st\<lparr>conf_cnt := 0\<rparr>) ts t"
    by (rule quiet_update[OF assms])
  have "set_phase sym_calc n st = update_loop sym_calc n st"
    using assms(2) by (auto simp: set_phase_def io_get_def io_bind_def quiet_modes_def)
  then show ?thesis using t session_steady[OF assms(1)] steadyD(2) unfolding quiet_def by fastforce
qed

lemma write_error_exits:
  obtains e where "io_seq (write_error x) (io_exit c) u = Exit c (u\<lparr>ferr := ferr u @ e\<rparr>)"
proof
  show "io_seq (write_error x) (io_exit c) u = Exit c (u\<lparr>ferr := ferr u
      @ newline # ''*** Error during '' @ x @ '' of the configuration.'' @ [newline, newline]\<rparr>)"
    unfolding write_error_def eprintf_def io_defs io_exit_def by (simp only: outcome.case)
qed

text \<open>The phases of \<open>olddefconfig\<close>.\<close>

lemma olddef_search:
  assumes "session_ok (engine st) ts" "input_mode st = olddefconfig" "nmenus (engine st) < n"
    and "zconf_fopen (fworld st) (conf_get_configname (fworld st)) \<noteq> None \<or> sym_defconfig_list (engine st) = None"
    and "\<forall>str. zconf_fopen (fworld st) (conf_get_configname (fworld st)) = Some str
      \<longrightarrow> (\<forall>l \<in> set (file_lines str). c_str l \<noteq> ''#'')"
  obtains r s where "conf_read sym_calc (fworld st) None (engine st)
      = Some (zconf_fopen (fworld st) (conf_get_configname (fworld st)) = None, r)"
    "steady (engine st) r" "steady r s" "read_phase sym_calc arg st = Done arg (st\<lparr>engine := r\<rparr>)"
    "set_phase sym_calc n (st\<lparr>engine := r\<rparr>) = Done () (st\<lparr>conf_cnt := 0, engine := s\<rparr>)"
proof -
  obtain r where r: "conf_read sym_calc (fworld st) None (engine st)
      = Some (zconf_fopen (fworld st) (conf_get_configname (fworld st)) = None, r)" "steady (engine st) r"
    by (rule read_config[OF session_loadable[OF assms(1)] assms(4,5)])
  let ?s1 = "st\<lparr>engine := r\<rparr>"
  have s1: "session_ok (engine ?s1) ts" using session_steady[OF assms(1) r(2)] by simp
  have "input_mode ?s1 \<in> quiet_modes" "nmenus (engine ?s1) < n"
    using assms(2,3) skelD(14)[OF steadyD(2)[OF r(2)]] by (simp_all add: quiet_modes_def)
  from quiet_update[OF s1 this] obtain t where
    t: "update_loop sym_calc n ?s1 = Done () t" "quiet (?s1\<lparr>conf_cnt := 0\<rparr>) ts t" by blast
  obtain s where s: "t = st\<lparr>conf_cnt := 0, engine := s\<rparr>" "steady r s"
    using t(2) assms(2) by (auto simp: quiet_def new_lines_def)
  have "set_phase sym_calc n ?s1 = Done () (st\<lparr>conf_cnt := 0, engine := s\<rparr>)"
    using t(1) s(1) assms(2) by (simp add: set_phase_def io_get_def io_bind_def)
  moreover have "read_phase sym_calc arg st = Done arg ?s1"
    using assms(2) r(1) by (simp add: read_phase_def io_conf_read_def io_call_def io_defs)
  ultimately show ?thesis using that r s(2) by blast
qed

lemma olddef_write:
  assumes "conf_write sym_calc (fworld st) None (engine st) = Some (failed, s', w')"
    "input_mode st = olddefconfig" "\<not> sync_kconfig st"
  obtains e where "write_phase sym_calc arg st = (if failed then Exit 1 (st\<lparr>engine := s', fworld := w', ferr := ferr st @ e\<rparr>)
    else Done 0 (st\<lparr>engine := s', fworld := w'\<rparr>))"
proof -
  let ?u = "st\<lparr>engine := s', fworld := w'\<rparr>"
  obtain e where e: "io_seq (write_error ''writing'') (io_exit 1 :: int io) ?u = Exit 1 (?u\<lparr>ferr := ferr ?u @ e\<rparr>)"
    by (rule write_error_exits)
  have mode: "sync_kconfig st = False" "input_mode st = olddefconfig" using assms(2,3) by simp_all
  have w: "io_conf_write sym_calc st = Done failed ?u"
    using assms(1) by (simp add: io_conf_write_def io_world_def)
  have "write_phase sym_calc arg st = (if failed then Exit 1 (?u\<lparr>ferr := ferr ?u @ e\<rparr>) else Done 0 ?u)"
    unfolding write_phase_def
    by (subst io_get_bind, subst io_get_bind, unfold mode, simp only: input_mode.simps if_False if_True not_False_eq_True)
      (rule io_step(1), rule w, cases failed, simp_all only: if_True if_False e io_return_def)
  then show ?thesis by (intro that[of e]) simp
qed


subsection \<open>Answers\<close>

text \<open>C9: the question for a boolean or tristate symbol ends with the first line that is an
  answer. Lines before it that say nothing are asked again; the line is taken from the input with
  them, the value it names is set (an empty line keeps the value), and the rest of the input is
  left for the next question.\<close>

theorem conf_sym_answered:
  assumes "loadable (engine st)" "y \<in> sym_univ (engine st)" "logic_sym (engine st) y" "askable st m y cur"
    and "fin st = concat (map (\<lambda>l. l @ [newline]) (bad @ [good])) @ rest"
    and "\<forall>l \<in> set bad. typed_line l \<and> char_at (strip (l @ [newline])) 0 \<noteq> CHR ''?''
      \<and> (\<forall>v. \<not> says (strip (l @ [newline])) (sym_get_tristate_value (engine st) y) v)"
    and "typed_line good" "says (strip (good @ [newline])) (sym_get_tristate_value (engine st) y) v"
    and "v = sym_get_tristate_value (engine st) y \<or> sym_tristate_within_range (engine st) y v"
    and "length bad < n"
  shows "\<exists>s out. sym_set_tristate_value sym_calc y v (engine st) = Some (True, s) \<and> steady (engine st) s
    \<and> conf_sym sym_calc n m y st
      = Done () (st\<lparr>line_buf := strip (good @ [newline]), fin := rest, fout := fout st @ out, engine := s\<rparr>)"
proof -
  have bad: "\<forall>l \<in> set bad. typed_line l \<and> sym_answer (strip (l @ [newline])) (sym_get_tristate_value (engine st) y) = Ask_again"
    using assms(6) sym_answer_says(2) by blast
  have good: "sym_answer (strip (good @ [newline])) (sym_get_tristate_value (engine st) y) = Answer v"
    by (rule sym_answer_says(1)[OF assms(8)])
  obtain k where n: "n = length bad + Suc k" using assms(10) less_imp_add_positive[of "length bad" n] gr0_implies_Suc by fastforce
  obtain s where s: "sym_set_tristate_value sym_calc y v (engine st) = Some (True, s)" "steady (engine st) s"
    by (rule set_tristate_accepts[OF assms(1-3,9)])
  have i: "fin st = concat (map (\<lambda>l. l @ [newline]) bad) @ good @ newline # rest" using assms(5) by simp
  obtain x b where 1: "conf_sym sym_calc (length bad + Suc k) m y st
    = conf_sym sym_calc (Suc k) m y (st\<lparr>line_buf := b, fin := good @ newline # rest, fout := fout st @ x\<rparr>)"
    by (rule conf_sym_again[OF assms(4) i bad])
  let ?t = "st\<lparr>line_buf := b, fin := good @ newline # rest, fout := fout st @ x\<rparr>"
  have "askable ?t m y cur" "fin ?t = good @ newline # rest" using assms(4) by (simp_all add: askable_def asks_def)
  then obtain z where 2: "conf_sym sym_calc (Suc k) m y ?t
    = sym_step sym_calc k m y (sym_answer (strip (good @ [newline])) (sym_get_tristate_value (engine ?t) y))
        (?t\<lparr>line_buf := strip (good @ [newline]), fin := rest, fout := fout ?t @ z\<rparr>)"
    by (rule conf_sym_round[OF _ _ assms(7)])
  have "conf_sym sym_calc n m y st
      = Done () (st\<lparr>line_buf := strip (good @ [newline]), fin := rest, fout := fout st @ x @ z, engine := s\<rparr>)"
    unfolding n 1 2 using good s(1) by (simp add: sym_step_def io_defs io_call_def)
  then show ?thesis using s by blast
qed

text \<open>C10: at the end of the input the question for a number that has no valid value never ends:
  the empty answer stands for the value that is shown, which is refused, so that the question is
  asked again, for every bound on the number of rounds, and prints more each time.\<close>

theorem conf_string_eof_loops:
  assumes "askable st m y (VStr d)" "fin st = []"
    and "sym_type (symtab (engine st) y) \<in> {S_INT, S_HEX}" "\<not> sym_string_valid (engine st) y d"
  shows "(\<forall>n. conf_string sym_calc n m y st = Stuck)
    \<and> (\<forall>k. \<exists>t. (\<forall>n. conf_string sym_calc (k + n) m y st = conf_string sym_calc n m y t)
          \<and> engine t = engine st \<and> length (fout st) + k \<le> length (fout t))"
proof -
  have r: "sym_set_string_value sym_calc y d (engine st) = Some (False, engine st)"
    using assms(3,4) by (auto simp: sym_set_string_value_def sym_string_within_range_def num_within_range_def)
  have t: "\<exists>t. (\<forall>n. conf_string sym_calc (k + n) m y st = conf_string sym_calc n m y t)
          \<and> engine t = engine st \<and> length (fout st) + k \<le> length (fout t)" for k
    by (rule conf_string_rounds[OF assms(1,2) r, of k]) blast
  have "conf_string sym_calc k m y st = Stuck" for k
    using t[of k] by (metis add_0_right conf_string.simps(1) io_stuck_def)
  then show ?thesis using t by blast
qed

subsection \<open>Witnesses\<close>


theorem quiet_search_returns_witness:
  "\<exists>s ys. set_phase sym_calc 5 (demo_front listnewconfig ''y'')
        = Done () ((demo_front listnewconfig ''y'')\<lparr>conf_cnt := 0, engine := s, fout := new_lines demo_world demo_menu ys\<rparr>)
      \<and> (\<forall>y \<in> set ys. listed demo_menu [MTree 1 [], MTree 2 []] y)"
proof -
  have "session_ok (engine (demo_front listnewconfig ''y'')) [MTree 1 [], MTree 2 []]"
    "input_mode (demo_front listnewconfig ''y'') \<in> quiet_modes" "nmenus (engine (demo_front listnewconfig ''y'')) < 5"
    using demo_session by (simp_all add: demo_front_fields quiet_modes_def demo_menu_def)
  from quiet_search_returns[OF this] show ?thesis unfolding demo_front_fields append_Nil by blast
qed


text \<open>The same menu with a visible boolean and a visible number without a value.\<close>

definition demo_asked :: kconf where
  "demo_asked = demo_menu\<lparr>symtab := (\<lambda>y. if y \<in> {heap_sym 0, heap_sym 2}
       then (symtab demo_menu y)\<lparr>sym_visible := tyes\<rparr> else symtab demo_menu y)\<rparr>"

lemma demo_asked_loadable: "loadable demo_asked"
proof -
  have c: "same_conf demo_menu demo_asked" by (simp add: same_conf_def demo_asked_def lkc_inline_defs)
  have h: "\<not> sym_has_value demo_asked y" for y
    by (cases y) (auto simp: sym_has_value_def has_flag_def demo_asked_def demo_menu_def demo_defs init_symtab_def)
  have u: "sym_univ demo_asked = sym_univ demo_menu" "all_symbols demo_asked = all_symbols demo_menu"
    using all_symbols_same[OF c] by (simp_all add: sym_univ_def demo_asked_def)
  have l: "calc_ready demo_menu" "hash_ok demo_menu" "choices_ok demo_menu" "users_ok demo_menu"
    using demo_menu_loadable by (simp_all add: loadable_def)
  have user: "user_ok demo_asked y" if "y \<in> sym_univ demo_menu" for y
    using users_okD(1)[OF l(4) that] by (simp add: user_ok_def lkc_inline_defs demo_asked_def)
  have "calc_ready demo_asked"
  proof (rule ready_same[OF l(1) c])
    show "has_flag SYMBOL_VALID y demo_asked" if "y \<in> {symbol_yes, symbol_mod, symbol_no, symbol_empty}" for y
      using const_valid[OF l(1) that] by (simp add: has_flag_def demo_asked_def)
    show "user_ok demo_asked y" if "y \<in> sym_univ demo_menu" for y by (rule user[OF that])
  qed (simp_all add: has_flag_def demo_asked_def split: if_splits)
  moreover have "hash_ok demo_asked" using l(2) by (simp add: hash_ok_def hash_symbols_def u demo_asked_def)
  moreover have "choices_ok demo_asked" using l(3) choices_ok_same[OF c] by simp
  moreover have "users_ok demo_asked" using user h by (simp add: users_ok_def u)
  moreover have "sym_type (symtab demo_asked y) = sym_type (symtab demo_menu y)" for y by (simp add: demo_asked_def)
  ultimately show ?thesis using demo_menu_loadable unfolding loadable_def u by simp
qed

lemma demo_askable:
  "askable ((demo_front oldaskconfig i)\<lparr>engine := demo_asked\<rparr>) 1 (heap_sym 0) (VStr ''n'')"
  "askable ((demo_front oldaskconfig i)\<lparr>engine := demo_asked\<rparr>) 1 (heap_sym 2) (VStr [])"
  by (simp_all add: askable_def asks_def demo_front_fields demo_asked_def demo_menu_def demo_menutab_def demo_defs
      sym_is_changable_def sel_tri_def sym_get_string_value_def sym_get_tristate_value_def)

theorem conf_sym_answered_witness:
  "\<exists>s out. sym_set_tristate_value sym_calc (heap_sym 0) tyes demo_asked = Some (True, s)
    \<and> conf_sym sym_calc 2 1 (heap_sym 0)
        ((demo_front oldaskconfig (''maybe'' @ newline # '' y'' @ newline # ''next''))\<lparr>engine := demo_asked\<rparr>)
      = Done () ((demo_front oldaskconfig ''next'')\<lparr>line_buf := ''y'', fout := out, engine := s\<rparr>)"
proof -
  let ?st = "(demo_front oldaskconfig (''maybe'' @ newline # '' y'' @ newline # ''next''))\<lparr>engine := demo_asked\<rparr>"
  have u: "heap_sym 0 \<in> sym_univ (engine ?st)" "logic_sym (engine ?st) (heap_sym 0)"
    by (simp_all add: sym_univ_def demo_asked_def demo_menu_def demo_defs)
  have st: "strip (''maybe'' @ [newline]) = ''maybe''" "strip ('' y'' @ [newline]) = ''y''"
    by (simp_all add: strip_def isspace_def in_range_def)
  have r: "sym_tristate_within_range (engine ?st) (heap_sym 0) tyes"
    by (simp add: sym_tristate_within_range_def sym_get_type_def sel_tri_def demo_asked_def demo_menu_def demo_defs
        lkc_inline_defs)
  have a: "loadable (engine ?st)" using demo_asked_loadable by simp
  have f: "fin ?st = concat (map (\<lambda>l. l @ [newline]) ([''maybe''] @ ['' y''])) @ ''next''" by (simp add: demo_front_fields)
  have none: "\<not> says ''maybe'' old v" for old v by (cases v) (simp_all add: says_def)
  have bad: "\<forall>l \<in> set [''maybe'']. typed_line l \<and> char_at (strip (l @ [newline])) 0 \<noteq> CHR ''?''
      \<and> (\<forall>v. \<not> says (strip (l @ [newline])) (sym_get_tristate_value (engine ?st) (heap_sym 0)) v)"
    by (simp only: list.set ball_simps st none) (simp add: typed_line_def char_at_def)
  have good: "typed_line '' y''"
    "says (strip ('' y'' @ [newline])) (sym_get_tristate_value (engine ?st) (heap_sym 0)) tyes"
    unfolding st by (simp_all add: typed_line_def says_def)
  from conf_sym_answered[OF a u demo_askable(1) f bad good disjI2[OF r], of 2] show ?thesis
    unfolding st by (auto simp: demo_front_def front_init_def)
qed

theorem conf_string_eof_loops_witness:
  "\<forall>n. conf_string sym_calc n 1 (heap_sym 2) ((demo_front oldaskconfig [])\<lparr>engine := demo_asked\<rparr>) = Stuck"
proof -
  have "sym_type (symtab demo_asked (heap_sym 2)) \<in> {S_INT, S_HEX}" "\<not> sym_string_valid demo_asked (heap_sym 2) []"
    by (simp_all add: demo_asked_def demo_menu_def demo_defs sym_string_valid_def int_string_valid_def char_at_def)
  from conf_string_eof_loops[OF demo_askable(2), of "[]"] this show ?thesis by (simp add: demo_front_fields)
qed

end
