(* ===== verification/Scan.thy ===== *)
theory Scan
  imports Symbol_Tab World
begin

text \<open>
  The scanner of the configuration language (\<open>adk/config/zconf.l\<close>, as compiled in
  \<open>zconf.lex.c\<close>): the tokens, the table of key words, the rules of each start condition, and
  the function \<open>zconflex\<close>. flex takes the longest match and, of two, the rule that comes first.
\<close>

subsection \<open>Tokens and key words\<close>

datatype ztoken =
  T_MAINMENU | T_MENU | T_ENDMENU | T_SOURCE | T_CHOICE | T_ENDCHOICE | T_COMMENT | T_CONFIG | T_MENUCONFIG
| T_HELP | T_HELPTEXT string | T_IF | T_ENDIF | T_DEPENDS | T_OPTIONAL | T_PROMPT | T_TYPE symbol_type
| T_DEFAULT symbol_type | T_SELECT | T_RANGE | T_VISIBLE | T_OPTION | T_ON | T_WORD string
| T_WORD_QUOTE string | T_UNEQUAL | T_CLOSE_PAREN | T_OPEN_PAREN | T_EOL | T_OR | T_AND | T_EQUAL | T_NOT
| T_END

text \<open>The entries of \<open>zconf.gperf\<close> with the flags \<open>TF_COMMAND\<close> and \<open>TF_PARAM\<close>.\<close>

definition command_words :: "(string \<times> ztoken) list" where
  "command_words = [
     (''mainmenu'', T_MAINMENU), (''menu'', T_MENU), (''endmenu'', T_ENDMENU), (''source'', T_SOURCE),
     (''choice'', T_CHOICE), (''endchoice'', T_ENDCHOICE), (''comment'', T_COMMENT), (''config'', T_CONFIG),
     (''menuconfig'', T_MENUCONFIG), (''help'', T_HELP), (''if'', T_IF), (''endif'', T_ENDIF),
     (''depends'', T_DEPENDS), (''optional'', T_OPTIONAL), (''default'', T_DEFAULT S_UNKNOWN),
     (''prompt'', T_PROMPT), (''tristate'', T_TYPE S_TRISTATE), (''def_tristate'', T_DEFAULT S_TRISTATE),
     (''bool'', T_TYPE S_BOOLEAN), (''boolean'', T_TYPE S_BOOLEAN), (''def_bool'', T_DEFAULT S_BOOLEAN),
     (''int'', T_TYPE S_INT), (''hex'', T_TYPE S_HEX), (''string'', T_TYPE S_STRING), (''select'', T_SELECT),
     (''range'', T_RANGE), (''visible'', T_VISIBLE), (''option'', T_OPTION)]"

definition param_words :: "(string \<times> ztoken) list" where
  "param_words = [(''if'', T_IF), (''on'', T_ON)]"

subsection \<open>The state\<close>

datatype start_state = INITIAL | COMMAND | HELP | STRING | PARAM

text \<open>\<open>struct file\<close>; the parent is the file that includes it.\<close>

record source_file =
  src_name :: string
  src_lineno :: nat
  src_parent :: "nat option"

text \<open>
  The start condition, the rest of the current buffer and those of the buffers below, the text
  that is collected, the indentation of help texts, the quote of the current string (a local
  variable of \<open>zconflex\<close>), the files by the order they were looked up in, and \<open>current_pos\<close>.
\<close>

record scanner =
  yy_start :: start_state
  yy_input :: string
  yy_stack :: "string list"
  yy_text :: string
  last_ts :: nat
  first_ts :: nat
  yy_quote :: "char option"
  src_files :: "source_file list"
  src_current :: "nat option"
  pos_file :: "nat option"
  pos_lineno :: nat

definition upd_file :: "nat \<Rightarrow> (source_file \<Rightarrow> source_file) \<Rightarrow> scanner \<Rightarrow> scanner" where
  "upd_file i f sc = sc\<lparr>src_files := (src_files sc)[i := f (src_files sc ! i)]\<rparr>"

text \<open>\<open>current_file->lineno++\<close>\<close>

definition next_line :: "scanner \<Rightarrow> scanner" where
  "next_line sc = (case src_current sc of
     None \<Rightarrow> sc | Some i \<Rightarrow> upd_file i (\<lambda>f. f\<lparr>src_lineno := Suc (src_lineno f)\<rparr>) sc)"

definition set_pos :: "scanner \<Rightarrow> scanner" where
  "set_pos sc = sc\<lparr>pos_file := src_current sc,
     pos_lineno := (case src_current sc of None \<Rightarrow> 0 | Some i \<Rightarrow> src_lineno (src_files sc ! i))\<rparr>"

definition append_string :: "string \<Rightarrow> scanner \<Rightarrow> scanner" where
  "append_string str sc = sc\<lparr>yy_text := yy_text sc @ str\<rparr>"

text \<open>Taking a match from the input, perhaps with a change of the start condition.\<close>

definition rest_is :: "string \<Rightarrow> scanner \<Rightarrow> scanner" where
  "rest_is str sc = sc\<lparr>yy_input := str\<rparr>"

definition begin_in :: "start_state \<Rightarrow> scanner \<Rightarrow> scanner" where
  "begin_in st sc = sc\<lparr>yy_start := st\<rparr>"

definition zconf_starthelp :: "scanner \<Rightarrow> scanner" where
  "zconf_starthelp sc = begin_in HELP (sc\<lparr>yy_text := [], last_ts := 0, first_ts := 0\<rparr>)"

definition zconf_endfile :: "scanner \<Rightarrow> scanner" where
  "zconf_endfile sc =
     (let sc = sc\<lparr>src_current := Option.bind (src_current sc) (\<lambda>i. src_parent (src_files sc ! i))\<rparr> in
      case yy_stack sc of [] \<Rightarrow> sc | b # bs \<Rightarrow> sc\<lparr>yy_input := b, yy_stack := bs\<rparr>)"

subsection \<open>The rules\<close>

text \<open>A match returns a token or goes on.\<close>

datatype lex_step = Token ztoken scanner | More scanner

definition is_blank :: "char \<Rightarrow> bool" where
  "is_blank c \<longleftrightarrow> c = CHR '' '' \<or> c = CHR 0x09"

definition is_word :: "char \<Rightarrow> bool" where
  "is_word c \<longleftrightarrow> isalnum c \<or> c = CHR ''_''"

definition is_param :: "char \<Rightarrow> bool" where
  "is_param c \<longleftrightarrow> is_word c \<or> c = CHR ''-'' \<or> c = CHR ''/'' \<or> c = CHR ''.''"

definition is_quote :: "char \<Rightarrow> bool" where
  "is_quote c \<longleftrightarrow> c = dquote \<or> c = CHR 0x27"

definition is_plain :: "char \<Rightarrow> bool" where
  "is_plain c \<longleftrightarrow> \<not> is_quote c \<and> c \<noteq> backslash \<and> c \<noteq> newline"

definition to_eol :: "string \<Rightarrow> string" where
  "to_eol = takeWhile (\<lambda>c. c \<noteq> newline)"

definition from_eol :: "string \<Rightarrow> string" where
  "from_eol = dropWhile (\<lambda>c. c \<noteq> newline)"

definition lex_eof :: "scanner \<Rightarrow> lex_step" where
  "lex_eof sc = (if src_current sc \<noteq> None then Token T_EOL (zconf_endfile sc) else Token T_END sc)"

text \<open>The beginning of a line: comments and empty lines are skipped.\<close>

definition lex_initial :: "scanner \<Rightarrow> lex_step" where
  "lex_initial sc = (case yy_input sc of
     [] \<Rightarrow> lex_eof sc
   | _ \<Rightarrow>
      (case dropWhile is_blank (yy_input sc) of
         [] \<Rightarrow> More (begin_in COMMAND (rest_is [] sc))
       | c # cs \<Rightarrow>
          (if c = CHR ''#'' then
             (case from_eol cs of
                [] \<Rightarrow> More (rest_is [] sc)
              | _ # r \<Rightarrow> Token T_EOL (next_line (rest_is r sc)))
           else if c = newline then Token T_EOL (next_line (rest_is cs sc))
           else More (begin_in COMMAND (rest_is (c # cs) sc)))))"

definition lex_command :: "scanner \<Rightarrow> lex_step" where
  "lex_command sc = (case yy_input sc of
     [] \<Rightarrow> lex_eof sc
   | c # cs \<Rightarrow>
      (if is_word c then
         (let w = takeWhile is_word (c # cs);
              sc = set_pos (begin_in PARAM (rest_is (dropWhile is_word (c # cs)) sc))
          in case map_of command_words w of
               Some t \<Rightarrow> Token t sc
             | None \<Rightarrow> Token (T_WORD w) (sc\<lparr>yy_text := w\<rparr>))
       else if c = newline then Token T_EOL (next_line (begin_in INITIAL (rest_is cs sc)))
       else More (rest_is cs sc)))"

text \<open>The operators of one or two characters.\<close>

definition param_op :: "string \<Rightarrow> (ztoken \<times> string) option" where
  "param_op i =
     (if starts_with ''&&'' i then Some (T_AND, drop 2 i)
      else if starts_with ''||'' i then Some (T_OR, drop 2 i)
      else if starts_with ''!='' i then Some (T_UNEQUAL, drop 2 i)
      else if starts_with ''('' i then Some (T_OPEN_PAREN, drop 1 i)
      else if starts_with '')'' i then Some (T_CLOSE_PAREN, drop 1 i)
      else if starts_with ''!'' i then Some (T_NOT, drop 1 i)
      else if starts_with ''='' i then Some (T_EQUAL, drop 1 i)
      else None)"

definition lex_param :: "scanner \<Rightarrow> lex_step" where
  "lex_param sc = (case yy_input sc of
     [] \<Rightarrow> More (begin_in INITIAL sc)
   | c # cs \<Rightarrow>
      (case param_op (c # cs) of
         Some (t, r) \<Rightarrow> Token t (rest_is r sc)
       | None \<Rightarrow>
          (if is_quote c then More (begin_in STRING (rest_is cs sc\<lparr>yy_quote := Some c, yy_text := []\<rparr>))
           else if c = newline then Token T_EOL (next_line (begin_in INITIAL (rest_is cs sc)))
           else if is_param c then
             (let w = takeWhile is_param (c # cs); sc = rest_is (dropWhile is_param (c # cs)) sc in
              if w = ''---'' then More sc
              else (case map_of param_words w of
                      Some t \<Rightarrow> Token t sc
                    | None \<Rightarrow> Token (T_WORD w) (sc\<lparr>yy_text := w\<rparr>)))
           else if c = CHR ''#'' then More (rest_is (from_eol cs) sc)
           else if c = backslash \<and> starts_with [newline] cs then More (next_line (rest_is (drop 1 cs) sc))
           else More (rest_is cs sc))))"

text \<open>A part of a string: at the end of the line it ends the string.\<close>

definition string_part :: "string \<Rightarrow> string \<Rightarrow> scanner \<Rightarrow> lex_step" where
  "string_part str r sc =
     (let sc = append_string str (rest_is r sc) in
      if starts_with [newline] r then Token (T_WORD_QUOTE (yy_text sc)) sc else More sc)"

definition lex_string :: "scanner \<Rightarrow> lex_step" where
  "lex_string sc = (case yy_input sc of
     [] \<Rightarrow> More (begin_in INITIAL sc)
   | c # cs \<Rightarrow>
      (if is_plain c then string_part (takeWhile is_plain (c # cs)) (dropWhile is_plain (c # cs)) sc
       else if c = backslash then
         (if cs = [] \<or> starts_with [newline] cs then string_part [] cs sc
          else string_part [hd cs] (tl cs) sc)
       else if is_quote c then
         (if yy_quote sc = Some c then Token (T_WORD_QUOTE (yy_text sc)) (begin_in PARAM (rest_is cs sc))
          else More (append_string [c] (rest_is cs sc)))
       else Token T_EOL (begin_in INITIAL (next_line (rest_is cs sc)))))"

text \<open>The width of white space.\<close>

definition width_step :: "nat \<Rightarrow> char \<Rightarrow> nat" where
  "width_step ts c = (if c = CHR 0x09 then ts div 8 * 8 + 8 else Suc ts)"

definition blank_width :: "string \<Rightarrow> nat" where
  "blank_width = foldl width_step 0"

definition end_help :: "scanner \<Rightarrow> lex_step" where
  "end_help sc = Token (T_HELPTEXT (yy_text sc)) (begin_in INITIAL sc)"

definition help_blank :: "string \<Rightarrow> string \<Rightarrow> scanner \<Rightarrow> lex_step" where
  "help_blank ws r sc =
     (let ts = blank_width ws; sc = rest_is r sc\<lparr>last_ts := ts\<rparr> in
      if first_ts sc = 0 then More sc
      else if ts < first_ts sc then end_help sc
      else More (append_string (replicate (ts - first_ts sc) CHR '' '') sc))"

definition lex_help :: "scanner \<Rightarrow> lex_step" where
  "lex_help sc =
     (let i = yy_input sc; ws = takeWhile is_blank i; r = dropWhile is_blank i in
      if i = [] then end_help sc
      else if r \<noteq> [] \<and> hd r = newline then
        (if tl r \<noteq> [] \<and> \<not> is_blank (hd (tl r)) \<and> hd (tl r) \<noteq> newline
         then end_help (next_line (rest_is (tl r) sc))
         else More (append_string [newline] (next_line (rest_is (tl r) sc))))
      else if ws \<noteq> [] then help_blank ws r sc
      else
        (let l = rev (dropWhile is_blank (rev (to_eol i))); sc = append_string l (rest_is (from_eol i) sc) in
         More (if first_ts sc = 0 then sc\<lparr>first_ts := last_ts sc\<rparr> else sc)))"

primrec lex_rules :: "start_state \<Rightarrow> scanner \<Rightarrow> lex_step" where
  "lex_rules INITIAL = lex_initial"
| "lex_rules COMMAND = lex_command"
| "lex_rules PARAM = lex_param"
| "lex_rules STRING = lex_string"
| "lex_rules HELP = lex_help"

definition lex_step :: "scanner \<Rightarrow> lex_step" where
  "lex_step sc = lex_rules (yy_start sc) sc"

subsection \<open>The loop\<close>

text \<open>A match that goes on takes input or leads to a condition that does.\<close>

primrec state_rank :: "start_state \<Rightarrow> nat" where
  "state_rank INITIAL = 1"
| "state_rank COMMAND = 0"
| "state_rank PARAM = 2"
| "state_rank STRING = 2"
| "state_rank HELP = 0"

definition lex_work :: "scanner \<Rightarrow> nat" where
  "lex_work sc = 3 * length (yy_input sc) + state_rank (yy_start sc)"

lemma lex_fields [simp]:
  "yy_input (next_line sc) = yy_input sc" "yy_start (next_line sc) = yy_start sc"
  "yy_input (rest_is r sc) = r" "yy_start (rest_is r sc) = yy_start sc"
  "yy_input (begin_in st sc) = yy_input sc" "yy_start (begin_in st sc) = st"
  "yy_input (append_string str sc) = yy_input sc" "yy_start (append_string str sc) = yy_start sc"
  "yy_input (set_pos sc) = yy_input sc" "yy_start (set_pos sc) = yy_start sc"
  by (simp_all add: next_line_def upd_file_def rest_is_def begin_in_def append_string_def set_pos_def split: option.split)

lemma drop_while_less: "P c \<Longrightarrow> length (dropWhile P (c # cs)) < length (c # cs)"
  using length_dropWhile_le[of P cs] by simp

lemma lex_step_work: "lex_step sc = More sc' \<Longrightarrow> lex_work sc' < lex_work sc"
proof (cases "yy_start sc")
  case INITIAL
  assume a: "lex_step sc = More sc'"
  let ?r = "dropWhile is_blank (yy_input sc)"
  have l: "length ?r \<le> length (yy_input sc)" by (rule length_dropWhile_le)
  show ?thesis
  proof (cases "yy_input sc")
    case Nil
    then show ?thesis using a INITIAL by (simp add: lex_step_def lex_initial_def lex_eof_def split: if_splits)
  next
    case (Cons d ds)
    show ?thesis
    proof (cases ?r)
      case Nil
      then show ?thesis using a INITIAL Cons by (auto simp: lex_step_def lex_initial_def lex_work_def)
    next
      case r: (Cons c cs)
      then have i: "lex_initial sc = (if c = CHR ''#'' then
             (case from_eol cs of
                [] \<Rightarrow> More (rest_is [] sc)
              | _ # r \<Rightarrow> Token T_EOL (next_line (rest_is r sc)))
           else if c = newline then Token T_EOL (next_line (rest_is cs sc))
           else More (begin_in COMMAND (rest_is (c # cs) sc)))"
        using Cons by (simp add: lex_initial_def)
      have n: "lex_step sc = lex_initial sc" using INITIAL by (simp add: lex_step_def)
      show ?thesis using a l INITIAL Cons r unfolding n i
        by (cases "from_eol cs") (auto simp: lex_work_def split: if_splits)
    qed
  qed
next
  case COMMAND
  assume "lex_step sc = More sc'"
  then show ?thesis using COMMAND
    by (cases "yy_input sc") (auto simp: lex_step_def lex_command_def lex_work_def lex_eof_def Let_def split: if_splits option.splits)
next
  case PARAM
  assume a: "lex_step sc = More sc'"
  show ?thesis
  proof (cases "yy_input sc")
    case Nil
    then show ?thesis using a PARAM by (auto simp: lex_step_def lex_param_def lex_work_def)
  next
    case (Cons c cs)
    have "length (dropWhile is_param cs) \<le> length cs" "length (from_eol cs) \<le> length cs"
      by (simp_all add: from_eol_def length_dropWhile_le)
    then show ?thesis using a PARAM Cons
      by (auto simp: lex_step_def lex_param_def lex_work_def Let_def split: if_splits option.splits)
  qed
next
  case STRING
  assume a: "lex_step sc = More sc'"
  show ?thesis
  proof (cases "yy_input sc")
    case Nil
    then show ?thesis using a STRING by (auto simp: lex_step_def lex_string_def lex_work_def)
  next
    case (Cons c cs)
    have "length (dropWhile is_plain cs) \<le> length cs" by (rule length_dropWhile_le)
    then show ?thesis using a STRING Cons
      by (auto simp: lex_step_def lex_string_def lex_work_def Let_def string_part_def split: if_splits)
  qed
next
  case HELP
  assume a: "lex_step sc = More sc'"
  then have i: "yy_input sc \<noteq> []" using HELP by (auto simp: lex_step_def lex_help_def end_help_def)
  let ?r = "dropWhile is_blank (yy_input sc)"
  have l: "length ?r \<le> length (yy_input sc)" "length (from_eol (yy_input sc)) \<le> length (yy_input sc)"
    by (simp_all add: from_eol_def length_dropWhile_le)
  have t: "length ?r - Suc 0 < length (yy_input sc)" using l(1) i by (cases "yy_input sc") auto
  have ws: "length ?r < length (yy_input sc)" if "takeWhile is_blank (yy_input sc) \<noteq> []"
  proof -
    have "length (takeWhile is_blank (yy_input sc)) + length ?r = length (yy_input sc)"
      by (metis takeWhile_dropWhile_id length_append)
    moreover have "0 < length (takeWhile is_blank (yy_input sc))" using that by blast
    ultimately show ?thesis by linarith
  qed
  have e: "length (from_eol (yy_input sc)) < length (yy_input sc)"
    if "takeWhile is_blank (yy_input sc) = []" "\<not> (?r \<noteq> [] \<and> hd ?r = newline)"
  proof -
    obtain c cs where c: "yy_input sc = c # cs" using i by (cases "yy_input sc") auto
    then have "\<not> is_blank c" using that(1) by (auto split: if_splits)
    then show ?thesis using that(2) c length_dropWhile_le[of "\<lambda>c. c \<noteq> newline" cs] by (auto simp: from_eol_def)
  qed
  show ?thesis using a HELP i l t ws e
    by (auto simp: lex_step_def lex_help_def lex_work_def Let_def end_help_def help_blank_def split: if_splits)
qed

function lex_loop :: "scanner \<Rightarrow> ztoken \<times> scanner" where
  "lex_loop sc = (case lex_step sc of Token t sc' \<Rightarrow> (t, sc') | More sc' \<Rightarrow> lex_loop sc')"
  by pat_completeness auto

termination by (relation "measure lex_work") (auto dest: lex_step_work)

declare lex_loop.simps [simp del]

definition zconflex :: "scanner \<Rightarrow> ztoken \<times> scanner" where
  "zconflex sc = lex_loop (sc\<lparr>yy_quote := None\<rparr>)"

end
