(* ===== verification/Parse.thy ===== *)
theory Parse
  imports Scan Menu Confdata
begin

text \<open>
  The grammar of the configuration language (\<open>adk/config/zconf.y\<close>) with its actions. bison builds
  an LALR(1) parser from it; the model descends through the same rules and reads the look-ahead
  where that parser has to, because an action may depend on what the scanner has read. A syntax
  error is \<open>Refused\<close>, which is final: the code goes on to find more errors, but bison counts each of
  them in \<open>zconfnerrs\<close>, so the first one makes the program exit with status 1. (\<open>YYERROR\<close>, for an
  option that a choice cannot have, is counted only at the next newline; the model refuses it at
  once. The two differ if that option stands on the last line of all, without a newline.)
\<close>

subsection \<open>The state of the parser\<close>

text \<open>The scanner, the look-ahead, the engine, and the file of every menu entry (a pointer).\<close>

record parser =
  scan :: scanner
  look :: "ztoken option"
  kc :: kconf
  entry_file :: "menuref \<Rightarrow> nat option"

datatype 'a presult = Parsed 'a parser | Refused | Crashed

type_synonym 'a pm = "parser \<Rightarrow> 'a presult"

definition p_return :: "'a \<Rightarrow> 'a pm" where
  "p_return x st = Parsed x st"

definition p_bind :: "'a pm \<Rightarrow> ('a \<Rightarrow> 'b pm) \<Rightarrow> 'b pm" where
  "p_bind m f st = (case m st of Parsed x t \<Rightarrow> f x t | Refused \<Rightarrow> Refused | Crashed \<Rightarrow> Crashed)"

definition p_seq :: "'a pm \<Rightarrow> 'b pm \<Rightarrow> 'b pm" where
  "p_seq m k = p_bind m (\<lambda>_. k)"

definition p_refuse :: "'a pm" where
  "p_refuse st = Refused"

definition p_crash :: "'a pm" where
  "p_crash st = Crashed"

definition p_get :: "(parser \<Rightarrow> 'a) \<Rightarrow> 'a pm" where
  "p_get f st = Parsed (f st) st"

text \<open>An operation of the engine.\<close>

definition p_call :: "(kconf \<Rightarrow> ('a \<times> kconf) option) \<Rightarrow> 'a pm" where
  "p_call f st = (case f (kc st) of None \<Rightarrow> Crashed | Some (x, s) \<Rightarrow> Parsed x (st\<lparr>kc := s\<rparr>))"

definition p_act :: "(kconf \<Rightarrow> kconf option) \<Rightarrow> unit pm" where
  "p_act f = p_call (\<lambda>s. map_option (Pair ()) (f s))"

text \<open>The globals that the engine shares with the scanner.\<close>

definition file_name :: "scanner \<Rightarrow> nat option \<Rightarrow> string option" where
  "file_name sc i = map_option (\<lambda>i. src_name (src_files sc ! i)) i"

definition sync :: "scanner \<Rightarrow> kconf \<Rightarrow> kconf" where
  "sync sc s = s\<lparr>current_file := file_name sc (src_current sc), zconf_lineno := pos_lineno sc\<rparr>"

definition peek :: "ztoken pm" where
  "peek st = (case look st of
     Some t \<Rightarrow> Parsed t st
   | None \<Rightarrow> (case zconflex (scan st) of (t, sc) \<Rightarrow>
       Parsed t (st\<lparr>scan := sc, look := Some t, kc := sync sc (kc st)\<rparr>)))"

definition shift :: "unit pm" where
  "shift st = Parsed () (st\<lparr>look := None\<rparr>)"

definition next_token :: "ztoken pm" where
  "next_token = p_bind peek (\<lambda>t. p_seq shift (p_return t))"

definition expect :: "ztoken \<Rightarrow> unit pm" where
  "expect t = p_bind next_token (\<lambda>u. if u = t then p_return () else p_refuse)"

text \<open>\<open>zconfprint\<close> and \<open>zconf_error\<close>: the position is the one of the last word at the beginning
  of a line.\<close>

definition p_print :: "string \<Rightarrow> unit pm" where
  "p_print msg st = Parsed () (st\<lparr>kc := kwarn
     ((case file_name (scan st) (pos_file (scan st)) of None \<Rightarrow> ''<none>'' | Some f \<Rightarrow> f) @ '':''
       @ show_nat 10 (pos_lineno (scan st)) @ '': '' @ msg) (kc st)\<rparr>)"

definition p_count_error :: "unit pm" where
  "p_count_error = p_act (\<lambda>s. Some (s\<lparr>zconfnerrs := Suc (zconfnerrs s)\<rparr>))"

definition p_error :: "string \<Rightarrow> unit pm" where
  "p_error msg = p_seq p_count_error (p_print msg)"

subsection \<open>Words, symbols and expressions\<close>

definition p_word :: "string pm" where
  "p_word = p_bind next_token (\<lambda>t. case t of T_WORD w \<Rightarrow> p_return w | _ \<Rightarrow> p_refuse)"

definition p_prompt :: "string pm" where
  "p_prompt = p_bind next_token (\<lambda>t. case t of
     T_WORD w \<Rightarrow> p_return w | T_WORD_QUOTE w \<Rightarrow> p_return w | _ \<Rightarrow> p_refuse)"

definition p_lookup :: "string option \<Rightarrow> symflag set \<Rightarrow> symref pm" where
  "p_lookup name flags = p_call (\<lambda>s. Some (sym_lookup name flags s))"

definition p_symbol :: "symref pm" where
  "p_symbol = p_bind next_token (\<lambda>t. case t of
     T_WORD w \<Rightarrow> p_lookup (Some w) {}
   | T_WORD_QUOTE w \<Rightarrow> p_lookup (Some w) {SYMBOL_CONST}
   | _ \<Rightarrow> p_refuse)"

text \<open>A symbol or the comparison of two.\<close>

definition p_compare :: "expr pm" where
  "p_compare =
     p_bind p_symbol (\<lambda>y.
     p_bind peek (\<lambda>t.
     if t = T_EQUAL then p_seq shift (p_bind p_symbol (\<lambda>z. p_return (expr_alloc_comp E_EQUAL y z)))
     else if t = T_UNEQUAL then p_seq shift (p_bind p_symbol (\<lambda>z. p_return (expr_alloc_comp E_UNEQUAL y z)))
     else p_return (expr_alloc_symbol y)))"

text \<open>
  Negation binds tighter than \<open>&&\<close>, and that tighter than \<open>||\<close>; both group to the left. The
  fuel bounds the depth and the number of operators.
\<close>

fun p_unary :: "nat \<Rightarrow> expr pm"
  and p_and :: "nat \<Rightarrow> expr \<Rightarrow> expr pm"
  and p_or :: "nat \<Rightarrow> expr \<Rightarrow> expr pm" where
  "p_unary 0 = p_crash"
| "p_unary (Suc n) =
     p_bind peek (\<lambda>t.
     if t = T_NOT then p_seq shift (p_bind (p_unary n) (\<lambda>e. p_return (expr_alloc_one E_NOT e)))
     else if t = T_OPEN_PAREN then
       p_seq shift
       (p_bind (p_unary n) (\<lambda>e.
        p_bind (p_and n e) (\<lambda>e.
        p_bind (p_or n e) (\<lambda>e.
        p_seq (expect T_CLOSE_PAREN) (p_return e)))))
     else p_compare)"
| "p_and 0 e = p_crash"
| "p_and (Suc n) e =
     p_bind peek (\<lambda>t.
     if t = T_AND then p_seq shift (p_bind (p_unary n) (\<lambda>r. p_and n (expr_alloc_two E_AND e r)))
     else p_return e)"
| "p_or 0 e = p_crash"
| "p_or (Suc n) e =
     p_bind peek (\<lambda>t.
     if t = T_OR then
       p_seq shift
       (p_bind (p_unary n) (\<lambda>r.
        p_bind (p_and n r) (\<lambda>r. p_or n (expr_alloc_two E_OR e r))))
     else p_return e)"

definition p_expr :: "nat \<Rightarrow> expr pm" where
  "p_expr n = p_bind (p_unary n) (\<lambda>e. p_bind (p_and n e) (p_or n))"

definition p_if_expr :: "nat \<Rightarrow> expr option pm" where
  "p_if_expr n = p_bind peek (\<lambda>t.
     if t = T_IF then p_seq shift (p_bind (p_expr n) (\<lambda>e. p_return (Some e))) else p_return None)"

subsection \<open>Options of an entry\<close>

definition p_prompt_opt :: "nat \<Rightarrow> unit pm" where
  "p_prompt_opt n = p_bind peek (\<lambda>t. case t of
     T_EOL \<Rightarrow> p_return ()
   | _ \<Rightarrow>
      p_bind p_prompt (\<lambda>str.
      p_bind (p_if_expr n) (\<lambda>c.
      p_bind (p_call (menu_add_prompt P_PROMPT str c)) (\<lambda>_. p_return ()))))"

definition p_type_option :: "nat \<Rightarrow> symbol_type \<Rightarrow> unit pm" where
  "p_type_option n ty =
     p_seq shift (p_seq (p_prompt_opt n) (p_seq (expect T_EOL) (p_act (menu_set_type ty))))"

definition p_prompt_option :: "nat \<Rightarrow> unit pm" where
  "p_prompt_option n =
     p_seq shift
     (p_bind p_prompt (\<lambda>str.
      p_bind (p_if_expr n) (\<lambda>c.
      p_seq (expect T_EOL)
      (p_bind (p_call (menu_add_prompt P_PROMPT str c)) (\<lambda>_. p_return ())))))"

definition p_default_option :: "nat \<Rightarrow> symbol_type \<Rightarrow> unit pm" where
  "p_default_option n ty =
     p_seq shift
     (p_bind (p_expr n) (\<lambda>e.
      p_bind (p_if_expr n) (\<lambda>c.
      p_seq (expect T_EOL)
      (p_seq (p_act (menu_add_expr P_DEFAULT (Some e) c))
        (if ty \<noteq> S_UNKNOWN then p_act (menu_set_type ty) else p_return ())))))"

text \<open>\<open>select\<close>, perhaps with a value; the symbol is looked up last.\<close>

definition p_select_option :: "nat \<Rightarrow> unit pm" where
  "p_select_option n =
     p_seq shift
     (p_bind p_word (\<lambda>w.
      p_bind peek (\<lambda>t.
      p_bind (if t = T_IF \<or> t = T_EOL then p_return None
              else p_bind (p_expr n) (\<lambda>e. p_return (Some e))) (\<lambda>v.
      p_bind (p_if_expr n) (\<lambda>c.
      p_seq (expect T_EOL)
      (p_bind (p_lookup (Some w) {}) (\<lambda>y. p_act (menu_add_select y v c))))))))"

definition p_range_option :: "nat \<Rightarrow> unit pm" where
  "p_range_option n =
     p_seq shift
     (p_bind p_symbol (\<lambda>y.
      p_bind p_symbol (\<lambda>z.
      p_bind (p_if_expr n) (\<lambda>c.
      p_seq (expect T_EOL) (p_act (menu_add_expr P_RANGE (Some (expr_alloc_comp E_RANGE y z)) c))))))"

text \<open>The key words with the flag \<open>TF_OPTION\<close>.\<close>

definition option_words :: "(string \<times> option_token) list" where
  "option_words = [(''modules'', T_OPT_MODULES), (''defconfig_list'', T_OPT_DEFCONFIG_LIST),
     (''env'', T_OPT_ENV), (''allnoconfig_y'', T_OPT_ALLNOCONFIG_Y)]"

text \<open>An option of a symbol; \<open>env\<close> without a value hands a null pointer to \<open>getenv\<close>.\<close>

definition p_add_option :: "world \<Rightarrow> string \<Rightarrow> string option \<Rightarrow> unit pm" where
  "p_add_option w word arg = (case map_of option_words word of
     None \<Rightarrow> p_print (''warning: ignoring unknown option '' @ word)
   | Some tok \<Rightarrow>
      (case arg of
         Some a \<Rightarrow> p_act (menu_add_option (w_env w) tok a)
       | None \<Rightarrow> if tok = T_OPT_ENV then p_crash else p_act (menu_add_option (w_env w) tok [])))"

definition p_option_arg :: "string option pm" where
  "p_option_arg = p_bind peek (\<lambda>t.
     if t = T_EQUAL then p_seq shift (p_bind p_prompt (\<lambda>a. p_return (Some a))) else p_return None)"

fun p_symbol_options :: "world \<Rightarrow> nat \<Rightarrow> unit pm" where
  "p_symbol_options w 0 = p_crash"
| "p_symbol_options w (Suc n) =
     p_bind next_token (\<lambda>t. case t of
       T_WORD word \<Rightarrow>
         p_bind p_option_arg (\<lambda>arg. p_seq (p_add_option w word arg) (p_symbol_options w n))
     | T_EOL \<Rightarrow> p_return ()
     | _ \<Rightarrow> p_refuse)"

definition p_depends :: "nat \<Rightarrow> unit pm" where
  "p_depends n =
     p_seq shift
     (p_seq (expect T_ON)
     (p_bind (p_expr n) (\<lambda>e.
      p_seq (expect T_EOL) (p_act (menu_add_dep (Some e))))))"

definition p_help :: "unit pm" where
  "p_help =
     p_seq shift
     (p_seq (expect T_EOL)
     (p_seq (\<lambda>st. Parsed () (st\<lparr>scan := zconf_starthelp (scan st)\<rparr>))
     (p_bind next_token (\<lambda>t. case t of
        T_HELPTEXT str \<Rightarrow> p_act (\<lambda>s. Some (upd_menu (current_entry s) (\<lambda>x. x\<lparr>menu_help := Some str\<rparr>) s))
      | _ \<Rightarrow> p_refuse))))"

text \<open>\<open>config_option_list\<close>; it ends before a token that begins no option.\<close>

fun p_config_options :: "world \<Rightarrow> nat \<Rightarrow> unit pm" where
  "p_config_options w 0 = p_crash"
| "p_config_options w (Suc n) =
     p_bind peek (\<lambda>t. case t of
       T_TYPE ty \<Rightarrow> p_seq (p_type_option n ty) (p_config_options w n)
     | T_PROMPT \<Rightarrow> p_seq (p_prompt_option n) (p_config_options w n)
     | T_DEFAULT ty \<Rightarrow> p_seq (p_default_option n ty) (p_config_options w n)
     | T_SELECT \<Rightarrow> p_seq (p_select_option n) (p_config_options w n)
     | T_RANGE \<Rightarrow> p_seq (p_range_option n) (p_config_options w n)
     | T_OPTION \<Rightarrow> p_seq (p_seq shift (p_symbol_options w n)) (p_config_options w n)
     | T_DEPENDS \<Rightarrow> p_seq (p_depends n) (p_config_options w n)
     | T_HELP \<Rightarrow> p_seq p_help (p_config_options w n)
     | T_EOL \<Rightarrow> p_seq shift (p_config_options w n)
     | T_WORD u \<Rightarrow> p_refuse
     | _ \<Rightarrow> p_return ())"

text \<open>The default of a choice is a symbol.\<close>

definition p_choice_default :: "nat \<Rightarrow> symbol_type \<Rightarrow> unit pm" where
  "p_choice_default n ty =
     p_seq shift
     (p_bind p_word (\<lambda>w.
      p_bind (p_if_expr n) (\<lambda>c.
      p_seq (expect T_EOL)
        (if ty = S_UNKNOWN then p_bind (p_lookup (Some w) {}) (\<lambda>y. p_act (menu_add_symbol P_DEFAULT y c))
         else p_refuse))))"

definition p_optional :: "unit pm" where
  "p_optional =
     p_seq shift
     (p_seq (expect T_EOL)
     (p_act (\<lambda>s. map_option (\<lambda>y. set_flag SYMBOL_OPTIONAL y s) (menu_sym (menutab s (current_entry s))))))"

fun p_choice_options :: "nat \<Rightarrow> unit pm" where
  "p_choice_options 0 = p_crash"
| "p_choice_options (Suc n) =
     p_bind peek (\<lambda>t. case t of
       T_TYPE ty \<Rightarrow>
         (if ty = S_BOOLEAN \<or> ty = S_TRISTATE then p_seq (p_type_option n ty) (p_choice_options n) else p_refuse)
     | T_PROMPT \<Rightarrow> p_seq (p_prompt_option n) (p_choice_options n)
     | T_OPTIONAL \<Rightarrow> p_seq p_optional (p_choice_options n)
     | T_DEFAULT ty \<Rightarrow> p_seq (p_choice_default n ty) (p_choice_options n)
     | T_DEPENDS \<Rightarrow> p_seq (p_depends n) (p_choice_options n)
     | T_HELP \<Rightarrow> p_seq p_help (p_choice_options n)
     | T_EOL \<Rightarrow> p_seq shift (p_choice_options n)
     | T_WORD u \<Rightarrow> p_refuse
     | _ \<Rightarrow> p_return ())"

text \<open>The dependencies of a menu or comment, and the visibility of a menu.\<close>

fun p_depends_list :: "nat \<Rightarrow> unit pm" where
  "p_depends_list 0 = p_crash"
| "p_depends_list (Suc n) =
     p_bind peek (\<lambda>t. case t of
       T_DEPENDS \<Rightarrow> p_seq (p_depends n) (p_depends_list n)
     | T_EOL \<Rightarrow> p_seq shift (p_depends_list n)
     | T_WORD u \<Rightarrow> p_refuse
     | _ \<Rightarrow> p_return ())"

fun p_visibility_list :: "nat \<Rightarrow> unit pm" where
  "p_visibility_list 0 = p_crash"
| "p_visibility_list (Suc n) =
     p_bind peek (\<lambda>t. case t of
       T_VISIBLE \<Rightarrow>
         p_seq shift
         (p_bind (p_if_expr n) (\<lambda>c.
          p_seq (p_act (\<lambda>s. Some (menu_add_visibility c s))) (p_visibility_list n)))
     | T_EOL \<Rightarrow> p_seq shift (p_visibility_list n)
     | _ \<Rightarrow> p_return ())"

fun p_eols :: "nat \<Rightarrow> unit pm" where
  "p_eols 0 = p_crash"
| "p_eols (Suc n) = p_bind peek (\<lambda>t. if t = T_EOL then p_seq shift (p_eols n) else p_return ())"

subsection \<open>Entries\<close>

text \<open>\<open>menu_add_entry\<close>, with the file the entry is in.\<close>

definition p_add_entry :: "symref option \<Rightarrow> unit pm" where
  "p_add_entry y st = (case menu_add_entry y (kc st) of
     None \<Rightarrow> Crashed
   | Some s \<Rightarrow> Parsed () (st\<lparr>kc := s, entry_file := (entry_file st)(current_entry s := src_current (scan st))\<rparr>))"

definition p_open_menu :: "unit pm" where
  "p_open_menu = p_act (\<lambda>s. Some (menu_add_menu s))"

definition p_config_start :: "unit pm" where
  "p_config_start =
     p_seq shift
     (p_bind p_word (\<lambda>w.
      p_seq (expect T_EOL)
      (p_bind (p_lookup (Some w) {}) (\<lambda>y.
       p_seq (p_act (\<lambda>s. Some (set_flag SYMBOL_OPTIONAL y s))) (p_add_entry (Some y))))))"

definition p_config :: "world \<Rightarrow> nat \<Rightarrow> unit pm" where
  "p_config w n = p_seq p_config_start (p_seq (p_config_options w n) (p_act (\<lambda>s. Some (menu_end_entry s))))"

text \<open>The prompt of a \<open>menuconfig\<close> is that of a menu.\<close>

definition p_menu_prompt :: "unit pm" where
  "p_menu_prompt =
     p_bind (p_get (\<lambda>st. menu_prompt (menutab (kc st) (current_entry (kc st))))) (\<lambda>p.
     case p of
       Some p \<Rightarrow> p_act (\<lambda>s. Some (upd_prop p (\<lambda>x. x\<lparr>prop_type := P_MENU\<rparr>) s))
     | None \<Rightarrow> p_print ''warning: menuconfig statement without prompt'')"

definition p_menuconfig :: "world \<Rightarrow> nat \<Rightarrow> unit pm" where
  "p_menuconfig w n =
     p_seq p_config_start
     (p_seq (p_config_options w n)
     (p_seq p_menu_prompt (p_act (\<lambda>s. Some (menu_end_entry s)))))"

definition p_comment :: "nat \<Rightarrow> unit pm" where
  "p_comment n =
     p_seq shift
     (p_bind p_prompt (\<lambda>str.
      p_seq (expect T_EOL)
      (p_seq (p_add_entry None)
      (p_bind (p_call (menu_add_prompt P_COMMENT str None)) (\<lambda>_.
       p_seq (p_depends_list n) (p_act (\<lambda>s. Some (menu_end_entry s))))))))"

subsection \<open>Other files\<close>

text \<open>\<open>file_lookup\<close>: the name that is stored is expanded, the one that is compared is not; the
  file that was entered last is found first.\<close>

definition find_file :: "string \<Rightarrow> source_file list \<Rightarrow> nat option" where
  "find_file name fs = List.find (\<lambda>i. src_name (fs ! i) = name) (rev [0..<length fs])"

definition file_lookup :: "calc_fun \<Rightarrow> string \<Rightarrow> nat pm" where
  "file_lookup calc name =
     p_bind (p_call (sym_expand_string_value calc name)) (\<lambda>full.
     p_bind (p_get (\<lambda>st. src_files (scan st))) (\<lambda>fs.
     case find_file name fs of
       Some i \<Rightarrow> p_return i
     | None \<Rightarrow> (\<lambda>st. Parsed (length fs) (st\<lparr>
         scan := (scan st)\<lparr>src_files := fs @ [\<lparr>src_name = full, src_lineno = 0, src_parent = None\<rparr>]\<rparr>,
         kc := (kc st)\<lparr>file_list := full # file_list (kc st)\<rparr>\<rparr>))))"

text \<open>The files that include a file; whether one of them has its name.\<close>

fun includers :: "nat \<Rightarrow> source_file list \<Rightarrow> nat option \<Rightarrow> nat list" where
  "includers 0 fs i = []"
| "includers (Suc n) fs i = (case i of None \<Rightarrow> [] | Some k \<Rightarrow> k # includers n fs (src_parent (fs ! k)))"

definition recursive_file :: "source_file list \<Rightarrow> nat \<Rightarrow> bool" where
  "recursive_file fs i \<longleftrightarrow>
     (\<exists>k \<in> set (includers (length fs) fs (src_parent (fs ! i))). src_name (fs ! k) = src_name (fs ! i))"

definition enter_file :: "nat \<Rightarrow> nat \<Rightarrow> string \<Rightarrow> scanner \<Rightarrow> scanner" where
  "enter_file cur i str sc =
     upd_file i (\<lambda>f. f\<lparr>src_lineno := 1, src_parent := Some cur\<rparr>)
       (sc\<lparr>yy_stack := yy_input sc # yy_stack sc, yy_input := str, src_current := Some i\<rparr>)"

definition zconf_nextfile :: "calc_fun \<Rightarrow> world \<Rightarrow> string \<Rightarrow> unit pm" where
  "zconf_nextfile calc w name =
     p_bind (file_lookup calc name) (\<lambda>i.
     p_bind (p_get scan) (\<lambda>sc.
     case zconf_fopen w (src_name (src_files sc ! i)) of
       None \<Rightarrow> p_refuse
     | Some str \<Rightarrow>
        (case src_current sc of
           None \<Rightarrow> p_crash
         | Some cur \<Rightarrow>
            if recursive_file (src_files sc) cur then p_refuse
            else (\<lambda>st. let sc = enter_file cur i str (scan st)
                       in Parsed () (st\<lparr>scan := sc, kc := sync sc (kc st)\<rparr>)))))"

definition p_source :: "calc_fun \<Rightarrow> world \<Rightarrow> unit pm" where
  "p_source calc w =
     p_seq shift (p_bind p_prompt (\<lambda>name. p_seq (expect T_EOL) (zconf_nextfile calc w name)))"

subsection \<open>Blocks\<close>

definition is_end :: "ztoken \<Rightarrow> bool" where
  "is_end t \<longleftrightarrow> t = T_ENDMENU \<or> t = T_ENDCHOICE \<or> t = T_ENDIF"

text \<open>The names of blocks and of their ends.\<close>

definition zconf_tokenname :: "ztoken \<Rightarrow> string" where
  "zconf_tokenname t = (case t of
     T_MENU \<Rightarrow> ''menu'' | T_ENDMENU \<Rightarrow> ''endmenu'' | T_CHOICE \<Rightarrow> ''choice'' | T_ENDCHOICE \<Rightarrow> ''endchoice''
   | T_IF \<Rightarrow> ''if'' | T_ENDIF \<Rightarrow> ''endif'' | T_DEPENDS \<Rightarrow> ''depends'' | T_VISIBLE \<Rightarrow> ''visible'' | _ \<Rightarrow> ''<token>'')"

text \<open>Whether an end belongs to the block that is open and stands in its file; an error leaves
  the menu open.\<close>

definition zconf_endtoken :: "ztoken \<Rightarrow> ztoken \<Rightarrow> ztoken \<Rightarrow> bool pm" where
  "zconf_endtoken t start stop =
     (if t \<noteq> stop then
        p_seq (p_error (''unexpected '' @ quoted (zconf_tokenname t) @ '' within '' @ zconf_tokenname start @ '' block''))
        (p_seq p_count_error (p_return False))
      else
        p_bind (p_get (\<lambda>st. entry_file st (current_menu (kc st)) \<noteq> src_current (scan st))) (\<lambda>differ.
        if differ then
          p_seq (p_error (quoted (zconf_tokenname t) @ '' in different file than '' @ quoted (zconf_tokenname start)))
          (p_seq (p_act (\<lambda>s. Some (kwarn (or_null (menu_file (menutab s (current_menu s))) @ '':''
                @ show_nat 10 (menu_lineno (menutab s (current_menu s))) @ '': location of the ''
                @ quoted (zconf_tokenname start)) s)))
          (p_seq p_count_error (p_return False)))
        else p_return True))"

definition p_end :: "ztoken \<Rightarrow> ztoken \<Rightarrow> unit pm" where
  "p_end start stop =
     p_bind next_token (\<lambda>t.
     if \<not> is_end t then p_refuse
     else p_seq (expect T_EOL)
       (p_bind (zconf_endtoken t start stop) (\<lambda>ok. if ok then p_act menu_end_menu else p_return ())))"

text \<open>The statements that may stand in every block; \<open>block\<close> parses a block.\<close>

definition p_if :: "(bool \<Rightarrow> unit pm) \<Rightarrow> nat \<Rightarrow> unit pm" where
  "p_if block n =
     p_seq shift
     (p_bind (p_expr n) (\<lambda>e.
      p_seq (expect T_EOL)
      (p_seq (p_eols n)
      (p_seq (p_add_entry None)
      (p_seq (p_act (menu_add_dep (Some e)))
      (p_seq p_open_menu (p_seq (block True) (p_end T_IF T_ENDIF))))))))"

definition p_menu :: "(bool \<Rightarrow> unit pm) \<Rightarrow> nat \<Rightarrow> unit pm" where
  "p_menu block n =
     p_seq shift
     (p_bind p_prompt (\<lambda>str.
      p_seq (expect T_EOL)
      (p_seq (p_add_entry None)
      (p_bind (p_call (menu_add_prompt P_MENU str None)) (\<lambda>_.
       p_seq (p_visibility_list n)
      (p_seq (p_depends_list n)
      (p_seq p_open_menu (p_seq (block True) (p_end T_MENU T_ENDMENU)))))))))"

definition p_choice :: "(bool \<Rightarrow> unit pm) \<Rightarrow> nat \<Rightarrow> unit pm" where
  "p_choice block n =
     p_seq shift
     (p_bind peek (\<lambda>t.
      p_bind (case t of T_WORD w \<Rightarrow> p_seq shift (p_return (Some w)) | _ \<Rightarrow> p_return None) (\<lambda>w.
      p_seq (expect T_EOL)
      (p_bind (p_lookup w {SYMBOL_CHOICE}) (\<lambda>y.
       p_seq (p_act (\<lambda>s. Some (set_flag SYMBOL_AUTO y s)))
      (p_seq (p_add_entry (Some y))
      (p_seq (p_act (menu_add_expr P_CHOICE None None))
      (p_seq (p_choice_options n)
      (p_seq p_open_menu (p_seq (block False) (p_end T_CHOICE T_ENDCHOICE)))))))))))"

text \<open>One statement; whether there was one. A block of a choice holds no menus and choices.\<close>

definition p_stmt :: "calc_fun \<Rightarrow> world \<Rightarrow> (bool \<Rightarrow> unit pm) \<Rightarrow> nat \<Rightarrow> bool \<Rightarrow> bool pm" where
  "p_stmt calc w block n full =
     p_bind peek (\<lambda>t.
     let yes = (\<lambda>m. p_seq m (p_return True)) in
     case t of
       T_EOL \<Rightarrow> yes shift
     | T_IF \<Rightarrow> yes (p_if block n)
     | T_COMMENT \<Rightarrow> yes (p_comment n)
     | T_CONFIG \<Rightarrow> yes (p_config w n)
     | T_MENUCONFIG \<Rightarrow> yes (p_menuconfig w n)
     | T_SOURCE \<Rightarrow> yes (p_source calc w)
     | T_MENU \<Rightarrow> if full then yes (p_menu block n) else p_return False
     | T_CHOICE \<Rightarrow> if full then yes (p_choice block n) else p_return False
     | _ \<Rightarrow> p_return False)"

fun p_block :: "calc_fun \<Rightarrow> world \<Rightarrow> nat \<Rightarrow> bool \<Rightarrow> unit pm" where
  "p_block calc w 0 full = p_crash"
| "p_block calc w (Suc n) full =
     p_bind (p_stmt calc w (p_block calc w n) n full) (\<lambda>more.
     if more then p_block calc w n full else p_return ())"

text \<open>The statements up to the end of the input; an end without a block is an error.\<close>

fun p_stmts :: "calc_fun \<Rightarrow> world \<Rightarrow> nat \<Rightarrow> unit pm" where
  "p_stmts calc w 0 = p_crash"
| "p_stmts calc w (Suc n) =
     p_seq (p_block calc w n True)
     (p_bind peek (\<lambda>t.
      if t = T_END then p_return ()
      else if is_end t then
        p_seq shift (p_seq (expect T_EOL) (p_seq (p_error ''unexpected end statement'') (p_stmts calc w n)))
      else p_refuse))"

definition p_mainmenu :: "nat \<Rightarrow> unit pm" where
  "p_mainmenu n =
     p_seq shift
     (p_bind p_prompt (\<lambda>str.
      p_seq (expect T_EOL)
      (p_seq (p_eols n)
      (p_bind (p_call (menu_add_prompt P_MENU str None)) (\<lambda>_. p_return ())))))"

definition zconfparse :: "calc_fun \<Rightarrow> world \<Rightarrow> nat \<Rightarrow> unit pm" where
  "zconfparse calc w n =
     p_seq (p_eols n)
     (p_bind peek (\<lambda>t.
      p_seq (if t = T_MAINMENU then p_mainmenu n else p_return ()) (p_stmts calc w n)))"

end
