(* ===== verification/Menu_Links.thy ===== *)
theory Menu_Links
  imports Menu_Visible
begin

text \<open>
  The links of the menu entries while they are changed: \<open>seg_at\<close> is a part of a list of siblings,
  \<open>level\<close> an entry with its children and the siblings after it. Operations that keep the links are
  collected in \<open>link_simps\<close>.
\<close>

named_theorems link_simps \<open>operations that keep the links of the menu entries\<close>

definition mlink :: "kconf \<Rightarrow> menuref \<Rightarrow> menuref option \<times> menuref option \<times> menuref option" where
  "mlink s m = (menu_list (menutab s m), menu_next (menutab s m), menu_parent (menutab s m))"

lemma mlinkD:
  assumes "mlink t m = mlink s m"
  shows "menu_list (menutab t m) = menu_list (menutab s m)" "menu_next (menutab t m) = menu_next (menutab s m)"
    "menu_parent (menutab t m) = menu_parent (menutab s m)"
  using assms by (simp_all add: mlink_def)

lemma links_mlink: "links s = (mlink s, nmenus s)"
  by (simp add: links_def mlink_def fun_eq_iff)

lemma links_eqD:
  assumes "links t = links s"
  shows "mlink t m = mlink s m" "nmenus t = nmenus s"
  using assms by (simp_all add: links_mlink)

subsection \<open>Parts of a list of siblings\<close>

fun seg_at :: "kconf \<Rightarrow> menuref \<Rightarrow> menuref option \<Rightarrow> mtree list \<Rightarrow> menuref option \<Rightarrow> bool" where
  "seg_at s p a [] b \<longleftrightarrow> a = b"
| "seg_at s p a (MTree k cs # ts) b \<longleftrightarrow> a = Some k \<and> menu_parent (menutab s k) = Some p
     \<and> forest_at s k (menu_list (menutab s k)) cs \<and> seg_at s p (menu_next (menutab s k)) ts b"

lemma forest_seg: "forest_at s p a ts = seg_at s p a ts None"
proof (induction ts arbitrary: a)
  case Nil
  show ?case by (cases a) simp_all
next
  case (Cons t ts)
  show ?case using Cons by (cases t; cases a) auto
qed

lemma seg_append: "seg_at s p a (us @ vs) c \<longleftrightarrow> (\<exists>b. seg_at s p a us b \<and> seg_at s p b vs c)"
  by (induction s p a us c rule: seg_at.induct) auto

lemma forest_cong:
  "forest_at s p a ts \<Longrightarrow> (\<And>k. k \<in> set (preorder ts) \<Longrightarrow> mlink t k = mlink s k) \<Longrightarrow> forest_at t p a ts"
proof (induction ts arbitrary: p a rule: preorder.induct)
  case 1
  then show ?case by (cases a) simp_all
next
  case (2 k cs ts)
  have l: "mlink t k = mlink s k" using 2(4) by simp
  have "a = Some k" using 2(3) by (cases a) simp_all
  then show ?case using 2 by (simp add: mlinkD[OF l])
qed

lemma seg_cong:
  "seg_at s p a ts b \<Longrightarrow> (\<And>k. k \<in> set (preorder ts) \<Longrightarrow> mlink t k = mlink s k) \<Longrightarrow> seg_at t p a ts b"
proof (induction s p a ts b rule: seg_at.induct)
  case (2 s p a k cs ts b)
  have l: "mlink t k = mlink s k" using 2(3) by simp
  have "forest_at t k (menu_list (menutab s k)) cs"
    by (rule forest_cong[of s]) (use 2(2,3) in auto)
  then show ?case using 2 by (simp add: mlinkD[OF l])
qed simp

lemma seg_head: "seg_at s p a ts b \<Longrightarrow> a = (if ts = [] then b else Some (mroot (hd ts)))"
  by (induction s p a ts b rule: seg_at.induct) auto

lemma seg_last: "seg_at s p a ts b \<Longrightarrow> ts \<noteq> [] \<Longrightarrow> menu_next (menutab s (mroot (last ts))) = b"
  by (induction s p a ts b rule: seg_at.induct) (auto split: if_splits)

lemma seg_parent: "seg_at s p a ts b \<Longrightarrow> k \<in> set (map mroot ts) \<Longrightarrow> menu_parent (menutab s k) = Some p"
  by (induction s p a ts b rule: seg_at.induct) auto

lemma chain_roots: "menu_chain n s a = Some ks \<Longrightarrow> forest_at s p a ts \<Longrightarrow> ks = map mroot ts"
proof (induction n arbitrary: a ts ks)
  case 0
  then show ?case by (cases a; cases ts rule: preorder.cases) auto
next
  case (Suc n)
  then show ?case by (cases a; cases ts rule: preorder.cases) auto
qed

lemma preorder_append: "preorder (us @ vs) = preorder us @ preorder vs"
  by (induction us rule: preorder.induct) simp_all

lemma roots_preorder: "set (map mroot ts) \<subseteq> set (preorder ts)"
  by (induction ts rule: preorder.induct) auto

lemma last_root: "ts \<noteq> [] \<Longrightarrow> mroot (last ts) \<in> set (map mroot ts)"
  by simp

text \<open>A list of siblings gets another parent and another end.\<close>

lemma seg_relink:
  assumes "seg_at s p a ts b" "ts \<noteq> []" "distinct (preorder ts)"
    and "\<And>k. k \<in> set (map mroot ts) \<Longrightarrow> menu_parent (menutab t k) = Some q
      \<and> menu_list (menutab t k) = menu_list (menutab s k)
      \<and> menu_next (menutab t k) = (if k = mroot (last ts) then c else menu_next (menutab s k))"
    and "\<And>k. k \<in> set (preorder ts) \<Longrightarrow> k \<notin> set (map mroot ts) \<Longrightarrow> mlink t k = mlink s k"
  shows "seg_at t q a ts c"
  using assms
proof (induction s p a ts b rule: seg_at.induct)
  case (2 s p a k cs ts b)
  have cs: "forest_at s k (menu_list (menutab s k)) cs" using 2(2) by simp
  have d: "k \<notin> set (preorder cs)" "k \<notin> set (preorder ts)" "distinct (preorder ts)"
    "set (preorder cs) \<inter> set (preorder ts) = {}" using 2(4) by auto
  have nr: "x \<notin> set (map mroot (MTree k cs # ts))" if "x \<in> set (preorder cs)" for x
    using that d roots_preorder[of ts] by auto
  have "forest_at t k (menu_list (menutab s k)) cs"
    by (rule forest_cong[OF cs]) (use 2(6) nr in simp)
  moreover have "seg_at t q (menu_next (menutab t k)) ts c"
  proof (cases "ts = []")
    case True
    then show ?thesis using 2(5)[of k] by simp
  next
    case False
    have k: "k \<noteq> mroot (last ts)" using d(2) last_root[OF False] roots_preorder[of ts] by auto
    have "seg_at t q (menu_next (menutab s k)) ts c"
    proof (rule 2(1)[OF _ False d(3)])
      show "seg_at s p (menu_next (menutab s k)) ts b" using 2(2) by simp
      show "menu_parent (menutab t x) = Some q \<and> menu_list (menutab t x) = menu_list (menutab s x)
        \<and> menu_next (menutab t x) = (if x = mroot (last ts) then c else menu_next (menutab s x))"
        if "x \<in> set (map mroot ts)" for x using 2(5)[of x] that False by simp
      show "mlink t x = mlink s x" if "x \<in> set (preorder ts)" "x \<notin> set (map mroot ts)" for x
        using 2(6)[of x] that d(2) by auto
    qed
    then show ?thesis using 2(5)[of k] k False by simp
  qed
  ultimately show ?case using 2(2) 2(5)[of k] by simp
qed simp

subsection \<open>Levels\<close>

text \<open>An entry, its children, and the siblings after it; the root has none.\<close>

definition level :: "kconf \<Rightarrow> menuref \<Rightarrow> mtree list \<Rightarrow> mtree list \<Rightarrow> bool" where
  "level s m cs ts \<longleftrightarrow> forest_at s m (menu_list (menutab s m)) cs
     \<and> (case menu_parent (menutab s m) of
          None \<Rightarrow> ts = [] \<and> menu_next (menutab s m) = None
        | Some p \<Rightarrow> forest_at s p (menu_next (menutab s m)) ts)
     \<and> distinct (m # preorder cs @ preorder ts)"

text \<open>A step that rearranges an entry, what is below it and the siblings after it, in their order,
  and touches no other entry.\<close>

definition rearranges :: "menuref option \<Rightarrow> (menuref \<Rightarrow> kconf \<Rightarrow> kconf option) \<Rightarrow> bool" where
  "rearranges q f \<longleftrightarrow> (\<forall>s m cs ts t. level s m cs ts \<longrightarrow> menu_parent (menutab s m) = q \<longrightarrow> f m s = Some t \<longrightarrow>
     (\<exists>cs' ts'. level t m cs' ts' \<and> preorder cs' @ preorder ts' = preorder cs @ preorder ts)
     \<and> menu_parent (menutab t m) = q \<and> nmenus t = nmenus s
     \<and> (\<forall>k. k \<notin> set (m # preorder cs @ preorder ts) \<longrightarrow> mlink t k = mlink s k))"

lemma rearrangesE:
  assumes "rearranges q f" "level s m cs ts" "menu_parent (menutab s m) = q" "f m s = Some t"
  obtains cs' ts' where "level t m cs' ts'" "preorder cs' @ preorder ts' = preorder cs @ preorder ts"
    "menu_parent (menutab t m) = q" "nmenus t = nmenus s"
    "\<And>k. k \<notin> set (m # preorder cs @ preorder ts) \<Longrightarrow> mlink t k = mlink s k"
  using assms unfolding rearranges_def by blast

lemma level_links:
  assumes "links t = links s"
  shows "level t m cs ts = level s m cs ts"
  unfolding level_def forest_links[OF assms] linksD[OF assms] ..

lemma level_head:
  assumes "forest_at s p (Some m) (MTree m cs # ts)" "distinct (preorder (MTree m cs # ts))"
  shows "level s m cs ts" "menu_parent (menutab s m) = Some p"
  using assms by (auto simp: level_def)

text \<open>The walk along a list of siblings, each step of which may rearrange the rest of the list.\<close>

lemma walk_rearranges:
  assumes f: "rearranges (Some p) f"
  shows "menu_walk n f a s = Some t \<Longrightarrow> forest_at s p a ts \<Longrightarrow> distinct (preorder ts) \<Longrightarrow>
    (\<exists>ts'. forest_at t p a ts' \<and> preorder ts' = preorder ts) \<and> nmenus t = nmenus s
    \<and> (\<forall>k. k \<notin> set (preorder ts) \<longrightarrow> mlink t k = mlink s k)"
proof (induction n arbitrary: a s ts)
  case 0
  then show ?case by (cases a) auto
next
  case (Suc n)
  show ?case
  proof (cases a)
    case None
    then show ?thesis using Suc.prems by auto
  next
    case (Some m)
    obtain cs us where ts: "ts = MTree m cs # us" using Suc.prems(2) Some by (cases ts rule: preorder.cases) auto
    obtain u where u: "f m s = Some u" "menu_walk n f (menu_next (menutab u m)) u = Some t"
      using Suc.prems(1) Some by (auto elim: bind_SomeE)
    note lv = level_head[OF Suc.prems(2)[unfolded Some ts] Suc.prems(3)[unfolded ts]]
    obtain cs' us' where l: "level u m cs' us'" "preorder cs' @ preorder us' = preorder cs @ preorder us"
      "menu_parent (menutab u m) = Some p" "nmenus u = nmenus s"
      and k: "\<And>k. k \<notin> set (m # preorder cs @ preorder us) \<Longrightarrow> mlink u k = mlink s k"
      using rearrangesE[OF f lv u(1)] by metis
    have us: "forest_at u p (menu_next (menutab u m)) us'" "distinct (preorder us')"
      using l(1,3) by (simp_all add: level_def)
    from Suc.IH[OF u(2) us] obtain vs where v: "forest_at t p (menu_next (menutab u m)) vs"
      "preorder vs = preorder us'" "nmenus t = nmenus u" "\<forall>k. k \<notin> set (preorder us') \<longrightarrow> mlink t k = mlink u k"
      by blast
    have d: "m \<notin> set (preorder us')" "set (preorder cs') \<inter> set (preorder us') = {}" using l(1) by (auto simp: level_def)
    have m: "mlink t m = mlink u m" using v(4) d(1) by simp
    have "forest_at t m (menu_list (menutab u m)) cs'"
      by (rule forest_cong[of u]) (use l(1) v(4) d(2) in \<open>auto simp: level_def\<close>)
    then have "forest_at t p a (MTree m cs' # vs)" using Some v(1) l(3) by (simp add: mlinkD[OF m])
    moreover have "preorder (MTree m cs' # vs) = preorder ts" using l(2) v(2) ts by simp
    moreover have "mlink t k = mlink s k" if "k \<notin> set (preorder ts)" for k
    proof -
      have s: "set (preorder us') \<subseteq> set (preorder ts)" using arg_cong[OF l(2), of set] ts by auto
      show ?thesis using v(4) k[of k] that s ts by auto
    qed
    ultimately show ?thesis using v(3) l(4) by metis
  qed
qed

text \<open>A walk whose steps keep the links.\<close>

lemma walk_links:
  assumes "\<And>m s t. f m s = Some t \<Longrightarrow> links t = links s"
  shows "menu_walk n f a s = Some t \<Longrightarrow> links t = links s"
proof (induction n arbitrary: a s)
  case 0
  then show ?case by (cases a) auto
next
  case (Suc n)
  then show ?case by (cases a) (auto elim!: bind_SomeE dest!: assms)
qed

end
