(* ===== verification/Menu_Order.thy ===== *)
theory Menu_Order
  imports Menu_Links
begin

text \<open>
  \<open>menu_finalize\<close> moves entries into implicit submenus and splices invisible menus into their
  parents. It keeps a tree, and the order of the entries in it.
\<close>

subsection \<open>Operations that keep the links\<close>

lemma links_updates [link_simps]:
  "links (upd_sym y f s) = links s" "links (upd_prop p g s) = links s" "links (set_flag b y s) = links s"
  "links (clear_flag b y s) = links s" "links (kwarn msg s) = links s" "links (menu_warn m msg s) = links s"
  "links (prop_warn p msg s) = links s" "links (prop_set_expr p e s) = links s"
  "links (s\<lparr>current_entry := m\<rparr>) = links s"
  by (simp_all add: links_def upd_sym_def upd_prop_def set_flag_def clear_flag_def kwarn_def
      menu_warn_def prop_warn_def prop_set_expr_def)

lemma links_upd_menu [link_simps]:
  "links (upd_menu m (\<lambda>x. x\<lparr>menu_dep := D x\<rparr>) s) = links s"
  "links (upd_menu m (\<lambda>x. x\<lparr>menu_prompt := P x\<rparr>) s) = links s"
  "links (upd_menu m (\<lambda>x. x\<lparr>menu_visibility := V x\<rparr>) s) = links s"
  "links (upd_menu m (\<lambda>x. x\<lparr>menu_help := H x\<rparr>) s) = links s"
  by (auto simp: links_def upd_menu_def fun_eq_iff)

lemma ofold_links:
  assumes "\<And>x s t. f x s = Some t \<Longrightarrow> links t = links s" "ofold f xs s = Some t"
  shows "links t = links s"
  by (rule ofold_related[where R = "\<lambda>s t. links t = links s", OF _ _ _ assms(2)]) (auto dest: assms(1))

lemma fold_links: "(\<And>x s. links (f x s) = links s) \<Longrightarrow> links (fold f xs s) = links s"
  by (induction xs arbitrary: s) simp_all

lemma prop_alloc_links: "prop_alloc ty y s = (p, t) \<Longrightarrow> links t = links s"
  by (auto simp: prop_alloc_def Let_def links_def upd_sym_def split: option.splits)

lemma visibilities_links: "apply_visibilities p s = Some t \<Longrightarrow> links t = links s"
  unfolding apply_visibilities_def
  by (elim bind_SomeE, rule ofold_links, assumption?)
    (auto simp: link_simps elim!: bind_SomeE split: option.splits)

lemma add_prop_links: "menu_add_prop ty prompt e dep s = Some (p, t) \<Longrightarrow> links t = links s"
  by (auto simp: menu_add_prop_def Let_def link_simps dest!: prop_alloc_links visibilities_links
      elim!: bind_SomeE split: prod.splits option.splits if_splits)

lemma set_type_links: "menu_set_type ty s = Some t \<Longrightarrow> links t = links s"
  by (auto simp: menu_set_type_def Let_def link_simps elim!: bind_SomeE)

lemma add_symbol_links: "menu_add_symbol ty y dep s = Some t \<Longrightarrow> links t = links s"
  by (auto simp: menu_add_symbol_def dest: add_prop_links)

subsection \<open>The stages\<close>

lemma parentdep_links: "fin_parentdep m s = Some (d, t) \<Longrightarrow> links t = links s"
proof -
  have c: "fin_choice_type m y s = Some t \<Longrightarrow> links t = links s" for y s t
    by (auto simp: fin_choice_type_def Let_def link_simps elim!: bind_SomeE dest!: set_type_links
        split: if_splits option.splits)
  have v: "fin_value_types m y s = Some t \<Longrightarrow> links t = links s" for y s t
    unfolding fin_value_types_def Let_def
    by (elim bind_SomeE, rule ofold_links, assumption?)
      (auto simp: link_simps dest!: set_type_links split: if_splits option.splits)
  show "fin_parentdep m s = Some (d, t) \<Longrightarrow> links t = links s"
    by (auto simp: fin_parentdep_def elim!: bind_SomeE dest!: c v split: option.splits if_splits)
qed

lemma child_links: "fin_child junk d m s = Some t \<Longrightarrow> links t = links s"
proof -
  have q: "finalize_select junk y p e s = Some t \<Longrightarrow> links t = links s" for y p e s t
    by (auto simp: finalize_select_def Let_def link_simps elim!: bind_SomeE split: if_splits)
  have p: "fin_prop junk m b p s = Some t \<Longrightarrow> links t = links s" for b p s t
    by (auto simp: fin_prop_def Let_def link_simps elim!: bind_SomeE dest!: q split: if_splits)
  have o: "ofold (fin_prop junk m b) ps s = Some t \<Longrightarrow> links t = links s" for b ps s t
    by (rule ofold_links[where f = "fin_prop junk m b", OF p])
  show "fin_child junk d m s = Some t \<Longrightarrow> links t = links s"
    by (auto simp: fin_child_def Let_def link_simps elim!: bind_SomeE dest!: o)
qed

lemma choice_value_links: "fin_choice_value m y z s = Some t \<Longrightarrow> links t = links s"
proof -
  have w: "warn_value_prop m y p s = Some t \<Longrightarrow> links t = links s" for p s t
    by (auto simp: warn_value_prop_def Let_def link_simps elim!: bind_SomeE split: if_splits)
  have o: "ofold (warn_value_prop m y) ps s = Some t \<Longrightarrow> links t = links s" for ps s t
    by (rule ofold_links[where f = "warn_value_prop m y", OF w])
  have r: "links (require_choice_y y z m s) = links s" for s
    unfolding require_choice_y_def Let_def by (subst fold_links) (simp_all add: link_simps)
  show "fin_choice_value m y z s = Some t \<Longrightarrow> links t = links s"
    unfolding fin_choice_value_def Let_def
    by (auto simp: link_simps r elim!: bind_SomeE dest!: o add_symbol_links split: if_splits)
qed

lemma warn_links: "fin_warn m y s = Some t \<Longrightarrow> links t = links s"
proof -
  have "check_default_prop y p s = Some t \<Longrightarrow> links t = links s" for p s t
    by (auto simp: check_default_prop_def Let_def link_simps elim!: bind_SomeE split: if_splits)
  moreover have "check_select_prop y p s = Some t \<Longrightarrow> links t = links s" for p s t
    by (auto simp: check_select_prop_def Let_def link_simps elim!: bind_SomeE split: if_splits option.splits)
  moreover have "check_range_prop y p s = Some t \<Longrightarrow> links t = links s" for p s t
    by (auto simp: check_range_prop_def Let_def link_simps elim!: bind_SomeE split: if_splits)
  ultimately have c: "sym_check_prop y s = Some t \<Longrightarrow> links t = links s" for s t
    unfolding sym_check_prop_def by - (erule ofold_links[rotated], auto split: prop_type.splits)
  show "fin_warn m y s = Some t \<Longrightarrow> links t = links s"
    by (auto simp: fin_warn_def Let_def link_simps elim!: bind_SomeE dest!: c split: if_splits)
qed

lemma rev_dep_links: "links (fin_rev_dep m y s) = links s"
  by (simp add: fin_rev_dep_def Let_def link_simps split: option.split)

subsection \<open>Implicit submenus\<close>

lemma upd_menu_link:
  "mlink (upd_menu m f s) k = (if k = m then (menu_list (f (menutab s m)), menu_next (f (menutab s m)),
     menu_parent (f (menutab s m))) else mlink s k)" "nmenus (upd_menu m f s) = nmenus s"
  by (simp_all add: mlink_def upd_menu_def)

text \<open>The entries that are adopted get the new parent; the list goes on behind the last one.\<close>

lemma adopt_rearranges:
  assumes f: "rearranges (Some p) fin"
  shows "adopt_loop n fin d y q a k0 s = Some (k, t) \<Longrightarrow> forest_at s p a ts \<Longrightarrow> distinct (preorder ts) \<Longrightarrow>
    (\<exists>us vs b. preorder us @ preorder vs = preorder ts \<and> seg_at t q a us b \<and> forest_at t p b vs
       \<and> k = (if us = [] then k0 else Some (mroot (last us))))
    \<and> nmenus t = nmenus s \<and> (\<forall>k. k \<notin> set (preorder ts) \<longrightarrow> mlink t k = mlink s k)"
proof (induction n arbitrary: a k0 s ts)
  case 0
  then show ?case by (cases a; cases ts rule: preorder.cases) (auto intro!: exI[of _ "[]"])
next
  case (Suc n)
  show ?case
  proof (cases a)
    case None
    then show ?thesis using Suc.prems by (cases ts rule: preorder.cases) (auto intro!: exI[of _ "[]"])
  next
    case (Some m)
    obtain below where b: "belongs_below s d y m = Some below"
      using Suc.prems(1) Some by (auto elim: bind_SomeE)
    show ?thesis
    proof (cases below)
      case False
      then have e: "k = k0" "t = s" using Suc.prems(1) Some b by simp_all
      show ?thesis using Suc.prems(2) unfolding e
        by (intro conjI exI[of _ "[]"] exI[of _ ts] exI[of _ a]) simp_all
    next
      case True
      obtain cs us where ts: "ts = MTree m cs # us" using Suc.prems(2) Some by (cases ts rule: preorder.cases) auto
      obtain u where u: "fin m s = Some u" and r: "adopt_loop n fin d y q
          (menu_next (menutab (upd_menu m (\<lambda>x. x\<lparr>menu_parent := Some q\<rparr>) u) m)) (Some m)
          (upd_menu m (\<lambda>x. x\<lparr>menu_parent := Some q\<rparr>) u) = Some (k, t)"
        using Suc.prems(1) Some b True by (auto simp: Let_def elim!: bind_SomeE)
      note lv = level_head[OF Suc.prems(2)[unfolded Some ts] Suc.prems(3)[unfolded ts]]
      obtain cs' us' where l: "level u m cs' us'" "preorder cs' @ preorder us' = preorder cs @ preorder us"
        "menu_parent (menutab u m) = Some p" "nmenus u = nmenus s"
        and k: "\<And>k. k \<notin> set (m # preorder cs @ preorder us) \<Longrightarrow> mlink u k = mlink s k"
        using rearrangesE[OF f lv u(1)] by metis
      define v where "v = upd_menu m (\<lambda>x. x\<lparr>menu_parent := Some q\<rparr>) u"
      have v: "mlink v k = (if k = m then (menu_list (menutab u m), menu_next (menutab u m), Some q) else mlink u k)" for k
        by (simp add: v_def upd_menu_link)
      have vn: "nmenus v = nmenus u" "menu_next (menutab v m) = menu_next (menutab u m)"
        by (simp_all add: v_def upd_menu_link)
      have d: "m \<notin> set (preorder us')" "m \<notin> set (preorder cs')" "distinct (preorder us')"
        "set (preorder cs') \<inter> set (preorder us') = {}" using l(1) by (auto simp: level_def)
      have us: "forest_at v p (menu_next (menutab v m)) us'"
        unfolding vn by (rule forest_cong[of u]) (use l(1,3) v d(1) in \<open>auto simp: level_def\<close>)
      have cs: "forest_at v m (menu_list (menutab u m)) cs'"
        by (rule forest_cong[of u]) (use l(1) v d(2) in \<open>auto simp: level_def\<close>)
      from Suc.IH[OF r[folded v_def] us d(3)] obtain xs ys b where w: "preorder xs @ preorder ys = preorder us'"
        "seg_at t q (menu_next (menutab v m)) xs b" "forest_at t p b ys"
        "k = (if xs = [] then Some m else Some (mroot (last xs)))" "nmenus t = nmenus v"
        "\<forall>k. k \<notin> set (preorder us') \<longrightarrow> mlink t k = mlink v k" by blast
      have m: "mlink t m = (menu_list (menutab u m), menu_next (menutab u m), Some q)" using w(6) d(1) v by simp
      have "forest_at t m (menu_list (menutab u m)) cs'"
        by (rule forest_cong[OF cs]) (use w(6) d(4) in auto)
      then have "seg_at t q a (MTree m cs' # xs) b" using Some m w(2) vn by (simp add: mlink_def)
      moreover have "preorder (MTree m cs' # xs) @ preorder ys = preorder ts" using w(1) l(2) ts by simp
      moreover have "k = (if MTree m cs' # xs = [] then k0 else Some (mroot (last (MTree m cs' # xs))))"
        using w(4) by simp
      moreover have "mlink t k = mlink s k" if "k \<notin> set (preorder ts)" for k
      proof -
        have "set (preorder us') \<subseteq> set (preorder ts)" using arg_cong[OF l(2), of set] ts by auto
        then show ?thesis using w(6) v[of k] k[of k] that ts by auto
      qed
      ultimately show ?thesis using w(3,5) vn l(4) by metis
    qed
  qed
qed

lemma fin_adopt_level:
  assumes f: "\<And>q. rearranges q fin" and lv: "level s m [] ts" and r: "fin_adopt fin m y s = Some t"
  shows "(\<exists>cs' ts'. level t m cs' ts' \<and> preorder cs' @ preorder ts' = preorder ts)
    \<and> menu_parent (menutab t m) = menu_parent (menutab s m) \<and> nmenus t = nmenus s
    \<and> (\<forall>k. k \<notin> set (m # preorder ts) \<longrightarrow> mlink t k = mlink s k)"
proof -
  obtain d k u where a: "adopt_loop (nmenus s) fin d y m (menu_next (menutab s m)) None s = Some (k, u)"
    and t: "links t = links (case k of None \<Rightarrow> u | Some k \<Rightarrow>
      (let s = upd_menu m (\<lambda>x. x\<lparr>menu_list := menu_next x\<rparr>) u;
           s = upd_menu m (\<lambda>x. x\<lparr>menu_next := menu_next (menutab s k)\<rparr>) s
       in upd_menu k (\<lambda>x. x\<lparr>menu_next := None\<rparr>) s))"
    using r unfolding fin_adopt_def Let_def by (auto simp: link_simps elim!: bind_SomeE)
  have l: "menu_list (menutab s m) = None" using lv by (cases "menu_list (menutab s m)") (simp_all add: level_def)
  show ?thesis
  proof (cases "menu_parent (menutab s m)")
    case None
    then have "menu_next (menutab s m) = None" "ts = []" using lv by (simp_all add: level_def)
    then have e: "links t = links s" using a t by (cases "nmenus s") auto
    show ?thesis using lv unfolding level_links[OF e] linksD[OF e] links_eqD[OF e]
      by (intro conjI exI[of _ "[]"] exI[of _ ts]) auto
  next
    case (Some p)
    have ts: "forest_at s p (menu_next (menutab s m)) ts" "distinct (preorder ts)" "m \<notin> set (preorder ts)"
      using lv Some by (simp_all add: level_def)
    from adopt_rearranges[OF f a ts(1,2)] obtain us vs b where w: "preorder us @ preorder vs = preorder ts"
      "seg_at u m (menu_next (menutab s m)) us b" "forest_at u p b vs"
      "k = (if us = [] then None else Some (mroot (last us)))" "nmenus u = nmenus s"
      "\<forall>k. k \<notin> set (preorder ts) \<longrightarrow> mlink u k = mlink s k" by blast
    have m: "mlink u m = mlink s m" using w(6) ts(3) by simp
    have dw: "distinct (preorder us @ preorder vs)" "m \<notin> set (preorder us @ preorder vs)"
      using ts(2,3) unfolding w(1) by simp_all
    show ?thesis
    proof (cases "us = []")
      case True
      then have e: "links t = links u" using t w(4) by simp
      have "level u m [] vs" using w(2,3) True dw Some l by (simp add: level_def mlinkD[OF m])
      then have "level t m [] vs" unfolding level_links[OF e] .
      then have "\<exists>cs' ts'. level t m cs' ts' \<and> preorder cs' @ preorder ts' = preorder ts"
        using w(1) True by (intro exI[of _ "[]"] exI[of _ vs]) simp
      then show ?thesis using w(5,6) by (simp add: links_eqD[OF e] linksD[OF e] mlinkD[OF m])
    next
      case False
      define k1 where "k1 = mroot (last us)"
      have k1: "k1 \<in> set (map mroot us)" "k1 \<in> set (preorder us)" "k1 \<noteq> m" "menu_next (menutab u k1) = b"
        using last_root[OF False] roots_preorder[of us] dw(2) seg_last[OF w(2) False] by (auto simp: k1_def)
      have lt: "mlink t x = (if x = k1 then (menu_list (menutab u x), None, menu_parent (menutab u x))
          else if x = m then (menu_next (menutab u m), b, menu_parent (menutab u m)) else mlink u x)"
        "nmenus t = nmenus u" for x
        using k1(3,4) w(4) False unfolding links_eqD[OF t] by (auto simp: Let_def upd_menu_link k1_def[symmetric] mlink_def)
      have fs: "menu_list (menutab t m) = menu_next (menutab u m)" "menu_next (menutab t m) = b"
        "menu_parent (menutab t m) = menu_parent (menutab u m)" using lt(1)[of m] k1(3) by (simp_all add: mlink_def)
      have "seg_at t m (menu_next (menutab s m)) us None"
      proof (rule seg_relink[OF w(2) False])
        show "distinct (preorder us)" using dw(1) by simp
        show "menu_parent (menutab t x) = Some m \<and> menu_list (menutab t x) = menu_list (menutab u x)
          \<and> menu_next (menutab t x) = (if x = mroot (last us) then None else menu_next (menutab u x))"
          if x: "x \<in> set (map mroot us)" for x
        proof -
          have "menu_parent (menutab u x) = Some m" by (rule seg_parent[OF w(2) x])
          then show ?thesis using lt(1)[of x] x dw(2) roots_preorder[of us] by (auto simp: mlink_def k1_def split: if_splits)
        qed
        show "mlink t x = mlink u x" if "x \<in> set (preorder us)" "x \<notin> set (map mroot us)" for x
          using lt(1)[of x] that k1(1) dw(2) by auto
      qed
      then have cs: "forest_at t m (menu_list (menutab t m)) us" unfolding fs mlinkD[OF m] forest_seg .
      have vs: "forest_at t p b vs"
        by (rule forest_cong[OF w(3)]) (use lt(1) dw k1(2) in auto)
      have "level t m us vs" using cs vs Some dw fs by (simp add: level_def mlinkD[OF m])
      moreover have "k1 \<in> set (preorder ts)" using k1(2) unfolding w(1)[symmetric] by simp
      ultimately show ?thesis using w(1,5,6) fs(3) lt m by (auto simp: mlinkD[OF m])
    qed
  qed
qed

subsection \<open>Splicing invisible menus\<close>

lemma fold_parent_link:
  "mlink (fold (\<lambda>k s. upd_menu k (\<lambda>x. x\<lparr>menu_parent := Some q\<rparr>) s) ks s) x
     = (if x \<in> set ks then (menu_list (menutab s x), menu_next (menutab s x), Some q) else mlink s x)"
  "nmenus (fold (\<lambda>k s. upd_menu k (\<lambda>x. x\<lparr>menu_parent := Some q\<rparr>) s) ks s) = nmenus s"
proof (induction ks arbitrary: s)
  case (Cons k ks)
  case 1
  show ?case using Cons(1)[of "upd_menu k (\<lambda>x. x\<lparr>menu_parent := Some q\<rparr>) s"]
    by (auto simp: upd_menu_link mlink_def)
next
  case (Cons k ks)
  case 2
  show ?case using Cons(2)[of "upd_menu k (\<lambda>x. x\<lparr>menu_parent := Some q\<rparr>) s"] by (simp add: upd_menu_link)
qed simp_all

lemma fin_flatten_rearranges: "rearranges (Some q) (fin_flatten q)"
  unfolding rearranges_def
proof (intro allI impI)
  fix s m cs ts t
  assume lv: "level s m cs ts" and q: "menu_parent (menutab s m) = Some q" and r: "fin_flatten q m s = Some t"
  have cs: "forest_at s m (menu_list (menutab s m)) cs" and ts: "forest_at s q (menu_next (menutab s m)) ts"
    and d: "distinct (m # preorder cs @ preorder ts)" using lv q by (simp_all add: level_def)
  show "(\<exists>cs' ts'. level t m cs' ts' \<and> preorder cs' @ preorder ts' = preorder cs @ preorder ts)
    \<and> menu_parent (menutab t m) = Some q \<and> nmenus t = nmenus s
    \<and> (\<forall>k. k \<notin> set (m # preorder cs @ preorder ts) \<longrightarrow> mlink t k = mlink s k)"
  proof (cases "menu_list (menutab s m) \<noteq> None \<and> (case menu_prompt (menutab s m) of None \<Rightarrow> True
           | Some p \<Rightarrow> prop_text (proptab s p) = None)")
    case False
    then have "t = s" using r by (simp add: fin_flatten_def split: if_splits)
    then show ?thesis using lv q by blast
  next
    case True
    note r' = r[unfolded fin_flatten_def if_P[OF True] Let_def]
    obtain ks where ks: "menu_children s m = Some ks" using r' by (auto elim: bind_SomeE)
    have k: "ks = map mroot cs" using chain_roots[OF ks[unfolded menu_children_def] cs] .
    have ne: "cs \<noteq> []" using cs True by (cases cs) auto
    define l where "l = mroot (last cs)"
    have l: "last ks = l" "l \<in> set ks" using ne by (simp_all add: k l_def last_map)
    have ks_sub: "set ks \<subseteq> set (preorder cs)" unfolding k by (rule roots_preorder)
    have m: "m \<notin> set ks" "m \<noteq> l" using d ks_sub l(2) by auto
    have seg: "seg_at s m (menu_list (menutab s m)) cs None" using cs by (simp add: forest_seg)
    let ?u = "fold (\<lambda>k s. upd_menu k (\<lambda>x. x\<lparr>menu_parent := Some q\<rparr>) s) ks s"
    have u: "menu_next (menutab ?u m) = menu_next (menutab s m)"
      using arg_cong[OF fold_parent_link(1)[of q ks s m], of "fst \<circ> snd"] m(1) by (simp add: mlink_def)
    have lt: "mlink t x = (if x = m then (None, menu_list (menutab s m), Some q)
        else if x = l then (menu_list (menutab s x), menu_next (menutab s m), Some q)
        else if x \<in> set ks then (menu_list (menutab s x), menu_next (menutab s x), Some q) else mlink s x)" for x
      using r' ks m l q u fold_parent_link(1)[of q ks s x] fold_parent_link(1)[of q ks s m]
      by (auto simp: upd_menu_link mlink_def)
    have n: "nmenus t = nmenus s" using r' ks by (auto simp: upd_menu_link fold_parent_link)
    have fs: "menu_list (menutab t m) = None" "menu_next (menutab t m) = menu_list (menutab s m)"
      "menu_parent (menutab t m) = Some q" using lt[of m] by (simp_all add: mlink_def)
    have "seg_at t q (menu_list (menutab s m)) cs (menu_next (menutab s m))"
    proof (rule seg_relink[OF seg ne])
      show "distinct (preorder cs)" using d by simp
      show "menu_parent (menutab t x) = Some q \<and> menu_list (menutab t x) = menu_list (menutab s x)
        \<and> menu_next (menutab t x) = (if x = mroot (last cs) then menu_next (menutab s m) else menu_next (menutab s x))"
        if "x \<in> set (map mroot cs)" for x
        using lt[of x] that m(1) by (auto simp: mlink_def k[symmetric] l_def[symmetric] split: if_splits)
      show "mlink t x = mlink s x" if "x \<in> set (preorder cs)" "x \<notin> set (map mroot cs)" for x
        using lt[of x] that d l(2) by (auto simp: k[symmetric])
    qed
    moreover have "seg_at t q (menu_next (menutab s m)) ts None" unfolding forest_seg[symmetric]
    proof (rule forest_cong[OF ts])
      show "mlink t x = mlink s x" if "x \<in> set (preorder ts)" for x
        using lt[of x] that d ks_sub l(2) by auto
    qed
    ultimately have "forest_at t q (menu_next (menutab t m)) (cs @ ts)"
      unfolding forest_seg seg_append fs by blast
    then have "level t m [] (cs @ ts)" using d fs by (simp add: level_def preorder_append)
    moreover have "mlink t x = mlink s x" if "x \<notin> set (m # preorder cs @ preorder ts)" for x
      using lt[of x] that ks_sub l(2) by auto
    ultimately show ?thesis using fs(3) n by (metis append_Nil preorder.simps(1) preorder_append)
  qed
qed

lemma fin_entry_rearranges: "rearranges (Some q) (fin_entry q)"
proof -
  have *: "rearranges (Some q) (\<lambda>m s. Option.bind (g m s) (fin_flatten q m))"
    if g: "\<And>m s t. g m s = Some t \<Longrightarrow> links t = links s" for g
    unfolding rearranges_def
  proof (intro allI impI)
    fix s m cs ts t
    assume lv: "level s m cs ts" "menu_parent (menutab s m) = Some q"
      and "Option.bind (g m s) (fin_flatten q m) = Some t"
    then obtain u where u: "g m s = Some u" "fin_flatten q m u = Some t" by (auto elim: bind_SomeE)
    note e = g[OF u(1)]
    have "level u m cs ts" "menu_parent (menutab u m) = Some q"
      unfolding level_links[OF e] linksD[OF e] by (fact lv)+
    from rearrangesE[OF fin_flatten_rearranges this u(2)]
    show "(\<exists>cs' ts'. level t m cs' ts' \<and> preorder cs' @ preorder ts' = preorder cs @ preorder ts)
      \<and> menu_parent (menutab t m) = Some q \<and> nmenus t = nmenus s
      \<and> (\<forall>k. k \<notin> set (m # preorder cs @ preorder ts) \<longrightarrow> mlink t k = mlink s k)"
      unfolding links_eqD[OF e] by metis
  qed
  show ?thesis unfolding fin_entry_def
    by (rule *) (auto dest: choice_value_links split: option.splits if_splits)
qed

subsection \<open>The whole\<close>

lemma finalize_body_rearranges:
  assumes f: "\<And>q. rearranges q fin"
  shows "rearranges q (menu_finalize_body junk fin)"
  unfolding rearranges_def
proof (intro allI impI)
  fix s m cs ts t
  assume lv: "level s m cs ts" and q: "menu_parent (menutab s m) = q"
    and r: "menu_finalize_body junk fin m s = Some t"
  obtain u v where u: "(if menu_list (menutab s m) \<noteq> None then fin_children fin junk m s
          else (case menu_sym (menutab s m) of
              Some y \<Rightarrow> fin_adopt fin m y s | None \<Rightarrow> Some s)) = Some u"
    and v: "menu_walk (nmenus u) (fin_entry m) (menu_list (menutab u m)) u = Some v"
    and t: "links t = links v"
  proof -
    obtain u v where r': "(if menu_list (menutab s m) \<noteq> None then fin_children fin junk m s
          else (case menu_sym (menutab s m) of
              Some y \<Rightarrow> fin_adopt fin m y s | None \<Rightarrow> Some s)) = Some u"
      "menu_walk (nmenus u) (fin_entry m) (menu_list (menutab u m)) u = Some v"
      "(case menu_sym (menutab v m) of None \<Rightarrow> Some v
        | Some y \<Rightarrow> Option.bind (fin_warn m y v) (\<lambda>s. Some (fin_rev_dep m y s))) = Some t"
      using r unfolding menu_finalize_body_def by (elim bind_SomeE)
    have "links t = links v" using r'(3)
      by (auto simp: rev_dep_links elim!: bind_SomeE dest!: warn_links split: option.splits)
    then show ?thesis using that r' by blast
  qed
  have "\<exists>cs' ts'. level u m cs' ts' \<and> preorder cs' @ preorder ts' = preorder cs @ preorder ts
    \<and> menu_parent (menutab u m) = q \<and> nmenus u = nmenus s
    \<and> (\<forall>k. k \<notin> set (m # preorder cs @ preorder ts) \<longrightarrow> mlink u k = mlink s k)"
  proof (cases "menu_list (menutab s m) \<noteq> None")
    case True
    then obtain d w x where w: "fin_parentdep m s = Some (d, w)"
      "menu_walk (nmenus w) (fin_child junk d) (menu_list (menutab w m)) w = Some x"
      "menu_walk (nmenus x) fin (menu_list (menutab x m)) x = Some u"
      using u by (auto simp: fin_children_def elim!: bind_SomeE)
    have e: "links x = links s" using parentdep_links[OF w(1)] walk_links[OF child_links w(2)] by simp
    have l: "level x m cs ts" unfolding level_links[OF e] by (fact lv)
    then have cs: "forest_at x m (menu_list (menutab x m)) cs" "distinct (preorder cs)"
      and d: "distinct (m # preorder cs @ preorder ts)" by (simp_all add: level_def)
    from walk_rearranges[OF f w(3) cs] obtain cs' where c: "forest_at u m (menu_list (menutab x m)) cs'"
      "preorder cs' = preorder cs" "nmenus u = nmenus x" "\<forall>k. k \<notin> set (preorder cs) \<longrightarrow> mlink u k = mlink x k" by blast
    have m: "mlink u m = mlink x m" using c(4) d by simp
    have "forest_at u p a ts" if "forest_at x p a ts" for p a
      by (rule forest_cong[OF that]) (use c(4) d in auto)
    then have "level u m cs' ts" using l c(1,2) d by (simp add: level_def mlinkD[OF m] split: option.splits)
    then show ?thesis using c(2-4) q
      by (intro exI[of _ cs'] exI[of _ ts]) (simp add: mlinkD[OF m] linksD[OF e] links_eqD[OF e])
  next
    case False
    then have cs: "cs = []" using lv by (cases cs) (auto simp: level_def)
    show ?thesis
    proof (cases "menu_sym (menutab s m)")
      case None
      then show ?thesis using u False lv q by auto
    next
      case (Some y)
      then have a: "fin_adopt fin m y s = Some u" using u False by simp
      show ?thesis using fin_adopt_level[OF f lv[unfolded cs] a] q cs by auto
    qed
  qed
  then obtain cs' ts' where l: "level u m cs' ts'" "preorder cs' @ preorder ts' = preorder cs @ preorder ts"
    "menu_parent (menutab u m) = q" "nmenus u = nmenus s"
    "\<forall>k. k \<notin> set (m # preorder cs @ preorder ts) \<longrightarrow> mlink u k = mlink s k" by blast
  have cs: "forest_at u m (menu_list (menutab u m)) cs'" "distinct (preorder cs')"
    and d: "distinct (m # preorder cs' @ preorder ts')" using l(1) by (simp_all add: level_def)
  from walk_rearranges[OF fin_entry_rearranges v cs] obtain cs'' where c: "forest_at v m (menu_list (menutab u m)) cs''"
    "preorder cs'' = preorder cs'" "nmenus v = nmenus u" "\<forall>k. k \<notin> set (preorder cs') \<longrightarrow> mlink v k = mlink u k" by blast
  have m: "mlink v m = mlink u m" using c(4) d by simp
  have "forest_at v p a ts'" if "forest_at u p a ts'" for p a
    by (rule forest_cong[OF that]) (use c(4) d in auto)
  then have "level v m cs'' ts'" using l(1) c(1,2) d by (simp add: level_def mlinkD[OF m] split: option.splits)
  then have "level t m cs'' ts'" unfolding level_links[OF t] .
  moreover have "mlink t k = mlink s k" if "k \<notin> set (m # preorder cs @ preorder ts)" for k
    using l(5) c(4) that arg_cong[OF l(2), of set] by (auto simp: links_eqD[OF t])
  ultimately show "(\<exists>cs' ts'. level t m cs' ts' \<and> preorder cs' @ preorder ts' = preorder cs @ preorder ts)
    \<and> menu_parent (menutab t m) = q \<and> nmenus t = nmenus s
    \<and> (\<forall>k. k \<notin> set (m # preorder cs @ preorder ts) \<longrightarrow> mlink t k = mlink s k)"
    using l(2-4) c(2,3) by (metis linksD(3,4)[OF t] mlinkD(3)[OF m])
qed

lemma menu_finalize_rearranges: "rearranges q (menu_finalize n junk)"
proof (induction n arbitrary: q)
  case 0
  show ?case by (simp add: rearranges_def)
next
  case (Suc n)
  then show ?case using finalize_body_rearranges[of "menu_finalize n junk"] by simp
qed

text \<open>On the whole menu.\<close>

lemma finalize_tree:
  assumes "menu_tree s ts" "distinct (rootmenu # preorder ts)" "menu_finalize n junk rootmenu s = Some t"
  shows "\<exists>ts'. menu_tree t ts' \<and> preorder ts' = preorder ts" "nmenus t = nmenus s"
proof -
  have lv: "level s rootmenu ts []" "menu_parent (menutab s rootmenu) = None"
    using assms(1,2) by (simp_all add: menu_tree_def level_def)
  obtain cs' ts' where r: "level t rootmenu cs' ts'" "preorder cs' @ preorder ts' = preorder ts @ preorder []"
    "menu_parent (menutab t rootmenu) = None" "nmenus t = nmenus s"
    using rearrangesE[OF menu_finalize_rearranges lv assms(3)] by metis
  then have "menu_tree t cs'" "preorder cs' = preorder ts"
    using assms(1) by (auto simp: level_def menu_tree_def)
  then show "\<exists>ts'. menu_tree t ts' \<and> preorder ts' = preorder ts" "nmenus t = nmenus s" using r(4) by blast+
qed

end
