(* ===== verification/Symbol_Skeleton.thy ===== *)
theory Symbol_Skeleton
  imports Symbol_User
begin

text \<open>
  A value computation keeps the skeleton of every state it returns from, also of one that is not
  well-formed: the parser expands strings while the configuration is being built.
\<close>

lemma skel_frame_updates [frame_simps]:
  "skeleton (sym_set_curr y v s) = skeleton s" "skeleton (sym_set_val y w s) = skeleton s"
  "skeleton (upd_sym y (\<lambda>x. x\<lparr>sym_curr := (sym_curr x)\<lparr>sv_tri := t\<rparr>\<rparr>) s) = skeleton s"
  "skeleton (upd_prop p (\<lambda>x. x\<lparr>prop_visible := (prop_visible x)\<lparr>ev_tri := t\<rparr>\<rparr>) s) = skeleton s"
  "skeleton (s\<lparr>modules_val := t\<rparr>) = skeleton s" "skeleton (sym_set_changed y s) = skeleton s"
  "skeleton (sym_set_all_changed s) = skeleton s"
  by (rule frame_skeleton, simp add: frame_simps)+

lemma skel_set_def_tri [frame_simps]: "skeleton (set_def_tri i y t s) = skeleton s"
  unfolding set_def_tri_def by (rule skel_upd_sym) (simp add: skel_user_upd)

lemma skel_dep_sets [frame_simps]:
  "skeleton (dep_set (\<lambda>t x. x\<lparr>val_dep := (val_dep x)[i := (val_dep x ! i)\<lparr>esv_tri := t\<rparr>]\<rparr>) get y tri s) = skeleton s"
  "skeleton (dep_set (\<lambda>t x. x\<lparr>sym_visible := t\<rparr>) get y tri s) = skeleton s"
  "skeleton (dep_set (\<lambda>t x. x\<lparr>dir_dep := (dir_dep x)\<lparr>ev_tri := t\<rparr>\<rparr>) get y tri s) = skeleton s"
  "skeleton (dep_set (\<lambda>t x. x\<lparr>rev_dep := (rev_dep x)\<lparr>ev_tri := t\<rparr>\<rparr>) get y tri s) = skeleton s"
proof -
  have v: "map (\<lambda>v. v\<lparr>esv_tri := tno\<rparr>) (xs[i := (xs ! i)\<lparr>esv_tri := t\<rparr>]) = map (\<lambda>v. v\<lparr>esv_tri := tno\<rparr>) xs"
    for xs :: "expr_select_value list" and t
    by (cases "i < length xs") (auto intro!: nth_equalityI simp: nth_list_update)
  have k: "skeleton (upd_sym y f s) = skeleton s" if "\<And>x. skel_sym (f x) = skel_sym x" for f
    using skel_upd_sym[of f s y] that by simp
  show "skeleton (dep_set (\<lambda>t x. x\<lparr>val_dep := (val_dep x)[i := (val_dep x ! i)\<lparr>esv_tri := t\<rparr>]\<rparr>) get y tri s) = skeleton s"
    "skeleton (dep_set (\<lambda>t x. x\<lparr>sym_visible := t\<rparr>) get y tri s) = skeleton s"
    "skeleton (dep_set (\<lambda>t x. x\<lparr>dir_dep := (dir_dep x)\<lparr>ev_tri := t\<rparr>\<rparr>) get y tri s) = skeleton s"
    "skeleton (dep_set (\<lambda>t x. x\<lparr>rev_dep := (rev_dep x)\<lparr>ev_tri := t\<rparr>\<rparr>) get y tri s) = skeleton s"
    unfolding dep_set_def
    by (auto simp: frame_simps skel_sym_def frame_sym_def v intro!: k symbol.equality)
qed

lemma ofold_skel:
  assumes "\<And>x s t. f x s = Some t \<Longrightarrow> skeleton (g t) = skeleton (g s)" "ofold f xs s = Some t"
  shows "skeleton (g t) = skeleton (g s)"
  by (rule ofold_related[where R = "\<lambda>s t. skeleton (g t) = skeleton (g s)", OF _ _ _ assms(2)]) (auto dest: assms(1))

locale calc_skel =
  fixes calc :: calc_fun
  assumes calc_skeleton: "calc y s = Some t \<Longrightarrow> skeleton t = skeleton s"
begin

lemma string_skel: "sym_get_string_value calc y s = Some (v, t) \<Longrightarrow> skeleton t = skeleton s"
  by (auto simp: sym_get_string_value_def calc_opt_def bind_eq_Some_conv dest: calc_skeleton
      split: if_splits tristate.splits option.splits)

lemma strings_skel: "calc_strings calc a b s = Some (v, t) \<Longrightarrow> skeleton t = skeleton s"
  by (auto simp: calc_strings_def bind_eq_Some_conv dest!: calc_skeleton string_skel)

lemma node_skel: "expr_calc_node calc e s = Some (v, t) \<Longrightarrow> skeleton t = skeleton s"
proof (induction e arbitrary: s v t)
  case (EOr l r)
  then show ?case by (fastforce simp: bind_eq_Some_conv)
next
  case (EAnd l r)
  then show ?case by (fastforce simp: bind_eq_Some_conv)
qed (auto simp: bind_eq_Some_conv dest: calc_skeleton strings_skel)

lemma expr_skel: "expr_calc_value calc e s = Some (v, t) \<Longrightarrow> skeleton t = skeleton s"
  by (auto simp: expr_calc_value_def dest: node_skel split: option.splits)

lemma visible_skel: "prop_calc_visible calc p s = Some (v, t) \<Longrightarrow> skeleton t = skeleton s"
  by (auto simp: prop_calc_visible_def bind_eq_Some_conv frame_simps dest: expr_skel)

lemma first_skel: "first_visible calc ps s = Some (v, t) \<Longrightarrow> skeleton t = skeleton s"
  by (induction ps arbitrary: s) (auto simp: bind_eq_Some_conv dest!: visible_skel split: if_splits)

lemma defaults_skel: "choice_defaults calc ps s = Some (v, t) \<Longrightarrow> skeleton t = skeleton s"
  by (induction ps arbitrary: s) (auto simp: bind_eq_Some_conv dest!: visible_skel split: if_splits)

lemma prompts_skel: "calc_prompts calc ps tri s = Some (v, t) \<Longrightarrow> skeleton t = skeleton s"
  by (induction ps arbitrary: s tri) (auto simp: bind_eq_Some_conv dest!: visible_skel)

lemma range_val_skel: "sym_get_range_val calc y base s = Some (v, t) \<Longrightarrow> skeleton t = skeleton s"
  by (auto simp: sym_get_range_val_def bind_eq_Some_conv dest: calc_skeleton)

lemma range_skel:
  assumes "sym_validate_range calc y s = Some t"
  shows "skeleton t = skeleton s"
proof (cases "sym_type (symtab s y) \<noteq> S_INT \<and> sym_type (symtab s y) \<noteq> S_HEX")
  case False
  note a = assms[unfolded sym_validate_range_def if_not_P[OF False] Let_def sym_get_range_prop_def]
  obtain p u where u: "first_visible calc (props_of_type s y P_RANGE) s = Some (p, u)"
    using a by (auto elim!: bind_SomeE)
  have "skeleton t = skeleton u"
  proof (cases p)
    case None
    then show ?thesis using a u by simp
  next
    case (Some q)
    then show ?thesis using a u
      by (auto simp: frame_simps dest!: range_val_skel elim!: bind_SomeE split: if_splits)
  qed
  then show ?thesis using first_skel[OF u] by simp
qed (use assms in \<open>simp add: sym_validate_range_def\<close>)

lemma val_dep_skel: "calc_val_dep calc y i s = Some t \<Longrightarrow> skeleton t = skeleton s"
  by (auto simp: calc_val_dep_def bind_eq_Some_conv frame_simps dest: expr_skel)

lemma val_deps_skel: "ofold (calc_val_dep calc y) xs s = Some t \<Longrightarrow> skeleton t = skeleton s"
  by (rule ofold_skel[where g = "\<lambda>s. s" and f = "calc_val_dep calc y", OF val_dep_skel])

lemma visibility_skel: "sym_calc_visibility calc y s = Some t \<Longrightarrow> skeleton t = skeleton s"
proof -
  have "calc_visible calc y s = Some t \<Longrightarrow> skeleton t = skeleton s" for s t
    by (auto simp: calc_visible_def Let_def frame_simps dest!: prompts_skel elim!: bind_SomeE)
  moreover have "calc_dir_dep calc y s = Some t \<Longrightarrow> skeleton t = skeleton s" for s t
    by (auto simp: calc_dir_dep_def Let_def frame_simps dest!: expr_skel elim!: bind_SomeE)
  moreover have "calc_rev_dep calc y s = Some t \<Longrightarrow> skeleton t = skeleton s" for s t
    by (auto simp: calc_rev_dep_def Let_def frame_simps dest!: expr_skel elim!: bind_SomeE split: if_splits)
  ultimately show "sym_calc_visibility calc y s = Some t \<Longrightarrow> skeleton t = skeleton s"
    unfolding sym_calc_visibility_def by (elim bind_SomeE) (drule val_deps_skel, simp)
qed

lemma selected_skel: "choice_selected y vs s = (v, t) \<Longrightarrow> skeleton t = skeleton s"
proof -
  have "skeleton (snd (fold (\<lambda>d (ret, s).
       if ev_tri (rev_dep (symtab s d)) \<noteq> tno then
         (if ret \<noteq> None
          then (ret, kwarn (''warning: conflicting selects on choice block: ''
                 @ or_null (sym_name (symtab s y))) s)
          else (Some d, s))
       else (ret, s)) vs rs)) = skeleton (snd rs)" for rs
    by (induction vs arbitrary: rs) (auto split: prod.splits)
  from this[of "(None, s)"] show "choice_selected y vs s = (v, t) \<Longrightarrow> skeleton t = skeleton s"
    unfolding choice_selected_def by simp
qed

lemma choice_default_skel:
  assumes "sym_choice_default calc y s = Some (v, t)"
  shows "skeleton t = skeleton s"
proof -
  obtain vs where vs: "choice_values s y = Some vs" using assms by (auto simp: sym_choice_default_def elim!: bind_SomeE)
  obtain ret u where u: "choice_selected y vs s = (ret, u)" by (cases "choice_selected y vs s")
  have "skeleton t = skeleton u"
  proof (cases ret)
    case None
    then obtain d w where w: "choice_defaults calc (props_of_type u y P_DEFAULT) u = Some (d, w)"
      using assms vs u by (auto simp: sym_choice_default_def elim: bind_SomeE)
    then have "t = w" using None assms vs u
      by (cases d) (auto simp: sym_choice_default_def elim!: bind_SomeE)
    then show ?thesis using defaults_skel[OF w] by simp
  qed (use assms vs u in \<open>simp add: sym_choice_default_def\<close>)
  then show ?thesis using selected_skel[OF u] by simp
qed

lemma choice_skel:
  assumes "sym_calc_choice calc y s = Some (v, t)"
  shows "skeleton t = skeleton s"
proof -
  let ?f = "\<lambda>d (flags, s). do {
         s \<leftarrow> sym_calc_visibility calc d s;
         Some (if sym_visible (symtab s d) \<noteq> tno then flags \<inter> sym_flags (symtab s d) else flags, s) }"
  note a = assms[unfolded sym_calc_choice_def Let_def]
  obtain vs where vs: "choice_values s y = Some vs" using a by (auto elim: bind_SomeE)
  obtain flags u where u: "ofold ?f vs (sym_flags (symtab s y), s) = Some (flags, u)"
    using a vs by (auto elim: bind_SomeE)
  obtain w where w: "w = (if SYMBOL_DEF_USER \<in> flags then u else clear_flag SYMBOL_DEF_USER y u)" by simp
  have "skeleton (snd b) = skeleton (snd a)" if "?f x a = Some b" for x a b
    using that by (auto elim!: bind_SomeE dest!: visibility_skel split: prod.splits if_splits)
  from ofold_skel[where g = snd and f = ?f, OF this u] have "skeleton u = skeleton s" by simp
  moreover have "skeleton w = skeleton u" by (simp add: w)
  moreover have "skeleton t = skeleton w"
    using a[unfolded vs option.simps Option.bind.bind_lunit u prod.case w[symmetric]]
    by (auto simp: frame_simps dest!: choice_default_skel elim!: bind_SomeE split: if_splits)
  ultimately show ?thesis by simp
qed

lemma user_or_default_skel: "calc_user_or_default calc y s = Some (v, t) \<Longrightarrow> skeleton t = skeleton s"
  by (auto simp: calc_user_or_default_def sym_get_default_prop_def Let_def bind_eq_Some_conv
      dest!: first_skel expr_skel split: if_splits option.splits)

lemma newval_skel: "calc_newval calc y v s = Some (w, t) \<Longrightarrow> skeleton t = skeleton s"
proof -
  have u: "unmet_val_dep calc y i s = Some t \<Longrightarrow> skeleton t = skeleton s" for i s t
    by (auto simp: unmet_val_dep_def bind_eq_Some_conv dest: expr_skel split: if_splits)
  have r: "or_val_dep calc y i ts = Some us \<Longrightarrow> skeleton (snd us) = skeleton (snd ts)" for i ts us
    by (auto simp: or_val_dep_def bind_eq_Some_conv dest: expr_skel split: if_splits)
  show "calc_newval calc y v s = Some (w, t) \<Longrightarrow> skeleton t = skeleton s"
    using ofold_skel[where g = "\<lambda>s. s", OF u] ofold_skel[where g = snd, OF r]
    by (fastforce simp: calc_newval_def bind_eq_Some_conv split: if_splits)
qed

lemma tristate_skel: "calc_tristate calc y s = Some (v, t) \<Longrightarrow> skeleton t = skeleton s"
  by (auto simp: calc_tristate_def bind_eq_Some_conv dest!: user_or_default_skel newval_skel split: if_splits)

lemma string_val_skel: "calc_string calc y v s = Some (w, t) \<Longrightarrow> skeleton t = skeleton s"
proof -
  have r: "sel_val_dep calc y i vs = Some us \<Longrightarrow> skeleton (snd us) = skeleton (snd vs)" for i vs us
    by (auto simp: sel_val_dep_def bind_eq_Some_conv dest!: calc_skeleton split: if_splits prod.splits)
  have d: "calc_default_string calc y v s = Some (w, t) \<Longrightarrow> skeleton t = skeleton s" for v s w t
    by (auto simp: calc_default_string_def sym_get_default_prop_def bind_eq_Some_conv
        dest!: first_skel calc_skeleton split: option.splits)
  have o: "skeleton t = skeleton s" if "ofold (sel_val_dep calc y) xs ((v, b), s) = Some (w, t)" for xs v b s w t
    using ofold_skel[where g = snd and f = "sel_val_dep calc y", OF r that] by simp
  show "calc_string calc y v s = Some (w, t) \<Longrightarrow> skeleton t = skeleton s"
    unfolding calc_string_def Let_def
    by (auto dest!: d o elim!: bind_SomeE split: if_splits)
qed

lemma by_type_skel: "calc_newval_by_type calc y v s = Some (w, t) \<Longrightarrow> skeleton t = skeleton s"
  by (auto simp: calc_newval_by_type_def Let_def bind_eq_Some_conv dest!: tristate_skel string_val_skel split: if_splits)

lemma set_newval_skel: "calc_set_newval calc y v s = Some t \<Longrightarrow> skeleton t = skeleton s"
  by (auto simp: calc_set_newval_def Let_def bind_eq_Some_conv frame_simps dest!: by_type_skel choice_skel split: if_splits)

lemma notify_skel: "skeleton (calc_notify y v s) = skeleton s"
  by (simp add: calc_notify_def Let_def frame_simps)

lemma finish_skel: "calc_finish y s = Some t \<Longrightarrow> skeleton t = skeleton s"
proof -
  have a: "set_all_choice_values y s = Some t \<Longrightarrow> skeleton t = skeleton s" for s t
    by (auto simp: set_all_choice_values_def Let_def bind_eq_Some_conv frame_simps intro!: skel_fold)
  have c: "calc_choice_flags y s = Some t \<Longrightarrow> skeleton t = skeleton s" for t
    by (auto simp: calc_choice_flags_def Let_def bind_eq_Some_conv frame_simps intro!: skel_fold split: if_splits)
  show "calc_finish y s = Some t \<Longrightarrow> skeleton t = skeleton s"
    by (auto simp: calc_finish_def Let_def bind_eq_Some_conv frame_simps dest!: a c split: if_splits)
qed

lemma typed_keeps_skel: "sym_calc_typed calc y old v s = Some t \<Longrightarrow> skeleton t = skeleton s"
  by (auto simp: sym_calc_typed_def Let_def bind_eq_Some_conv notify_skel
      dest!: visibility_skel set_newval_skel range_skel finish_skel split: if_splits)

lemma first_value_skel: "calc_choice_first calc y s = Some t \<Longrightarrow> skeleton t = skeleton s"
  by (auto simp: calc_choice_first_def calc_opt_def Let_def bind_eq_Some_conv dest!: calc_skeleton
      split: if_splits option.splits)

lemma body_skel: "sym_calc_body calc y s = Some t \<Longrightarrow> skeleton t = skeleton s"
  by (auto simp: sym_calc_body_def Let_def bind_eq_Some_conv frame_simps
      dest!: first_value_skel typed_keeps_skel split: if_splits)

text \<open>Expanding a string.\<close>

lemma expand_name_skel: "expand_name calc name s = Some (v, t) \<Longrightarrow> skeleton t = skeleton s"
  by (auto simp: expand_name_def bind_eq_Some_conv dest!: calc_skeleton string_skel split: if_splits option.splits)

lemma expand_loop_skel: "sym_expand_loop calc res str s = Some (v, t) \<Longrightarrow> skeleton t = skeleton s"
proof (induction "length str" arbitrary: res str s rule: less_induct)
  case less
  show ?case
  proof (cases "dropWhile (\<lambda>c. c \<noteq> CHR ''$'') str")
    case Nil
    then show ?thesis using less.prems unfolding sym_expand_loop.simps[of calc res str s] Nil by simp
  next
    case (Cons c src)
    then obtain w u where w: "expand_name calc (takeWhile is_ident_char src) s = Some (w, u)"
      "sym_expand_loop calc (res @ takeWhile (\<lambda>c. c \<noteq> CHR ''$'') str @ w) (dropWhile is_ident_char src) u = Some (v, t)"
      using less.prems unfolding sym_expand_loop.simps[of calc res str s] Cons by (auto split: option.splits)
    have "length (dropWhile is_ident_char src) < length str"
      using dropWhile_Cons_length[OF Cons] length_dropWhile_le[of is_ident_char src] by simp
    then show ?thesis using less.hyps w(2) expand_name_skel[OF w(1)] by metis
  qed
qed

lemma expand_skel: "sym_expand_string_value calc str s = Some (v, t) \<Longrightarrow> skeleton t = skeleton s"
  unfolding sym_expand_string_value_def by (rule expand_loop_skel)

end

lemma calc_value_skel: "sym_calc_value n y s = Some t \<Longrightarrow> skeleton t = skeleton s"
proof (induction n arbitrary: y s t)
  case (Suc n)
  have "calc_skel (sym_calc_value n)" by unfold_locales (rule Suc.IH)
  then show ?case using calc_skel.body_skel Suc.prems by simp
qed simp

interpretation sym_calc_skel: calc_skel sym_calc
  by unfold_locales (auto simp: sym_calc_def dest: calc_value_skel)

end
