(* ===== verification/Parse_Idle.thy ===== *)
theory Parse_Idle
  imports Parse Menu_Order Symbol_Skeleton
begin

text \<open>
  Steps of the parser that add no menu entry: \<open>idle\<close> relates states of the engine with the same
  links and the same place in the menu, in which errors may have been counted.
\<close>

definition menu_spot :: "kconf \<Rightarrow> menuref \<times> menuref \<times> entry_ptr" where
  "menu_spot s = (current_menu s, current_entry s, last_entry_ptr s)"

definition idle :: "kconf \<Rightarrow> kconf \<Rightarrow> bool" where
  "idle s t \<longleftrightarrow> links t = links s \<and> menu_spot t = menu_spot s \<and> zconfnerrs s \<le> zconfnerrs t"

lemma idle_refl [simp]: "idle s s"
  by (simp add: idle_def)

lemma idle_trans [trans]: "idle s t \<Longrightarrow> idle t u \<Longrightarrow> idle s u"
  by (simp add: idle_def)

subsection \<open>The operations of the engine\<close>

lemma idle_updates [simp]:
  "idle r (upd_sym y f s) = idle r s" "idle r (upd_prop p g s) = idle r s" "idle r (set_flag b y s) = idle r s"
  "idle r (clear_flag b y s) = idle r s" "idle r (kwarn msg s) = idle r s" "idle r (menu_warn m msg s) = idle r s"
  "idle r (prop_warn p msg s) = idle r s" "idle r (prop_set_expr p e s) = idle r s"
  "idle r (upd_menu m (\<lambda>x. x\<lparr>menu_dep := D x\<rparr>) s) = idle r s"
  "idle r (upd_menu m (\<lambda>x. x\<lparr>menu_prompt := P x\<rparr>) s) = idle r s"
  "idle r (upd_menu m (\<lambda>x. x\<lparr>menu_visibility := V x\<rparr>) s) = idle r s"
  "idle r (upd_menu m (\<lambda>x. x\<lparr>menu_help := H x\<rparr>) s) = idle r s"
  "idle r (s\<lparr>modules_sym := ms\<rparr>) = idle r s" "idle r (s\<lparr>sym_defconfig_list := dl\<rparr>) = idle r s"
  "idle r (s\<lparr>sym_env_list := el\<rparr>) = idle r s" "idle r (s\<lparr>file_list := fl\<rparr>) = idle r s"
  "idle r (sync sc s) = idle r s" "idle r (menu_end_entry s) = idle r s"
  unfolding idle_def
  by (simp_all add: link_simps) (simp_all add: menu_spot_def upd_sym_def upd_prop_def upd_menu_def set_flag_def
      clear_flag_def kwarn_def menu_warn_def prop_warn_def prop_set_expr_def sync_def
      menu_end_entry_def links_def)

lemma idle_from [simp]:
  "idle (upd_sym y f s) t = idle s t" "idle (upd_prop p g s) t = idle s t" "idle (set_flag b y s) t = idle s t"
  "idle (prop_warn p msg s) t = idle s t" "idle (prop_set_expr p e s) t = idle s t"
  unfolding idle_def
  by (simp_all add: link_simps) (simp_all add: menu_spot_def upd_sym_def upd_prop_def set_flag_def
      kwarn_def prop_warn_def prop_set_expr_def)

lemma idle_errors [simp]:
  "idle r s \<Longrightarrow> idle r (s\<lparr>zconfnerrs := Suc (zconfnerrs s)\<rparr>)" "idle r s \<Longrightarrow> idle r (zconf_error msg s)"
  unfolding idle_def by (simp_all add: menu_spot_def zconf_error_def kwarn_def links_def)

lemma idle_skeleton: "skeleton t = skeleton s \<Longrightarrow> idle s t"
proof -
  assume e: "skeleton t = skeleton s"
  have "links t = links s" using skelD(11-14)[OF e] by (simp add: links_def fun_eq_iff)
  moreover have "menu_spot t = menu_spot s" "zconfnerrs s = zconfnerrs t"
    using arg_cong[OF e, of menu_spot] arg_cong[OF e, of zconfnerrs] by (simp_all add: skeleton_def menu_spot_def)
  ultimately show ?thesis by (simp add: idle_def)
qed

lemma sym_alloc_idle: "sym_alloc name fl h s = (y, t) \<Longrightarrow> idle s t"
  by (auto simp: sym_alloc_def Let_def idle_def links_def menu_spot_def)

lemma sym_lookup_idle: "sym_lookup name fl s = (y, t) \<Longrightarrow> idle s t"
  by (auto simp: sym_lookup_def dest: sym_alloc_idle split: option.splits)

lemma prop_alloc_idle: "prop_alloc ty y s = (p, t) \<Longrightarrow> idle s t"
  using prop_alloc_links[of ty y s p t]
  by (auto simp: prop_alloc_def Let_def idle_def menu_spot_def upd_sym_def split: option.splits)

lemma add_default_idle: "idle s (sym_add_default y str s)"
  by (auto simp: sym_add_default_def dest!: prop_alloc_idle sym_lookup_idle split: prod.split
      intro: idle_trans)

lemma ofold_idle:
  assumes "\<And>x s t. f x s = Some t \<Longrightarrow> idle s t" "ofold f xs s = Some t"
  shows "idle s t"
  by (rule ofold_related[where R = idle, OF _ _ _ assms(2)]) (auto dest: assms(1) intro: idle_trans)

lemma visibilities_idle: "apply_visibilities p s = Some t \<Longrightarrow> idle s t"
  unfolding apply_visibilities_def
  by (elim bind_SomeE, rule ofold_idle, assumption?) (auto elim!: bind_SomeE split: option.splits)

lemma add_prop_idle:
  assumes "menu_add_prop ty prompt e dep s = Some (p, t)"
  shows "idle s t"
proof -
  obtain q u where u: "prop_alloc ty (menu_sym (menutab s (current_entry s))) s = (q, u)" by fastforce
  have "idle u t" using assms u
    by (auto simp: menu_add_prop_def Let_def dest!: visibilities_idle elim!: bind_SomeE
        split: option.splits if_splits)
  then show ?thesis using prop_alloc_idle[OF u] idle_trans by blast
qed

lemma menu_op_idle:
  "menu_add_prompt ty prompt dep s = Some (p, t) \<Longrightarrow> idle s t"
  "menu_add_expr ty e dep s = Some t \<Longrightarrow> idle s t"
  "menu_add_symbol ty y dep s = Some t \<Longrightarrow> idle s t"
  "menu_set_type sty s = Some t \<Longrightarrow> idle s t"
  "menu_add_dep dep s = Some t \<Longrightarrow> idle s t"
  by (auto simp: menu_add_prompt_def menu_add_expr_def menu_add_symbol_def menu_set_type_def menu_add_dep_def Let_def
      dest: add_prop_idle elim!: bind_SomeE)

lemma add_select_idle: "menu_add_select y v dep s = Some t \<Longrightarrow> idle s t"
  by (auto simp: menu_add_select_def dest!: add_prop_idle elim!: bind_SomeE)

lemma add_visibility_idle: "idle s (menu_add_visibility e s)"
  by (simp add: menu_add_visibility_def)

lemma add_env_idle:
  assumes "prop_add_env getenv env s = Some t"
  shows "idle s t"
proof -
  obtain y where y: "menu_sym (menutab s (current_entry s)) = Some y"
    using assms by (auto simp: prop_add_env_def elim!: bind_SomeE)
  let ?s = "set_flag SYMBOL_AUTO y s"
  have "idle ?s t"
  proof (cases "sym_get_env_prop ?s y")
    case (Some p)
    then show ?thesis using assms y by (auto simp: prop_add_env_def Let_def elim!: bind_SomeE)
  next
    case None
    obtain p u where u: "prop_alloc P_ENV (Some y) ?s = (p, u)" by fastforce
    obtain d v where v: "sym_lookup (Some env) {SYMBOL_CONST} u = (d, v)" by fastforce
    let ?v = "(prop_set_expr p (Some (expr_alloc_symbol d)) v)"
    let ?w = "?v\<lparr>sym_env_list := Some (EList (sym_env_list ?v) y)\<rparr>"
    have t: "t = (case getenv env of
           Some v \<Rightarrow> sym_add_default y v ?w
         | None \<Rightarrow> menu_warn (current_entry ?w)
             (''environment variable '' @ env @ '' undefined'') ?w)"
      using assms y None u v by (simp add: prop_add_env_def Let_def)
    have "idle ?w t" unfolding t by (auto simp: add_default_idle split: option.split)
    moreover have "idle v ?w" by simp
    ultimately show ?thesis using prop_alloc_idle[OF u] sym_lookup_idle[OF v] by (meson idle_trans)
  qed
  moreover have "idle s ?s" by simp
  ultimately show ?thesis by (rule idle_trans[rotated])
qed

lemma add_option_idle: "menu_add_option getenv token arg s = Some t \<Longrightarrow> idle s t"
proof (cases token)
  case T_OPT_MODULES
  assume a: "menu_add_option getenv token arg s = Some t"
  then show ?thesis using a T_OPT_MODULES
    by (auto simp: menu_add_option_def Let_def elim!: bind_SomeE split: option.splits)
qed (auto simp: menu_add_option_def Let_def elim!: bind_SomeE dest: add_env_idle split: if_splits)

subsection \<open>Steps of the parser\<close>

definition p_idle :: "'a pm \<Rightarrow> bool" where
  "p_idle m \<longleftrightarrow> (\<forall>st x st'. m st = Parsed x st' \<longrightarrow> idle (kc st) (kc st'))"

named_theorems idle_intros \<open>parsers that add no menu entry\<close>

lemma p_idleD: "p_idle m \<Longrightarrow> m st = Parsed x st' \<Longrightarrow> idle (kc st) (kc st')"
  unfolding p_idle_def by blast

lemma p_bind_Parsed: "p_bind m f st = Parsed y t \<longleftrightarrow> (\<exists>x u. m st = Parsed x u \<and> f x u = Parsed y t)"
  by (simp add: p_bind_def split: presult.split)

lemma idle_bind [idle_intros]: "p_idle m \<Longrightarrow> (\<And>x. p_idle (f x)) \<Longrightarrow> p_idle (p_bind m f)"
  unfolding p_idle_def p_bind_Parsed by (meson idle_trans)

lemma idle_seq [idle_intros]: "p_idle m \<Longrightarrow> p_idle k \<Longrightarrow> p_idle (p_seq m k)"
  unfolding p_seq_def by (rule idle_bind)

lemma idle_basic [idle_intros]:
  "p_idle (p_return x)" "p_idle p_refuse" "p_idle p_crash" "p_idle (p_get f)" "p_idle shift" "p_idle (p_print msg)"
  by (auto simp: p_idle_def p_return_def p_refuse_def p_crash_def p_get_def shift_def p_print_def)

lemma idle_peek [idle_intros]: "p_idle peek"
  by (auto simp: p_idle_def peek_def split: option.splits prod.splits)

lemma idle_if [idle_intros]: "(c \<Longrightarrow> p_idle m) \<Longrightarrow> (\<not> c \<Longrightarrow> p_idle k) \<Longrightarrow> p_idle (if c then m else k)"
  by simp

lemma idle_option [idle_intros]:
  "p_idle m \<Longrightarrow> (\<And>x. p_idle (f x)) \<Longrightarrow> p_idle (case v of None \<Rightarrow> m | Some x \<Rightarrow> f x)"
  by (cases v) simp_all

lemma idle_call: "(\<And>s x t. f s = Some (x, t) \<Longrightarrow> idle s t) \<Longrightarrow> p_idle (p_call f)"
  by (auto simp: p_idle_def p_call_def split: option.splits)

lemma idle_act: "(\<And>s t. f s = Some t \<Longrightarrow> idle s t) \<Longrightarrow> p_idle (p_act f)"
  unfolding p_act_def by (rule idle_call) auto

lemma idle_act_some [idle_intros]: "(\<And>s. idle s (f s)) \<Longrightarrow> p_idle (p_act (\<lambda>s. Some (f s)))"
  by (rule idle_act) auto

lemma idle_ops [idle_intros]:
  "p_idle (p_lookup name fl)" "p_idle (p_call (menu_add_prompt ty prompt dep))" "p_idle (p_act (menu_add_expr ty e dep))"
  "p_idle (p_act (menu_add_symbol ty y dep))" "p_idle (p_act (menu_set_type sty))" "p_idle (p_act (menu_add_dep dep))"
  "p_idle (p_act (menu_add_select y v dep))" "p_idle (p_act (menu_add_option getenv token arg))" "p_idle p_count_error"
  unfolding p_lookup_def p_count_error_def
  by (auto intro!: idle_call idle_act dest: sym_lookup_idle menu_op_idle add_select_idle add_option_idle)

lemma idle_token [idle_intros]: "p_idle next_token" "p_idle (expect t)" "p_idle (p_error msg)"
  unfolding next_token_def expect_def p_error_def by (intro idle_intros)+

text \<open>A case distinction on the token that is read.\<close>

lemma idle_words [idle_intros]: "p_idle p_word" "p_idle p_prompt" "p_idle p_symbol"
  unfolding p_word_def p_prompt_def p_symbol_def by (auto intro!: idle_intros split: ztoken.split)

lemma idle_compare [idle_intros]: "p_idle p_compare"
  unfolding p_compare_def by (auto intro!: idle_intros)

lemma idle_exprs [idle_intros]: "p_idle (p_unary n)" "p_idle (p_and n e)" "p_idle (p_or n e)"
  by (induction n and n e and n e rule: p_unary_p_and_p_or.induct) (auto intro!: idle_intros)

lemma idle_conditions [idle_intros]: "p_idle (p_expr n)" "p_idle (p_if_expr n)"
  unfolding p_expr_def p_if_expr_def by (auto intro!: idle_intros)

lemma idle_prompt_opt [idle_intros]: "p_idle (p_prompt_opt n)"
  unfolding p_prompt_opt_def by (auto intro!: idle_intros split: ztoken.split)

lemma idle_options [idle_intros]:
  "p_idle (p_type_option n ty)" "p_idle (p_prompt_option n)" "p_idle (p_default_option n ty)" "p_idle (p_select_option n)"
  "p_idle (p_range_option n)" "p_idle (p_depends n)" "p_idle p_option_arg" "p_idle (p_add_option w word arg)"
  "p_idle (p_choice_default n ty)"
  unfolding p_type_option_def p_prompt_option_def p_default_option_def p_select_option_def p_range_option_def
    p_depends_def p_option_arg_def p_add_option_def p_choice_default_def
  by (auto intro!: idle_intros)

lemma idle_optional [idle_intros]: "p_idle p_optional"
  unfolding p_optional_def by (auto intro!: idle_intros idle_act)

lemma idle_scan [idle_intros]: "p_idle (\<lambda>st. Parsed () (st\<lparr>scan := f (scan st)\<rparr>))"
  by (auto simp: p_idle_def)

lemma idle_help [idle_intros]: "p_idle p_help"
  unfolding p_help_def by (auto intro!: idle_intros idle_act_some split: ztoken.split)

lemma idle_symbol_options [idle_intros]: "p_idle (p_symbol_options w n)"
  by (induction n) (auto intro!: idle_intros split: ztoken.split)

lemma idle_lists [idle_intros]:
  "p_idle (p_config_options w n)" "p_idle (p_choice_options n)" "p_idle (p_depends_list n)" "p_idle (p_visibility_list n)"
  "p_idle (p_eols n)"
  by (induction n) (auto intro!: idle_intros add_visibility_idle split: ztoken.split)

end
