(* ===== verification/Conf_Parse.thy ===== *)
theory Conf_Parse
  imports Parse Menu_Finalize Symbol_Deps Conf_Main
begin

text \<open>
  \<open>conf_parse\<close> (\<open>zconf.y\<close>): the files are read, the menu is finalized and the symbols are checked
  for recursive dependencies. It is the parser that \<open>conf.c\<close> starts with.
\<close>

definition start_parser :: "kconf \<Rightarrow> parser" where
  "start_parser s = \<lparr>scan = \<lparr>yy_start = INITIAL, yy_input = [], yy_stack = [], yy_text = [], last_ts = 0,
       first_ts = 0, yy_quote = None, src_files = [], src_current = None, pos_file = None, pos_lineno = 0\<rparr>,
     look = None, kc = s, entry_file = (\<lambda>_. None)\<rparr>"

definition zconf_initscan :: "calc_fun \<Rightarrow> world \<Rightarrow> string \<Rightarrow> unit pm" where
  "zconf_initscan calc w name = (case zconf_fopen w name of
     None \<Rightarrow> p_refuse
   | Some str \<Rightarrow>
      p_bind (file_lookup calc name) (\<lambda>i st.
        let sc = upd_file i (\<lambda>f. f\<lparr>src_lineno := 1\<rparr>) ((scan st)\<lparr>yy_input := str, src_current := Some i\<rparr>)
        in Parsed () (st\<lparr>scan := sc, kc := sync sc (kc st)\<rparr>)))"

text \<open>Counted errors end the program.\<close>

definition p_check_errors :: "unit pm" where
  "p_check_errors = p_bind (p_get (\<lambda>st. zconfnerrs (kc st))) (\<lambda>n. if n \<noteq> 0 then p_refuse else p_return ())"

definition find_modules :: "kconf \<Rightarrow> kconf" where
  "find_modules s = (if modules_sym s = None then s\<lparr>modules_sym := sym_find s (Some ''n'')\<rparr> else s)"

text \<open>The title of the main menu, expanded.\<close>

definition expand_title :: "calc_fun \<Rightarrow> kconf \<Rightarrow> kconf option" where
  "expand_title calc s = do {
     p \<leftarrow> menu_prompt (menutab s rootmenu);
     str \<leftarrow> prop_text (proptab s p);
     (str, s) \<leftarrow> sym_expand_string_value calc str s;
     Some (upd_prop p (\<lambda>x. x\<lparr>prop_text := Some str\<rparr>) s) }"

text \<open>Every symbol that depends on itself is an error.\<close>

definition check_symbols :: "kconf \<Rightarrow> kconf option" where
  "check_symbols s = ofold (\<lambda>y s. do {
     (r, s) \<leftarrow> sym_check_deps (check_fuel s) y [] s;
     Some (if r \<noteq> None then s\<lparr>zconfnerrs := Suc (zconfnerrs s)\<rparr> else s) }) (all_symbols s) s"

definition parse_files :: "calc_fun \<Rightarrow> world \<Rightarrow> string \<Rightarrow> nat \<Rightarrow> string \<Rightarrow> unit pm" where
  "parse_files calc w release n name =
     p_seq (zconf_initscan calc w name)
     (p_seq (p_act (\<lambda>s. Some (menu_init (sym_init release s))))
     (p_bind (p_call (menu_add_prompt P_MENU ''Linux Kernel Configuration'' None)) (\<lambda>_.
      zconfparse calc w n)))"

text \<open>\<open>junk\<close> is what an uninitialised field of a select holds (see \<open>Menu_Finalize\<close>).\<close>

definition conf_parse :: "calc_fun \<Rightarrow> world \<Rightarrow> string \<Rightarrow> tristate \<Rightarrow> nat \<Rightarrow> string \<Rightarrow> unit pm" where
  "conf_parse calc w release junk n name =
     p_seq (parse_files calc w release n name)
     (p_seq p_check_errors
     (p_seq (p_act (\<lambda>s. Some (find_modules s)))
     (p_seq (p_act (expand_title calc))
     (p_seq (p_act (\<lambda>s. menu_finalize (Suc (nmenus s)) junk rootmenu s))
     (p_seq (p_act check_symbols)
     (p_seq p_check_errors (p_act (\<lambda>s. Some (sym_set_change_count 1 s)))))))))"

text \<open>As the first step of a front end.\<close>

definition io_parse :: "calc_fun \<Rightarrow> string \<Rightarrow> tristate \<Rightarrow> nat \<Rightarrow> string \<Rightarrow> unit io" where
  "io_parse calc release junk n name st =
     (case conf_parse calc (fworld st) release junk n name (start_parser (engine st)) of
        Parsed _ p \<Rightarrow> Done () (st\<lparr>engine := kc p\<rparr>)
      | Refused \<Rightarrow> Exit 1 st
      | Crashed \<Rightarrow> Stuck)"

definition conf_program :: "string \<Rightarrow> tristate \<Rightarrow> (nat \<Rightarrow> nat \<Rightarrow> nat) \<Rightarrow> nat \<times> nat \<Rightarrow> nat
    \<Rightarrow> string \<Rightarrow> (string \<times> string option) list \<Rightarrow> string option \<Rightarrow> int io" where
  "conf_program release junk rnd now n progname opts kconfig =
     conf_main (io_parse sym_calc release junk n) rnd now sym_calc n progname opts kconfig"

end
