(* ===== verification/Parse_Tree.thy ===== *)
theory Parse_Tree
  imports Parse_Idle Conf_Parse
begin

text \<open>
  The menu tree that the parser builds: the entries stand in it in the order in which they were
  added. While a block is open, the tree grows at the end of its menu (\<open>opened\<close>).
\<close>

subsection \<open>Open menus\<close>

text \<open>\<open>cs\<close> are the entries of the menu \<open>p\<close>, which is the last entry of the menu above it, and so on.\<close>

fun opened :: "kconf \<Rightarrow> menuref \<Rightarrow> mtree list \<Rightarrow> (menuref \<times> mtree list) list \<Rightarrow> bool" where
  "opened s p cs [] \<longleftrightarrow> p = rootmenu \<and> menu_tree s cs"
| "opened s p cs ((q, ts) # up) \<longleftrightarrow> opened s q (ts @ [MTree p cs]) up"

fun before :: "menuref \<Rightarrow> (menuref \<times> mtree list) list \<Rightarrow> menuref list" where
  "before p [] = []"
| "before p ((q, ts) # up) = before q up @ preorder ts @ [p]"

text \<open>All entries, in order, are those before the end of the open menus.\<close>

definition entries :: "menuref \<Rightarrow> mtree list \<Rightarrow> (menuref \<times> mtree list) list \<Rightarrow> menuref list" where
  "entries p cs up = before p up @ preorder cs"

lemma entries_up: "entries p cs ((q, ts) # up) = entries q (ts @ [MTree p cs]) up"
  by (simp add: entries_def preorder_append)

lemma opened_level:
  "opened s p cs up \<Longrightarrow> forest_at s p (menu_list (menutab s p)) cs"
  "opened s p cs ((q, ts) # up) \<Longrightarrow> menu_parent (menutab s p) = Some q \<and> menu_next (menutab s p) = None"
proof -
  have a: "opened s p cs up \<Longrightarrow> forest_at s p (menu_list (menutab s p)) cs
      \<and> (\<forall>q ts r. up = (q, ts) # r \<longrightarrow> menu_parent (menutab s p) = Some q \<and> menu_next (menutab s p) = None)" for p cs up
  proof (induction up arbitrary: p cs)
    case (Cons u up)
    obtain q ts where u: "u = (q, ts)" by (cases u)
    have "forest_at s q (menu_list (menutab s q)) (ts @ [MTree p cs])" using Cons u by simp
    then show ?case unfolding forest_seg seg_append u by (auto simp: forest_seg)
  qed (simp add: menu_tree_def)
  show "opened s p cs up \<Longrightarrow> forest_at s p (menu_list (menutab s p)) cs"
    "opened s p cs ((q, ts) # up) \<Longrightarrow> menu_parent (menutab s p) = Some q \<and> menu_next (menutab s p) = None"
    using a by blast+
qed

text \<open>A change of the children of the innermost menu.\<close>

lemma opened_change:
  assumes "opened s p cs up" "distinct (rootmenu # entries p cs up)"
    and "forest_at t p (menu_list (menutab t p)) cs'"
    and "menu_next (menutab t p) = menu_next (menutab s p)" "menu_parent (menutab t p) = menu_parent (menutab s p)"
    and "\<And>k. k \<in> set (rootmenu # before p up) \<Longrightarrow> k \<noteq> p \<Longrightarrow> mlink t k = mlink s k"
    and "length (entries p cs' up) < nmenus t"
  shows "opened t p cs' up"
  using assms
proof (induction up arbitrary: p cs cs')
  case Nil
  then show ?case by (simp add: menu_tree_def entries_def)
next
  case (Cons u up)
  obtain q ts where u: "u = (q, ts)" by (cases u)
  have o: "opened s q (ts @ [MTree p cs]) up" using Cons.prems(1) u by simp
  have d: "distinct (rootmenu # before q up @ preorder ts @ [p] @ preorder cs)"
    using Cons.prems(2) u by (simp add: entries_def)
  have q: "q \<noteq> p"
  proof (cases up)
    case Nil
    then show ?thesis using o d by auto
  next
    case (Cons v w)
    then show ?thesis using d by (cases v) auto
  qed
  have qb: "q \<in> set (rootmenu # before q up)" using o by (cases up) auto
  have lq: "mlink t q = mlink s q" using Cons.prems(6)[of q] qb q u by auto
  have f: "forest_at s q (menu_list (menutab s q)) (ts @ [MTree p cs])" by (rule opened_level(1)[OF o])
  then obtain b where b: "seg_at s q (menu_list (menutab s q)) ts b" "b = Some p" "menu_parent (menutab s p) = Some q"
    "menu_next (menutab s p) = None" unfolding forest_seg seg_append by auto
  have "seg_at t q (menu_list (menutab s q)) ts b"
    by (rule seg_cong[OF b(1)]) (use Cons.prems(6) d u in auto)
  moreover have "forest_at t q b [MTree p cs']"
    using Cons.prems(3-5) b by simp
  ultimately have f': "forest_at t q (menu_list (menutab t q)) (ts @ [MTree p cs'])"
    unfolding forest_seg seg_append mlinkD[OF lq] by blast
  have "opened t q (ts @ [MTree p cs']) up"
  proof (rule Cons.IH[OF o _ f'])
    show "distinct (rootmenu # entries q (ts @ [MTree p cs]) up)" using d by (simp add: entries_def preorder_append)
    show "mlink t k = mlink s k" if "k \<in> set (rootmenu # before q up)" "k \<noteq> q" for k
      using Cons.prems(6)[of k] that u d by auto
    show "length (entries q (ts @ [MTree p cs']) up) < nmenus t"
      using Cons.prems(7) u by (simp add: entries_up)
  qed (simp_all add: mlinkD[OF lq])
  then show ?case using u by simp
qed

text \<open>Where the next entry is linked.\<close>

definition slot :: "menuref \<Rightarrow> mtree list \<Rightarrow> entry_ptr" where
  "slot p cs = (if cs = [] then List_of p else Next_of (mroot (last cs)))"

text \<open>The invariant: the menu \<open>p\<close> is open, and the entries are numbered in order.\<close>

definition building :: "menuref \<Rightarrow> mtree list \<Rightarrow> (menuref \<times> mtree list) list \<Rightarrow> kconf \<Rightarrow> bool" where
  "building p cs up s \<longleftrightarrow> opened s p cs up \<and> current_menu s = p \<and> last_entry_ptr s = slot p cs
     \<and> entries p cs up = [1..<nmenus s] \<and> 0 < nmenus s"

lemma opened_links:
  assumes "links t = links s"
  shows "opened t p cs up = opened s p cs up"
proof -
  have "menu_tree t cs = menu_tree s cs" for cs
    by (simp only: menu_tree_def linksD[OF assms] forest_links[OF assms])
  then show ?thesis by (induction t p cs up rule: opened.induct) simp_all
qed

lemma building_idle:
  assumes "idle s t"
  shows "building p cs up t = building p cs up s"
proof -
  have e: "links t = links s" "current_menu t = current_menu s" "last_entry_ptr t = last_entry_ptr s"
    using assms by (simp_all add: idle_def menu_spot_def)
  show ?thesis by (simp add: building_def opened_links[OF e(1)] e linksD(4)[OF e(1)])
qed

lemma slot_links:
  "mlink (set_entry_ptr (slot p cs) m s) k =
    (if cs = [] then (if k = p then (Some m, menu_next (menutab s k), menu_parent (menutab s k)) else mlink s k)
     else if k = mroot (last cs) then (menu_list (menutab s k), Some m, menu_parent (menutab s k)) else mlink s k)"
  "nmenus (set_entry_ptr (slot p cs) m s) = nmenus s"
  by (simp_all add: slot_def set_entry_ptr_def upd_menu_link)

text \<open>The parts of \<open>menu_add_entry\<close> that are not idle.\<close>

definition link_entry :: "symref option \<Rightarrow> kconf \<Rightarrow> kconf" where
  "link_entry y s =
     (let m = nmenus s;
          s = s\<lparr>menutab := (menutab s)(m := zero_menu\<lparr>menu_sym := y,
                  menu_parent := Some (current_menu s), menu_file := current_file s,
                  menu_lineno := zconf_lineno s\<rparr>), nmenus := Suc m\<rparr>;
          s = set_entry_ptr (last_entry_ptr s) m s
      in s\<lparr>last_entry_ptr := Next_of m, current_entry := m\<rparr>)"

lemma add_entry_link:
  "menu_add_entry y s = (case y of None \<Rightarrow> Some (link_entry y s) | Some z \<Rightarrow> menu_add_symbol P_SYMBOL z None (link_entry y s))"
  by (cases y) (simp_all add: menu_add_entry_def link_entry_def Let_def)

lemma zero_menu_links: "menu_list zero_menu = None" "menu_next zero_menu = None"
  by (simp_all add: zero_menu_def)

lemma link_entry_building:
  assumes "building p cs up s"
  shows "building p (cs @ [MTree (nmenus s) []]) up (link_entry y s)" "current_entry (link_entry y s) = nmenus s"
    "zconfnerrs (link_entry y s) = zconfnerrs s"
proof -
  let ?m = "nmenus s" and ?t = "link_entry y s"
  have b: "opened s p cs up" "current_menu s = p" "last_entry_ptr s = slot p cs" "entries p cs up = [1..<?m]" "0 < ?m"
    using assms by (simp_all add: building_def)
  define u where "u = s\<lparr>menutab := (menutab s)(?m := zero_menu\<lparr>menu_sym := y,
                  menu_parent := Some (current_menu s), menu_file := current_file s,
                  menu_lineno := zconf_lineno s\<rparr>), nmenus := Suc ?m\<rparr>"
  have t: "?t = (set_entry_ptr (slot p cs) ?m u)\<lparr>last_entry_ptr := Next_of ?m, current_entry := ?m\<rparr>"
    by (simp add: link_entry_def Let_def u_def b(2,3))
  have lu: "mlink u k = (if k = ?m then (None, None, Some p) else mlink s k)" for k
    by (simp add: u_def mlink_def b(2) zero_menu_links)
  have uf: "menu_list (menutab u k) = (if k = ?m then None else menu_list (menutab s k))"
    "menu_next (menutab u k) = (if k = ?m then None else menu_next (menutab s k))"
    "menu_parent (menutab u k) = (if k = ?m then Some p else menu_parent (menutab s k))" for k
    by (simp_all add: u_def b(2) zero_menu_links)
  have lt: "mlink ?t k = mlink (set_entry_ptr (slot p cs) ?m u) k" for k by (simp add: t mlink_def)
  have nt: "nmenus ?t = Suc ?m" using slot_links(2)[of p cs ?m u] by (simp add: t u_def)
  have d: "distinct (rootmenu # entries p cs up)" unfolding b(4) by (simp add: rootmenu_def)
  have mem: "k \<in> set (entries p cs up) \<Longrightarrow> k < ?m" for k unfolding b(4) by simp
  have pm: "p < ?m"
  proof (cases up)
    case Nil
    then show ?thesis using b(1,5) by (simp add: rootmenu_def)
  next
    case (Cons v w)
    then show ?thesis using mem[of p] by (cases v) (simp add: entries_def)
  qed
  have cm: "k \<in> set (preorder cs) \<Longrightarrow> k < ?m \<and> k \<noteq> p" for k
  proof -
    assume k: "k \<in> set (preorder cs)"
    have "p \<in> set (rootmenu # before p up)" using b(1) by (cases "(s, p, cs, up)" rule: opened.cases) auto
    then show ?thesis using k mem[of k] d by (auto simp: entries_def)
  qed
  have f: "seg_at s p (menu_list (menutab s p)) cs None" using opened_level(1)[OF b(1)] by (simp add: forest_seg)
  have "forest_at ?t p (menu_list (menutab ?t p)) (cs @ [MTree ?m []])"
  proof (cases "cs = []")
    case True
    have "mlink ?t p = (Some ?m, menu_next (menutab s p), menu_parent (menutab s p))" "mlink ?t ?m = (None, None, Some p)"
      using pm True by (auto simp: lt slot_links lu uf)
    then show ?thesis using True by (simp add: mlink_def)
  next
    case False
    let ?l = "mroot (last cs)"
    have l: "?l \<in> set (map mroot cs)" "?l \<in> set (preorder cs)" "?l \<noteq> ?m" "?l \<noteq> p"
      using last_root[OF False] roots_preorder[of cs] cm[of ?l] by auto
    have lk: "mlink ?t k = (if k = ?l then (menu_list (menutab s k), Some ?m, menu_parent (menutab s k))
        else if k = ?m then (None, None, Some p) else mlink s k)" for k
      using False l(3) by (auto simp: lt slot_links lu uf)
    have "seg_at ?t p (menu_list (menutab s p)) cs (Some ?m)"
    proof (rule seg_relink[OF f False])
      show "distinct (preorder cs)" using d by (simp add: entries_def)
      show "menu_parent (menutab ?t k) = Some p \<and> menu_list (menutab ?t k) = menu_list (menutab s k)
          \<and> menu_next (menutab ?t k) = (if k = mroot (last cs) then Some ?m else menu_next (menutab s k))"
        if "k \<in> set (map mroot cs)" for k
        using lk[of k] seg_parent[OF f that] cm[of k] that roots_preorder[of cs] by (auto simp: mlink_def split: if_splits)
      show "mlink ?t k = mlink s k" if "k \<in> set (preorder cs)" "k \<notin> set (map mroot cs)" for k
        using lk[of k] that l(1) cm[of k] by auto
    qed
    moreover have "mlink ?t ?m = (None, None, Some p)" "mlink ?t p = mlink s p" using lk[of ?m] lk[of p] l pm by auto
    ultimately show ?thesis unfolding forest_seg seg_append by (auto simp: mlink_def)
  qed
  moreover have "mlink ?t k = mlink s k" if "k \<in> set (rootmenu # before p up)" "k \<noteq> p" for k
  proof -
    have k: "k < ?m" using that(1) mem[of k] b(5) by (auto simp: entries_def rootmenu_def)
    have "k \<noteq> mroot (last cs)" if "cs \<noteq> []"
      using last_root[OF that] roots_preorder[of cs] d \<open>k \<in> set (rootmenu # before p up)\<close> by (auto simp: entries_def)
    then show ?thesis using that(2) k lu[of k] by (auto simp: lt slot_links)
  qed
  moreover have "menu_next (menutab ?t p) = menu_next (menutab s p)" "menu_parent (menutab ?t p) = menu_parent (menutab s p)"
  proof -
    have "mlink ?t p = (if cs = [] then (Some ?m, menu_next (menutab s p), menu_parent (menutab s p)) else mlink s p)"
      using pm cm[of "mroot (last cs)"] subsetD[OF roots_preorder[of cs] last_root] by (auto simp: lt slot_links lu uf)
    then show "menu_next (menutab ?t p) = menu_next (menutab s p)" "menu_parent (menutab ?t p) = menu_parent (menutab s p)"
      by (auto simp: mlink_def split: if_splits)
  qed
  moreover have "length (entries p (cs @ [MTree ?m []]) up) < nmenus ?t"
    using arg_cong[OF b(4), of length] b(5) by (simp add: nt entries_def preorder_append)
  ultimately have "opened ?t p (cs @ [MTree ?m []]) up" using opened_change[OF b(1) d] by blast
  moreover have "entries p (cs @ [MTree ?m []]) up = [1..<nmenus ?t]"
    using b(4,5) by (simp add: nt entries_def preorder_append)
  moreover have "current_menu ?t = p" "last_entry_ptr ?t = slot p (cs @ [MTree ?m []])"
    using b(2) by (simp_all add: t slot_def set_entry_ptr_def upd_menu_def u_def)
  ultimately show "building p (cs @ [MTree ?m []]) up ?t" using nt by (simp add: building_def)
  show "current_entry ?t = ?m" by (simp add: t)
  show "zconfnerrs ?t = zconfnerrs s"
    by (simp add: t set_entry_ptr_def upd_menu_def u_def slot_def)
qed

subsection \<open>Triples\<close>

text \<open>What holds after a step that counted no error; errors are never taken back.\<close>

definition p_tri :: "(kconf \<Rightarrow> bool) \<Rightarrow> 'a pm \<Rightarrow> ('a \<Rightarrow> kconf \<Rightarrow> bool) \<Rightarrow> bool" where
  "p_tri P m Q \<longleftrightarrow> (\<forall>st x st'. m st = Parsed x st' \<longrightarrow> zconfnerrs (kc st) \<le> zconfnerrs (kc st')
     \<and> (zconfnerrs (kc st') = 0 \<longrightarrow> P (kc st) \<longrightarrow> Q x (kc st')))"

lemma tri_bind:
  assumes "p_tri P m Q" "\<And>x. p_tri (Q x) (f x) Z"
  shows "p_tri P (p_bind m f) Z"
  unfolding p_tri_def p_bind_Parsed
proof (intro allI impI)
  fix st y t
  assume "\<exists>x u. m st = Parsed x u \<and> f x u = Parsed y t"
  then obtain x u where u: "m st = Parsed x u" "f x u = Parsed y t" by blast
  have a: "zconfnerrs (kc st) \<le> zconfnerrs (kc u)" "zconfnerrs (kc u) = 0 \<Longrightarrow> P (kc st) \<Longrightarrow> Q x (kc u)"
    using assms(1) u(1) unfolding p_tri_def by blast+
  have b: "zconfnerrs (kc u) \<le> zconfnerrs (kc t)" "zconfnerrs (kc t) = 0 \<Longrightarrow> Q x (kc u) \<Longrightarrow> Z y (kc t)"
    using assms(2)[of x] u(2) unfolding p_tri_def by blast+
  show "zconfnerrs (kc st) \<le> zconfnerrs (kc t) \<and> (zconfnerrs (kc t) = 0 \<longrightarrow> P (kc st) \<longrightarrow> Z y (kc t))"
    using a b by (metis le_trans le_zero_eq)
qed

lemma tri_seq: "p_tri P m (\<lambda>_. Q) \<Longrightarrow> p_tri Q k Z \<Longrightarrow> p_tri P (p_seq m k) Z"
  unfolding p_seq_def by (rule tri_bind)

lemma tri_return: "(\<And>s. P s \<Longrightarrow> Q x s) \<Longrightarrow> p_tri P (p_return x) Q"
  by (simp add: p_tri_def p_return_def)

lemma tri_none: "p_tri P p_crash Q" "p_tri P p_refuse Q"
  by (simp_all add: p_tri_def p_crash_def p_refuse_def)

text \<open>Assertions that idle steps keep.\<close>

definition settled_in :: "(kconf \<Rightarrow> bool) \<Rightarrow> bool" where
  "settled_in P \<longleftrightarrow> (\<forall>s t. idle s t \<longrightarrow> P s \<longrightarrow> P t)"

lemma tri_idle: "p_idle m \<Longrightarrow> settled_in P \<Longrightarrow> p_tri P m (\<lambda>_. P)"
  unfolding p_tri_def settled_in_def using p_idleD by (metis idle_def)

lemma tri_act:
  assumes "\<And>s t. f s = Some t \<Longrightarrow> zconfnerrs s \<le> zconfnerrs t \<and> (P s \<longrightarrow> Q t)"
  shows "p_tri P (p_act f) (\<lambda>_. Q)"
  using assms by (fastforce simp: p_tri_def p_act_def p_call_def split: option.splits)

lemma tri_weaken: "p_tri P m Q \<Longrightarrow> (\<And>s. P' s \<Longrightarrow> P s) \<Longrightarrow> (\<And>x s. Q x s \<Longrightarrow> Q' x s) \<Longrightarrow> p_tri P' m Q'"
  unfolding p_tri_def by blast

lemma tri_ex: "(\<And>a. p_tri (P a) m Q) \<Longrightarrow> p_tri (\<lambda>s. \<exists>a. P a s) m Q"
  unfolding p_tri_def by blast

lemma tri_if: "(c \<Longrightarrow> p_tri P m Q) \<Longrightarrow> (\<not> c \<Longrightarrow> p_tri P k Q) \<Longrightarrow> p_tri P (if c then m else k) Q"
  by simp

subsection \<open>Entries and blocks\<close>

definition in_menu :: "menuref \<Rightarrow> (menuref \<times> mtree list) list \<Rightarrow> kconf \<Rightarrow> bool" where
  "in_menu p up s \<longleftrightarrow> (\<exists>cs. building p cs up s)"

text \<open>The current entry is the last one of the menu and has no entries yet.\<close>

definition at_entry :: "menuref \<Rightarrow> (menuref \<times> mtree list) list \<Rightarrow> kconf \<Rightarrow> bool" where
  "at_entry p up s \<longleftrightarrow> (\<exists>cs. building p (cs @ [MTree (current_entry s) []]) up s)"

definition in_block :: "menuref \<Rightarrow> (menuref \<times> mtree list) list \<Rightarrow> kconf \<Rightarrow> bool" where
  "in_block p up s \<longleftrightarrow> (\<exists>m cs. in_menu m ((p, cs) # up) s)"

lemma settled [simp]: "settled_in (in_menu p up)" "settled_in (at_entry p up)" "settled_in (in_block p up)"
proof -
  have "current_entry t = current_entry s" if "idle s t" for s t using that by (simp add: idle_def menu_spot_def)
  then show "settled_in (in_menu p up)" "settled_in (at_entry p up)" "settled_in (in_block p up)"
    by (simp_all add: settled_in_def in_menu_def at_entry_def in_block_def building_idle)
qed

lemma at_in: "at_entry p up s \<Longrightarrow> in_menu p up s"
  unfolding at_entry_def in_menu_def by blast

lemma tri_add_entry: "p_tri (in_menu p up) (p_add_entry y) (\<lambda>_. at_entry p up)"
  unfolding p_tri_def
proof (intro allI impI)
  fix st x st'
  assume "p_add_entry y st = Parsed x st'"
  then obtain s where s: "menu_add_entry y (kc st) = Some s" "kc st' = s" by (auto simp: p_add_entry_def split: option.splits)
  have i: "idle (link_entry y (kc st)) s" using s(1) menu_op_idle(3) by (auto simp: add_entry_link split: option.splits)
  have "at_entry p up (link_entry y (kc st))" if "in_menu p up (kc st)"
    using that link_entry_building(1,2) unfolding in_menu_def at_entry_def by metis
  moreover have "zconfnerrs (link_entry y (kc st)) = zconfnerrs (kc st)"
    by (simp add: link_entry_def Let_def set_entry_ptr_def upd_menu_def split: entry_ptr.split)
  ultimately show "zconfnerrs (kc st) \<le> zconfnerrs (kc st')
    \<and> (zconfnerrs (kc st') = 0 \<longrightarrow> in_menu p up (kc st) \<longrightarrow> at_entry p up (kc st'))"
    using i settled(2)[of p up] unfolding s(2) settled_in_def by (metis idle_def)
qed

lemma tri_open_menu: "p_tri (at_entry p up) p_open_menu (\<lambda>_. in_block p up)"
  unfolding p_open_menu_def
proof (rule tri_act)
  fix s t
  assume "Some (menu_add_menu s) = Some t"
  then have t: "t = s\<lparr>last_entry_ptr := List_of (current_entry s), current_menu := current_entry s\<rparr>"
    by (simp add: menu_add_menu_def menu_end_entry_def)
  have l: "links t = links s" by (simp add: t links_def)
  have "building (current_entry s) [] ((p, cs) # up) t" if "building p (cs @ [MTree (current_entry s) []]) up s" for cs
    using that unfolding building_def entries_up opened_links[OF l] by (simp add: t slot_def)
  then show "zconfnerrs s \<le> zconfnerrs t \<and> (at_entry p up s \<longrightarrow> in_block p up t)"
    unfolding at_entry_def in_block_def in_menu_def by (auto simp: t)
qed

lemma tri_end_menu: "p_tri (in_block p up) (p_act menu_end_menu) (\<lambda>_. in_menu p up)"
proof (rule tri_act)
  fix s t
  assume e: "menu_end_menu s = Some t"
  then obtain k where k: "menu_parent (menutab s (current_menu s)) = Some k"
    and t: "t = s\<lparr>last_entry_ptr := Next_of (current_menu s), current_menu := k\<rparr>"
    by (auto simp: menu_end_menu_def elim!: bind_SomeE)
  have l: "links t = links s" by (simp add: t links_def)
  have "building p (cs @ [MTree m cs']) up t" if b: "building m cs' ((p, cs) # up) s" for m cs cs'
  proof -
    have "menu_parent (menutab s m) = Some p" using b opened_level(2) by (auto simp: building_def)
    then show ?thesis using b k unfolding building_def entries_up opened_links[OF l] by (simp add: t slot_def)
  qed
  then show "zconfnerrs s \<le> zconfnerrs t \<and> (in_block p up s \<longrightarrow> in_menu p up t)"
    unfolding in_block_def in_menu_def by (auto simp: t)
qed

text \<open>The end of a block closes it unless an error is counted.\<close>

lemma tri_count: "p_tri P (p_seq p_count_error (p_return False)) Q"
  by (auto simp: p_tri_def p_seq_def p_bind_Parsed p_count_error_def p_act_def p_call_def p_return_def)

lemma tri_endtoken:
  assumes "settled_in P"
  shows "p_tri P (zconf_endtoken t start stop) (\<lambda>ok s. ok \<and> P s)"
proof (cases "t = stop")
  case False
  show ?thesis unfolding zconf_endtoken_def if_P[OF False]
    by (rule tri_seq[OF tri_idle[OF idle_token(3) assms] tri_count])
next
  case True
  have w: "p_tri P (p_act (\<lambda>s. Some (kwarn (f s) s))) (\<lambda>_. P)" for f
    by (rule tri_idle[OF _ assms]) (auto intro!: idle_intros)
  show ?thesis unfolding zconf_endtoken_def if_not_P[OF not_not[THEN iffD2, OF True]]
    by (rule tri_bind[OF tri_idle[OF _ assms]])
      (auto intro!: idle_intros tri_if tri_seq[OF tri_idle[OF idle_token(3) assms]] tri_seq[OF w] tri_count tri_return)
qed

lemma idle_then: "p_idle m \<Longrightarrow> settled_in P \<Longrightarrow> p_tri P k Z \<Longrightarrow> p_tri P (p_seq m k) Z"
  by (rule tri_seq[OF tri_idle])

lemma idle_bind_then: "p_idle m \<Longrightarrow> settled_in P \<Longrightarrow> (\<And>x. p_tri P (f x) Z) \<Longrightarrow> p_tri P (p_bind m f) Z"
  by (rule tri_bind[OF tri_idle])

lemma tri_end: "p_tri (in_block p up) (p_end start stop) (\<lambda>_. in_menu p up)"
  unfolding p_end_def
proof (rule idle_bind_then[OF idle_token(1) settled(3)])
  fix t
  have "p_tri (in_block p up) (p_bind (zconf_endtoken t start stop) (\<lambda>ok. if ok then p_act menu_end_menu else p_return ()))
      (\<lambda>_. in_menu p up)"
  proof (rule tri_bind[OF tri_endtoken[OF settled(3)]])
    fix ok
    show "p_tri (\<lambda>s. ok \<and> in_block p up s) (if ok then p_act menu_end_menu else p_return ()) (\<lambda>_. in_menu p up)"
      by (cases ok) (auto intro: tri_weaken[OF tri_end_menu] tri_return)
  qed
  then show "p_tri (in_block p up) (if \<not> is_end t then p_refuse
     else p_seq (expect T_EOL)
       (p_bind (zconf_endtoken t start stop) (\<lambda>ok. if ok then p_act menu_end_menu else p_return ()))) (\<lambda>_. in_menu p up)"
    by (intro tri_if tri_none idle_then idle_token settled)
qed

text \<open>Parsers after which the same menu is open.\<close>

definition p_grows :: "'a pm \<Rightarrow> bool" where
  "p_grows m \<longleftrightarrow> (\<forall>p up. p_tri (in_menu p up) m (\<lambda>_. in_menu p up))"

lemma growsI: "(\<And>p up. p_tri (in_menu p up) m (\<lambda>_. in_menu p up)) \<Longrightarrow> p_grows m"
  by (simp add: p_grows_def)

lemma growsD: "p_grows m \<Longrightarrow> p_tri (in_menu p up) m (\<lambda>_. in_menu p up)"
  by (simp add: p_grows_def)

lemma grows_idle: "p_idle m \<Longrightarrow> p_grows m"
  by (intro growsI tri_idle settled)

lemma grows_bind: "p_grows m \<Longrightarrow> (\<And>x. p_grows (f x)) \<Longrightarrow> p_grows (p_bind m f)"
  unfolding p_grows_def by (blast intro: tri_bind)

lemma grows_seq: "p_grows m \<Longrightarrow> p_grows k \<Longrightarrow> p_grows (p_seq m k)"
  unfolding p_seq_def by (rule grows_bind)

lemma tri_block: "p_grows m \<Longrightarrow> p_tri (in_block p up) m (\<lambda>_. in_block p up)"
  unfolding in_block_def
  by (intro tri_ex) (rule tri_weaken[OF growsD], auto)

lemma tri_forget: "p_tri (at_entry p up) m (\<lambda>_. at_entry p up) \<Longrightarrow> p_tri (at_entry p up) m (\<lambda>_. in_menu p up)"
  by (erule tri_weaken) (auto intro: at_in)

text \<open>The statements.\<close>

lemma grows_config: "p_grows (p_config w n)" "p_grows (p_menuconfig w n)"
proof -
  have e: "p_idle (p_act (\<lambda>s. Some (menu_end_entry s)))" by (auto intro!: idle_intros)
  have c: "p_grows p_config_start" unfolding p_config_start_def
    by (intro growsI idle_then idle_bind_then idle_intros settled tri_weaken[OF tri_add_entry])
      (auto intro: at_in)
  have q: "p_idle p_menu_prompt" unfolding p_menu_prompt_def by (auto intro!: idle_intros)
  show "p_grows (p_config w n)" "p_grows (p_menuconfig w n)" unfolding p_config_def p_menuconfig_def
    by (intro grows_seq c grows_idle e q idle_intros)+
qed

lemma grows_comment: "p_grows (p_comment n)"
  unfolding p_comment_def
  by (intro growsI idle_then idle_bind_then idle_intros settled tri_seq[OF tri_add_entry] tri_forget)
    (auto intro!: tri_idle idle_intros)

lemma block_then: "p_grows b \<Longrightarrow> p_tri (at_entry p up) (p_seq p_open_menu (p_seq b (p_end start stop))) (\<lambda>_. in_menu p up)"
  by (intro tri_seq[OF tri_open_menu] tri_seq[OF tri_block] tri_end)

lemma grows_blocks:
  assumes "\<And>full. p_grows (block full)"
  shows "p_grows (p_if block n)" "p_grows (p_menu block n)" "p_grows (p_choice block n)"
proof -
  have w: "p_idle (case t of T_WORD w \<Rightarrow> p_seq shift (p_return (Some w)) | _ \<Rightarrow> p_return None)" for t
    by (auto intro!: idle_intros split: ztoken.split)
  have f: "p_idle (p_act (\<lambda>s. Some (set_flag SYMBOL_AUTO y s)))" for y by (auto intro!: idle_intros)
  show "p_grows (p_if block n)" unfolding p_if_def
    by (intro growsI idle_then idle_bind_then idle_intros settled tri_seq[OF tri_add_entry] block_then assms)
  show "p_grows (p_menu block n)" unfolding p_menu_def
    by (intro growsI idle_then idle_bind_then idle_intros settled tri_seq[OF tri_add_entry] block_then assms)
  show "p_grows (p_choice block n)" unfolding p_choice_def
    by (intro growsI idle_then idle_bind_then w f idle_intros settled tri_seq[OF tri_add_entry] block_then assms)
qed

subsection \<open>Files\<close>

lemma idle_expand: "calc_skel calc \<Longrightarrow> p_idle (p_call (sym_expand_string_value calc str))"
  by (rule idle_call) (auto intro: idle_skeleton dest: calc_skel.expand_skel)

lemma idle_file_lookup:
  assumes "calc_skel calc"
  shows "p_idle (file_lookup calc name)"
  unfolding file_lookup_def
  by (intro idle_bind idle_expand assms idle_basic idle_option) (auto simp: p_idle_def)

lemma idle_nextfile:
  assumes "calc_skel calc"
  shows "p_idle (zconf_nextfile calc w name)"
  unfolding zconf_nextfile_def
  by (intro idle_bind idle_file_lookup assms idle_basic idle_option idle_if) (auto simp: p_idle_def Let_def)

lemma grows_source: "calc_skel calc \<Longrightarrow> p_grows (p_source calc w)"
  unfolding p_source_def by (intro grows_idle idle_seq idle_bind idle_nextfile idle_intros)

lemma grows_stmt:
  assumes "calc_skel calc" "\<And>full. p_grows (block full)"
  shows "p_grows (p_stmt calc w block n full)"
proof -
  have y: "p_grows (p_seq m (p_return True))" if "p_grows m" for m
    by (rule grows_seq[OF that grows_idle]) (rule idle_intros)
  have f: "p_grows (p_return False)" by (intro grows_idle idle_intros)
  show ?thesis unfolding p_stmt_def Let_def
  proof (rule grows_bind[OF grows_idle[OF idle_peek]])
    fix t
    show "p_grows (case t of
       T_EOL \<Rightarrow> p_seq shift (p_return True)
     | T_IF \<Rightarrow> p_seq (p_if block n) (p_return True)
     | T_COMMENT \<Rightarrow> p_seq (p_comment n) (p_return True)
     | T_CONFIG \<Rightarrow> p_seq (p_config w n) (p_return True)
     | T_MENUCONFIG \<Rightarrow> p_seq (p_menuconfig w n) (p_return True)
     | T_SOURCE \<Rightarrow> p_seq (p_source calc w) (p_return True)
     | T_MENU \<Rightarrow> if full then p_seq (p_menu block n) (p_return True) else p_return False
     | T_CHOICE \<Rightarrow> if full then p_seq (p_choice block n) (p_return True) else p_return False
     | _ \<Rightarrow> p_return False)"
      by (cases t) (simp_all add: y f grows_idle idle_basic grows_blocks[OF assms(2)] grows_comment grows_config
          grows_source[OF assms(1)])
  qed
qed

lemma grows_block:
  assumes "calc_skel calc"
  shows "p_grows (p_block calc w n full)"
proof (induction n arbitrary: full)
  case 0
  show ?case by (simp add: grows_idle idle_basic)
next
  case (Suc n)
  have b: "p_grows (if more then p_block calc w n full else p_return ())" for more
    by (simp add: Suc grows_idle idle_basic)
  show ?case unfolding p_block.simps by (rule grows_bind[OF grows_stmt[OF assms Suc] b])
qed

lemma grows_stmts:
  assumes "calc_skel calc"
  shows "p_grows (p_stmts calc w n)"
proof (induction n)
  case 0
  show ?case by (simp add: grows_idle idle_basic)
next
  case (Suc n)
  have "p_grows (if t = T_END then p_return ()
      else if is_end t then
        p_seq shift (p_seq (expect T_EOL) (p_seq (p_error ''unexpected end statement'') (p_stmts calc w n)))
      else p_refuse)" for t
    by (simp add: grows_seq Suc grows_idle idle_basic idle_token)
  then show ?case unfolding p_stmts.simps
    by (intro grows_seq grows_bind grows_block[OF assms] grows_idle[OF idle_peek])
qed

lemma grows_parse:
  assumes "calc_skel calc"
  shows "p_grows (zconfparse calc w n)"
proof -
  have m: "p_idle (p_mainmenu n)" unfolding p_mainmenu_def by (auto intro!: idle_intros)
  show ?thesis unfolding zconfparse_def
    by (intro grows_seq grows_bind grows_stmts[OF assms] grows_idle) (auto intro!: idle_intros m)
qed

subsection \<open>The whole configuration\<close>

lemma init_building: "links s = links init_kconf \<Longrightarrow> building rootmenu [] [] (menu_init s)"
proof -
  assume l: "links s = links init_kconf"
  have "links (menu_init s) = links s" by (simp add: links_def menu_init_def)
  moreover have "menu_tree init_kconf []" by (simp add: menu_tree_def init_kconf_def zero_menu_def)
  moreover have "nmenus s = 1" using linksD(4)[OF l] by (simp add: init_kconf_def)
  moreover have "nmenus (menu_init s) = nmenus s" by (simp add: menu_init_def)
  ultimately have "opened (menu_init s) rootmenu [] []" "nmenus (menu_init s) = 1"
    using l opened_links[of "menu_init s" init_kconf rootmenu "[]" "[]"] by simp_all
  then show ?thesis by (simp add: building_def entries_def slot_def menu_init_def)
qed

lemma parse_files_tree:
  assumes "calc_skel calc" "parse_files calc w release n name (start_parser init_kconf) = Parsed u st"
    and "zconfnerrs (kc st) = 0"
  shows "\<exists>ts. menu_tree (kc st) ts \<and> preorder ts = [1..<nmenus (kc st)]"
proof -
  have i: "p_idle (zconf_initscan calc w name)" unfolding zconf_initscan_def
    by (intro idle_option idle_bind idle_file_lookup assms(1) idle_basic) (auto simp: p_idle_def Let_def)
  obtain a b where a: "zconf_initscan calc w name (start_parser init_kconf) = Parsed () a"
    and b: "b = a\<lparr>kc := menu_init (sym_init release (kc a))\<rparr>"
    and r: "p_bind (p_call (menu_add_prompt P_MENU ''Linux Kernel Configuration'' None)) (\<lambda>_.
      zconfparse calc w n) b = Parsed u st"
    using assms(2) unfolding parse_files_def p_seq_def p_bind_Parsed by (auto simp: p_act_def p_call_def)
  have "idle init_kconf (kc a)" using p_idleD[OF i a] by (simp add: start_parser_def)
  moreover have "idle (kc a) (sym_init release (kc a))"
    by (auto simp: sym_init_def dest!: sym_lookup_idle intro!: idle_trans[OF _ add_default_idle] split: prod.split)
  ultimately have "links (sym_init release (kc a)) = links init_kconf" by (simp add: idle_def)
  then have "in_menu rootmenu [] (kc b)" using init_building b by (auto simp: in_menu_def)
  moreover have "p_grows (p_bind (p_call (menu_add_prompt P_MENU ''Linux Kernel Configuration'' None)) (\<lambda>_. zconfparse calc w n))"
    by (intro grows_bind grows_parse assms(1) grows_idle idle_intros)
  ultimately have "in_menu rootmenu [] (kc st)" using r assms(3) unfolding p_grows_def p_tri_def by blast
  then show ?thesis by (auto simp: in_menu_def building_def entries_def)
qed

text \<open>The check for recursive dependencies marks symbols and prints.\<close>

lemma check_deps_links: "sym_check_deps n y st s = Some (v, t) \<Longrightarrow> links t = links s"
proof (induction n arbitrary: y st s v t)
  case (Suc n)
  let ?c = "sym_check_deps n"
  have node: "sym_check_node ?c st e s = Some (v, t) \<Longrightarrow> links t = links s" for st e s v t
    by (induction e arbitrary: s v t) (auto simp: link_simps elim!: bind_SomeE dest!: Suc.IH split: if_splits)
  then have ex: "sym_check_expr_deps ?c st e s = Some (v, t) \<Longrightarrow> links t = links s" for st e s v t
    by (auto simp: sym_check_expr_deps_def split: option.splits)
  have props: "check_props ?c d st ps s = Some (v, t) \<Longrightarrow> links t = links s" for d st ps s v t
    by (induction ps arbitrary: d s) (auto simp: Let_def elim!: bind_SomeE dest!: ex split: if_splits)
  have deps: "sym_check_sym_deps ?c y st s = Some (v, t) \<Longrightarrow> links t = links s" for y st s v t
    by (auto simp: sym_check_sym_deps_def Let_def elim!: bind_SomeE dest!: ex props split: if_splits)
  have vals: "check_values ?c st vs s = Some (v, t) \<Longrightarrow> links t = links s" for st vs s v t
    by (induction vs arbitrary: s) (auto elim!: bind_SomeE dest!: deps split: if_splits)
  have mark: "links (mark_check y s) = links s" for y s by (simp add: mark_check_def link_simps)
  have marks: "links (fold mark_check vs s) = links s" "links (fold (clear_flag b) vs s) = links s" for b vs s
    by (rule fold_links, simp add: mark link_simps)+
  have choice: "sym_check_choice_deps ?c y st s = Some (v, t) \<Longrightarrow> links t = links s" for y st s v t
    unfolding sym_check_choice_deps_def Let_def
    by (auto simp: mark marks link_simps elim!: bind_SomeE dest!: deps vals split: if_splits)
  have pe: "print_entry l d x ms = Some us \<Longrightarrow> links (snd us) = links (snd ms)" for l d x ms us
    by (cases ms) (auto simp: print_entry_def Let_def link_simps elim!: bind_SomeE split: if_splits)
  have pes: "print_entries l ds ms = Some us \<Longrightarrow> links (snd us) = links (snd ms)" for l ds ms us
    by (induction ds arbitrary: ms) (auto elim!: bind_SomeE dest!: pe)
  have rep: "sym_check_print_recursive y st s = Some t \<Longrightarrow> links t = links s" for y st s t
    using pes[where ms = "(None, s)"]
    by (force simp: sym_check_print_recursive_def Let_def link_simps elim!: bind_SomeE split: if_splits)
  show ?case using Suc.prems
    by (auto simp: sym_check_body_def link_simps mark elim!: bind_SomeE dest!: rep choice deps Suc.IH split: if_splits)
qed simp

lemma check_symbols_links: "check_symbols s = Some t \<Longrightarrow> links t = links s"
  unfolding check_symbols_def
  by (rule ofold_links[rotated], assumption) (auto elim!: bind_SomeE dest!: check_deps_links simp: links_def)

lemma conf_parse_tree:
  assumes "calc_skel calc" "conf_parse calc w release junk n name (start_parser init_kconf) = Parsed u st"
  shows "\<exists>ts. menu_tree (kc st) ts \<and> preorder ts = [1..<nmenus (kc st)]"
proof -
  obtain a s1 s2 s3 where a: "parse_files calc w release n name (start_parser init_kconf) = Parsed () a"
    "zconfnerrs (kc a) = 0"
    and s: "expand_title calc (find_modules (kc a)) = Some s1" "menu_finalize (Suc (nmenus s1)) junk rootmenu s1 = Some s2"
      "check_symbols s2 = Some s3" "kc st = sym_set_change_count 1 s3"
    using assms(2) unfolding conf_parse_def p_seq_def p_bind_Parsed p_check_errors_def
    by (auto simp: p_act_def p_call_def p_get_def p_refuse_def p_return_def split: if_splits option.splits)
  obtain ts where ts: "menu_tree (kc a) ts" "preorder ts = [1..<nmenus (kc a)]"
    using parse_files_tree[OF assms(1) a] by blast
  have "links (find_modules (kc a)) = links (kc a)" by (simp add: find_modules_def links_def)
  moreover have "links s1 = links (find_modules (kc a))" using s(1)
    by (auto simp: expand_title_def link_simps elim!: bind_SomeE
        dest!: calc_skel.expand_skel[OF assms(1), THEN idle_skeleton] simp: idle_def)
  ultimately have l: "links s1 = links (kc a)" by simp
  then have ts1: "menu_tree s1 ts" "preorder ts = [1..<nmenus s1]"
    using ts by (simp_all only: menu_tree_def linksD[OF l] forest_links[OF l])
  have d: "distinct (rootmenu # preorder ts)" unfolding ts1(2) by (simp add: rootmenu_def)
  obtain ts' where ts': "menu_tree s2 ts'" "preorder ts' = preorder ts" "nmenus s2 = nmenus s1"
    using finalize_tree[OF ts1(1) d s(2)] by blast
  have l': "links (kc st) = links s2" using check_symbols_links[OF s(3)] s(4)
    by (simp add: sym_set_change_count_def Let_def links_def)
  have "menu_tree (kc st) ts'" using ts'(1) by (simp only: menu_tree_def linksD[OF l'] forest_links[OF l'])
  then show ?thesis using ts'(2,3) ts1(2) linksD(4)[OF l'] by auto
qed

end
