(* ===== verification/Parse_Demo.thy ===== *)
theory Parse_Demo
  imports Parse_Tree
begin

text \<open>
  A run of the parser, rule by rule: a file with one comment. A congruence rule keeps the
  simplifier out of what follows the rule that is under way.
\<close>

lemma p_bind_first: "m = m' \<Longrightarrow> p_bind m f st = p_bind m' f st"
  by simp

definition demo_text :: string where
  "demo_text = ''comment '' @ [dquote] @ ''x'' @ [dquote, newline]"

definition kconfig_world :: world where
  "kconfig_world = \<lparr>w_env = (\<lambda>_. None), w_files = [''Config.in'' \<mapsto> demo_text], w_dirs = {}, w_denied = {},
     w_pid = 1, w_rand = (\<lambda>_. 0), w_rpos = 0\<rparr>"

declare p_stmts.simps [simp del] p_block.simps [simp del] p_depends_list.simps [simp del] p_eols.simps [simp del]

lemma p_seq_step: "p_seq m k st = p_bind m (\<lambda>_. k) st"
  by (simp add: p_seq_def)

lemmas run_simps = p_bind_def p_seq_step p_return_def p_call_def p_act_def[THEN fun_cong] p_get_def peek_def shift_def
  next_token_def[THEN fun_cong] expect_def[THEN fun_cong] p_print_def p_stmts.simps[THEN fun_cong] p_block.simps[THEN fun_cong]
  p_depends_list.simps[THEN fun_cong] p_eols.simps[THEN fun_cong] p_comment_def[THEN fun_cong] p_prompt_def[THEN fun_cong]
  p_stmt_def[THEN fun_cong] zconfparse_def[THEN fun_cong] p_add_entry_def

lemmas lex_simps = zconflex_def lex_loop.simps lex_step_def lex_initial_def lex_command_def lex_param_def
  lex_string_def lex_eof_def string_part_def begin_in_def rest_is_def append_string_def set_pos_def next_line_def
  upd_file_def zconf_endfile_def Scan.is_word_def is_param_def is_quote_def is_plain_def is_blank_def param_op_def
  command_words_def param_words_def from_eol_def to_eol_def isalnum_def isdigit_def isupper_def islower_def in_range_def starts_with_def

definition demo_scanner :: scanner where
  "demo_scanner = \<lparr>yy_start = INITIAL, yy_input = demo_text, yy_stack = [], yy_text = [], last_ts = 0,
     first_ts = 0, yy_quote = None, src_files = [\<lparr>src_name = ''Config.in'', src_lineno = 1, src_parent = None\<rparr>],
     src_current = Some 0, pos_file = None, pos_lineno = 0\<rparr>"






definition titled :: "prop_type \<Rightarrow> string \<Rightarrow> kconf \<Rightarrow> kconf" where
  "titled ty str s = s\<lparr>proptab := (proptab s)(nprops s := zero_property\<lparr>prop_type := ty, prop_text := Some str,
       prop_menu := Some (current_entry s), prop_file := current_file s, prop_lineno := zconf_lineno s\<rparr>),
     nprops := Suc (nprops s),
     menutab := (menutab s)(current_entry s := (menutab s (current_entry s))\<lparr>menu_prompt := Some (nprops s)\<rparr>)\<rparr>"

lemma prompt_titled:
  assumes "ty \<noteq> P_PROMPT" "\<not> isspace (char_at str 0)" "menu_sym (menutab s (current_entry s)) = None"
    "menu_prompt (menutab s (current_entry s)) = None \<or> current_entry s = rootmenu"
  shows "menu_add_prompt ty str None s = Some (nprops s, titled ty str s)"
proof -
  have "dropWhile isspace str = str" using assms(2) by (cases str) (simp_all add: char_at_def)
  moreover have "(if menu_prompt (menutab s (current_entry s)) \<noteq> None \<and> current_entry s \<noteq> rootmenu then a else b) = b" for a b :: kconf
    using assms(4) by auto
  ultimately show ?thesis using assms(1-3)
    by (simp add: menu_add_prompt_def menu_add_prop_def prop_alloc_def menu_check_dep_def on_expr_def titled_def upd_prop_def upd_menu_def
        Let_def zero_property_def zero_expr_value_def)
qed

definition entered :: "kconf \<Rightarrow> kconf" where
  "entered s = set_entry_ptr (last_entry_ptr s) (nmenus s)
     (s\<lparr>menutab := (menutab s)(nmenus s := zero_menu\<lparr>menu_parent := Some (current_menu s), menu_file := current_file s,
        menu_lineno := zconf_lineno s\<rparr>), nmenus := Suc (nmenus s)\<rparr>)
     \<lparr>last_entry_ptr := Next_of (nmenus s), current_entry := nmenus s\<rparr>"

lemma entry_entered: "menu_add_entry None s = Some (entered s)"
  by (simp add: menu_add_entry_def entered_def zero_menu_def Let_def)

lemma entered_fields [simp]:
  "current_entry (entered s) = nmenus s" "nprops (entered s) = nprops s" "nmenus (entered s) = Suc (nmenus s)"
  by (simp_all add: entered_def set_entry_ptr_def upd_menu_def split: entry_ptr.split)

lemma comment_titled:
  assumes "nmenus s = 1" "last_entry_ptr s = List_of rootmenu"
  shows "menu_add_prompt P_COMMENT ''x'' None (entered s) = Some (nprops s, titled P_COMMENT ''x'' (entered s))"
  using assms by (subst prompt_titled)
    (simp_all add: entered_def set_entry_ptr_def upd_menu_def char_at_def isspace_def in_range_def rootmenu_def zero_menu_def)

lemma titled_fields [simp]:
  "current_entry (titled ty str s) = current_entry s" "nmenus (titled ty str s) = nmenus s"
  by (simp_all add: titled_def)

definition demo_kconf :: "kconf \<Rightarrow> kconf" where
  "demo_kconf s = titled P_COMMENT ''x'' (entered (s\<lparr>current_file := Some ''Config.in'', zconf_lineno := 1\<rparr>))
     \<lparr>current_file := None, zconf_lineno := 1\<rparr>"

text \<open>The engine after the whole file, with the lines of the scanner.\<close>

lemma demo_parsed:
  assumes "nmenus s = 1" "last_entry_ptr s = List_of rootmenu"
  shows "\<exists>st. zconfparse calc w (Suc (Suc (Suc (Suc (Suc (Suc n))))))
      \<lparr>scan = demo_scanner, look = None, kc = s, entry_file = (\<lambda>_. None)\<rparr> = Parsed () st
    \<and> kc st = demo_kconf s"
  by (simp cong: p_bind_first add: demo_scanner_def demo_text_def lex_simps run_simps sync_def file_name_def
     is_end_def entry_entered comment_titled assms menu_end_entry_def Let_def demo_kconf_def)

definition with_release :: "kconf \<Rightarrow> kconf" where
  "with_release s = s\<lparr>symtab := (symtab s)(heap_sym 0 := zero_symbol\<lparr>sym_name := Some ''UNAME_RELEASE'', sym_type := S_STRING,
       sym_flags := {SYMBOL_AUTO}, sym_prop := [0]\<rparr>), nsyms := 1,
     symbol_hash := (symbol_hash s)(sym_bucket ''UNAME_RELEASE'' := [heap_sym 0]),
     proptab := (proptab s)(0 := zero_property\<lparr>prop_type := P_DEFAULT, prop_sym := Some (heap_sym 0),
       prop_file := current_file s, prop_lineno := zconf_lineno s, prop_expr := Some (ESymbol symbol_yes)\<rparr>), nprops := 1\<rparr>"

lemma init_release:
  assumes "nsyms s = 0" "nprops s = 0" "symbol_hash s (sym_bucket ''UNAME_RELEASE'') = []"
  shows "sym_init ''y'' s = with_release s"
  using assms by (simp add: sym_init_def with_release_def sym_lookup_def sym_alloc_def const_name_def
     sym_add_default_def prop_alloc_def upd_sym_def upd_prop_def prop_set_expr_def expr_alloc_symbol_def zero_symbol_def Let_def)

definition demo_start :: kconf where
  "demo_start = titled P_MENU ''Linux Kernel Configuration'' (menu_init (with_release (init_kconf\<lparr>file_list := [''Config.in''],
     current_file := Some ''Config.in'', zconf_lineno := 0\<rparr>)))"

lemma demo_files: "\<exists>st. parse_files calc kconfig_world ''y'' (Suc (Suc (Suc (Suc (Suc (Suc n)))))) ''Config.in'' (start_parser init_kconf)
    = Parsed () st \<and> kc st = demo_kconf demo_start"
proof -
  have "zconf_initscan calc kconfig_world ''Config.in'' (start_parser init_kconf) = Parsed () 
     \<lparr>scan = demo_scanner, look = None, kc = init_kconf\<lparr>file_list := [''Config.in''],
     current_file := Some ''Config.in'', zconf_lineno := 0\<rparr>, entry_file = (\<lambda>_. None)\<rparr>"
    by (simp add: zconf_initscan_def zconf_fopen_def kconfig_world_def start_parser_def file_lookup_def run_simps
     sym_expand_string_value_def sym_expand_loop.simps find_file_def sync_def file_name_def demo_scanner_def upd_file_def init_kconf_def)
  moreover have "sym_init ''y'' (init_kconf\<lparr>file_list := [''Config.in''], current_file := Some ''Config.in'', zconf_lineno := 0\<rparr>)
      = with_release (init_kconf\<lparr>file_list := [''Config.in''], current_file := Some ''Config.in'', zconf_lineno := 0\<rparr>)"
    by (rule init_release) (simp_all add: init_kconf_def)
  moreover have "menu_add_prompt P_MENU ''Linux Kernel Configuration'' None (menu_init (with_release (init_kconf\<lparr>file_list := [''Config.in''],
      current_file := Some ''Config.in'', zconf_lineno := 0\<rparr>))) = Some (1, demo_start)"
    unfolding demo_start_def by (subst prompt_titled)
      (simp_all add: with_release_def menu_init_def init_kconf_def zero_menu_def char_at_def isspace_def in_range_def)
  moreover have "nmenus demo_start = 1" "last_entry_ptr demo_start = List_of rootmenu"
    by (simp_all add: demo_start_def titled_def with_release_def menu_init_def init_kconf_def)
  ultimately show ?thesis
    using demo_parsed[of demo_start calc kconfig_world n] by (simp add: parse_files_def run_simps)
qed

definition demo_done :: kconf where
  "demo_done = find_modules (demo_kconf demo_start)"

lemmas demo_state_simps = demo_done_def find_modules_def demo_kconf_def demo_start_def titled_def entered_def set_entry_ptr_def upd_menu_def
  menu_init_def with_release_def init_kconf_def zero_menu_def zero_property_def zero_symbol_def zero_expr_value_def sym_find_def const_name_def rootmenu_def

lemma demo_facts:
  "menutab demo_done 0 = zero_menu\<lparr>menu_list := Some (Suc 0), menu_prompt := Some (Suc 0)\<rparr>"
  "menu_sym (menutab demo_done (Suc 0)) = None" "menu_next (menutab demo_done (Suc 0)) = None" "menu_list (menutab demo_done (Suc 0)) = None"
  "menu_prompt (menutab demo_done (Suc 0)) = Some (Suc (Suc 0))" "menu_dep (menutab demo_done (Suc 0)) = None"
  "proptab demo_done 0 = zero_property\<lparr>prop_type := P_DEFAULT, prop_sym := Some (heap_sym 0),
     prop_file := Some ''Config.in'', prop_expr := Some (ESymbol symbol_yes)\<rparr>"
  "prop_text (proptab demo_done (Suc 0)) = Some ''Linux Kernel Configuration''" "prop_visible (proptab demo_done (Suc 0)) = zero_expr_value"
  "prop_type (proptab demo_done (Suc (Suc 0))) = P_COMMENT" "prop_menu (proptab demo_done (Suc (Suc 0))) = Some (Suc 0)" "prop_visible (proptab demo_done (Suc (Suc 0))) = zero_expr_value"
  "nmenus demo_done = Suc (Suc 0)" "nsyms demo_done = 1" "zconfnerrs demo_done = 0"
  "symtab demo_done = init_symtab(heap_sym 0 := zero_symbol\<lparr>sym_name := Some ''UNAME_RELEASE'', sym_type := S_STRING,
     sym_flags := {SYMBOL_AUTO}, sym_prop := [0]\<rparr>)"
  "symbol_hash demo_done = (\<lambda>_. [])(sym_bucket ''UNAME_RELEASE'' := [heap_sym 0])"
  by (simp_all add: demo_state_simps)

lemma upd_menu_same: "f (menutab s m) = menutab s m \<Longrightarrow> upd_menu m f s = s"
  by (simp add: upd_menu_def)

lemma upd_prop_same: "f (proptab s p) = proptab s p \<Longrightarrow> upd_prop p f s = s"
  by (simp add: upd_prop_def)

lemma demo_title: "expand_title calc demo_done = Some demo_done"
  by (simp add: expand_title_def demo_facts rootmenu_def sym_expand_string_value_def sym_expand_loop.simps upd_prop_same)

lemma no_dep: "propagate_dep s None None = Some None"
  by (simp add: propagate_dep_def on_expr_def expr_alloc_and_def)

lemma demo_child: "fin_child junk None (Suc 0) demo_done = Some demo_done"
  by (simp add: fin_child_def demo_facts no_dep menu_props_def fin_prop_def upd_menu_same upd_prop_same zero_expr_value_def)

lemma demo_finalize: "menu_finalize (Suc (Suc n)) junk rootmenu demo_done = Some demo_done"
  by (simp add: menu_finalize_body_def rootmenu_def demo_facts fin_children_def fin_parentdep_def zero_menu_def zero_expr_value_def
     demo_child fin_entry_def fin_flatten_def)

lemma demo_symbols: "all_symbols demo_done = [heap_sym 0]"
proof -
  have l: "concat (map ((\<lambda>_. [])(b := [y])) [0..<n]) = (if b < n then [y] else [])" for b n and y :: symref
    by (induction n) auto
  have "sym_bucket str < SYMBOL_HASHSIZE" for str by (simp add: sym_bucket_def SYMBOL_HASHSIZE_def)
  then show ?thesis
    by (simp add: all_symbols_def hash_symbols_def demo_facts l zero_symbol_def)
qed

lemma demo_deps: "\<exists>t. sym_check_deps (Suc (Suc n)) (heap_sym 0) [] demo_done = Some (None, t) \<and> zconfnerrs t = 0"
  by (simp add: sym_check_body_def lkc_inline_defs demo_facts zero_symbol_def zero_property_def zero_expr_value_def const_symbol_def
     sym_check_sym_deps_def sym_check_expr_deps_def mark_check_def set_flag_def clear_flag_def upd_sym_def)

lemma demo_check: "\<exists>t. check_symbols demo_done = Some t \<and> zconfnerrs t = 0"
proof -
  have "check_fuel demo_done = Suc (Suc 10)" by (simp add: check_fuel_def demo_facts)
  then show ?thesis using demo_deps[of 10] by (auto simp: check_symbols_def demo_symbols)
qed

lemma demo_parse: "\<exists>st. conf_parse calc kconfig_world ''y'' tno 6 ''Config.in'' (start_parser init_kconf) = Parsed () st"
proof -
  obtain a where a: "parse_files calc kconfig_world ''y'' 6 ''Config.in'' (start_parser init_kconf) = Parsed () a"
     "find_modules (kc a) = demo_done"
    using demo_files[of calc 0] by (auto simp: eval_nat_numeral demo_done_def)
  have "zconfnerrs (kc a) = 0" using demo_facts(15) arg_cong[OF a(2), of zconfnerrs] by (simp add: find_modules_def split: if_splits)
  moreover obtain t where "check_symbols demo_done = Some t" "zconfnerrs t = 0" using demo_check by blast
  moreover have "menu_finalize (Suc (nmenus demo_done)) tno rootmenu demo_done = Some demo_done"
    using demo_finalize[of 1] by (simp add: demo_facts)
  ultimately show ?thesis using a by (simp add: conf_parse_def run_simps p_check_errors_def demo_title)
qed
end
