(* ===== verification/Parse_Properties.thy ===== *)
theory Parse_Properties
  imports Parse_Demo
begin

text \<open>The properties of the parser of the configuration language.\<close>

text \<open>The words that end a block, with the block they end.\<close>

definition block_ends :: "(ztoken \<times> ztoken \<times> string) set" where
  "block_ends = {(T_MENU, T_ENDMENU, ''endmenu''), (T_CHOICE, T_ENDCHOICE, ''endchoice''), (T_IF, T_ENDIF, ''endif'')}"

lemma end_words:
  assumes "(start, stop, word) \<in> block_ends"
    "yy_start sc = INITIAL" "yy_input sc = word @ rest" "rest = [] \<or> hd rest = newline"
  shows "zconflex sc = (stop, (set_pos sc)\<lparr>yy_start := PARAM, yy_input := rest, yy_quote := None\<rparr>)"
  using assms by (cases rest; cases "src_current sc") (auto simp: block_ends_def lex_simps Let_def)

lemma end_eof:
  assumes "yy_start sc = PARAM" "yy_input sc = []" "src_current sc = Some i"
  shows "\<exists>sc'. zconflex sc = (T_EOL, sc') \<and> src_current sc' = src_parent (src_files sc ! i)"
  using assms by (cases "yy_stack sc") (auto simp: lex_simps)

lemma end_line:
  assumes "yy_start sc = PARAM" "yy_input sc = newline # rest"
  shows "\<exists>sc'. zconflex sc = (T_EOL, sc') \<and> src_current sc' = src_current sc"
  using assms by (cases "src_current sc") (auto simp: lex_simps)

text \<open>C11: the end of a block belongs to it when its line has a newline; at the end of the file the same words
  are refused with two errors and leave the block open, because the scanner has left the file already.\<close>

theorem block_end_needs_newline:
  assumes "(start, stop, word) \<in> block_ends"
    and "look st = None" "yy_start (scan st) = INITIAL" "src_current (scan st) = Some i"
    and "entry_file st (current_menu (kc st)) = Some i" "src_parent (src_files (scan st) ! i) \<noteq> Some i"
    and "menu_parent (menutab (kc st) (current_menu (kc st))) = Some k"
  shows "(yy_input (scan st) = word @ newline # rest \<longrightarrow> (\<exists>t. p_end start stop st = Parsed () t
      \<and> zconfnerrs (kc t) = zconfnerrs (kc st) \<and> current_menu (kc t) = k))
    \<and> (yy_input (scan st) = word \<longrightarrow> (\<exists>t. p_end start stop st = Parsed () t
      \<and> zconfnerrs (kc t) = zconfnerrs (kc st) + 2 \<and> current_menu (kc t) = current_menu (kc st)))"
proof (intro conjI impI)
  have e: "is_end stop" using assms(1) by (auto simp: block_ends_def is_end_def)
  let ?sc = "\<lambda>rest. (set_pos (scan st))\<lparr>yy_start := PARAM, yy_input := rest, yy_quote := None\<rparr>"
  have s: "src_current (?sc r) = Some i" "src_files (?sc r) = src_files (scan st)" for r
    by (simp_all add: set_pos_def assms(4))
  {
    assume i: "yy_input (scan st) = word @ newline # rest"
    then obtain sc' where "zconflex (?sc (newline # rest)) = (T_EOL, sc')" "src_current sc' = Some i"
      using end_line[of "?sc (newline # rest)"] s by auto
    then show "\<exists>t. p_end start stop st = Parsed () t \<and> zconfnerrs (kc t) = zconfnerrs (kc st) \<and> current_menu (kc t) = k"
      using end_words[OF assms(1,3) i] assms(2,5,7) e
      by (auto simp: run_simps p_end_def[THEN fun_cong] zconf_endtoken_def sync_def menu_end_menu_def)
  }
  {
    assume i: "yy_input (scan st) = word"
    then obtain sc' where "zconflex (?sc []) = (T_EOL, sc')" "src_current sc' = src_parent (src_files (scan st) ! i)"
      using end_eof[of "?sc []"] s by auto
    then show "\<exists>t. p_end start stop st = Parsed () t \<and> zconfnerrs (kc t) = zconfnerrs (kc st) + 2
        \<and> current_menu (kc t) = current_menu (kc st)"
      using end_words[OF assms(1,3), of "[]"] i assms(2,5,6) e
      by (auto simp: run_simps p_end_def[THEN fun_cong] zconf_endtoken_def sync_def p_error_def p_count_error_def kwarn_def)
  }
qed

text \<open>A menu that is open, and its end as the last word of the file.\<close>

definition open_menu :: parser where
  "open_menu = \<lparr>scan = demo_scanner\<lparr>yy_input := ''endmenu''\<rparr>, look = None,
     kc = init_kconf\<lparr>menutab := (\<lambda>_. zero_menu)(1 := zero_menu\<lparr>menu_parent := Some 0\<rparr>), nmenus := 2, current_menu := 1\<rparr>,
     entry_file = [1 \<mapsto> 0]\<rparr>"

theorem block_end_needs_newline_witness:
  "\<exists>t. p_end T_MENU T_ENDMENU open_menu = Parsed () t \<and> zconfnerrs (kc t) = 2 \<and> current_menu (kc t) = 1"
proof -
  have "(T_MENU, T_ENDMENU, ''endmenu'') \<in> block_ends" by (simp add: block_ends_def)
  moreover have "look open_menu = None" "yy_start (scan open_menu) = INITIAL" "src_current (scan open_menu) = Some 0"
    "entry_file open_menu (current_menu (kc open_menu)) = Some 0" "src_parent (src_files (scan open_menu) ! 0) \<noteq> Some 0"
    "menu_parent (menutab (kc open_menu) (current_menu (kc open_menu))) = Some 0" "yy_input (scan open_menu) = ''endmenu''"
    "zconfnerrs (kc open_menu) = 0" "current_menu (kc open_menu) = 1"
    by (simp_all add: open_menu_def demo_scanner_def init_kconf_def)
  ultimately show ?thesis using block_end_needs_newline[of T_MENU T_ENDMENU "''endmenu''" open_menu 0 0] by auto
qed

text \<open>C3: when a configuration has been read without an error, its entries form a tree, linked by parent, first
  child and next entry, and this tree, after the rearrangements of \<open>menu_finalize\<close>, still has the entries in
  the order of the files.\<close>

theorem conf_parse_menu_tree:
  assumes "conf_parse sym_calc w release junk n name (start_parser init_kconf) = Parsed u st"
  shows "\<exists>ts. menu_tree (kc st) ts \<and> preorder ts = [1..<nmenus (kc st)]"
  using conf_parse_tree[OF sym_calc_skel.calc_skel_axioms assms] .

theorem conf_parse_menu_tree_witness:
  "\<exists>st ts. conf_parse sym_calc kconfig_world ''y'' tno 6 ''Config.in'' (start_parser init_kconf) = Parsed () st
     \<and> menu_tree (kc st) ts \<and> preorder ts = [1..<nmenus (kc st)]"
proof -
  obtain st where "conf_parse sym_calc kconfig_world ''y'' tno 6 ''Config.in'' (start_parser init_kconf) = Parsed () st"
    using demo_parse by blast
  with conf_parse_menu_tree[OF this] show ?thesis by blast
qed

end
