(* ===== verification/Spec2Isabelle.thy ===== *)
theory Spec2Isabelle
  imports Expr_Properties Symbol_Properties Symbol_Set_Properties Strmap_Properties
    Menu_Finalize Conf_New Conf_File_Properties Conf_Read_Properties
    Conf_Write_Properties Sortfile_Properties Pkgrebuild_Properties Depmaker_Properties
    Pkgmaker_Properties Conf_Properties Parse_Properties
begin

text \<open>
  A verification development for the configuration system of OpenADK: the configuration engine
  in C under \<open>adk/config\<close> (a descendant of the kernel's kconfig), and the tools under
  \<open>adk/tools\<close> that turn the make files of the packages into its input and into make rules.

  \<^bold>\<open>The program.\<close> The build is steered by a set of \<^emph>\<open>symbols\<close> (options) that are declared in
  \<open>Config.in\<close> files. The parser calls the operations of \<open>menu.c\<close>, which build a tree of menu
  entries and attach \<^emph>\<open>properties\<close> (prompts, defaults, selects, ranges) to symbols of the symbol
  table of \<open>symbol.c\<close>; \<open>menu_finalize\<close> then propagates dependencies down the tree with the
  expression functions of \<open>expr.c\<close>. The front ends and \<open>confdata.c\<close> set user values and ask for
  the value of a symbol, which \<open>sym_calc_value\<close> computes from its visibility, its user value,
  its defaults and the symbols that select it, by recursion over the other symbols.

  \<open>pkgmaker\<close> reads the make files of all packages and writes the \<open>Config.in\<close> files and section
  menus of the packages; \<open>depmaker\<close> prints the make rules between packages for a configuration;
  \<open>pkgrebuild\<close> compares two configurations and marks the packages to build again; \<open>sortfile\<close>
  sorts the section lists.

  \<^bold>\<open>The theories.\<close>
    \<^item> \<open>Prelude\<close>: loops whose body may fail (\<open>ofold\<close>), character classes, collections of rules.
    \<^item> \<open>Kconfig_Types\<close>: the data of \<open>expr.h\<close> and \<open>lkc.h\<close>. Pointers to symbols, properties and menus
      are references into stores; the record \<open>kconf\<close> holds the stores and the globals.
    \<^item> \<open>Expr\<close>, \<open>Expr_Dups\<close>: the rewriting functions of \<open>expr.c\<close>; \<open>Expr_Sem\<close>, \<open>Expr_Join\<close>,
      \<open>Expr_Dups_Sound\<close>: the abstract value \<open>eval\<close> of an expression in three-valued logic and
      what the functions keep of it; \<open>Expr_Print\<close>: printing and the strings of \<open>util.c\<close>.
    \<^item> \<open>Symbol_Value\<close>: \<open>sym_calc_value\<close> and the functions it is mutually recursive with. Each is a
      definition that takes the recursive call as an argument.
    \<^item> \<open>Symbol_Frame\<close>, \<open>Symbol_Total\<close>, \<open>Symbol_Returns\<close>, \<open>Symbol_Calc\<close>, \<open>Symbol_Knot\<close>: the
      computation returns. The locale \<open>calc_total\<close> is the contract of the recursive call; it is
      interpreted on \<open>sym_calc_value\<close> for every amount of fuel.
    \<^item> \<open>Symbol_Tab\<close>: hash table, lookup, properties, string expansion and search; \<open>Symbol_Set\<close>:
      setting values and the change counter; \<open>Symbol_Numbers\<close>: numbers and their strings;
      \<open>Symbol_Deps\<close>: the check for recursive dependencies.
    \<^item> \<open>Menu\<close>, \<open>Menu_Finalize\<close>: building and finalizing the menu tree, visibility of entries.
    \<^item> \<open>Strmap\<close>: the string map of \<open>adk/tools/strmap.c\<close>, with the locale \<open>string_map\<close> for its
      clients.
    \<^item> \<open>World\<close>: files, directories, environment and random numbers as a record; \<open>Cstring\<close>: the
      string functions of the C library that the tools parse with (\<open>strstr\<close>, \<open>strtok\<close>, \<open>fgets\<close>,
      bounded buffers), and what they do on a line that assigns a list of words.
    \<^item> \<open>Sortfile\<close>, \<open>Pkgrebuild\<close>, \<open>Depmaker\<close>, \<open>Pkgmaker_Parse\<close>, \<open>Pkgmaker\<close>: the package tools, one
      definition for each block of their main loops. The blocks hand on what \<open>strtok\<close> leaves of
      the line buffer. Directory listings are parameters (\<open>readdir\<close>).
    \<^item> \<open>Confdata\<close>: reading configuration files; \<open>Conf_Write\<close>: the writers (\<open>.config\<close>, minimal
      configurations, \<open>auto.conf\<close>, the headers); \<open>Conf_New\<close>: values for all new symbols.
    \<^item> \<open>Menu_Help\<close>: the texts about symbols and prompts at the end of \<open>menu.c\<close>; \<open>Front\<close>: the
      state of the line oriented front end \<open>conf.c\<close> and the composition of its steps; \<open>Conf\<close>: its
      questions and the walks along the menu; \<open>Conf_Main\<close>: its main program. The standard streams
      are strings of the state, and the engine with its world is part of it.
    \<^item> \<open>Scan\<close>: the scanner of \<open>zconf.l\<close>, one function for each start condition; \<open>Parse\<close>: the grammar
      of \<open>zconf.y\<close> with its actions, by recursive descent; \<open>Conf_Parse\<close>: \<open>conf_parse\<close>, and the whole
      program of \<open>conf.c\<close> with it.
    \<^item> \<open>Symbol_Skeleton\<close>: computing values changes no declaration, stated as the locale \<open>calc_skel\<close>
      for whatever function computes them and interpreted on \<open>sym_calc\<close>; \<open>Menu_Links\<close>: pieces of the
      menu tree and what relinking them does; \<open>Menu_Order\<close>: \<open>menu_finalize\<close> rearranges the tree and
      keeps its order; \<open>Parse_Idle\<close>, \<open>Parse_Tree\<close>: what each rule of the grammar does to the tree
      under construction, as triples over the parser states; \<open>Parse_Demo\<close>: a run of the parser on a
      concrete file; \<open>Parse_Properties\<close>: the properties of the parser.
    \<^item> \<open>Session\<close>, \<open>Menu_Visible\<close>: what the operations a front end calls keep of the engine;
      \<open>Conf_Keeps\<close>: the same for every step of \<open>conf.c\<close>; \<open>Conf_Returns\<close>: the modes that ask
      nothing; \<open>Conf_Dialog\<close>: single questions; \<open>Conf_Properties\<close>: the properties.
    \<^item> \<open>Symbol_User\<close>, \<open>Conf_Read\<close>: changing user values and loading a file keep the configuration
      well-formed; \<open>Conf_Lines\<close>: the lines of a file; \<open>Conf_Walk\<close>: the menu tree behind the links
      and the walk of the writers.
    \<^item> \<open>Expr_Properties\<close>, \<open>Symbol_Properties\<close>, \<open>Symbol_Set_Properties\<close>, \<open>Strmap_Properties\<close>,
      \<open>Conf_File_Properties\<close>, \<open>Conf_Read_Properties\<close>, \<open>Conf_Write_Properties\<close>,
      \<open>Sortfile_Properties\<close>, \<open>Pkgrebuild_Properties\<close>, \<open>Depmaker_Properties\<close>,
      \<open>Pkgmaker_Properties\<close>: the properties, each with a witness at a concrete input; the configurations of the witnesses are \<open>demo\<close>
      (\<open>Symbol_Properties\<close>) and \<open>demo_conf\<close> (\<open>Conf_Demo\<close>).

  \<^bold>\<open>Partiality and fuel.\<close> A function of result type \<open>option\<close> answers \<open>None\<close> where the code would
  dereference a null pointer, fail an assertion or recurse without end. \<open>sym_calc_value\<close> takes
  fuel; \<open>sym_calc\<close> runs it with \<open>calc_fuel\<close>, linear in the number of symbols, and
  \<open>sym_calc_returns\<close> shows that this is enough on every well-formed configuration
  (\<open>calc_ready\<close>). The loop of \<open>expr_eliminate_dups\<close> has fuel linear in the size of the
  expression, and \<open>expr_eliminate_dups_correct\<close> shows that it always ends. Walks along the menu
  links have the number of entries as fuel. The questions of \<open>conf.c\<close> run on fuel because the
  code may ask for ever (\<open>conf_string_eof_loops\<close>); the modes that ask nothing end within the number
  of entries (\<open>quiet_search_returns\<close>), a question ends with its first answer
  (\<open>conf_sym_answered\<close>). The fuel of the parser bounds the depth and the number of the parts of its
  input; \<open>Crashed\<close> is its end or a null access. \<open>Stuck\<close> is the end of the fuel or a null access.

  \<^bold>\<open>Not modelled.\<close> Memory management (expressions are values, allocation succeeds), the recovery
  of the parser after a syntax error (the program ends with status 1 then, which the model answers at
  once), the tables of flex and bison, the graphical front ends (\<open>mconf.c\<close>, \<open>nconf.c\<close>, \<open>gconf.c\<close>).
\<close>

end
